(* ===== verification/Prelude.thy ===== *)
theory Prelude
  imports Main "HOL-Library.AList"
begin

text \<open>
  What every component shares: the exceptions the two services raise, fallible results,
  JSON values, Python dictionaries as association lists, and the fact collections the
  component proofs draw on.  An exception is a value of type \<open>exn\<close>; a call that may raise
  returns \<open>exn + 'a\<close>, with \<open>Inl\<close> for the raise.
\<close>

section \<open>Fact collections\<close>

named_theorems dict_simps \<open>lookups after dictionary updates\<close>
named_theorems py_simps \<open>evaluation of the Python string helpers\<close>
named_theorems guard_simps \<open>unfolding of the request guards\<close>

section \<open>JSON values\<close>

text \<open>
  What \<open>json.loads\<close> yields and \<open>JSONResponse\<close> renders.  Numbers are integers: the
  values the two services compute with (epochs, lifetimes, counts) are all integral.
\<close>

datatype json =
    JNull
  | JBool bool
  | JInt int
  | JStr string
  | JList "json list"
  | JObj "(string \<times> json) list"

text \<open>Python's truth value of such an object: what \<open>if x:\<close> tests.\<close>

fun truthy :: "json \<Rightarrow> bool" where
  "truthy JNull = False"
| "truthy (JBool b) = b"
| "truthy (JInt n) = (n \<noteq> 0)"
| "truthy (JStr s) = (s \<noteq> [])"
| "truthy (JList xs) = (xs \<noteq> [])"
| "truthy (JObj kvs) = (kvs \<noteq> [])"

section \<open>Exceptions and fallible results\<close>

text \<open>
  \<open>HTTPException\<close> carries the status and the detail the handler writes.  A detail
  written as an f-string ending in \<open>str(e)\<close> keeps the prefix and the exception itself
  (\<open>DCause\<close>), so no rendering of third-party exceptions is made up.
\<close>

datatype detail =
    DText string
  | DJson json
  | DCause string exn
and exn =
    HTTPException int detail
  | ValueError string
  | RuntimeError string
  | TypeError
  | KeyError string
  | AttributeError
  | OverflowError
  | HTTPXError
  | PyJWTError
  | UniqueViolation string
  | DatabaseError string
  | ClientError string "int option"
  | BotoCoreError
  | PolicyTooLargeError nat
  | FernetInvalidToken
  | OSError

text \<open>The status an \<open>HTTPException\<close> carries, and the two handler shapes the routes use.\<close>

fun exn_status :: "exn \<Rightarrow> int option" where
  "exn_status (HTTPException s d) = Some s"
| "exn_status _ = None"

definition is_http_exception :: "exn \<Rightarrow> bool" where
  "is_http_exception e \<longleftrightarrow> exn_status e \<noteq> None"

lemma is_http_exception_simps [simp]:
  "is_http_exception (HTTPException s d)"
  "\<not> is_http_exception (ValueError m)"
  "\<not> is_http_exception (RuntimeError m)"
  "\<not> is_http_exception TypeError"
  "\<not> is_http_exception (DatabaseError m)"
  by (simp_all add: is_http_exception_def)

text \<open>Sequencing: the rest runs only where the first part returned.\<close>

definition andthen :: "'e + 'a \<Rightarrow> ('a \<Rightarrow> 'e + 'b) \<Rightarrow> 'e + 'b" where
  "andthen m f = (case m of Inl e \<Rightarrow> Inl e | Inr x \<Rightarrow> f x)"

lemma andthen_simps [simp]:
  "andthen (Inl e) f = Inl e"
  "andthen (Inr x) f = f x"
  by (simp_all add: andthen_def)

lemma andthen_Inr_iff:
  "andthen m f = Inr y \<longleftrightarrow> (\<exists>x. m = Inr x \<and> f x = Inr y)"
  by (cases m) auto

lemma andthen_Inl_iff:
  "andthen m f = Inl e \<longleftrightarrow> m = Inl e \<or> (\<exists>x. m = Inr x \<and> f x = Inl e)"
  by (cases m) auto

lemma andthen_assoc: "andthen (andthen m f) g = andthen m (\<lambda>x. andthen (f x) g)"
  by (cases m) auto

text \<open>A comprehension \<open>[f(x) for x in xs]\<close> whose body may raise.\<close>

fun map_result :: "('a \<Rightarrow> 'e + 'b) \<Rightarrow> 'a list \<Rightarrow> 'e + 'b list" where
  "map_result f [] = Inr []"
| "map_result f (x # xs) =
     andthen (f x) (\<lambda>y. andthen (map_result f xs) (\<lambda>ys. Inr (y # ys)))"

lemma map_result_Inr_iff:
  "map_result f xs = Inr ys \<longleftrightarrow> list_all2 (\<lambda>x y. f x = Inr y) xs ys"
  by (induction xs arbitrary: ys) (auto simp: andthen_Inr_iff list_all2_Cons1)

lemma map_result_total:
  "(\<And>x. x \<in> set xs \<Longrightarrow> f x = Inr (g x)) \<Longrightarrow> map_result f xs = Inr (map g xs)"
  by (induction xs) auto

lemma map_result_Inl:
  "map_result f xs = Inl e \<Longrightarrow> \<exists>x \<in> set xs. f x = Inl e"
  by (induction xs) (auto simp: andthen_Inl_iff)

section \<open>Dictionaries\<close>

text \<open>
  A Python dictionary keeps insertion order: an association list with distinct keys.
  Storing at a present key keeps its place, storing at a new one appends, which is what
  \<open>AList.update\<close> does.
\<close>

type_synonym ('k, 'v) dict = "('k \<times> 'v) list"

definition dict_ok :: "('k, 'v) dict \<Rightarrow> bool" where
  "dict_ok d \<longleftrightarrow> distinct (map fst d)"

abbreviation dict_get :: "('k, 'v) dict \<Rightarrow> 'k \<Rightarrow> 'v option" where
  "dict_get \<equiv> map_of"

abbreviation dict_set :: "('k, 'v) dict \<Rightarrow> 'k \<Rightarrow> 'v \<Rightarrow> ('k, 'v) dict" where
  "dict_set d k v \<equiv> AList.update k v d"

abbreviation dict_pop :: "('k, 'v) dict \<Rightarrow> 'k \<Rightarrow> ('k, 'v) dict" where
  "dict_pop d k \<equiv> AList.delete k d"

definition dict_get_default :: "('k, 'v) dict \<Rightarrow> 'k \<Rightarrow> 'v \<Rightarrow> 'v" where
  "dict_get_default d k v = (case dict_get d k of None \<Rightarrow> v | Some x \<Rightarrow> x)"

lemma dict_get_set [dict_simps, simp]:
  "dict_get (dict_set d k v) k' = (if k' = k then Some v else dict_get d k')"
  by (simp add: update_conv')

lemma dict_get_pop [dict_simps, simp]:
  "dict_get (dict_pop d k) k' = (if k' = k then None else dict_get d k')"
  by (simp add: delete_conv')

lemma dict_ok_Nil [simp]: "dict_ok []"
  by (simp add: dict_ok_def)

lemma dict_ok_set [intro]: "dict_ok d \<Longrightarrow> dict_ok (dict_set d k v)"
  by (simp add: dict_ok_def distinct_update)

lemma dict_ok_pop [intro]: "dict_ok d \<Longrightarrow> dict_ok (dict_pop d k)"
  by (simp add: dict_ok_def distinct_delete)

lemma dict_ok_filter [intro]: "dict_ok d \<Longrightarrow> dict_ok (filter P d)"
  by (simp add: dict_ok_def distinct_map_filter)

lemma map_of_filter_key:
  "map_of (filter (\<lambda>kv. P (fst kv)) d) k = (if P k then map_of d k else None)"
  by (induction d) auto

text \<open>The value at a key replaced in place, where the key is present.\<close>

fun map_key :: "'k \<Rightarrow> ('v \<Rightarrow> 'v) \<Rightarrow> ('k, 'v) dict \<Rightarrow> ('k, 'v) dict" where
  "map_key k f [] = []"
| "map_key k f ((k', v) # d) = (if k' = k then (k', f v) # d else (k', v) # map_key k f d)"

lemma map_key_get [dict_simps]: "dict_get (map_key k f d) k' = (if k' = k then map_option f (dict_get d k) else dict_get d k')"
  by (induction d) auto

section \<open>The dictionary interface\<close>

text \<open>
  What a client of a keyed store relies on, whatever the store is: the services keep rate
  counters, cached snapshots and sessions behind the same three operations.
\<close>

locale keyed_store =
  fixes lookup :: "'s \<Rightarrow> 'k \<Rightarrow> 'v option"
    and insert_at :: "'s \<Rightarrow> 'k \<Rightarrow> 'v \<Rightarrow> 's"
    and remove :: "'s \<Rightarrow> 'k \<Rightarrow> 's"
    and ok :: "'s \<Rightarrow> bool"
  assumes lookup_insert: "ok s \<Longrightarrow> lookup (insert_at s k v) k' = (if k' = k then Some v else lookup s k')"
    and lookup_remove: "ok s \<Longrightarrow> lookup (remove s k) k' = (if k' = k then None else lookup s k')"
    and ok_insert: "ok s \<Longrightarrow> ok (insert_at s k v)"
    and ok_remove: "ok s \<Longrightarrow> ok (remove s k)"
begin

lemma lookup_fold_remove:
  "ok s \<Longrightarrow> lookup (fold (\<lambda>k s. remove s k) ks s) k' = (if k' \<in> set ks then None else lookup s k')"
  by (induction ks arbitrary: s) (auto simp: lookup_remove ok_remove)

lemma ok_fold_remove: "ok s \<Longrightarrow> ok (fold (\<lambda>k s. remove s k) ks s)"
  by (induction ks arbitrary: s) (auto simp: ok_remove)

lemma insert_then_remove:
  "ok s \<Longrightarrow> lookup (remove (insert_at s k v) k) k' = (if k' = k then None else lookup s k')"
  by (simp add: lookup_remove ok_insert lookup_insert)

lemma insert_twice:
  "ok s \<Longrightarrow> lookup (insert_at (insert_at s k v) k w) k' = lookup (insert_at s k w) k'"
  by (simp add: lookup_insert ok_insert)

end

interpretation dict: keyed_store dict_get dict_set dict_pop dict_ok
  by unfold_locales (auto simp: dict_simps)

section \<open>The interface of a time-limited cache\<close>

text \<open>
  Both services memoise remote answers for a fixed time: signing keys, their address,
  collection schemas.  \<open>fresh s t\<close> is the answer still good at \<open>t\<close>, \<open>fill s t x\<close> stores
  one fetched at \<open>t\<close>, \<open>usable\<close> answers are the ones a cache test accepts, and \<open>get r t s\<close>
  is the memoised read, with \<open>r\<close> what a fetch would answer now.
\<close>

locale memo_cache =
  fixes fresh :: "'s \<Rightarrow> 't :: {minus, ord} \<Rightarrow> 'v option"
    and fill :: "'s \<Rightarrow> 't \<Rightarrow> 'v \<Rightarrow> 's"
    and usable :: "'v \<Rightarrow> bool"
    and ttl :: 't
    and get :: "('e + 'v) \<Rightarrow> 't \<Rightarrow> 's \<Rightarrow> ('e + 'v) \<times> 's"
  assumes fresh_fill:
      "fresh (fill s t x) t' = (if usable x \<and> t' - t < ttl then Some x else None)"
    and get_hit: "fresh s t = Some x \<Longrightarrow> get r t s = (Inr x, s)"
    and get_miss: "fresh s t = None \<Longrightarrow> get (Inr x) t s = (Inr x, fill s t x)"
    and get_fail: "fresh s t = None \<Longrightarrow> get (Inl e) t s = (Inl e, s)"
begin

text \<open>Reads at the listed times, each with what a fetch would have answered then.\<close>

fun reads :: "(('e + 'v) \<times> 't) list \<Rightarrow> 's \<Rightarrow> ('e + 'v) list \<times> 's" where
  "reads [] s = ([], s)"
| "reads ((r, t) # rts) s =
     (case get r t s of (x, s') \<Rightarrow> case reads rts s' of (xs, s'') \<Rightarrow> (x # xs, s''))"

lemma reads_fresh:
  "(\<And>r t. (r, t) \<in> set rts \<Longrightarrow> fresh s t = Some x) \<Longrightarrow>
   reads rts s = (replicate (length rts) (Inr x), s)"
proof (induction rts)
  case Nil
  then show ?case by simp
next
  case (Cons rt rts)
  obtain r t where rt: "rt = (r, t)" by (cases rt)
  from Cons.prems [of r t] have "get r t s = (Inr x, s)" by (simp add: rt get_hit)
  moreover have "reads rts s = (replicate (length rts) (Inr x), s)"
    using Cons.prems by (intro Cons.IH) auto
  ultimately show ?case by (simp add: rt)
qed

text \<open>One fetch serves every read within the time limit, whatever the remote would say.\<close>

lemma single_fetch:
  assumes "fresh s t = None" "usable x"
    and "\<And>r t'. (r, t') \<in> set rts \<Longrightarrow> t' - t < ttl"
  shows "reads ((Inr x, t) # rts) s = (replicate (Suc (length rts)) (Inr x), fill s t x)"
proof -
  have "reads rts (fill s t x) = (replicate (length rts) (Inr x), fill s t x)"
    using assms by (intro reads_fresh) (auto simp: fresh_fill)
  with assms(1) show ?thesis by (simp add: get_miss)
qed

text \<open>Past the limit the old answer is never served.\<close>

lemma expired_refetches:
  "\<not> t' - t < ttl \<Longrightarrow> get (Inr y) t' (fill s t x) = (Inr y, fill (fill s t x) t' y)"
  "\<not> t' - t < ttl \<Longrightarrow> get (Inl e) t' (fill s t x) = (Inl e, fill s t x)"
  by (simp_all add: fresh_fill get_miss get_fail)

end

end
