(* ===== verification/Py_Strings.thy ===== *)
theory Py_Strings
  imports Prelude "HOL-Library.Sublist" "HOL-Library.Char_ord" "HOL-Library.List_Lexorder"
begin

text \<open>
  The string operations of Python the two services use, over \<open>string\<close> (a list of bytes,
  so a non-ASCII code point is its UTF-8 bytes), and the facts the components need of
  them: prefixes and suffixes, splitting and joining, stripping, case folding, decimal
  printing and reading.
\<close>

section \<open>Prefixes, suffixes, containment\<close>

abbreviation starts_with :: "string \<Rightarrow> string \<Rightarrow> bool" where
  "starts_with s p \<equiv> prefix p s"

abbreviation ends_with :: "string \<Rightarrow> string \<Rightarrow> bool" where
  "ends_with s p \<equiv> suffix p s"

abbreviation contains :: "string \<Rightarrow> string \<Rightarrow> bool" where
  "contains s sub \<equiv> sublist sub s"

text \<open>\<open>s[len(p):]\<close> and \<open>s[:-len(p)]\<close>.\<close>

definition drop_prefix :: "string \<Rightarrow> string \<Rightarrow> string" where
  "drop_prefix p s = drop (length p) s"

definition drop_suffix :: "string \<Rightarrow> string \<Rightarrow> string" where
  "drop_suffix p s = take (length s - length p) s"

lemma drop_prefix_append [simp]: "drop_prefix p (p @ s) = s"
  by (simp add: drop_prefix_def)

lemma drop_suffix_append [simp]: "drop_suffix p (s @ p) = s"
  by (simp add: drop_suffix_def)

lemma starts_with_decomp: "starts_with s p \<longleftrightarrow> s = p @ drop_prefix p s"
  by (auto simp: drop_prefix_def prefix_def)

lemma ends_with_decomp: "ends_with s p \<longleftrightarrow> s = drop_suffix p s @ p"
  by (auto simp: drop_suffix_def suffix_def)

section \<open>Splitting and joining\<close>

fun split_on :: "char \<Rightarrow> string \<Rightarrow> string list" where
  "split_on c [] = [[]]"
| "split_on c (x # xs) =
     (if x = c then [] # split_on c xs
      else (case split_on c xs of [] \<Rightarrow> [[x]] | w # ws \<Rightarrow> (x # w) # ws))"

fun join :: "string \<Rightarrow> string list \<Rightarrow> string" where
  "join sep [] = []"
| "join sep [x] = x"
| "join sep (x # y # ys) = x @ sep @ join sep (y # ys)"

lemma split_on_nonempty [simp]: "split_on c s \<noteq> []"
  by (induction s) (auto split: list.splits)

lemma split_on_no_sep: "w \<in> set (split_on c s) \<Longrightarrow> c \<notin> set w"
  by (induction s arbitrary: w) (auto split: if_splits list.splits)

lemma split_on_absent [simp]: "c \<notin> set s \<Longrightarrow> split_on c s = [s]"
  by (induction s) auto

lemma split_on_append_sep:
  "c \<notin> set a \<Longrightarrow> split_on c (a @ c # s) = a # split_on c s"
  by (induction a) auto

lemma join_split_on: "join [c] (split_on c s) = s"
proof (induction s)
  case Nil
  then show ?case by simp
next
  case (Cons x s)
  obtain w ws where w: "split_on c s = w # ws"
    by (cases "split_on c s") auto
  with Cons.IH show ?case by (cases ws) auto
qed

lemma split_on_join:
  "xs \<noteq> [] \<Longrightarrow> (\<And>w. w \<in> set xs \<Longrightarrow> c \<notin> set w) \<Longrightarrow> split_on c (join [c] xs) = xs"
  by (induction "[c]" xs rule: join.induct) (auto simp: split_on_append_sep)

text \<open>\<open>s.partition(c)\<close> without the separator: what is before the first \<open>c\<close>, and after it.\<close>

definition before_first :: "char \<Rightarrow> string \<Rightarrow> string" where
  "before_first c s = takeWhile (\<lambda>x. x \<noteq> c) s"

definition after_first :: "char \<Rightarrow> string \<Rightarrow> string" where
  "after_first c s = drop 1 (dropWhile (\<lambda>x. x \<noteq> c) s)"

lemma before_first_append [simp]: "c \<notin> set a \<Longrightarrow> before_first c (a @ c # s) = a"
  by (simp add: before_first_def takeWhile_append)

lemma after_first_append [simp]: "c \<notin> set a \<Longrightarrow> after_first c (a @ c # s) = s"
  by (simp add: after_first_def dropWhile_append)

lemma before_first_absent [simp]: "c \<notin> set s \<Longrightarrow> before_first c s = s"
  unfolding before_first_def by (auto simp: takeWhile_eq_all_conv)

lemma after_first_absent [simp]: "c \<notin> set s \<Longrightarrow> after_first c s = []"
proof -
  assume "c \<notin> set s"
  then have "dropWhile (\<lambda>x. x \<noteq> c) s = []" by (induction s) auto
  then show ?thesis unfolding after_first_def by (metis drop_Nil)
qed

lemma before_first_no_sep [simp]: "c \<notin> set (before_first c s)"
  by (auto simp: before_first_def dest: set_takeWhileD)

lemma partition_decomp:
  "c \<in> set s \<Longrightarrow> s = before_first c s @ c # after_first c s"
  by (metis after_first_append before_first_append split_list_first)

section \<open>Stripping and case folding\<close>

definition is_space :: "char \<Rightarrow> bool" where
  "is_space c \<longleftrightarrow> of_char c \<in> {9, 10, 11, 12, 13, 28, 29, 30, 31, 32 :: nat}"

definition lstrip_with :: "(char \<Rightarrow> bool) \<Rightarrow> string \<Rightarrow> string" where
  "lstrip_with p s = dropWhile p s"

definition rstrip_with :: "(char \<Rightarrow> bool) \<Rightarrow> string \<Rightarrow> string" where
  "rstrip_with p s = rev (dropWhile p (rev s))"

definition strip :: "string \<Rightarrow> string" where
  "strip s = rstrip_with is_space (lstrip_with is_space s)"

abbreviation rstrip_char :: "char \<Rightarrow> string \<Rightarrow> string" where
  "rstrip_char c \<equiv> rstrip_with (\<lambda>x. x = c)"

abbreviation strip_char :: "char \<Rightarrow> string \<Rightarrow> string" where
  "strip_char c s \<equiv> rstrip_with (\<lambda>x. x = c) (lstrip_with (\<lambda>x. x = c) s)"

lemma rstrip_with_last: "rstrip_with p s \<noteq> [] \<Longrightarrow> \<not> p (last (rstrip_with p s))"
proof -
  assume "rstrip_with p s \<noteq> []"
  then have ne: "dropWhile p (rev s) \<noteq> []" by (simp add: rstrip_with_def)
  then have "\<not> p (hd (dropWhile p (rev s)))" by (rule hd_dropWhile)
  with ne show ?thesis by (simp add: rstrip_with_def last_rev)
qed

lemma rstrip_with_id: "s = [] \<or> \<not> p (last s) \<Longrightarrow> rstrip_with p s = s"
  by (cases s rule: rev_cases) (auto simp: rstrip_with_def)

lemma rstrip_with_prefix: "prefix (rstrip_with p s) s"
proof -
  have "s = rev (dropWhile p (rev s)) @ rev (takeWhile p (rev s))"
    by (metis rev_append rev_rev_ident takeWhile_dropWhile_id)
  then show ?thesis unfolding rstrip_with_def prefix_def by blast
qed

lemma set_strip: "set (strip s) \<subseteq> set s"
  unfolding strip_def rstrip_with_def lstrip_with_def
  by (auto dest!: set_dropWhileD)

text \<open>\<open>lower\<close> and \<open>upper\<close> on the ASCII letters; other bytes are unchanged.\<close>

definition lower_char :: "char \<Rightarrow> char" where
  "lower_char c = (let n = of_char c :: nat in if 65 \<le> n \<and> n \<le> 90 then char_of (n + 32) else c)"

definition upper_char :: "char \<Rightarrow> char" where
  "upper_char c = (let n = of_char c :: nat in if 97 \<le> n \<and> n \<le> 122 then char_of (n - 32) else c)"

definition lower :: "string \<Rightarrow> string" where
  "lower s = map lower_char s"

definition upper :: "string \<Rightarrow> string" where
  "upper s = map upper_char s"

lemma length_lower [simp]: "length (lower s) = length s"
  by (simp add: lower_def)

lemma upper_append [simp]: "upper (a @ b) = upper a @ upper b"
  by (simp add: upper_def)

lemma sublist_upper: "sublist a b \<Longrightarrow> sublist (upper a) (upper b)"
  unfolding sublist_def upper_def by (metis map_append)

text \<open>\<open>s.replace(c, t)\<close> for a one-character \<open>c\<close>.\<close>

definition replace_char :: "char \<Rightarrow> string \<Rightarrow> string \<Rightarrow> string" where
  "replace_char c t s = concat (map (\<lambda>x. if x = c then t else [x]) s)"

section \<open>Decimal numbers\<close>

definition digit_char :: "nat \<Rightarrow> char" where
  "digit_char d = char_of (48 + d)"

fun show_nat :: "nat \<Rightarrow> string" where
  "show_nat n = (if n < 10 then [digit_char n] else show_nat (n div 10) @ [digit_char (n mod 10)])"

declare show_nat.simps [simp del]

definition show_int :: "int \<Rightarrow> string" where
  "show_int n = (if n < 0 then CHR ''-'' # show_nat (nat (- n)) else show_nat (nat n))"

definition is_digit :: "char \<Rightarrow> bool" where
  "is_digit c \<longleftrightarrow> 48 \<le> (of_char c :: nat) \<and> (of_char c :: nat) \<le> 57"

definition digit_value :: "char \<Rightarrow> nat" where
  "digit_value c = of_char c - 48"

definition nat_of_digits :: "string \<Rightarrow> nat" where
  "nat_of_digits s = foldl (\<lambda>n c. 10 * n + digit_value c) 0 s"

lemma of_char_digit_char: "d < 10 \<Longrightarrow> of_char (digit_char d) = 48 + d"
  by (simp add: digit_char_def)

lemma is_digit_digit_char [simp]: "d < 10 \<Longrightarrow> is_digit (digit_char d)"
  by (simp add: is_digit_def of_char_digit_char)

lemma digit_value_digit_char [simp]: "d < 10 \<Longrightarrow> digit_value (digit_char d) = d"
  by (simp add: digit_value_def of_char_digit_char)

lemma show_nat_digits: "c \<in> set (show_nat n) \<Longrightarrow> is_digit c"
proof (induction n rule: show_nat.induct)
  case (1 n)
  then show ?case by (subst (asm) (2) show_nat.simps) (auto split: if_splits)
qed

lemma show_nat_nonempty [simp]: "show_nat n \<noteq> []"
  by (subst show_nat.simps) simp

lemma nat_of_digits_show_nat [simp]: "nat_of_digits (show_nat n) = n"
proof (induction n rule: show_nat.induct)
  case (1 n)
  show ?case
  proof (cases "n < 10")
    case True
    then show ?thesis by (subst show_nat.simps) (simp add: nat_of_digits_def)
  next
    case False
    with 1 have "nat_of_digits (show_nat (n div 10)) = n div 10" by simp
    with False show ?thesis
      by (subst show_nat.simps) (simp add: nat_of_digits_def)
  qed
qed

lemma show_nat_inject [simp]: "show_nat m = show_nat n \<longleftrightarrow> m = n"
  by (metis nat_of_digits_show_nat)

lemma not_digit_in_show_nat: "\<not> is_digit c \<Longrightarrow> c \<notin> set (show_nat n)"
  using show_nat_digits by blast

text \<open>\<open>int(s)\<close> on ASCII: blanks around, an optional sign, digits with single underscores between.\<close>

fun digit_groups :: "string \<Rightarrow> bool" where
  "digit_groups [] = False"
| "digit_groups [c] = is_digit c"
| "digit_groups (c # d # cs) =
     (is_digit c \<and> (if d = CHR ''_'' then digit_groups cs else digit_groups (d # cs)))"

definition py_int :: "string \<Rightarrow> exn + int" where
  "py_int s =
     (let t = strip s;
          neg = (t \<noteq> [] \<and> hd t = CHR ''-'');
          body = (if t \<noteq> [] \<and> (hd t = CHR ''-'' \<or> hd t = CHR ''+'') then tl t else t);
          ds = filter is_digit body
      in if digit_groups body \<and> length ds \<le> 4300
         then Inr (if neg then - int (nat_of_digits ds) else int (nat_of_digits ds))
         else Inl (ValueError ''invalid literal for int()''))"

text \<open>The order of \<open>sorted(set(xs))\<close>: code points, duplicates dropped.\<close>

definition sorted_set :: "string list \<Rightarrow> string list" where
  "sorted_set xs = sort (remdups xs)"

lemma set_sorted_set [simp]: "set (sorted_set xs) = set xs"
  by (simp add: sorted_set_def)

lemma sorted_set_empty [simp]: "sorted_set xs = [] \<longleftrightarrow> xs = []"
  by (metis set_empty set_sorted_set)

section \<open>\<open>str(x)\<close> and \<open>x.split()\<close>\<close>

definition repr_char :: "char \<Rightarrow> char \<Rightarrow> string" where
  "repr_char q c =
     (let n = of_char c :: nat; bs = char_of (92 :: nat);
          hex = (\<lambda>d. if d < 10 then char_of (48 + d) else char_of (87 + d))
      in if c = bs \<or> c = q then [bs, c]
         else if n = 10 then [bs, CHR ''n'']
         else if n = 13 then [bs, CHR ''r'']
         else if n = 9 then [bs, CHR ''t'']
         else if n < 32 \<or> n = 127 then [bs, CHR ''x'', hex (n div 16), hex (n mod 16)]
         else [c])"

definition repr_string :: "string \<Rightarrow> string" where
  "repr_string s =
     (let sq = char_of (39 :: nat); dq = char_of (34 :: nat);
          q = (if sq \<in> set s \<and> dq \<notin> set s then dq else sq)
      in q # concat (map (repr_char q) s) @ [q])"

fun py_repr :: "json \<Rightarrow> string" where
  "py_repr JNull = ''None''"
| "py_repr (JBool b) = (if b then ''True'' else ''False'')"
| "py_repr (JInt n) = show_int n"
| "py_repr (JStr s) = repr_string s"
| "py_repr (JList xs) = ''['' @ join '', '' (map py_repr xs) @ '']''"
| "py_repr (JObj kvs) =
     ''{'' @ join '', '' (map (\<lambda>kv. repr_string (fst kv) @ '': '' @ py_repr (snd kv)) kvs) @ ''}''"

text \<open>\<open>str(x)\<close>: a string is itself, anything else its \<open>repr\<close>.\<close>

fun py_str :: "json \<Rightarrow> string" where
  "py_str (JStr s) = s"
| "py_str v = py_repr v"

text \<open>\<open>s.split()\<close>: the maximal runs without blanks.\<close>

fun split_blank :: "string \<Rightarrow> string list" where
  "split_blank [] = []"
| "split_blank (c # s) =
     (if is_space c then split_blank s
      else (case s of
              [] \<Rightarrow> [[c]]
            | d # _ \<Rightarrow> if is_space d then [c] # split_blank s
                      else (case split_blank s of [] \<Rightarrow> [[c]] | w # ws \<Rightarrow> (c # w) # ws)))"

lemma split_blank_no_space: "w \<in> set (split_blank s) \<Longrightarrow> x \<in> set w \<Longrightarrow> \<not> is_space x"
proof (induction s arbitrary: w)
  case Nil
  then show ?case by simp
next
  case (Cons c s)
  show ?case
  proof (cases "is_space c")
    case True
    with Cons show ?thesis by simp
  next
    case c: False
    show ?thesis
    proof (cases s)
      case Nil
      with Cons.prems c show ?thesis by simp
    next
      case (Cons d s')
      with Cons.prems c Cons.IH show ?thesis
        by (cases "is_space d"; cases "split_blank s") fastforce+
    qed
  qed
qed

text \<open>\<open>int(x)\<close> of a JSON value.\<close>

fun int_of_json :: "json \<Rightarrow> exn + int" where
  "int_of_json (JInt n) = Inr n"
| "int_of_json (JBool b) = Inr (if b then 1 else 0)"
| "int_of_json (JStr s) = py_int s"
| "int_of_json _ = Inl TypeError"

text \<open>\<open>d.get(key)\<close> of a JSON value: only a dictionary has the method.\<close>

fun json_get :: "json \<Rightarrow> string \<Rightarrow> exn + json" where
  "json_get (JObj kvs) key = Inr (case dict_get kvs key of Some v \<Rightarrow> v | None \<Rightarrow> JNull)"
| "json_get _ key = Inl AttributeError"

fun json_get_or :: "json \<Rightarrow> string \<Rightarrow> json \<Rightarrow> exn + json" where
  "json_get_or (JObj kvs) key dflt = Inr (case dict_get kvs key of Some v \<Rightarrow> v | None \<Rightarrow> dflt)"
| "json_get_or _ key dflt = Inl AttributeError"

end
