(* ===== verification/X_Authz.thy ===== *)
theory X_Authz
  imports Py_Strings
begin

text \<open>
  Read access in the xpublish service (\<open>xpublish-api/src/authz.py\<close>) and the identity it is
  decided for (\<open>xpublish-api/src/auth.py\<close>): the rules map and its parser, the decision for
  one item, the lists of readable and unreadable items, and what a request path reads.
  The identity record is the one both services start from; the API service extends it.
\<close>

section \<open>Identities\<close>

record AuthIdentity =
  subject :: string
  auth_type :: string
  roles :: "string list"
  scopes :: "string list"
  preferred_username :: "string option"

definition x_is_authenticated :: "'a AuthIdentity_scheme \<Rightarrow> bool" where
  "x_is_authenticated u \<longleftrightarrow> auth_type u = ''jwt''"

section \<open>The rules map\<close>

datatype kind = Repos | Layers

instantiation kind :: enum
begin

definition enum_kind :: "kind list" where
  "enum_kind = [Repos, Layers]"

definition enum_all_kind :: "(kind \<Rightarrow> bool) \<Rightarrow> bool" where
  "enum_all_kind P \<longleftrightarrow> P Repos \<and> P Layers"

definition enum_ex_kind :: "(kind \<Rightarrow> bool) \<Rightarrow> bool" where
  "enum_ex_kind P \<longleftrightarrow> P Repos \<or> P Layers"

instance
proof
  have U: "(UNIV :: kind set) = {Repos, Layers}"
    using kind.exhaust by blast
  show "(UNIV :: kind set) = set enum_class.enum"
    by (simp add: U enum_kind_def)
  show "distinct (enum_class.enum :: kind list)"
    by (simp add: enum_kind_def)
  show "enum_class.enum_all P \<longleftrightarrow> Ball UNIV P" for P :: "kind \<Rightarrow> bool"
    by (simp add: U enum_all_kind_def)
  show "enum_class.enum_ex P \<longleftrightarrow> Bex UNIV P" for P :: "kind \<Rightarrow> bool"
    by (simp add: U enum_ex_kind_def)
qed

end

definition KINDS :: "kind list" where
  "KINDS = [Repos, Layers]"

fun kind_name :: "kind \<Rightarrow> string" where
  "kind_name Repos = ''repos''"
| "kind_name Layers = ''layers''"

text \<open>\<open>rules_default = None\<close>: no default, unlisted items are open to every logged-in user.\<close>

record AccessRules =
  rules_default :: "string list option"
  rules_items :: "kind \<Rightarrow> (string, string list) dict"

section \<open>Parsing the rules\<close>

text \<open>\<open>_roles\<close>: a JSON list whose members are all strings; anything else is a \<open>ValueError\<close>.\<close>

fun as_string :: "json \<Rightarrow> string option" where
  "as_string (JStr s) = Some s"
| "as_string _ = None"

fun roles_of_json :: "json \<Rightarrow> string \<Rightarrow> exn + string list" where
  "roles_of_json (JList vs) wh =
     (if list_all (\<lambda>v. as_string v \<noteq> None) vs then Inr (map (the \<circ> as_string) vs)
      else Inl (ValueError (''TEEHR_ACCESS_RULES: '' @ wh @ '' must be a list of role names'')))"
| "roles_of_json _ wh =
     Inl (ValueError (''TEEHR_ACCESS_RULES: '' @ wh @ '' must be a list of role names''))"

definition parse_entry :: "kind \<Rightarrow> string \<times> json \<Rightarrow> exn + (string \<times> string list)" where
  "parse_entry k e =
     andthen (roles_of_json (snd e) (kind_name k @ ''.'' @ fst e)) (\<lambda>rs. Inr (fst e, rs))"

definition parse_kind :: "(string, json) dict \<Rightarrow> kind \<Rightarrow> exn + (string, string list) dict" where
  "parse_kind data k =
     (case dict_get_default data (kind_name k) (JObj []) of
        JObj entries \<Rightarrow> map_result (parse_entry k) entries
      | _ \<Rightarrow> Inl (ValueError (''TEEHR_ACCESS_RULES: '' @ kind_name k
                             @ '' must be an object of name -> roles'')))"

definition unknown_keys :: "(string, json) dict \<Rightarrow> string list" where
  "unknown_keys data =
     sorted_set (filter (\<lambda>key. key \<notin> set (''default'' # map kind_name KINDS)) (map fst data))"

definition parse_default :: "(string, json) dict \<Rightarrow> exn + string list option" where
  "parse_default data =
     (case dict_get data ''default'' of
        None \<Rightarrow> Inr None
      | Some v \<Rightarrow> andthen (roles_of_json v ''default'') (\<lambda>r. Inr (Some r)))"

text \<open>
  \<open>parse_access_rules\<close> after \<open>json.loads\<close>: \<open>parsed = None\<close> is the \<open>JSONDecodeError\<close>.
  The order of the checks is the code's: JSON, object, unknown keys, the two kinds, the default.
\<close>

definition parse_access_rules :: "json option \<Rightarrow> exn + AccessRules" where
  "parse_access_rules parsed =
     (case parsed of
        None \<Rightarrow> Inl (ValueError ''TEEHR_ACCESS_RULES is not valid JSON'')
      | Some (JObj data) \<Rightarrow>
          (if unknown_keys data \<noteq> []
           then Inl (ValueError ''TEEHR_ACCESS_RULES has unknown keys'')
           else
             andthen (parse_kind data Repos) (\<lambda>rs.
             andthen (parse_kind data Layers) (\<lambda>ls.
             andthen (parse_default data) (\<lambda>dflt.
             Inr \<lparr>rules_default = dflt,
                  rules_items = (\<lambda>k. case k of Repos \<Rightarrow> rs | Layers \<Rightarrow> ls)\<rparr>))))
      | Some _ \<Rightarrow> Inl (ValueError ''TEEHR_ACCESS_RULES must be a JSON object''))"

section \<open>Decisions\<close>

definition holds_any :: "'a AuthIdentity_scheme \<Rightarrow> string list \<Rightarrow> bool" where
  "holds_any u rs \<longleftrightarrow> list_ex (\<lambda>r. r \<in> set (roles u)) rs"

definition has_default :: "AccessRules \<Rightarrow> 'a AuthIdentity_scheme \<Rightarrow> bool" where
  "has_default rules u \<longleftrightarrow>
     x_is_authenticated u \<and>
     (case rules_default rules of None \<Rightarrow> True | Some rs \<Rightarrow> holds_any u rs)"

definition is_permitted :: "AccessRules \<Rightarrow> 'a AuthIdentity_scheme \<Rightarrow> kind \<Rightarrow> string \<Rightarrow> bool" where
  "is_permitted rules u k n =
     (if \<not> x_is_authenticated u then False
      else (case dict_get (rules_items rules k) n of
              Some listed \<Rightarrow> holds_any u listed
            | None \<Rightarrow> has_default rules u))"

definition unreadable_listed :: "AccessRules \<Rightarrow> 'a AuthIdentity_scheme \<Rightarrow> kind \<Rightarrow> string list" where
  "unreadable_listed rules u k =
     sort (map fst (filter (\<lambda>e. \<not> holds_any u (snd e)) (rules_items rules k)))"

definition readable_listed :: "AccessRules \<Rightarrow> 'a AuthIdentity_scheme \<Rightarrow> kind \<Rightarrow> string list" where
  "readable_listed rules u k =
     sort (map fst (filter (\<lambda>e. holds_any u (snd e)) (rules_items rules k)))"

definition unmatched :: "AccessRules \<Rightarrow> kind \<Rightarrow> string list \<Rightarrow> string list" where
  "unmatched rules k existing =
     sorted_set (filter (\<lambda>n. n \<notin> set existing) (map fst (rules_items rules k)))"

text \<open>A rules map as the parser builds it: no name is listed twice under a kind.\<close>

definition rules_ok :: "AccessRules \<Rightarrow> bool" where
  "rules_ok rules \<longleftrightarrow> dict_ok (rules_items rules Repos) \<and> dict_ok (rules_items rules Layers)"

section \<open>Request paths\<close>

definition DATASET_ROUTES :: "string list" where
  "DATASET_ROUTES = [''coords/'', ''variable-attrs'', ''metadata'', ''edr/'', ''tiles/'']"

definition DATA_SUFFIX :: string where
  "DATA_SUFFIX = ''_data''"

definition repo_candidates :: "string \<Rightarrow> string list" where
  "repo_candidates d =
     (if ends_with d DATA_SUFFIX \<and> d \<noteq> DATA_SUFFIX then [d, drop_suffix DATA_SUFFIX d] else [d])"

text \<open>\<open>None\<close>, \<open>DENY\<close>, or the kind and the names a request reads.\<close>

datatype target = NoTarget | Deny | Reads kind "string list"

definition request_target :: "string \<Rightarrow> target" where
  "request_target path =
     (if path \<in> {''/api/datasets'', ''/api/datasets/''} then Deny
      else if starts_with path ''/api/datasets/'' then
        (let tail = drop_prefix ''/api/datasets/'' path;
             dataset_id = before_first (CHR ''/'') tail;
             rest = after_first (CHR ''/'') tail
         in if dataset_id = [] \<or>
               \<not> (rest \<in> {''variable-attrs'', ''metadata''} \<or> list_ex (starts_with rest) DATASET_ROUTES)
            then Deny else Reads Repos (repo_candidates dataset_id))
      else if starts_with path ''/api/dataset-variables/'' then
        (let dataset_id = drop_prefix ''/api/dataset-variables/'' path
         in if dataset_id = [] \<or> CHR ''/'' \<in> set dataset_id then Deny
            else Reads Repos (repo_candidates dataset_id))
      else if starts_with path ''/api/vector-tiles/'' then
        (let archive = drop_prefix ''/api/vector-tiles/'' path
         in if \<not> ends_with archive ''.pmtiles'' \<or> CHR ''/'' \<in> set archive \<or> archive = ''.pmtiles''
            then Deny else Reads Layers [drop_suffix ''.pmtiles'' archive])
      else NoTarget)"

definition is_request_permitted :: "AccessRules \<Rightarrow> 'a AuthIdentity_scheme \<Rightarrow> string \<Rightarrow> bool" where
  "is_request_permitted rules u path =
     (case request_target path of
        NoTarget \<Rightarrow> True
      | Deny \<Rightarrow> False
      | Reads k names \<Rightarrow> list_all (is_permitted rules u k) names)"

section \<open>The parser\<close>

lemma roles_of_json_Inr: "roles_of_json v wh = Inr rs \<longleftrightarrow> v = JList (map JStr rs)"
proof (cases v)
  case (JList vs)
  have one: "as_string w \<noteq> None \<longleftrightarrow> w = JStr (the (as_string w))" for w
    by (cases w) auto
  have "list_all (\<lambda>w. as_string w \<noteq> None) vs \<Longrightarrow> vs = map JStr (map (the \<circ> as_string) vs)"
    using one by (induction vs) auto
  moreover have "map (the \<circ> as_string) (map JStr rs) = rs"
    by (simp add: comp_def)
  moreover have "list_all (\<lambda>w. as_string w \<noteq> None) (map JStr rs)"
    by (simp add: list_all_iff)
  ultimately show ?thesis unfolding JList by auto
qed simp_all

lemma map_JStr_eq [simp]: "map JStr xs = map JStr ys \<longleftrightarrow> xs = ys"
  by (simp add: inj_map_eq_map inj_def)

lemma parse_entry_Inr:
  "parse_entry k e = Inr e' \<longleftrightarrow> fst e' = fst e \<and> snd e = JList (map JStr (snd e'))"
  by (cases e') (auto simp: parse_entry_def andthen_Inr_iff roles_of_json_Inr)

lemma parse_entries_keys:
  "map_result (parse_entry k) es = Inr items \<Longrightarrow> map fst items = map fst es"
  by (induction es arbitrary: items) (auto simp: andthen_Inr_iff parse_entry_Inr)

lemma parse_entries_get:
  "map_result (parse_entry k) es = Inr items \<Longrightarrow>
   dict_get items n = Some rs \<longleftrightarrow> dict_get es n = Some (JList (map JStr rs))"
proof (induction es arbitrary: items)
  case Nil
  then show ?case by simp
next
  case (Cons e es)
  from Cons.prems obtain e' its
    where e': "parse_entry k e = Inr e'" and its: "map_result (parse_entry k) es = Inr its"
      and items: "items = e' # its"
    by (auto simp: andthen_Inr_iff)
  from e' have "fst e' = fst e" "snd e = JList (map JStr (snd e'))"
    by (simp_all add: parse_entry_Inr)
  with Cons.IH [OF its] show ?case
    by (cases e; cases e') (auto simp: items)
qed

lemma parse_kind_Inr:
  "parse_kind data k = Inr items \<longleftrightarrow>
   (\<exists>entries. dict_get_default data (kind_name k) (JObj []) = JObj entries \<and>
      map_result (parse_entry k) entries = Inr items)"
  by (auto simp: parse_kind_def split: json.splits)

lemma parse_kind_get:
  assumes "parse_kind data k = Inr items"
  shows "dict_get items n = Some rs \<longleftrightarrow>
    (\<exists>entries. dict_get data (kind_name k) = Some (JObj entries) \<and>
       dict_get entries n = Some (JList (map JStr rs)))"
proof -
  from assms obtain entries
    where d: "dict_get_default data (kind_name k) (JObj []) = JObj entries"
      and m: "map_result (parse_entry k) entries = Inr items"
    by (auto simp: parse_kind_Inr)
  show ?thesis
  proof (cases "dict_get data (kind_name k)")
    case None
    with d m show ?thesis by (simp add: dict_get_default_def)
  next
    case (Some v)
    with d have "v = JObj entries" by (simp add: dict_get_default_def)
    with Some parse_entries_get [OF m] show ?thesis by auto
  qed
qed

text \<open>A \<open>JObj\<close> read from text has distinct keys at every level: \<open>json.loads\<close> keeps the last.\<close>

fun json_ok :: "json \<Rightarrow> bool" where
  "json_ok (JList xs) = list_all json_ok xs"
| "json_ok (JObj kvs) = (dict_ok kvs \<and> list_all (\<lambda>kv. json_ok (snd kv)) kvs)"
| "json_ok _ = True"

lemma parse_access_rules_Inr:
  "parse_access_rules j = Inr rules \<longleftrightarrow>
   (\<exists>data rs ls dflt. j = Some (JObj data) \<and> unknown_keys data = [] \<and>
      parse_kind data Repos = Inr rs \<and> parse_kind data Layers = Inr ls \<and>
      parse_default data = Inr dflt \<and>
      rules = \<lparr>rules_default = dflt,
               rules_items = (\<lambda>k. case k of Repos \<Rightarrow> rs | Layers \<Rightarrow> ls)\<rparr>)"
  unfolding parse_access_rules_def
  by (cases "j") (auto simp: andthen_Inr_iff split: json.splits)

lemma parse_default_Inr:
  "parse_default data = Inr dflt \<longleftrightarrow> map_option (JList \<circ> map JStr) dflt = dict_get data ''default''"
  by (cases dflt) (auto simp: parse_default_def andthen_Inr_iff roles_of_json_Inr split: option.splits)

lemma parse_access_rules_items:
  assumes "parse_access_rules (Some (JObj data)) = Inr rules"
  shows "parse_kind data k = Inr (rules_items rules k)"
  using assms by (cases k) (auto simp: parse_access_rules_Inr)

lemma json_ok_get: "json_ok (JObj data) \<Longrightarrow> dict_get data n = Some v \<Longrightarrow> json_ok v"
  by (auto simp: list_all_iff dest!: map_of_SomeD)

lemma parse_access_rules_ok:
  assumes "json_ok (JObj data)" "parse_access_rules (Some (JObj data)) = Inr rules"
  shows "rules_ok rules"
proof -
  have "dict_ok (rules_items rules k)" for k
  proof -
    obtain entries
      where d: "dict_get_default data (kind_name k) (JObj []) = JObj entries"
        and m: "map_result (parse_entry k) entries = Inr (rules_items rules k)"
      using parse_access_rules_items [OF assms(2), of k] by (auto simp: parse_kind_Inr)
    have "json_ok (JObj entries)"
    proof (cases "dict_get data (kind_name k)")
      case None
      with d have "entries = []" by (simp add: dict_get_default_def)
      then show ?thesis by simp
    next
      case (Some v)
      with d have "dict_get data (kind_name k) = Some (JObj entries)"
        by (simp add: dict_get_default_def)
      with assms(1) show ?thesis by (rule json_ok_get)
    qed
    then have "dict_ok entries" by simp
    with parse_entries_keys [OF m] show ?thesis by (simp add: dict_ok_def)
  qed
  then show ?thesis by (simp add: rules_ok_def)
qed

section \<open>The contract between the decision and the credential policy\<close>

text \<open>
  What the credential policy relies on: for a valid user either everything but the denied
  names is readable (a wide user), or nothing but the granted names.
\<close>

locale access_contract =
  fixes valid :: "'u \<Rightarrow> bool"
    and wide :: "'u \<Rightarrow> bool"
    and permitted :: "'u \<Rightarrow> 'n \<Rightarrow> bool"
    and denied :: "'u \<Rightarrow> 'n list"
    and granted :: "'u \<Rightarrow> 'n list"
  assumes wide_permitted: "valid u \<Longrightarrow> wide u \<Longrightarrow> permitted u n \<longleftrightarrow> n \<notin> set (denied u)"
    and narrow_permitted: "valid u \<Longrightarrow> \<not> wide u \<Longrightarrow> permitted u n \<longleftrightarrow> n \<in> set (granted u)"
begin

lemma decision:
  "valid u \<Longrightarrow>
   permitted u n \<longleftrightarrow> (if wide u then n \<notin> set (denied u) else n \<in> set (granted u))"
  by (simp add: wide_permitted narrow_permitted)

lemma narrow_without_grants: "valid u \<Longrightarrow> \<not> wide u \<Longrightarrow> granted u = [] \<Longrightarrow> \<not> permitted u n"
  by (simp add: narrow_permitted)

end

lemma rules_ok_items: "rules_ok rules \<Longrightarrow> dict_ok (rules_items rules k)"
  by (cases k) (auto simp: rules_ok_def)

lemma set_unreadable_listed:
  "rules_ok rules \<Longrightarrow>
   n \<in> set (unreadable_listed rules u k) \<longleftrightarrow>
   (\<exists>rs. dict_get (rules_items rules k) n = Some rs \<and> \<not> holds_any u rs)"
  using rules_ok_items [of rules k]
  by (force simp: unreadable_listed_def dict_ok_def map_of_eq_Some_iff)

lemma set_readable_listed:
  "rules_ok rules \<Longrightarrow>
   n \<in> set (readable_listed rules u k) \<longleftrightarrow>
   (\<exists>rs. dict_get (rules_items rules k) n = Some rs \<and> holds_any u rs)"
  using rules_ok_items [of rules k]
  by (force simp: readable_listed_def dict_ok_def map_of_eq_Some_iff)

interpretation repo_access: access_contract
  "\<lambda>(rules, u :: 'a AuthIdentity_scheme). rules_ok rules \<and> x_is_authenticated u"
  "\<lambda>(rules, u). has_default rules u"
  "\<lambda>(rules, u). is_permitted rules u Repos"
  "\<lambda>(rules, u). unreadable_listed rules u Repos"
  "\<lambda>(rules, u). readable_listed rules u Repos"
  by unfold_locales
    (auto simp: is_permitted_def set_unreadable_listed set_readable_listed has_default_def
       split: option.splits)

section \<open>Request paths\<close>

lemma repo_candidates_self: "d \<in> set (repo_candidates d)"
  by (simp add: repo_candidates_def)

lemma repo_candidates_data: "n \<noteq> [] \<Longrightarrow> n \<in> set (repo_candidates (n @ DATA_SUFFIX))"
  by (auto simp: repo_candidates_def DATA_SUFFIX_def suffix_def)

lemma holds_any_mono: "set rs \<subseteq> set rs' \<Longrightarrow> holds_any u rs \<Longrightarrow> holds_any u rs'"
  by (auto simp: holds_any_def list_ex_iff)

section \<open>Properties\<close>

text \<open>The roles a rules document lists for an item, and its default, read off the JSON.\<close>

definition listed_roles :: "(string, json) dict \<Rightarrow> kind \<Rightarrow> string \<Rightarrow> string list option" where
  "listed_roles data k n =
     (case dict_get data (kind_name k) of
        Some (JObj es) \<Rightarrow>
          (case dict_get es n of Some (JList vs) \<Rightarrow> Some (map (the \<circ> as_string) vs) | _ \<Rightarrow> None)
      | _ \<Rightarrow> None)"

definition default_roles :: "(string, json) dict \<Rightarrow> string list option" where
  "default_roles data =
     (case dict_get data ''default'' of
        Some (JList vs) \<Rightarrow> Some (map (the \<circ> as_string) vs) | _ \<Rightarrow> None)"

lemma map_the_as_string [simp]: "map (the \<circ> as_string) (map JStr rs) = rs"
  by (simp add: comp_def)

lemma parse_entries_listed:
  "map_result (parse_entry k) es = Inr items \<Longrightarrow>
   dict_get items n = (case dict_get es n of Some (JList vs) \<Rightarrow> Some (map (the \<circ> as_string) vs) | _ \<Rightarrow> None)"
proof (induction es arbitrary: items)
  case Nil
  then show ?case by simp
next
  case (Cons e es)
  then show ?case
    by (cases e) (auto simp: andthen_Inr_iff parse_entry_Inr simp del: map_map)
qed

lemma parsed_listed:
  "parse_access_rules (Some (JObj data)) = Inr rules \<Longrightarrow>
   dict_get (rules_items rules k) n = listed_roles data k n"
  using parse_access_rules_items [of data rules k]
  by (auto simp: parse_kind_Inr listed_roles_def parse_entries_listed dict_get_default_def
      split: option.splits json.splits)

lemma parsed_default:
  "parse_access_rules (Some (JObj data)) = Inr rules \<Longrightarrow> rules_default rules = default_roles data"
  by (auto simp: parse_access_rules_Inr parse_default_Inr default_roles_def simp del: map_map
      split: option.splits json.splits)

text \<open>C1 A parsed rules document decides as its author wrote it: nobody reads anything without a
  token; an item the document lists is open to the roles listed for it and to no one else, an
  empty list closing it; any other item is open to the default roles, or to every token
  when the document has no default.\<close>

theorem parsed_rules_decide:
  assumes "parse_access_rules (Some (JObj data)) = Inr rules"
  shows "is_permitted rules u k n \<longleftrightarrow>
    auth_type u = ''jwt'' \<and>
    (case (listed_roles data k n, default_roles data) of
       (Some rs, _) \<Rightarrow> set rs \<inter> set (roles u) \<noteq> {}
     | (None, Some rs) \<Rightarrow> set rs \<inter> set (roles u) \<noteq> {}
     | (None, None) \<Rightarrow> True)"
  using parsed_listed [OF assms, of k n] parsed_default [OF assms]
  by (auto simp: is_permitted_def x_is_authenticated_def has_default_def holds_any_def list_ex_iff
      split: option.splits)

definition sample_rules :: "(string, json) dict" where
  "sample_rules =
     [(''default'', JList [JStr ''reader'']),
      (''repos'', JObj [(''secret'', JList [JStr ''owner'']), (''closed'', JList [])])]"

definition sample_user :: "string list \<Rightarrow> AuthIdentity" where
  "sample_user rs =
     \<lparr>subject = ''s'', auth_type = ''jwt'', roles = rs, scopes = [], preferred_username = None\<rparr>"

definition sample_access :: AccessRules where
  "sample_access =
     \<lparr>rules_default = Some [''reader''],
      rules_items = (\<lambda>k. case k of Repos \<Rightarrow> [(''secret'', [''owner'']), (''closed'', [])] | Layers \<Rightarrow> [])\<rparr>"

lemma sample_rules_parse: "parse_access_rules (Some (JObj sample_rules)) = Inr sample_access"
  by (simp add: parse_access_rules_Inr sample_rules_def sample_access_def unknown_keys_def KINDS_def
      sorted_set_def parse_kind_def dict_get_default_def parse_entry_def parse_default_def)

lemma parsed_rules_decide_witness:
  "is_permitted sample_access (sample_user [''owner'']) Repos ''secret'' \<and>
   \<not> is_permitted sample_access (sample_user [''reader'']) Repos ''secret'' \<and>
   is_permitted sample_access (sample_user [''reader'']) Layers ''rivers''"
  by (simp add: parsed_rules_decide [OF sample_rules_parse] sample_user_def sample_rules_def listed_roles_def default_roles_def)

definition role_list :: "json \<Rightarrow> bool" where
  "role_list v \<longleftrightarrow> v \<in> range (\<lambda>rs. JList (map JStr rs))"

fun role_lists :: "json \<Rightarrow> bool" where
  "role_lists (JObj es) = list_all (\<lambda>e. role_list (snd e)) es"
| "role_lists _ = False"

lemma map_result_total_iff:
  "(\<exists>ys. map_result f xs = Inr ys) \<longleftrightarrow> list_all (\<lambda>x. \<exists>y. f x = Inr y) xs"
  by (induction xs) (auto simp: andthen_Inr_iff)

lemma parse_entry_total: "(\<exists>y. parse_entry k e = Inr y) \<longleftrightarrow> role_list (snd e)"
  by (auto simp: parse_entry_Inr role_list_def)

lemma parse_kind_total:
  "(\<exists>items. parse_kind data k = Inr items) \<longleftrightarrow>
   (case dict_get data (kind_name k) of None \<Rightarrow> True | Some v \<Rightarrow> role_lists v)"
proof -
  have "(\<exists>items. parse_kind data k = Inr items) \<longleftrightarrow>
      role_lists (dict_get_default data (kind_name k) (JObj []))"
    by (cases "dict_get_default data (kind_name k) (JObj [])")
      (simp_all add: parse_kind_def map_result_total_iff parse_entry_total del: split_paired_Ex)
  then show ?thesis by (simp add: dict_get_default_def split: option.splits)
qed

lemma unknown_keys_none: "unknown_keys data = [] \<longleftrightarrow> fst ` set data \<subseteq> {''default'', ''repos'', ''layers''}"
proof -
  have "set (unknown_keys data) = fst ` set data - {''default'', ''repos'', ''layers''}"
    by (auto simp: unknown_keys_def KINDS_def)
  then show ?thesis by (metis Diff_eq_empty_iff set_empty)
qed

lemma roles_error: "roles_of_json v wh = Inl e \<Longrightarrow> e \<in> range ValueError"
  by (cases v) (auto split: if_splits)

lemma parse_kind_error: "parse_kind data k = Inl e \<Longrightarrow> e \<in> range ValueError"
  by (auto simp: parse_kind_def parse_entry_def andthen_Inl_iff split: json.splits
      dest!: map_result_Inl dest: roles_error)

text \<open>The parser accepts exactly the documents that say what they mean: no key but
  \<open>default\<close>, \<open>repos\<close> and \<open>layers\<close>, objects of role lists under the two kinds, a role list as the
  default.  Everything else stops the service with a \<open>ValueError\<close>: no mistake is ignored.\<close>

theorem rules_parser_strict:
  "parse_access_rules j \<in> Inr ` UNIV \<union> Inl ` range ValueError \<and>
   ((\<exists>rules. parse_access_rules (Some (JObj data)) = Inr rules) \<longleftrightarrow>
      fst ` set data \<subseteq> {''default'', ''repos'', ''layers''} \<and>
      (case dict_get data ''repos'' of None \<Rightarrow> True | Some v \<Rightarrow> role_lists v) \<and>
      (case dict_get data ''layers'' of None \<Rightarrow> True | Some v \<Rightarrow> role_lists v) \<and>
      (case dict_get data ''default'' of None \<Rightarrow> True | Some v \<Rightarrow> role_list v))"
proof
  show "parse_access_rules j \<in> Inr ` UNIV \<union> Inl ` range ValueError"
  proof (cases "parse_access_rules j")
    case (Inl e)
    then have "e \<in> range ValueError"
      by (auto simp: parse_access_rules_def andthen_Inl_iff parse_default_def
          split: option.splits json.splits if_splits dest: parse_kind_error roles_error)
    with Inl show ?thesis by simp
  qed simp
  have "(\<exists>d. parse_default data = Inr d) \<longleftrightarrow>
      (case dict_get data ''default'' of None \<Rightarrow> True | Some v \<Rightarrow> role_list v)"
    by (auto simp: parse_default_def andthen_Inr_iff roles_of_json_Inr role_list_def split: option.splits)
  moreover have "(\<exists>rules. parse_access_rules (Some (JObj data)) = Inr rules) \<longleftrightarrow>
      unknown_keys data = [] \<and> (\<exists>rs. parse_kind data Repos = Inr rs) \<and>
      (\<exists>ls. parse_kind data Layers = Inr ls) \<and> (\<exists>d. parse_default data = Inr d)"
    by (auto simp: parse_access_rules_Inr)
  ultimately show "(\<exists>rules. parse_access_rules (Some (JObj data)) = Inr rules) \<longleftrightarrow>
      fst ` set data \<subseteq> {''default'', ''repos'', ''layers''} \<and>
      (case dict_get data ''repos'' of None \<Rightarrow> True | Some v \<Rightarrow> role_lists v) \<and>
      (case dict_get data ''layers'' of None \<Rightarrow> True | Some v \<Rightarrow> role_lists v) \<and>
      (case dict_get data ''default'' of None \<Rightarrow> True | Some v \<Rightarrow> role_list v)"
    using parse_kind_total [of data Repos] parse_kind_total [of data Layers]
    by (simp only: unknown_keys_none kind_name.simps)
qed

text \<open>Without a token no request under the dataset, dataset-variable or vector-tile routes is
  permitted, whatever the rules and whatever follows the prefix.\<close>

theorem anonymous_reads_nothing:
  assumes "auth_type u \<noteq> ''jwt''"
    and "path = ''/api/datasets'' \<or> starts_with path ''/api/datasets/'' \<or>
         starts_with path ''/api/dataset-variables/'' \<or> starts_with path ''/api/vector-tiles/''"
  shows "\<not> is_request_permitted rules u path"
proof -
  have "request_target path = Deny \<or> (\<exists>k n ns. request_target path = Reads k (n # ns))"
    using assms(2) by (auto simp: request_target_def Let_def repo_candidates_def)
  moreover have "\<not> is_permitted rules u k n" for k n
    using assms(1) by (simp add: is_permitted_def x_is_authenticated_def)
  ultimately show ?thesis by (auto simp: is_request_permitted_def)
qed

lemma anonymous_reads_nothing_witness:
  "\<not> is_request_permitted \<lparr>rules_default = None, rules_items = (\<lambda>k. [])\<rparr>
       ((sample_user [''owner''])\<lparr>auth_type := ''anonymous''\<rparr>) ''/api/datasets/r/edr/position''"
  by (rule anonymous_reads_nothing) simp_all

end
