(* ===== verification/X_Credentials.thy ===== *)
theory X_Credentials
  imports X_Authz
begin

text \<open>
  The notebook credentials of the xpublish service (\<open>xpublish-api/src/credentials.py\<close>):
  the session policy built from the access rules, the STS session name, the size guard
  before \<open>AssumeRole\<close>.  What the policy then allows is evaluated with the documented rules
  of IAM (an explicit deny wins, otherwise an allow is needed) over a pattern matcher that
  is a parameter, so the enforcement AWS performs can be compared with the rules map.
\<close>

section \<open>The policy\<close>

definition CREDENTIALS_TTL_SECONDS :: int where
  "CREDENTIALS_TTL_SECONDS = 900"

definition MAX_SESSION_POLICY_CHARS :: nat where
  "MAX_SESSION_POLICY_CHARS = 2048"

definition bucket_arn :: "string \<Rightarrow> string" where
  "bucket_arn bucket = ''arn:aws:s3:::'' @ bucket"

text \<open>\<open>_repo_paths\<close>: the object pattern of a repo and its two list prefixes.\<close>

definition repo_paths :: "string \<Rightarrow> string \<Rightarrow> string \<Rightarrow> string \<times> string list" where
  "repo_paths bucket pfx repo =
     (let repo_prefix = pfx @ ''/'' @ repo @ ''/''
      in (bucket_arn bucket @ ''/'' @ repo_prefix @ ''*'', [repo_prefix, repo_prefix @ ''*'']))"

definition object_statement :: "string \<Rightarrow> json \<Rightarrow> json" where
  "object_statement eff res =
     JObj [(''Effect'', JStr eff), (''Action'', JStr ''s3:GetObject''), (''Resource'', res)]"

definition list_statement :: "string \<Rightarrow> string \<Rightarrow> string list \<Rightarrow> json" where
  "list_statement eff bucket pats =
     JObj [(''Effect'', JStr eff), (''Action'', JStr ''s3:ListBucket''),
           (''Resource'', JStr (bucket_arn bucket)),
           (''Condition'', JObj [(''StringLike'', JObj [(''s3:prefix'', JList (map JStr pats))])])]"

definition build_session_policy :: "string \<Rightarrow> string \<Rightarrow> bool \<Rightarrow> string list \<Rightarrow> json" where
  "build_session_policy bucket pfx deny_mode repos =
     (let paths = map (repo_paths bucket pfx) repos;
          object_arns = JList (map (JStr \<circ> fst) paths);
          list_prefixes = concat (map snd paths);
          statements =
            (if deny_mode then
               [object_statement ''Allow'' (JStr (bucket_arn bucket @ ''/'' @ pfx @ ''/*'')),
                list_statement ''Allow'' bucket [pfx @ ''/'', pfx @ ''/*'']] @
               (if repos \<noteq> [] then
                  [object_statement ''Deny'' object_arns, list_statement ''Deny'' bucket list_prefixes]
                else [])
             else
               [object_statement ''Allow'' object_arns, list_statement ''Allow'' bucket list_prefixes])
      in JObj [(''Version'', JStr ''2012-10-17''), (''Statement'', JList statements)])"

definition policy_for :: "AccessRules \<Rightarrow> 'a AuthIdentity_scheme \<Rightarrow> bool \<times> string list" where
  "policy_for rules u =
     (if has_default rules u then (True, unreadable_listed rules u Repos)
      else (False, readable_listed rules u Repos))"

section \<open>The session name\<close>

text \<open>
  \<open>[\\w+=,.@-]\<close>: \<open>\\w\<close> also holds of the letters outside ASCII, whose bytes are kept.
\<close>

definition session_char :: "char \<Rightarrow> bool" where
  "session_char c \<longleftrightarrow>
     (let n = of_char c :: nat
      in 48 \<le> n \<and> n \<le> 57 \<or> 65 \<le> n \<and> n \<le> 90 \<or> 97 \<le> n \<and> n \<le> 122 \<or> 128 \<le> n \<or>
         c \<in> {CHR ''_'', CHR ''+'', CHR ''='', CHR '','', CHR ''.'', CHR ''@'', CHR ''-''})"

definition session_name :: "'a AuthIdentity_scheme \<Rightarrow> string" where
  "session_name u =
     (let raw = (case preferred_username u of
                   Some n \<Rightarrow> if n \<noteq> [] then n else subject u
                 | None \<Rightarrow> subject u);
          name = take 64 (map (\<lambda>c. if session_char c then c else CHR ''-'') raw)
      in if 2 \<le> length name then name else ''user-'' @ name)"

section \<open>Serialising the policy\<close>

definition hex_digit :: "nat \<Rightarrow> char" where
  "hex_digit d = (if d < 10 then char_of (48 + d) else char_of (87 + d))"

definition json_escape :: "char \<Rightarrow> string" where
  "json_escape c =
     (let n = of_char c :: nat
      in if n = 34 \<or> n = 92 then [char_of (92 :: nat), c]
         else if n = 10 then [char_of (92 :: nat), CHR ''n'']
         else if n = 13 then [char_of (92 :: nat), CHR ''r'']
         else if n = 9 then [char_of (92 :: nat), CHR ''t'']
         else if n = 8 then [char_of (92 :: nat), CHR ''b'']
         else if n = 12 then [char_of (92 :: nat), CHR ''f'']
         else if 32 \<le> n \<and> n \<le> 126 then [c]
         else [char_of (92 :: nat), CHR ''u'', CHR ''0'', CHR ''0'',
               hex_digit (n div 16), hex_digit (n mod 16)])"

definition json_string :: "string \<Rightarrow> string" where
  "json_string s = CHR 0x22 # concat (map json_escape s) @ [CHR 0x22]"

text \<open>\<open>json.dumps(x, separators=(",", ":"))\<close>.\<close>

fun json_dumps :: "json \<Rightarrow> string" where
  "json_dumps JNull = ''null''"
| "json_dumps (JBool b) = (if b then ''true'' else ''false'')"
| "json_dumps (JInt n) = show_int n"
| "json_dumps (JStr s) = json_string s"
| "json_dumps (JList xs) = ''['' @ join '','' (map json_dumps xs) @ '']''"
| "json_dumps (JObj kvs) =
     ''{'' @ join '','' (map (\<lambda>kv. json_string (fst kv) @ '':'' @ json_dumps (snd kv)) kvs) @ ''}''"

text \<open>
  \<open>vend_credentials\<close>: \<open>assume_role\<close> is the STS client, given the role, the session name,
  the policy text and the duration.
\<close>

definition vend_credentials ::
  "(string \<Rightarrow> string \<Rightarrow> string \<Rightarrow> int \<Rightarrow> exn + 'c) \<Rightarrow> string \<Rightarrow> 'a AuthIdentity_scheme \<Rightarrow> json \<Rightarrow> exn + 'c"
where
  "vend_credentials assume_role role_arn u policy =
     (let policy_json = json_dumps policy
      in if MAX_SESSION_POLICY_CHARS < length policy_json
         then Inl (PolicyTooLargeError (length policy_json))
         else assume_role role_arn (session_name u) policy_json CREDENTIALS_TTL_SECONDS)"

section \<open>What IAM makes of a policy\<close>

text \<open>
  Pattern matching is IAM's own: a parameter \<open>like\<close>, of which only the documented meaning
  of a literal and of a literal followed by \<open>*\<close> is used.
\<close>

definition plain :: "string \<Rightarrow> bool" where
  "plain s \<longleftrightarrow> CHR ''*'' \<notin> set s \<and> CHR ''?'' \<notin> set s \<and> CHR ''$'' \<notin> set s"

locale iam_like =
  fixes like :: "string \<Rightarrow> string \<Rightarrow> bool"
  assumes like_literal: "plain p \<Longrightarrow> like p s \<longleftrightarrow> s = p"
    and like_star: "plain p \<Longrightarrow> like (p @ ''*'') s \<longleftrightarrow> starts_with s p"

text \<open>A matcher that meets the contract: \<open>*\<close> any run of characters, \<open>?\<close> any one character.\<close>

fun glob :: "string \<Rightarrow> string \<Rightarrow> bool" where
  "glob [] s = (s = [])"
| "glob (p # ps) [] = (p = CHR ''*'' \<and> glob ps [])"
| "glob (p # ps) (c # s) =
     (if p = CHR ''*'' then glob ps (c # s) \<or> glob (p # ps) s
      else (p = CHR ''?'' \<or> p = c) \<and> glob ps s)"

lemma glob_star: "glob ''*'' s"
  by (induction s) auto

lemma plain_Cons [simp]:
  "plain (c # s) \<longleftrightarrow> c \<noteq> CHR ''*'' \<and> c \<noteq> CHR ''?'' \<and> c \<noteq> CHR ''$'' \<and> plain s"
  by (auto simp: plain_def)

lemma plain_append [simp]: "plain (a @ b) \<longleftrightarrow> plain a \<and> plain b"
  by (auto simp: plain_def)

lemma plain_Nil [simp]: "plain []"
  by (simp add: plain_def)

lemma glob_literal: "plain p \<Longrightarrow> glob p s \<longleftrightarrow> s = p"
  by (induction p s rule: glob.induct) auto

lemma glob_prefix: "plain p \<Longrightarrow> glob (p @ ''*'') s \<longleftrightarrow> prefix p s"
proof (induction p arbitrary: s)
  case Nil
  show ?case using glob_star by simp
next
  case (Cons c p)
  then show ?case by (cases s) auto
qed

interpretation glob: iam_like glob
  by unfold_locales (simp_all add: glob_literal glob_prefix)

text \<open>Statement fields, and the evaluation: an applicable deny wins, otherwise an allow is needed.\<close>

fun jfield :: "json \<Rightarrow> string \<Rightarrow> json option" where
  "jfield (JObj kvs) key = dict_get kvs key"
| "jfield _ key = None"

fun json_strings :: "json option \<Rightarrow> string list" where
  "json_strings (Some (JStr s)) = [s]"
| "json_strings (Some (JList xs)) = map (the \<circ> as_string) (filter (\<lambda>v. as_string v \<noteq> None) xs)"
| "json_strings _ = []"

definition condition_holds :: "(string \<Rightarrow> string \<Rightarrow> bool) \<Rightarrow> string \<Rightarrow> json option \<Rightarrow> bool" where
  "condition_holds like list_prefix cond =
     (case cond of
        None \<Rightarrow> True
      | Some c \<Rightarrow>
          list_ex (\<lambda>pat. like pat list_prefix)
            (json_strings (Option.bind (jfield c ''StringLike'') (\<lambda>s. jfield s ''s3:prefix''))))"

definition statement_applies ::
  "(string \<Rightarrow> string \<Rightarrow> bool) \<Rightarrow> string \<Rightarrow> string \<Rightarrow> string \<Rightarrow> json \<Rightarrow> bool"
where
  "statement_applies like action res list_prefix st \<longleftrightarrow>
     jfield st ''Action'' = Some (JStr action) \<and>
     list_ex (\<lambda>pat. like pat res) (json_strings (jfield st ''Resource'')) \<and>
     condition_holds like list_prefix (jfield st ''Condition'')"

definition has_effect :: "string \<Rightarrow> json \<Rightarrow> bool" where
  "has_effect eff st \<longleftrightarrow> jfield st ''Effect'' = Some (JStr eff)"

definition policy_allows ::
  "(string \<Rightarrow> string \<Rightarrow> bool) \<Rightarrow> json \<Rightarrow> string \<Rightarrow> string \<Rightarrow> string \<Rightarrow> bool"
where
  "policy_allows like policy action res list_prefix \<longleftrightarrow>
     (let sts = (case jfield policy ''Statement'' of Some (JList xs) \<Rightarrow> xs | _ \<Rightarrow> [])
      in \<not> list_ex (\<lambda>st. has_effect ''Deny'' st \<and> statement_applies like action res list_prefix st) sts \<and>
         list_ex (\<lambda>st. has_effect ''Allow'' st \<and> statement_applies like action res list_prefix st) sts)"

definition may_get :: "(string \<Rightarrow> string \<Rightarrow> bool) \<Rightarrow> json \<Rightarrow> string \<Rightarrow> string \<Rightarrow> bool" where
  "may_get like policy bucket key \<longleftrightarrow>
     policy_allows like policy ''s3:GetObject'' (bucket_arn bucket @ ''/'' @ key) []"

definition may_list :: "(string \<Rightarrow> string \<Rightarrow> bool) \<Rightarrow> json \<Rightarrow> string \<Rightarrow> string \<Rightarrow> bool" where
  "may_list like policy bucket list_prefix \<longleftrightarrow>
     policy_allows like policy ''s3:ListBucket'' (bucket_arn bucket) list_prefix"

section \<open>Evaluating the built policy\<close>

lemma json_strings_JStrs [simp]: "json_strings (Some (JList (map JStr xs))) = xs"
  by (simp add: comp_def filter_True)

lemma json_strings_JStrs_comp [simp]: "json_strings (Some (JList (map (JStr \<circ> f) xs))) = map f xs"
  using json_strings_JStrs [of "map f xs"] by (simp add: comp_def)

lemma applies_object [simp]:
  "statement_applies like ''s3:GetObject'' res lp (object_statement eff rj) \<longleftrightarrow>
     list_ex (\<lambda>pat. like pat res) (json_strings (Some rj))"
  "statement_applies like ''s3:GetObject'' res lp (list_statement eff b pats) \<longleftrightarrow> False"
  by (simp_all add: statement_applies_def object_statement_def list_statement_def condition_holds_def)

lemma applies_list [simp]:
  "statement_applies like ''s3:ListBucket'' res lp (list_statement eff b pats) \<longleftrightarrow>
     like (bucket_arn b) res \<and> list_ex (\<lambda>pat. like pat lp) pats"
  "statement_applies like ''s3:ListBucket'' res lp (object_statement eff rj) \<longleftrightarrow> False"
  by (simp_all add: statement_applies_def object_statement_def list_statement_def condition_holds_def
      del: json_strings.simps(2))

lemma has_effect_simps [simp]:
  "has_effect e (object_statement eff rj) \<longleftrightarrow> eff = e"
  "has_effect e (list_statement eff b pats) \<longleftrightarrow> eff = e"
  by (simp_all add: has_effect_def object_statement_def list_statement_def)

text \<open>A path segment ends at its slash: \<open>isnobal_boise/\<close> is no prefix of \<open>isnobal_boise_v2/...\<close>.\<close>

lemma prefix_segment:
  "c \<notin> set x \<Longrightarrow> c \<notin> set r \<Longrightarrow> prefix (x @ [c]) (r @ c # rest) \<longleftrightarrow> x = r"
proof (induction x arbitrary: r)
  case Nil
  then show ?case by (cases r) auto
next
  case (Cons a x)
  then show ?case by (cases r) auto
qed

definition segment :: "string \<Rightarrow> bool" where
  "segment n \<longleftrightarrow> plain n \<and> CHR ''/'' \<notin> set n"

lemma plain_bucket_arn [simp]: "plain (bucket_arn b) \<longleftrightarrow> plain b"
  by (simp add: bucket_arn_def)

context iam_like
begin

lemma like_repo_object:
  assumes "plain b" "plain p" "segment x" "CHR ''/'' \<notin> set r"
  shows "like (fst (repo_paths b p x)) (bucket_arn b @ ''/'' @ p @ ''/'' @ r @ ''/'' @ rest) \<longleftrightarrow> x = r"
proof -
  let ?base = "bucket_arn b @ ''/'' @ p @ ''/''"
  have "fst (repo_paths b p x) = (?base @ x @ ''/'') @ ''*''"
    by (simp add: repo_paths_def Let_def)
  moreover have "plain (?base @ x @ ''/'')"
    using assms by (simp add: segment_def)
  ultimately have "like (fst (repo_paths b p x)) (?base @ r @ ''/'' @ rest)
      \<longleftrightarrow> prefix (?base @ x @ ''/'') (?base @ r @ ''/'' @ rest)"
    using like_star [of "?base @ x @ ''/''"] by simp
  also have "\<dots> \<longleftrightarrow> x = r"
    using assms prefix_segment [of "CHR ''/''" x r rest] by (simp add: segment_def)
  finally show ?thesis by simp
qed

lemma like_repo_list:
  assumes "plain p" "segment x" "CHR ''/'' \<notin> set r"
  shows "list_ex (\<lambda>pat. like pat (p @ ''/'' @ r @ ''/'' @ rest)) (snd (repo_paths b p x)) \<longleftrightarrow> x = r"
proof -
  have pl: "plain (p @ ''/'' @ x @ ''/'')" using assms by (simp add: segment_def)
  have "like (p @ ''/'' @ x @ ''/'' @ ''*'') (p @ ''/'' @ r @ ''/'' @ rest) \<longleftrightarrow> x = r"
    using like_star [OF pl] prefix_segment [of "CHR ''/''" x r rest] assms
    by (simp add: segment_def)
  moreover have "like (p @ ''/'' @ x @ ''/'') (p @ ''/'' @ r @ ''/'' @ rest) \<Longrightarrow> x = r"
    using like_literal [OF pl] prefix_segment [of "CHR ''/''" x r rest] assms
    by (metis (no_types, lifting) append.assoc append_Cons append_Nil prefixI same_append_eq
        same_prefix_prefix segment_def)
  ultimately show ?thesis by (auto simp: repo_paths_def Let_def)
qed

end

lemma policy_statements [simp]:
  "jfield (build_session_policy b p d repos) ''Statement'' =
   Some (JList
     (if d then
        [object_statement ''Allow'' (JStr (bucket_arn b @ ''/'' @ p @ ''/*'')),
         list_statement ''Allow'' b [p @ ''/'', p @ ''/*'']] @
        (if repos \<noteq> [] then
           [object_statement ''Deny'' (JList (map (JStr \<circ> fst) (map (repo_paths b p) repos))),
            list_statement ''Deny'' b (concat (map snd (map (repo_paths b p) repos)))]
         else [])
      else
        [object_statement ''Allow'' (JList (map (JStr \<circ> fst) (map (repo_paths b p) repos))),
         list_statement ''Allow'' b (concat (map snd (map (repo_paths b p) repos)))]))"
  by (simp add: build_session_policy_def Let_def)

lemma list_ex_concat: "list_ex P (concat xss) \<longleftrightarrow> list_ex (list_ex P) xss"
  by (induction xss) auto

context iam_like
begin

lemma objects_match:
  assumes "plain b" "plain p" "\<forall>x \<in> set repos. segment x" "CHR ''/'' \<notin> set r"
  shows "list_ex (\<lambda>pat. like pat (bucket_arn b @ ''/'' @ p @ ''/'' @ r @ ''/'' @ rest))
           (map fst (map (repo_paths b p) repos)) \<longleftrightarrow> r \<in> set repos"
  using assms like_repo_object [of b p _ r rest] by (auto simp: list_ex_iff)

lemma lists_match:
  assumes "plain p" "\<forall>x \<in> set repos. segment x" "CHR ''/'' \<notin> set r"
  shows "list_ex (\<lambda>pat. like pat (p @ ''/'' @ r @ ''/'' @ rest))
           (concat (map snd (map (repo_paths b p) repos))) \<longleftrightarrow> r \<in> set repos"
  using assms like_repo_list [of p _ r rest b] by (auto simp: list_ex_concat list_ex_iff)

lemma prefix_object:
  assumes "plain b" "plain p"
  shows "like (bucket_arn b @ ''/'' @ p @ ''/*'') (bucket_arn b @ ''/'' @ key) \<longleftrightarrow> starts_with key (p @ ''/'')"
  using like_star [of "bucket_arn b @ ''/'' @ p @ ''/''"] assms by simp

lemma get_built:
  assumes "plain b" "plain p" "\<forall>x \<in> set repos. segment x" "CHR ''/'' \<notin> set r"
  shows "may_get like (build_session_policy b p d repos) b (p @ ''/'' @ r @ ''/'' @ rest) \<longleftrightarrow>
    (if d then r \<notin> set repos else r \<in> set repos)"
  using assms objects_match [OF assms] prefix_object [OF assms(1,2), of "p @ ''/'' @ r @ ''/'' @ rest"]
  by (auto simp: may_get_def policy_allows_def Let_def list_ex_iff)

lemma list_built:
  assumes "plain b" "plain p" "\<forall>x \<in> set repos. segment x" "CHR ''/'' \<notin> set r"
  shows "may_list like (build_session_policy b p d repos) b (p @ ''/'' @ r @ ''/'' @ rest) \<longleftrightarrow>
    (if d then r \<notin> set repos else r \<in> set repos)"
proof -
  have "like (bucket_arn b) (bucket_arn b)"
    using like_literal [of "bucket_arn b"] assms(1) by simp
  moreover have "like (p @ ''/*'') (p @ ''/'' @ r @ ''/'' @ rest)"
    using like_star [of "p @ ''/''"] assms(2) by simp
  ultimately show ?thesis
    using lists_match [OF assms(2,3,4), of rest b]
    by (auto simp: may_list_def policy_allows_def Let_def)
qed

lemma repo_object_inside:
  assumes "plain b" "plain p" "segment x" "like (fst (repo_paths b p x)) (bucket_arn b @ ''/'' @ key)"
  shows "starts_with key (p @ ''/'')"
proof -
  have "plain (bucket_arn b @ ''/'' @ p @ ''/'' @ x @ ''/'')"
    using assms by (simp add: segment_def)
  from like_star [OF this] assms(4) have "prefix (p @ ''/'' @ x @ ''/'') key"
    by (simp add: repo_paths_def Let_def)
  then show ?thesis by (auto simp: prefix_def)
qed

text \<open>A key or a list prefix with no slash after the warehouse prefix is inside no repo.\<close>

lemma no_repo_object:
  assumes "plain b" "plain p" "segment x" "CHR ''/'' \<notin> set part"
  shows "\<not> like (fst (repo_paths b p x)) (bucket_arn b @ ''/'' @ p @ ''/'' @ part)"
proof -
  have pl: "plain (bucket_arn b @ ''/'' @ p @ ''/'' @ x @ ''/'')"
    using assms by (simp add: segment_def)
  have "\<not> prefix (x @ ''/'') part"
    using assms(4) by (auto simp: prefix_def)
  then show ?thesis
    using like_star [OF pl] by (simp add: repo_paths_def Let_def)
qed

lemma no_repo_list:
  assumes "plain p" "segment x" "CHR ''/'' \<notin> set part"
  shows "\<not> list_ex (\<lambda>pat. like pat (p @ ''/'' @ part)) (snd (repo_paths b p x))"
proof -
  have pl: "plain (p @ ''/'' @ x @ ''/'')" using assms by (simp add: segment_def)
  have "\<not> prefix (x @ ''/'') part" "part \<noteq> x @ ''/''"
    using assms(3) by (auto simp: prefix_def)
  then show ?thesis
    using like_star [OF pl] like_literal [OF pl] by (simp add: repo_paths_def Let_def)
qed

lemma repo_list_inside:
  assumes "plain p" "segment x" "list_ex (\<lambda>pat. like pat lp) (snd (repo_paths b p x))"
  shows "starts_with lp (p @ ''/'')"
proof -
  have "plain (p @ ''/'' @ x @ ''/'')" using assms by (simp add: segment_def)
  from like_star [OF this] like_literal [OF this] assms(3) show ?thesis
    by (auto simp: repo_paths_def Let_def prefix_def)
qed

lemma get_top:
  assumes "plain b" "plain p" "\<forall>x \<in> set repos. segment x" "CHR ''/'' \<notin> set part"
  shows "may_get like (build_session_policy b p d repos) b (p @ ''/'' @ part) \<longleftrightarrow> d"
  using assms no_repo_object [of b p _ part] prefix_object [OF assms(1,2), of "p @ ''/'' @ part"]
  by (auto simp: may_get_def policy_allows_def Let_def list_ex_iff)

lemma list_top:
  assumes "plain b" "plain p" "\<forall>x \<in> set repos. segment x" "CHR ''/'' \<notin> set part"
  shows "may_list like (build_session_policy b p d repos) b (p @ ''/'' @ part) \<longleftrightarrow> d"
proof -
  have "like (bucket_arn b) (bucket_arn b)"
    using like_literal [of "bucket_arn b"] assms(1) by simp
  moreover have "like (p @ ''/*'') (p @ ''/'' @ part)"
    using like_star [of "p @ ''/''"] assms(2) by simp
  moreover have "\<not> list_ex (\<lambda>pat. like pat (p @ ''/'' @ part))
      (concat (map snd (map (repo_paths b p) repos)))"
    using no_repo_list [of p _ part b] assms by (auto simp: list_ex_concat list_ex_iff)
  ultimately show ?thesis
    by (auto simp: may_list_def policy_allows_def Let_def)
qed

lemma get_outside:
  assumes "plain b" "plain p" "\<forall>x \<in> set repos. segment x" "\<not> starts_with key (p @ ''/'')"
  shows "\<not> may_get like (build_session_policy b p d repos) b key"
  using assms prefix_object [OF assms(1,2), of key] repo_object_inside [OF assms(1,2), of _ key]
  by (auto simp: may_get_def policy_allows_def Let_def list_ex_iff)

lemma list_outside:
  assumes "plain b" "plain p" "\<forall>x \<in> set repos. segment x" "\<not> starts_with lp (p @ ''/'')"
  shows "\<not> may_list like (build_session_policy b p d repos) b lp"
proof -
  have "\<not> list_ex (\<lambda>pat. like pat lp) (concat (map snd (map (repo_paths b p) repos)))"
    using repo_list_inside [OF assms(2), of _ lp b] assms(3,4)
    by (auto simp: list_ex_concat list_ex_iff)
  moreover have "\<not> like (p @ ''/'') lp" "\<not> like (p @ ''/*'') lp"
    using like_literal [of "p @ ''/''"] like_star [of "p @ ''/''"] assms(2,4) by auto
  ultimately show ?thesis
    by (auto simp: may_list_def policy_allows_def Let_def)
qed

end

section \<open>The policy against the rules\<close>

text \<open>
  The client of the two contracts: a user's decision and IAM's matcher.  The policy built
  for a user allows exactly the reads the decision permits.
\<close>

locale session_policy =
  access_contract valid wide permitted denied granted + iam_like like
  for valid :: "'u \<Rightarrow> bool" and wide :: "'u \<Rightarrow> bool"
    and permitted :: "'u \<Rightarrow> string \<Rightarrow> bool"
    and denied :: "'u \<Rightarrow> string list" and granted :: "'u \<Rightarrow> string list"
    and like :: "string \<Rightarrow> string \<Rightarrow> bool"
begin

lemma policy_reads:
  assumes "valid u" "plain b" "plain p" "CHR ''/'' \<notin> set r"
    and "\<forall>x \<in> set (if wide u then denied u else granted u). segment x"
  shows "may_get like (build_session_policy b p (wide u) (if wide u then denied u else granted u)) b
           (p @ ''/'' @ r @ ''/'' @ rest) \<longleftrightarrow> permitted u r"
  using get_built [OF assms(2,3,5,4)] decision [OF assms(1)] by simp

lemma policy_lists:
  assumes "valid u" "plain b" "plain p" "CHR ''/'' \<notin> set r"
    and "\<forall>x \<in> set (if wide u then denied u else granted u). segment x"
  shows "may_list like (build_session_policy b p (wide u) (if wide u then denied u else granted u)) b
           (p @ ''/'' @ r @ ''/'' @ rest) \<longleftrightarrow> permitted u r"
  using list_built [OF assms(2,3,5,4)] decision [OF assms(1)] by simp

end

interpretation repo_policy: session_policy
  "\<lambda>(rules, u :: 'a AuthIdentity_scheme). rules_ok rules \<and> x_is_authenticated u"
  "\<lambda>(rules, u). has_default rules u"
  "\<lambda>(rules, u). is_permitted rules u Repos"
  "\<lambda>(rules, u). unreadable_listed rules u Repos"
  "\<lambda>(rules, u). readable_listed rules u Repos"
  glob
  by unfold_locales

text \<open>A rules map whose repo names are single path segments without pattern characters.\<close>

definition repo_names_plain :: "AccessRules \<Rightarrow> bool" where
  "repo_names_plain rules \<longleftrightarrow> list_all (\<lambda>e. segment (fst e)) (rules_items rules Repos)"

lemma policy_for_segments:
  "repo_names_plain rules \<Longrightarrow> \<forall>x \<in> set (snd (policy_for rules u)). segment x"
  by (auto simp: policy_for_def unreadable_listed_def readable_listed_def repo_names_plain_def list_all_iff)

lemma policy_for_parts:
  "policy_for rules u =
     (has_default rules u,
      if has_default rules u then unreadable_listed rules u Repos else readable_listed rules u Repos)"
  by (simp add: policy_for_def)

section \<open>Session names\<close>

lemma session_name_length: "2 \<le> length (session_name u) \<and> length (session_name u) \<le> 64"
  by (auto simp: session_name_def Let_def)

lemma session_name_chars: "c \<in> set (session_name u) \<Longrightarrow> session_char c"
proof -
  have d: "session_char (CHR ''-'')" and u: "\<forall>c \<in> set ''user-''. session_char c"
    by (simp_all add: session_char_def)
  show "c \<in> set (session_name u) \<Longrightarrow> session_char c"
    using d u unfolding session_name_def Let_def
    by (auto split: if_splits dest!: in_set_takeD)
qed

lemma vend_credentials_Inl_too_large:
  "MAX_SESSION_POLICY_CHARS < length (json_dumps policy) \<Longrightarrow>
   vend_credentials sts arn u policy = Inl (PolicyTooLargeError (length (json_dumps policy)))"
  by (simp add: vend_credentials_def Let_def)

section \<open>Properties\<close>

lemma session_policy_any: "iam_like like \<Longrightarrow> session_policy
  (\<lambda>(rules, u :: 'a AuthIdentity_scheme). rules_ok rules \<and> x_is_authenticated u)
  (\<lambda>(rules, u). has_default rules u) (\<lambda>(rules, u). is_permitted rules u Repos)
  (\<lambda>(rules, u). unreadable_listed rules u Repos) (\<lambda>(rules, u). readable_listed rules u Repos) like"
  by (rule session_policy.intro [OF repo_access.access_contract_axioms])

text \<open>C2 What the credentials handed to a notebook can reach, for every key and every list
  prefix, under IAM's evaluation of the policy built for the user.  Inside a repo's folder
  (listed by the rules or not): an object can be fetched, and a listing asked below that
  folder, if and only if the repo is permitted.  At the top of the warehouse (a name with no
  further slash, the empty one included): if and only if the rules' default lets the user
  in; such a listing is not confined to the permitted repos, so a user of the deny-mode
  policy can list the keys of a denied repo with \<open>pfx/\<close> or with its name without the slash,
  though not fetch them.  Outside the warehouse prefix: nothing.\<close>

theorem credentials_match_rules:
  assumes "iam_like like" "rules_ok rules" "auth_type u = ''jwt''" "repo_names_plain rules"
    and "plain bucket" "plain pfx"
    and "policy = (case policy_for rules u of (mode, repos) \<Rightarrow> build_session_policy bucket pfx mode repos)"
  shows "(\<forall>repo rest. CHR ''/'' \<notin> set repo \<longrightarrow>
       may_get like policy bucket (pfx @ ''/'' @ repo @ ''/'' @ rest) = is_permitted rules u Repos repo \<and>
       may_list like policy bucket (pfx @ ''/'' @ repo @ ''/'' @ rest) = is_permitted rules u Repos repo)
     \<and> (\<forall>part. CHR ''/'' \<notin> set part \<longrightarrow>
       may_get like policy bucket (pfx @ ''/'' @ part) = has_default rules u \<and>
       may_list like policy bucket (pfx @ ''/'' @ part) = has_default rules u)
     \<and> (\<forall>key. \<not> starts_with key (pfx @ ''/'') \<longrightarrow>
       \<not> may_get like policy bucket key \<and> \<not> may_list like policy bucket key)"
proof -
  have v: "case (rules, u) of (rules, u) \<Rightarrow> rules_ok rules \<and> x_is_authenticated u"
    using assms by (simp add: x_is_authenticated_def)
  let ?repos = "if has_default rules u then unreadable_listed rules u Repos
                  else readable_listed rules u Repos"
  have seg: "\<forall>x \<in> set ?repos. segment x"
    using policy_for_segments [OF assms(4), of u] by (simp add: policy_for_parts)
  have pol: "policy = build_session_policy bucket pfx (has_default rules u) ?repos"
    by (simp add: assms(7) policy_for_parts)
  note P = session_policy_any [OF assms(1)]
  have reads: "may_get like policy bucket (pfx @ ''/'' @ r @ ''/'' @ rest) = is_permitted rules u Repos r"
    and lists: "may_list like policy bucket (pfx @ ''/'' @ r @ ''/'' @ rest) = is_permitted rules u Repos r"
    if "CHR ''/'' \<notin> set r" for r rest
    using session_policy.policy_reads [OF P v assms(5,6) that, unfolded prod.case, OF seg]
      session_policy.policy_lists [OF P v assms(5,6) that, unfolded prod.case, OF seg]
    unfolding pol by blast+
  note bounds = assms(5,6) seg
  have tops: "may_get like policy bucket (pfx @ ''/'' @ part) = has_default rules u"
    "may_list like policy bucket (pfx @ ''/'' @ part) = has_default rules u"
    if "CHR ''/'' \<notin> set part" for part
    unfolding pol by (rule iam_like.get_top [OF assms(1) bounds that]
        iam_like.list_top [OF assms(1) bounds that])+
  have outs: "\<not> may_get like policy bucket key" "\<not> may_list like policy bucket key"
    if "\<not> starts_with key (pfx @ ''/'')" for key
    unfolding pol by (rule iam_like.get_outside [OF assms(1) bounds that]
        iam_like.list_outside [OF assms(1) bounds that])+
  show ?thesis
    by (intro conjI allI impI; (rule reads lists tops outs)?; assumption?)
qed

lemma credentials_match_rules_witness:
  "may_get glob (build_session_policy ''b'' ''p'' True [''closed'', ''secret'']) ''b'' ''p/open/x'' \<and>
   \<not> may_get glob (build_session_policy ''b'' ''p'' True [''closed'', ''secret'']) ''b'' ''p/secret/x'' \<and>
   \<not> may_list glob (build_session_policy ''b'' ''p'' True [''closed'', ''secret'']) ''b'' ''p/secret/'' \<and>
   may_list glob (build_session_policy ''b'' ''p'' True [''closed'', ''secret'']) ''b'' ''p/secret'' \<and>
   may_list glob (build_session_policy ''b'' ''p'' True [''closed'', ''secret'']) ''b'' ''p/''"
proof -
  let ?pol = "build_session_policy ''b'' ''p'' True [''closed'', ''secret'']"
  have pol: "?pol = (case policy_for sample_access (sample_user [''reader'']) of
      (mode, repos) \<Rightarrow> build_session_policy ''b'' ''p'' mode repos)"
    by code_simp
  have ok: "rules_ok sample_access" "auth_type (sample_user [''reader'']) = ''jwt''"
    "repo_names_plain sample_access" "plain ''b''" "plain ''p''"
    by code_simp+
  have d: "is_permitted sample_access (sample_user [''reader'']) Repos ''open''"
    "\<not> is_permitted sample_access (sample_user [''reader'']) Repos ''secret''"
    "has_default sample_access (sample_user [''reader''])"
    by code_simp+
  note C = credentials_match_rules [OF glob.iam_like_axioms ok pol]
  have "may_get glob ?pol ''b'' ''p/open/x''"
    using conjunct1 [OF C, rule_format, of "''open''" "''x''"] d by simp
  moreover have "\<not> may_get glob ?pol ''b'' ''p/secret/x''" "\<not> may_list glob ?pol ''b'' ''p/secret/''"
    using conjunct1 [OF C, rule_format, of "''secret''" "''x''"]
      conjunct1 [OF C, rule_format, of "''secret''" "[]"] d by simp_all
  moreover have "may_list glob ?pol ''b'' ''p/secret''" "may_list glob ?pol ''b'' ''p/''"
    using conjunct1 [OF conjunct2 [OF C], rule_format, of "''secret''"]
      conjunct1 [OF conjunct2 [OF C], rule_format, of "[]"] d by simp_all
  ultimately show ?thesis by blast
qed

text \<open>Whatever the policy mode and the repos, no key outside the warehouse prefix is ever
  readable with the credentials.\<close>

theorem policy_confined_to_prefix:
  assumes "iam_like like" "plain bucket" "plain pfx" "list_all segment repos"
    and "\<not> starts_with key (pfx @ ''/'')"
  shows "\<not> may_get like (build_session_policy bucket pfx mode repos) bucket key"
  using assms iam_like.get_outside by (auto simp: list_all_iff)

lemma policy_confined_to_prefix_witness:
  "\<not> may_get glob (build_session_policy ''b'' ''p'' True []) ''b'' ''other/x''"
  by (rule policy_confined_to_prefix [OF glob.iam_like_axioms]) (simp_all add: prefix_def)

text \<open>STS is only ever called with a policy that fits its limit, for exactly the fixed lifetime
  and under a session name of 2 to 64 characters of the allowed set; a larger policy is
  refused with its size and no call is made.\<close>

theorem vend_calls_within_limits:
  "vend_credentials sts arn u policy =
     (if length (json_dumps policy) \<le> 2048 then sts arn (session_name u) (json_dumps policy) 900
      else Inl (PolicyTooLargeError (length (json_dumps policy)))) \<and>
   length (session_name u) \<in> {2..64} \<and> set (session_name u) \<subseteq> Collect session_char"
  using session_name_length [of u] session_name_chars [of _ u]
  by (auto simp: vend_credentials_def Let_def MAX_SESSION_POLICY_CHARS_def CREDENTIALS_TTL_SECONDS_def)

end
