(* ===== verification/Keycloak.thy ===== *)
theory Keycloak
  imports X_Authz Complex_Main
begin

text \<open>
  The Keycloak token validator, which both services carry line for line (\<open>api/src/auth.py\<close>,
  \<open>xpublish-api/src/auth.py\<close>): the settings it reads, its two caches, the choice of the signing
  key, and the translation of failures.  Only the identity made of the claims differs and is
  an argument.  A validation is one step here; \<open>Keycloak_Async\<close> interleaves them.  HTTP, the JWT library and the clock are parameters: \<open>http\<close> is one GET with
  \<open>raise_for_status\<close> and \<open>json\<close>, \<open>unverified_header\<close> and \<open>jwt_decode_rs256\<close> are PyJWT's calls, times are
  readings of \<open>time.time()\<close>.
\<close>

section \<open>Settings\<close>

type_synonym env = "string \<Rightarrow> string option"

definition env_text :: "env \<Rightarrow> string \<Rightarrow> string \<Rightarrow> string" where
  "env_text env key dflt = (case env key of Some v \<Rightarrow> v | None \<Rightarrow> dflt)"

definition env_int :: "env \<Rightarrow> string \<Rightarrow> string \<Rightarrow> exn + int" where
  "env_int env key dflt = py_int (env_text env key dflt)"

record KeycloakConfig =
  KEYCLOAK_ISSUER_URL :: string
  KEYCLOAK_JWKS_URL :: string
  KEYCLOAK_ALLOWED_AUDIENCES :: string

section \<open>Helpers\<close>

fun to_list :: "json \<Rightarrow> string list" where
  "to_list JNull = []"
| "to_list (JList vs) = map py_str vs"
| "to_list v = [py_str v]"

definition allowed_audiences :: "'c KeycloakConfig_scheme \<Rightarrow> string list" where
  "allowed_audiences cfg =
     map strip (filter (\<lambda>a. strip a \<noteq> []) (split_on (CHR '','') (KEYCLOAK_ALLOWED_AUDIENCES cfg)))"

section \<open>The validator and its caches\<close>

record Validator =
  jwks_cache :: "json option"
  jwks_cache_time :: rat
  jwks_url_cache :: "string option"
  jwks_url_cache_time :: rat

definition init_validator :: Validator where
  "init_validator =
     \<lparr>jwks_cache = None, jwks_cache_time = 0, jwks_url_cache = None, jwks_url_cache_time = 0\<rparr>"

definition JWKS_CACHE_TTL :: rat where
  "JWKS_CACHE_TTL = 300"

definition JWKS_URL_CACHE_TTL :: rat where
  "JWKS_URL_CACHE_TTL = 3600"

definition jwks_fresh :: "Validator \<Rightarrow> rat \<Rightarrow> json option" where
  "jwks_fresh v now =
     (case jwks_cache v of
        Some j \<Rightarrow> if truthy j \<and> now - jwks_cache_time v < JWKS_CACHE_TTL then Some j else None
      | None \<Rightarrow> None)"

definition jwks_url_fresh :: "Validator \<Rightarrow> rat \<Rightarrow> string option" where
  "jwks_url_fresh v now =
     (case jwks_url_cache v of
        Some u \<Rightarrow> if u \<noteq> [] \<and> now - jwks_url_cache_time v < JWKS_URL_CACHE_TTL then Some u else None
      | None \<Rightarrow> None)"

type_synonym http = "string \<Rightarrow> exn + json"

text \<open>
  \<open>data["jwks_uri"]\<close>: a missing key is a \<open>KeyError\<close>, a body that is no object a
  \<open>TypeError\<close>; discovery documents give the address as a string.
\<close>

fun jwks_uri_of :: "json \<Rightarrow> exn + string" where
  "jwks_uri_of (JObj kvs) =
     (case dict_get kvs ''jwks_uri'' of Some v \<Rightarrow> Inr (py_str v) | None \<Rightarrow> Inl (KeyError ''jwks_uri''))"
| "jwks_uri_of _ = Inl TypeError"

definition get_jwks_url :: "'c KeycloakConfig_scheme \<Rightarrow> http \<Rightarrow> rat \<Rightarrow> Validator \<Rightarrow> (exn + string) \<times> Validator" where
  "get_jwks_url cfg http now v =
     (if KEYCLOAK_JWKS_URL cfg \<noteq> [] then (Inr (KEYCLOAK_JWKS_URL cfg), v)
      else case jwks_url_fresh v now of
        Some u \<Rightarrow> (Inr u, v)
      | None \<Rightarrow>
          (case andthen (http (KEYCLOAK_ISSUER_URL cfg @ ''/.well-known/openid-configuration''))
                  jwks_uri_of of
             Inl e \<Rightarrow> (Inl e, v)
           | Inr u \<Rightarrow> (Inr u, v\<lparr>jwks_url_cache := Some u, jwks_url_cache_time := now\<rparr>)))"

text \<open>The part of \<open>_get_jwks\<close> under the refresh lock, with its second look at the cache.\<close>

definition get_jwks_locked ::
  "'c KeycloakConfig_scheme \<Rightarrow> http \<Rightarrow> rat \<Rightarrow> rat \<Rightarrow> Validator \<Rightarrow> (exn + json) \<times> Validator"
where
  "get_jwks_locked cfg http now now_url v =
     (case jwks_fresh v now of
        Some j \<Rightarrow> (Inr j, v)
      | None \<Rightarrow>
          (case get_jwks_url cfg http now_url v of
             (Inl e, v') \<Rightarrow> (Inl e, v')
           | (Inr url, v') \<Rightarrow>
               (case http url of
                  Inl e \<Rightarrow> (Inl e, v')
                | Inr j \<Rightarrow> (Inr j, v'\<lparr>jwks_cache := Some j, jwks_cache_time := now\<rparr>))))"

text \<open>The readings of the clock one \<open>_get_jwks\<close> makes: before the lock, under it, for the address.\<close>

record clock =
  t_first :: rat
  t_locked :: rat
  t_url :: rat

definition get_jwks :: "'c KeycloakConfig_scheme \<Rightarrow> http \<Rightarrow> clock \<Rightarrow> Validator \<Rightarrow> (exn + json) \<times> Validator" where
  "get_jwks cfg http t v =
     (case jwks_fresh v (t_first t) of
        Some j \<Rightarrow> (Inr j, v)
      | None \<Rightarrow> get_jwks_locked cfg http (t_locked t) (t_url t) v)"

text \<open>
  \<open>next((k for k in jwks.get("keys", []) if k.get("kid") == kid), None)\<close>.  Iterating over
  anything but a list, and \<open>get\<close> on anything but an object, raises.
\<close>

fun find_kid :: "json \<Rightarrow> json list \<Rightarrow> exn + json option" where
  "find_kid kid [] = Inr None"
| "find_kid kid (k # ks) =
     andthen (json_get k ''kid'') (\<lambda>v. if v = kid then Inr (Some k) else find_kid kid ks)"

definition find_key :: "json \<Rightarrow> json \<Rightarrow> exn + json option" where
  "find_key kid jwks =
     andthen (json_get_or jwks ''keys'' (JList [])) (\<lambda>ks.
       case ks of JList xs \<Rightarrow> find_kid kid xs | _ \<Rightarrow> Inl TypeError)"

record jwt_lib =
  unverified_header :: "string \<Rightarrow> exn + json"
  jwt_decode_rs256 :: "string \<Rightarrow> json \<Rightarrow> string \<Rightarrow> exn + json"

text \<open>The signing key: cached keys first; a miss drops the cache and fetches once more.\<close>

definition signing_key ::
  "'c KeycloakConfig_scheme \<Rightarrow> http \<Rightarrow> http \<Rightarrow> clock \<Rightarrow> clock \<Rightarrow> json \<Rightarrow> Validator \<Rightarrow> (exn + json option) \<times> Validator"
where
  "signing_key cfg http1 http2 t1 t2 kid v =
     (case get_jwks cfg http1 t1 v of
        (Inl e, v1) \<Rightarrow> (Inl e, v1)
      | (Inr jwks, v1) \<Rightarrow>
          (case find_key kid jwks of
             Inl e \<Rightarrow> (Inl e, v1)
           | Inr (Some k) \<Rightarrow> (Inr (Some k), v1)
           | Inr None \<Rightarrow>
               (case get_jwks cfg http2 t2 (v1\<lparr>jwks_cache := None\<rparr>) of
                  (Inl e, v2) \<Rightarrow> (Inl e, v2)
                | (Inr jwks2, v2) \<Rightarrow> (find_key kid jwks2, v2))))"

section \<open>Claims\<close>

definition audience_ok :: "'c KeycloakConfig_scheme \<Rightarrow> json \<Rightarrow> json \<Rightarrow> bool" where
  "audience_ok cfg aud azp \<longleftrightarrow>
     (let allowed = allowed_audiences cfg
      in allowed = [] \<or> list_ex (\<lambda>a. a \<in> set allowed) (to_list aud) \<or>
         (case as_string azp of Some s \<Rightarrow> s \<in> set allowed | None \<Rightarrow> False))"

text \<open>
  \<open>claims.get("scope", "").split() if claims.get("scope") else []\<close>: a truthy scope that is
  no string has no \<open>split\<close>.
\<close>

definition scopes_of :: "json \<Rightarrow> exn + string list" where
  "scopes_of sc =
     (if truthy sc then (case sc of JStr s \<Rightarrow> Inr (split_blank s) | _ \<Rightarrow> Inl AttributeError) else Inr [])"

text \<open>
  \<open>realm_access.roles\<close> as Keycloak issues it, a list; only its strings can equal a role name.
  Both services would keep a claim of another shape as it is: that is outside the model, which
  reads it as no roles.
\<close>

fun strings_in :: "json \<Rightarrow> string list" where
  "strings_in (JList vs) = map (the \<circ> as_string) (filter (\<lambda>v. as_string v \<noteq> None) vs)"
| "strings_in _ = []"

definition roles_of_claims :: "json \<Rightarrow> exn + string list" where
  "roles_of_claims claims =
     andthen (json_get_or claims ''realm_access'' (JObj [])) (\<lambda>ra.
     andthen (json_get_or ra ''roles'' (JList [])) (\<lambda>rs. Inr (strings_in rs)))"

text \<open>The two \<open>except\<close> clauses of \<open>validate\<close>: connectivity is 503, a bad token 401.\<close>

fun validate_error :: "exn \<Rightarrow> exn" where
  "validate_error HTTPXError =
     HTTPException 503 (DText ''Authentication provider temporarily unavailable'')"
| "validate_error PyJWTError = HTTPException 401 (DText ''Invalid access token'')"
| "validate_error e = e"

definition validate_body ::
  "'c KeycloakConfig_scheme \<Rightarrow> (json \<Rightarrow> exn + 'u) \<Rightarrow> jwt_lib \<Rightarrow> http \<Rightarrow> http \<Rightarrow> clock \<Rightarrow> clock \<Rightarrow> string \<Rightarrow> Validator
     \<Rightarrow> (exn + 'u) \<times> Validator"
where
  "validate_body cfg of_claims lib http1 http2 t1 t2 token v =
     (case andthen (unverified_header lib token) (\<lambda>h. json_get h ''kid'') of
        Inl e \<Rightarrow> (Inl e, v)
      | Inr kid \<Rightarrow>
          if \<not> truthy kid then (Inl (HTTPException 401 (DText ''JWT missing key id'')), v)
          else
            (case signing_key cfg http1 http2 t1 t2 kid v of
               (Inl e, v') \<Rightarrow> (Inl e, v')
             | (Inr None, v') \<Rightarrow> (Inl (HTTPException 401 (DText ''Unable to find signing key'')), v')
             | (Inr (Some key), v') \<Rightarrow>
                 (andthen (jwt_decode_rs256 lib token key (KEYCLOAK_ISSUER_URL cfg)) of_claims, v')))"

definition validate_with ::
  "'c KeycloakConfig_scheme \<Rightarrow> (json \<Rightarrow> exn + 'u) \<Rightarrow> jwt_lib \<Rightarrow> http \<Rightarrow> http \<Rightarrow> clock \<Rightarrow> clock \<Rightarrow> string \<Rightarrow> Validator
     \<Rightarrow> (exn + 'u) \<times> Validator"
where
  "validate_with cfg of_claims lib http1 http2 t1 t2 token v =
     (case validate_body cfg of_claims lib http1 http2 t1 t2 token v of
        (Inl e, v') \<Rightarrow> (Inl (validate_error e), v')
      | (Inr u, v') \<Rightarrow> (Inr u, v'))"

section \<open>The bearer token of a header\<close>

definition bearer_token :: "string \<Rightarrow> string option" where
  "bearer_token hdr =
     (if starts_with (lower hdr) ''bearer '' then Some (strip (after_first (CHR '' '') hdr)) else None)"

section \<open>The caches as instances of the cache interface\<close>

definition http_of_url :: "exn + string \<Rightarrow> http" where
  "http_of_url r url = andthen r (\<lambda>u. Inr (JObj [(''jwks_uri'', JStr u)]))"

interpretation jwks_url: memo_cache
  jwks_url_fresh
  "\<lambda>v t u. v\<lparr>jwks_url_cache := Some u, jwks_url_cache_time := t\<rparr>"
  "\<lambda>u. u \<noteq> []"
  JWKS_URL_CACHE_TTL
  "\<lambda>r. get_jwks_url (cfg\<lparr>KEYCLOAK_JWKS_URL := []\<rparr>) (http_of_url r)"
  for cfg :: "'c KeycloakConfig_scheme"
  by unfold_locales
    (auto simp: jwks_url_fresh_def get_jwks_url_def http_of_url_def)

definition at_time :: "rat \<Rightarrow> clock" where
  "at_time t = \<lparr>t_first = t, t_locked = t, t_url = t\<rparr>"

interpretation jwks: memo_cache
  jwks_fresh
  "\<lambda>v t j. v\<lparr>jwks_cache := Some j, jwks_cache_time := t\<rparr>"
  truthy
  JWKS_CACHE_TTL
  "\<lambda>r t. get_jwks (cfg\<lparr>KEYCLOAK_JWKS_URL := CHR ''h'' # u\<rparr>) (\<lambda>_. r) (at_time t)"
  for cfg :: "'c KeycloakConfig_scheme" and u :: string
  by unfold_locales
    (auto simp: jwks_fresh_def get_jwks_def get_jwks_locked_def get_jwks_url_def at_time_def)

section \<open>Where an accepted key comes from\<close>

lemma find_kid_Inr:
  "find_kid kid ks = Inr (Some k) \<Longrightarrow> k \<in> set ks \<and> json_get k ''kid'' = Inr kid"
  by (induction ks) (auto simp: andthen_Inr_iff split: if_splits)

lemma find_key_Inr:
  "find_key kid jwks = Inr (Some k) \<Longrightarrow>
   (\<exists>ks. json_get_or jwks ''keys'' (JList []) = Inr (JList ks) \<and> k \<in> set ks) \<and> json_get k ''kid'' = Inr kid"
  unfolding find_key_def andthen_Inr_iff
  by (elim exE conjE) (auto split: json.split_asm dest: find_kid_Inr)

text \<open>
  The world the validator asks: \<open>net url\<close> are the bodies that address may answer with, at any
  time.  The identity provider's key addresses are the configured one, or else those its
  discovery documents name, under the issuer; its key sets are what those answer with.
\<close>

type_synonym network = "string \<Rightarrow> json set"

definition answers_from :: "network \<Rightarrow> http \<Rightarrow> bool" where
  "answers_from net http \<longleftrightarrow> (\<forall>url j. http url = Inr j \<longrightarrow> j \<in> net url)"

definition named_addresses :: "'c KeycloakConfig_scheme \<Rightarrow> network \<Rightarrow> string set" where
  "named_addresses cfg net =
     {url. \<exists>doc \<in> net (KEYCLOAK_ISSUER_URL cfg @ ''/.well-known/openid-configuration''). jwks_uri_of doc = Inr url}"

definition key_addresses :: "'c KeycloakConfig_scheme \<Rightarrow> network \<Rightarrow> string set" where
  "key_addresses cfg net =
     (if KEYCLOAK_JWKS_URL cfg \<noteq> [] then {KEYCLOAK_JWKS_URL cfg} else named_addresses cfg net)"

definition provider_key_sets :: "'c KeycloakConfig_scheme \<Rightarrow> network \<Rightarrow> json set" where
  "provider_key_sets cfg net = (\<Union>url \<in> key_addresses cfg net. net url)"

text \<open>Both caches hold only what came from there.\<close>

definition caches_from :: "'c KeycloakConfig_scheme \<Rightarrow> network \<Rightarrow> Validator \<Rightarrow> bool" where
  "caches_from cfg net v \<longleftrightarrow>
     (\<forall>j. jwks_cache v = Some j \<longrightarrow> j \<in> provider_key_sets cfg net) \<and>
     (\<forall>url. jwks_url_cache v = Some url \<longrightarrow> url \<in> named_addresses cfg net)"

lemma get_jwks_url_from:
  assumes "get_jwks_url cfg http now v = (r, v')" "answers_from net http" "caches_from cfg net v"
  shows "caches_from cfg net v' \<and> (\<forall>url. r = Inr url \<longrightarrow> url \<in> key_addresses cfg net)"
  using assms
  by (auto simp: get_jwks_url_def jwks_url_fresh_def caches_from_def key_addresses_def named_addresses_def
      answers_from_def andthen_Inr_iff split: if_split_asm option.split_asm sum.split_asm)

lemma get_jwks_locked_from:
  assumes "get_jwks_locked cfg http now now_url v = (r, v')" "answers_from net http" "caches_from cfg net v"
  shows "caches_from cfg net v' \<and> (\<forall>j. r = Inr j \<longrightarrow> j \<in> provider_key_sets cfg net)"
proof (cases "jwks_fresh v now")
  case (Some j)
  with assms show ?thesis
    by (auto simp: get_jwks_locked_def jwks_fresh_def caches_from_def split: option.split_asm if_split_asm)
next
  case None
  obtain x v1 where u: "get_jwks_url cfg http now_url v = (x, v1)" by (cases "get_jwks_url cfg http now_url v")
  note from_url = get_jwks_url_from [OF u assms(2,3)]
  show ?thesis
  proof (cases x)
    case (Inl e)
    with assms(1) None u from_url show ?thesis by (auto simp: get_jwks_locked_def)
  next
    case (Inr url)
    with from_url have url: "url \<in> key_addresses cfg net" "caches_from cfg net v1" by simp_all
    have "j \<in> provider_key_sets cfg net" if "http url = Inr j" for j
      using that url(1) assms(2) by (auto simp: provider_key_sets_def answers_from_def)
    with assms(1) None u Inr url(2) show ?thesis
      by (auto simp: get_jwks_locked_def caches_from_def split: sum.split_asm)
  qed
qed

lemma get_jwks_from:
  assumes "get_jwks cfg http t v = (r, v')" "answers_from net http" "caches_from cfg net v"
  shows "caches_from cfg net v' \<and> (\<forall>j. r = Inr j \<longrightarrow> j \<in> provider_key_sets cfg net)"
proof (cases "jwks_fresh v (t_first t)")
  case (Some j)
  with assms show ?thesis
    by (auto simp: get_jwks_def jwks_fresh_def caches_from_def split: option.split_asm if_split_asm)
next
  case None
  with assms get_jwks_locked_from [OF _ assms(2,3)] show ?thesis by (simp add: get_jwks_def)
qed

lemma signing_key_from:
  assumes "signing_key cfg http1 http2 t1 t2 kid v = (r, v')"
    and "answers_from net http1" "answers_from net http2" "caches_from cfg net v"
  shows "caches_from cfg net v' \<and>
    (\<forall>k. r = Inr (Some k) \<longrightarrow> (\<exists>j \<in> provider_key_sets cfg net. find_key kid j = Inr (Some k)))"
proof -
  obtain x v1 where g: "get_jwks cfg http1 t1 v = (x, v1)" by (cases "get_jwks cfg http1 t1 v")
  note first = get_jwks_from [OF g assms(2,4)]
  show ?thesis
  proof (cases "\<exists>j. x = Inr j \<and> find_key kid j = Inr None")
    case False
    with assms(1) g first show ?thesis
      by (auto simp: signing_key_def split: sum.split_asm option.split_asm)
  next
    case True
    then obtain j where j: "x = Inr j" "find_key kid j = Inr None" by blast
    obtain y v2 where h: "get_jwks cfg http2 t2 (v1\<lparr>jwks_cache := None\<rparr>) = (y, v2)"
      by (cases "get_jwks cfg http2 t2 (v1\<lparr>jwks_cache := None\<rparr>)")
    have "caches_from cfg net (v1\<lparr>jwks_cache := None\<rparr>)" using first by (simp add: caches_from_def)
    from get_jwks_from [OF h assms(3) this] assms(1) g j h show ?thesis
      by (auto simp: signing_key_def split: sum.split_asm)
  qed
qed

lemma validate_with_from:
  assumes "validate_with cfg of_claims lib http1 http2 t1 t2 token v = (r, v')"
    and "answers_from net http1" "answers_from net http2" "caches_from cfg net v"
  shows "caches_from cfg net v'"
  using assms signing_key_from [OF _ assms(2-4)]
  by (auto simp: validate_with_def validate_body_def split: prod.split_asm sum.split_asm if_split_asm option.split_asm)

lemma validate_with_claims:
  "validate_with cfg of_claims lib http1 http2 t1 t2 token v = (Inr u, v') \<Longrightarrow> \<exists>claims. of_claims claims = Inr u"
  by (auto simp: validate_with_def validate_body_def andthen_Inr_iff
      split: prod.split_asm sum.split_asm if_split_asm option.split_asm)

text \<open>What stands behind an identity, whatever is made of the claims.\<close>

lemma validate_with_Inr:
  assumes "validate_with cfg of_claims lib http1 http2 t1 t2 token v = (Inr u, v')"
    and "answers_from net http1" "answers_from net http2" "caches_from cfg net v"
  shows "\<exists>kid jwks keys key claims.
    andthen (unverified_header lib token) (\<lambda>h. json_get h ''kid'') = Inr kid \<and> truthy kid \<and>
    jwks \<in> provider_key_sets cfg net \<and>
    json_get_or jwks ''keys'' (JList []) = Inr (JList keys) \<and> key \<in> set keys \<and>
    json_get key ''kid'' = Inr kid \<and>
    jwt_decode_rs256 lib token key (KEYCLOAK_ISSUER_URL cfg) = Inr claims \<and> of_claims claims = Inr u"
proof -
  have "validate_body cfg of_claims lib http1 http2 t1 t2 token v = (Inr u, v')"
    using assms(1) by (auto simp: validate_with_def split: prod.splits sum.splits)
  then obtain kid key claims where
    kid: "andthen (unverified_header lib token) (\<lambda>h. json_get h ''kid'') = Inr kid" "truthy kid"
    and key: "signing_key cfg http1 http2 t1 t2 kid v = (Inr (Some key), v')"
    and claims: "jwt_decode_rs256 lib token key (KEYCLOAK_ISSUER_URL cfg) = Inr claims" "of_claims claims = Inr u"
    by (auto simp: validate_body_def andthen_Inr_iff split: sum.splits prod.splits option.splits if_splits)
  from signing_key_from [OF key assms(2-4)] obtain j where
    j: "j \<in> provider_key_sets cfg net" "find_key kid j = Inr (Some key)" by blast
  from find_key_Inr [OF j(2)] obtain ks where
    ks: "json_get_or j ''keys'' (JList []) = Inr (JList ks)" "key \<in> set ks" "json_get key ''kid'' = Inr kid"
    by blast
  from kid j(1) ks claims show ?thesis by blast
qed

section \<open>A sample token\<close>

definition sample_key :: json where
  "sample_key = JObj [(''kid'', JStr ''k1'')]"

definition sample_claims :: json where
  "sample_claims = JObj [(''sub'', JStr ''alice''), (''azp'', JStr ''teehr-api''),
     (''realm_access'', JObj [(''roles'', JList [JStr ''basic-user''])])]"

definition sample_lib :: jwt_lib where
  "sample_lib = \<lparr>unverified_header = (\<lambda>_. Inr (JObj [(''kid'', JStr ''k1'')])),
                 jwt_decode_rs256 = (\<lambda>_ key _. if key = sample_key then Inr sample_claims else Inl PyJWTError)\<rparr>"

definition sample_jwks :: json where
  "sample_jwks = JObj [(''keys'', JList [sample_key])]"

end
