(* ===== verification/Session_Store.thy ===== *)
theory Session_Store
  imports Api_Config
begin

text \<open>
  The delegated sessions (\<open>api/src/delegated_session_store.py\<close>): one row per session id, the
  refresh token encrypted at rest.  Fernet is a parameter; a session as the callers see it
  is the row with its token decrypted.  The statements act on the dictionary of the rows.
\<close>

record fernet_lib =
  fernet_encrypt :: "string \<Rightarrow> string \<Rightarrow> string"
  fernet_decrypt :: "string \<Rightarrow> exn + string"

text \<open>The documented law of Fernet: decryption inverts encryption, whatever the nonce.\<close>

definition fernet_ok :: "fernet_lib \<Rightarrow> bool" where
  "fernet_ok fl \<longleftrightarrow> (\<forall>nonce x. fernet_decrypt fl (fernet_encrypt fl nonce x) = Inr x)"

record session =
  sn_subject :: string
  sn_user_id :: string
  sn_session_id :: string
  sn_realm :: string
  sn_catalog :: string
  sn_audience :: string
  sn_refresh_token :: string
  sn_expires_at :: int

record SessionStore =
  ss_pool :: bool
  ss_table :: "(string, session) dict option"

definition store_not_initialized :: exn where
  "store_not_initialized = RuntimeError ''Delegated session store is not initialized''"

definition store_startup :: "SessionStore \<Rightarrow> SessionStore" where
  "store_startup st =
     st\<lparr>ss_pool := True, ss_table := Some (case ss_table st of None \<Rightarrow> [] | Some t \<Rightarrow> t)\<rparr>"

text \<open>
  \<open>datetime.fromtimestamp(n, tz=UTC)\<close>: outside \<open>time_t\<close>, outside what \<open>gmtime\<close> converts,
  outside the years 1 to 9999.
\<close>

definition from_timestamp :: "int \<Rightarrow> exn + int" where
  "from_timestamp n =
     (if n < - (2 ^ 63) \<or> 2 ^ 63 \<le> n then Inl OverflowError
      else if n < - 67768040609740800 \<or> 67768036191676799 < n then Inl OSError
      else if n < - 62135596800 \<or> 253402300799 < n then Inl (ValueError ''year is out of range'')
      else Inr n)"

section \<open>The statements\<close>

definition upsert_session ::
  "fernet_lib \<Rightarrow> string \<Rightarrow> string \<Rightarrow> session \<Rightarrow> (string, session) dict \<Rightarrow> (string, session) dict"
where
  "upsert_session fl nonce sid s t =
     dict_set t sid (s\<lparr>sn_refresh_token := fernet_encrypt fl nonce (sn_refresh_token s)\<rparr>)"

definition set_refresh_token ::
  "string \<Rightarrow> string \<Rightarrow> (string, session) dict \<Rightarrow> (string, session) dict"
where
  "set_refresh_token sid stored t =
     (case dict_get t sid of None \<Rightarrow> t | Some s \<Rightarrow> dict_set t sid (s\<lparr>sn_refresh_token := stored\<rparr>))"

text \<open>Every method first looks at the pool; without the table every statement fails.\<close>

definition on_sessions ::
  "SessionStore \<Rightarrow> ((string, session) dict \<Rightarrow> (exn + 'a) \<times> (string, session) dict)
     \<Rightarrow> (exn + 'a) \<times> SessionStore"
where
  "on_sessions st f =
     (if \<not> ss_pool st then (Inl store_not_initialized, st)
      else case ss_table st of
        None \<Rightarrow> (Inl (DatabaseError ''delegated_sessions''), st)
      | Some t \<Rightarrow> (case f t of (r, t') \<Rightarrow> (r, st\<lparr>ss_table := Some t'\<rparr>)))"

definition put_session ::
  "fernet_lib \<Rightarrow> string \<Rightarrow> string \<Rightarrow> session \<Rightarrow> SessionStore \<Rightarrow> (exn + unit) \<times> SessionStore"
where
  "put_session fl nonce sid s st =
     (if \<not> ss_pool st then (Inl store_not_initialized, st)
      else case from_timestamp (sn_expires_at s) of
        Inl e \<Rightarrow> (Inl e, st)
      | Inr expires_at \<Rightarrow>
          on_sessions st (\<lambda>t.
            (Inr (), upsert_session fl nonce sid (s\<lparr>sn_expires_at := expires_at\<rparr>) t)))"

definition get_session ::
  "fernet_lib \<Rightarrow> string \<Rightarrow> SessionStore \<Rightarrow> (exn + (string \<times> session) option) \<times> SessionStore"
where
  "get_session fl sid st =
     on_sessions st (\<lambda>t.
       (case dict_get t sid of
          None \<Rightarrow> Inr None
        | Some s \<Rightarrow>
            andthen (fernet_decrypt fl (sn_refresh_token s)) (\<lambda>token.
              Inr (Some (sid, s\<lparr>sn_refresh_token := token\<rparr>))), t))"

definition update_refresh_token ::
  "fernet_lib \<Rightarrow> string \<Rightarrow> string \<Rightarrow> string \<Rightarrow> SessionStore \<Rightarrow> (exn + unit) \<times> SessionStore"
where
  "update_refresh_token fl nonce sid token st =
     on_sessions st (\<lambda>t. (Inr (), set_refresh_token sid (fernet_encrypt fl nonce token) t))"

definition delete_session :: "string \<Rightarrow> SessionStore \<Rightarrow> (exn + unit) \<times> SessionStore" where
  "delete_session sid st = on_sessions st (\<lambda>t. (Inr (), dict_pop t sid))"

section \<open>Sessions as the callers see them\<close>

definition session_at ::
  "fernet_lib \<Rightarrow> (string, session) dict \<Rightarrow> string \<Rightarrow> session option"
where
  "session_at fl t sid =
     (case dict_get t sid of
        None \<Rightarrow> None
      | Some s \<Rightarrow>
          (case fernet_decrypt fl (sn_refresh_token s) of
             Inl e \<Rightarrow> None
           | Inr token \<Rightarrow> Some (s\<lparr>sn_refresh_token := token\<rparr>)))"

text \<open>With Fernet's law the encrypted table is a keyed store of the plain sessions.\<close>

lemma sessions_keyed_store:
  "fernet_ok fl \<Longrightarrow>
   keyed_store (session_at fl) (\<lambda>t sid s. upsert_session fl nonce sid s t) dict_pop dict_ok"
  by unfold_locales (auto simp: session_at_def upsert_session_def fernet_ok_def)

lemmas session_after_put = keyed_store.lookup_insert [OF sessions_keyed_store]
lemmas session_after_delete = keyed_store.lookup_remove [OF sessions_keyed_store]

lemma session_after_rotation:
  "fernet_ok fl \<Longrightarrow> session_at fl t sid = Some s \<Longrightarrow>
   session_at fl (set_refresh_token sid (fernet_encrypt fl nonce x) t) sid =
     Some (s\<lparr>sn_refresh_token := x\<rparr>)"
  by (auto simp: session_at_def set_refresh_token_def fernet_ok_def split: option.splits sum.splits)

lemma session_other_rotation:
  "sid' \<noteq> sid \<Longrightarrow> session_at fl (set_refresh_token sid x t) sid' = session_at fl t sid'"
  by (auto simp: session_at_def set_refresh_token_def split: option.splits)

lemma dict_ok_set_refresh_token: "dict_ok t \<Longrightarrow> dict_ok (set_refresh_token sid x t)"
  by (auto simp: set_refresh_token_def split: option.splits)

definition sessions_of :: "SessionStore \<Rightarrow> (string, session) dict" where
  "sessions_of st = (case ss_table st of None \<Rightarrow> [] | Some t \<Rightarrow> t)"

definition sessions_ok :: "SessionStore \<Rightarrow> bool" where
  "sessions_ok st \<longleftrightarrow> ss_pool st \<and> ss_table st \<noteq> None \<and> dict_ok (sessions_of st)"

lemma on_sessions_ok:
  "sessions_ok st \<Longrightarrow> on_sessions st f =
     (fst (f (sessions_of st)), st\<lparr>ss_table := Some (snd (f (sessions_of st)))\<rparr>)"
  by (auto simp: sessions_ok_def on_sessions_def sessions_of_def split: option.splits prod.splits)

lemma sessions_of_update [simp]: "sessions_of (st\<lparr>ss_table := Some t\<rparr>) = t"
  by (simp add: sessions_of_def)

lemma get_session_state: "snd (get_session fl sid st) = st"
  by (cases st) (auto simp: get_session_def on_sessions_def split: option.splits)

lemma get_session_found:
  "fst (get_session fl sid st) = Inr (Some (i, s)) \<Longrightarrow>
   i = sid \<and> ss_pool st \<and> session_at fl (sessions_of st) sid = Some s"
  by (auto simp: get_session_def on_sessions_def session_at_def sessions_of_def andthen_Inr_iff
      split: if_splits option.splits)

lemma get_session_ok:
  "sessions_ok st \<Longrightarrow> session_at fl (sessions_of st) sid = Some s \<Longrightarrow>
   get_session fl sid st = (Inr (Some (sid, s)), st)"
  by (cases st) (auto simp: get_session_def on_sessions_ok session_at_def sessions_of_def
      sessions_ok_def split: option.splits sum.splits)

end
