(* ===== verification/Broker.thy ===== *)
theory Broker
  imports Session_Store X_Authz
begin

text \<open>
  The Polaris token broker (\<open>api/src/broker.py\<close>): the token exchange, the refresh of a
  delegated subject's token, the creation of a broker session and the exchange through
  one.  The HTTP client, PyJWT, Fernet, the UUIDs and the readings of the clock (whole
  seconds, as the code truncates them) are parameters.
\<close>

definition TOKEN_EXCHANGE_GRANT :: string where
  "TOKEN_EXCHANGE_GRANT = ''urn:ietf:params:oauth:grant-type:token-exchange''"

definition ACCESS_TOKEN_TYPE :: string where
  "ACCESS_TOKEN_TYPE = ''urn:ietf:params:oauth:token-type:access_token''"

text \<open>An answer: its status, what \<open>json()\<close> makes of it (\<open>ValueError\<close> when it is not JSON), its text.\<close>

record http_response =
  hr_status :: int
  hr_json :: "exn + json"
  hr_text :: string

type_synonym form = "(string \<times> string) list"

text \<open>
  The libraries: \<open>bl_post\<close> posts a form (\<open>HTTPXError\<close> on failure), \<open>bl_sign\<close> and \<open>bl_verify\<close> are
  HS256 \<open>encode\<close> and \<open>decode\<close> under a secret, the latter at a time since it checks \<open>exp\<close>, \<open>bl_unverified\<close> reads
  the claims of a token without checking it.
\<close>

record broker_lib =
  bl_post :: "string \<Rightarrow> form \<Rightarrow> exn + http_response"
  bl_sign :: "string \<Rightarrow> json \<Rightarrow> string"
  bl_verify :: "int \<Rightarrow> string \<Rightarrow> string \<Rightarrow> exn + json"
  bl_unverified :: "json \<Rightarrow> exn + json"
  bl_fernet :: fernet_lib

definition clamp_requested_ttl :: "Config \<Rightarrow> int option \<Rightarrow> int" where
  "clamp_requested_ttl cfg requested_ttl =
     (let requested = (case requested_ttl of
                         Some n \<Rightarrow> if n \<noteq> 0 then n else BROKER_MAX_TTL_SECONDS cfg
                       | None \<Rightarrow> BROKER_MAX_TTL_SECONDS cfg)
      in max (BROKER_MIN_TTL_SECONDS cfg) (min requested (BROKER_MAX_TTL_SECONDS cfg)))"

record broker_token =
  bt_access_token :: json
  bt_token_type :: json
  bt_expires_in_seconds :: int
  bt_expires_at_epoch_seconds :: int
  bt_trace_id :: string

text \<open>
  The \<open>exp\<close> claim where it can be read and is positive, otherwise the time given.  Errors of
  the JWT library and of the conversion are passed over, others are not.
\<close>

definition expiry_of_token :: "broker_lib \<Rightarrow> json \<Rightarrow> int \<Rightarrow> exn + int" where
  "expiry_of_token lib token fallback =
     (case andthen (bl_unverified lib token) (\<lambda>claims.
             andthen (json_get_or claims ''exp'' (JInt 0)) int_of_json) of
        Inr e \<Rightarrow> Inr (if 0 < e then e else fallback)
      | Inl PyJWTError \<Rightarrow> Inr fallback
      | Inl (ValueError m) \<Rightarrow> Inr fallback
      | Inl TypeError \<Rightarrow> Inr fallback
      | Inl e \<Rightarrow> Inl e)"

section \<open>Token exchange\<close>

definition exchange_form :: "Config \<Rightarrow> string \<Rightarrow> string \<Rightarrow> form" where
  "exchange_form cfg subject_token aud =
     [(''grant_type'', TOKEN_EXCHANGE_GRANT),
      (''client_id'', BROKER_OAUTH_CLIENT_ID cfg),
      (''subject_token'', subject_token),
      (''subject_token_type'', ACCESS_TOKEN_TYPE),
      (''requested_token_type'', ACCESS_TOKEN_TYPE),
      (''audience'', aud),
      (''scope'', BROKER_DEFAULT_SCOPE cfg)] @
     (if BROKER_OAUTH_CLIENT_SECRET cfg \<noteq> []
      then [(''client_secret'', BROKER_OAUTH_CLIENT_SECRET cfg)] else [])"

text \<open>The error the identity provider named, read from its JSON or, failing that, its text.\<close>

definition upstream_error :: "http_response \<Rightarrow> exn + json \<times> json" where
  "upstream_error r =
     (case hr_json r of
        Inr p \<Rightarrow>
          andthen (json_get p ''error'') (\<lambda>e.
          andthen (json_get p ''error_description'') (\<lambda>d. Inr (e, d)))
      | Inl (ValueError m) \<Rightarrow> Inr (JNull, JStr (take 500 (hr_text r)))
      | Inl e \<Rightarrow> Inl e)"

definition exchange_failed :: "string \<Rightarrow> int \<Rightarrow> json \<Rightarrow> json \<Rightarrow> exn" where
  "exchange_failed trace_id status err descr =
     HTTPException 502 (DJson (JObj
       [(''error'', JStr ''token_exchange_failed''),
        (''message'', JStr ''Broker failed to exchange token with identity provider''),
        (''trace_id'', JStr trace_id),
        (''upstream_status'', JInt status),
        (''upstream_error'', err),
        (''upstream_error_description'', descr)]))"

text \<open>The body of the \<open>try\<close>: \<open>now1\<close> and \<open>now2\<close> are its two readings of the clock.\<close>

definition exchange_body ::
  "Config \<Rightarrow> broker_lib \<Rightarrow> string \<Rightarrow> int \<Rightarrow> int \<Rightarrow> string \<Rightarrow> string \<Rightarrow> int \<Rightarrow> exn + broker_token"
where
  "exchange_body cfg lib trace_id now1 now2 subject_token aud clamped_ttl =
     andthen (bl_post lib (BROKER_TOKEN_ENDPOINT cfg) (exchange_form cfg subject_token aud)) (\<lambda>r.
       if 400 \<le> hr_status r then
         andthen (upstream_error r) (\<lambda>(e, d). Inl (exchange_failed trace_id (hr_status r) e d))
       else
         andthen (hr_json r) (\<lambda>payload.
         andthen (json_get payload ''access_token'') (\<lambda>access_token.
         if \<not> truthy access_token then
           Inl (HTTPException 502 (DJson (JObj
             [(''error'', JStr ''invalid_upstream_response''),
              (''message'', JStr ''Identity provider did not return access_token''),
              (''trace_id'', JStr trace_id)])))
         else
           andthen (andthen (json_get_or payload ''expires_in'' (JInt clamped_ttl)) int_of_json) (\<lambda>expires_in.
           andthen (expiry_of_token lib access_token (now1 + max expires_in 1)) (\<lambda>expires_at.
           andthen (json_get_or payload ''token_type'' (JStr ''Bearer'')) (\<lambda>token_type.
           Inr \<lparr>bt_access_token = access_token, bt_token_type = token_type,
                bt_expires_in_seconds = max (expires_at - now2) 1,
                bt_expires_at_epoch_seconds = expires_at, bt_trace_id = trace_id\<rparr>))))))"

definition exchange_token_for_polaris ::
  "Config \<Rightarrow> broker_lib \<Rightarrow> string \<Rightarrow> int \<Rightarrow> int \<Rightarrow> string \<Rightarrow> string \<Rightarrow> int option \<Rightarrow> exn + broker_token"
where
  "exchange_token_for_polaris cfg lib trace_id now1 now2 subject_token aud requested_ttl =
     (if \<not> BROKER_TOKEN_EXCHANGE_ENABLED cfg
      then Inl (HTTPException 503 (DText ''Token broker is disabled''))
      else
        (case exchange_body cfg lib trace_id now1 now2 subject_token aud
                (clamp_requested_ttl cfg requested_ttl) of
           Inl HTTPXError \<Rightarrow>
             Inl (HTTPException 503 (DJson (JObj
               [(''error'', JStr ''broker_connectivity_error''),
                (''message'', JStr ''Unable to contact identity provider for token exchange''),
                (''trace_id'', JStr trace_id)])))
         | r \<Rightarrow> r))"

section \<open>Refreshing a subject's token\<close>

definition refresh_form :: "Config \<Rightarrow> string \<Rightarrow> form" where
  "refresh_form cfg refresh_token =
     [(''grant_type'', ''refresh_token''),
      (''client_id'', BROKER_SUBJECT_CLIENT_ID cfg),
      (''refresh_token'', refresh_token)] @
     (if BROKER_SUBJECT_CLIENT_SECRET cfg \<noteq> []
      then [(''client_secret'', BROKER_SUBJECT_CLIENT_SECRET cfg)] else [])"

definition upstream_detail :: "http_response \<Rightarrow> exn + json" where
  "upstream_detail r =
     (case hr_json r of
        Inr p \<Rightarrow>
          andthen (json_get p ''error_description'') (\<lambda>d.
            if truthy d then Inr d else json_get p ''error'')
      | Inl (ValueError m) \<Rightarrow> Inr (JStr (take 500 (hr_text r)))
      | Inl e \<Rightarrow> Inl e)"

text \<open>The new access token, and the rotated refresh token or \<open>null\<close>.\<close>

definition refresh_subject_access_token ::
  "Config \<Rightarrow> broker_lib \<Rightarrow> string \<Rightarrow> exn + json \<times> json"
where
  "refresh_subject_access_token cfg lib refresh_token =
     andthen (bl_post lib (BROKER_TOKEN_ENDPOINT cfg) (refresh_form cfg refresh_token)) (\<lambda>r.
       if 400 \<le> hr_status r then
         andthen (upstream_detail r) (\<lambda>d.
           Inl (HTTPException 401 (DJson (JObj
             [(''error'', JStr ''subject_refresh_failed''),
              (''message'', JStr ''Unable to refresh delegated subject token''),
              (''upstream_status'', JInt (hr_status r)),
              (''upstream_detail'', d)]))))
       else
         andthen (hr_json r) (\<lambda>payload.
         andthen (json_get payload ''access_token'') (\<lambda>access_token.
         if \<not> truthy access_token then
           Inl (HTTPException 502 (DJson (JObj
             [(''error'', JStr ''invalid_upstream_response''),
              (''message'', JStr ''Identity provider did not return refreshed access_token'')])))
         else
           andthen (json_get payload ''refresh_token'') (\<lambda>refreshed. Inr (access_token, refreshed)))))"

section \<open>Broker sessions\<close>

text \<open>The module's store, \<open>None\<close> until start-up sets it.\<close>

type_synonym broker_state = "SessionStore option"

definition set_delegated_session_store :: "SessionStore \<Rightarrow> broker_state \<Rightarrow> broker_state" where
  "set_delegated_session_store store s = Some store"

definition get_delegated_session_store :: "broker_state \<Rightarrow> exn + SessionStore" where
  "get_delegated_session_store s =
     (case s of None \<Rightarrow> Inl (HTTPException 503 (DText ''Delegated session store unavailable''))
      | Some store \<Rightarrow> Inr store)"

text \<open>A store call made through the module's variable.\<close>

definition on_store ::
  "broker_state \<Rightarrow> (SessionStore \<Rightarrow> (exn + 'a) \<times> SessionStore) \<Rightarrow> (exn + 'a) \<times> broker_state"
where
  "on_store s f =
     (case get_delegated_session_store s of
        Inl e \<Rightarrow> (Inl e, s)
      | Inr store \<Rightarrow> (case f store of (r, store') \<Rightarrow> (r, Some store')))"

definition session_claims :: "string \<Rightarrow> string \<Rightarrow> string \<Rightarrow> int \<Rightarrow> int \<Rightarrow> json" where
  "session_claims sid subj user_id expires_at now =
     JObj [(''sid'', JStr sid), (''sub'', JStr subj), (''uid'', JStr user_id),
           (''exp'', JInt expires_at), (''iat'', JInt now), (''typ'', JStr ''teehr-broker-session'')]"

definition session_ttl :: "Config \<Rightarrow> int" where
  "session_ttl cfg = max (BROKER_DELEGATED_SESSION_TTL_SECONDS cfg) 300"

text \<open>\<open>sid\<close> is the fresh session id, \<open>nonce\<close> the randomness of the encryption; the session's own expiry is computed.\<close>

definition create_delegated_broker_session ::
  "Config \<Rightarrow> broker_lib \<Rightarrow> string \<Rightarrow> string \<Rightarrow> int \<Rightarrow> session \<Rightarrow> broker_state
     \<Rightarrow> (exn + string \<times> int) \<times> broker_state"
where
  "create_delegated_broker_session cfg lib nonce sid now req s =
     (if sn_refresh_token req = [] then (Inl (HTTPException 400 (DText ''refresh_token is required'')), s)
      else
        (let expires_at = now + session_ttl cfg;
             token = bl_sign lib (BROKER_SESSION_SIGNING_SECRET cfg)
                       (session_claims sid (sn_subject req) (sn_user_id req) expires_at now)
         in case on_store s (put_session (bl_fernet lib) nonce sid (req\<lparr>sn_expires_at := expires_at\<rparr>)) of
              (Inl e, s') \<Rightarrow> (Inl e, s')
            | (Inr _, s') \<Rightarrow> (Inr (token, expires_at), s')))"

section \<open>The exchange through a session\<close>

definition unauthorized :: "string \<Rightarrow> exn" where
  "unauthorized m = HTTPException 401 (DText m)"

text \<open>The token and its claims, up to the session id it names.\<close>

definition session_id_of_token :: "Config \<Rightarrow> broker_lib \<Rightarrow> int \<Rightarrow> string \<Rightarrow> exn + json" where
  "session_id_of_token cfg lib now token =
     (if token = [] then Inl (unauthorized ''broker session token required'')
      else case bl_verify lib now (BROKER_SESSION_SIGNING_SECRET cfg) token of
        Inl PyJWTError \<Rightarrow> Inl (unauthorized ''Invalid broker session token'')
      | Inl e \<Rightarrow> Inl e
      | Inr claims \<Rightarrow>
          andthen (json_get claims ''sid'') (\<lambda>sid.
            if \<not> truthy sid then Inl (unauthorized ''Invalid broker session token'') else Inr sid))"

text \<open>A session id that is no string is refused by the database driver.\<close>

definition lookup_session :: "broker_lib \<Rightarrow> json \<Rightarrow> broker_state \<Rightarrow> (exn + string \<times> session) \<times> broker_state" where
  "lookup_session lib sid s =
     (case on_store s (\<lambda>store.
             case as_string sid of
               None \<Rightarrow> (if ss_pool store then (Inl (DatabaseError ''sid''), store)
                        else (Inl store_not_initialized, store))
             | Some i \<Rightarrow> get_session (bl_fernet lib) i store) of
        (Inl e, s') \<Rightarrow> (Inl e, s')
      | (Inr None, s') \<Rightarrow> (Inl (unauthorized ''Delegated broker session not found''), s')
      | (Inr (Some r), s') \<Rightarrow> (Inr r, s'))"

text \<open>The checks on the session found: an expired one is deleted, one of another caller refused.\<close>

definition checked_session ::
  "int \<Rightarrow> string \<Rightarrow> string \<Rightarrow> string \<Rightarrow> string \<times> session \<Rightarrow> broker_state \<Rightarrow> (exn + session) \<times> broker_state"
where
  "checked_session now user_id session_id realm r s =
     (case r of (sid, record) \<Rightarrow>
        if sn_expires_at record \<le> now then
          (case on_store s (delete_session sid) of
             (Inl e, s') \<Rightarrow> (Inl e, s')
           | (Inr _, s') \<Rightarrow> (Inl (unauthorized ''Delegated broker session expired''), s'))
        else if sn_user_id record \<noteq> user_id \<or> sn_session_id record \<noteq> session_id \<or>
                sn_realm record \<noteq> realm
        then (Inl (HTTPException 403 (DText ''Session identity mismatch'')), s)
        else (Inr record, s))"

text \<open>A rotated refresh token is stored; one that is no string cannot be encoded.\<close>

definition store_rotation ::
  "broker_lib \<Rightarrow> string \<Rightarrow> string \<Rightarrow> json \<Rightarrow> broker_state \<Rightarrow> (exn + unit) \<times> broker_state"
where
  "store_rotation lib nonce sid refreshed s =
     (if \<not> truthy refreshed then (Inr (), s)
      else on_store s (\<lambda>store.
        case as_string refreshed of
          None \<Rightarrow> (Inl (if ss_pool store then AttributeError else store_not_initialized), store)
        | Some token \<Rightarrow> update_refresh_token (bl_fernet lib) nonce sid token store))"

text \<open>\<open>now1\<close>: at the expiry test (and the token's own check), \<open>now2\<close>, \<open>now3\<close>: for the answer.\<close>

definition exchange_via_session ::
  "Config \<Rightarrow> broker_lib \<Rightarrow> string \<Rightarrow> string \<Rightarrow> int \<Rightarrow> int \<Rightarrow> int \<Rightarrow> string \<Rightarrow> string \<Rightarrow> string \<Rightarrow> string
     \<Rightarrow> int option \<Rightarrow> broker_state \<Rightarrow> (exn + broker_token) \<times> broker_state"
where
  "exchange_via_session cfg lib nonce trace_id now1 now2 now3 token user_id session_id realm requested_ttl s =
     (case session_id_of_token cfg lib now1 token of
        Inl e \<Rightarrow> (Inl e, s)
      | Inr sid \<Rightarrow>
     (case lookup_session lib sid s of
        (Inl e, s1) \<Rightarrow> (Inl e, s1)
      | (Inr r, s1) \<Rightarrow>
     (case checked_session now1 user_id session_id realm r s1 of
        (Inl e, s2) \<Rightarrow> (Inl e, s2)
      | (Inr record, s2) \<Rightarrow>
     (case refresh_subject_access_token cfg lib (sn_refresh_token record) of
        Inl e \<Rightarrow> (Inl e, s2)
      | Inr (access_token, refreshed) \<Rightarrow>
     (case store_rotation lib nonce (fst r) refreshed s2 of
        (Inl e, s3) \<Rightarrow> (Inl e, s3)
      | (Inr _, s3) \<Rightarrow>
          (andthen (expiry_of_token lib access_token (now2 + clamp_requested_ttl cfg requested_ttl))
             (\<lambda>expires_at.
                Inr \<lparr>bt_access_token = access_token, bt_token_type = JStr ''Bearer'',
                     bt_expires_in_seconds = max (expires_at - now3) 1,
                     bt_expires_at_epoch_seconds = expires_at, bt_trace_id = trace_id\<rparr>), s3))))))"

section \<open>Facts\<close>

lemma clamp_between:
  "BROKER_MIN_TTL_SECONDS cfg \<le> clamp_requested_ttl cfg r"
  "BROKER_MIN_TTL_SECONDS cfg \<le> BROKER_MAX_TTL_SECONDS cfg \<Longrightarrow>
   clamp_requested_ttl cfg r \<le> BROKER_MAX_TTL_SECONDS cfg"
  by (auto simp: clamp_requested_ttl_def Let_def)

lemma clamp_identity:
  "BROKER_MIN_TTL_SECONDS cfg \<le> n \<Longrightarrow> n \<le> BROKER_MAX_TTL_SECONDS cfg \<Longrightarrow> n \<noteq> 0 \<Longrightarrow>
   clamp_requested_ttl cfg (Some n) = n"
  by (simp add: clamp_requested_ttl_def Let_def)

lemma on_store_Some: "on_store (Some st) f = (case f st of (r, st') \<Rightarrow> (r, Some st'))"
  by (simp add: on_store_def get_delegated_session_store_def)

lemma on_store_None:
  "on_store None f = (Inl (HTTPException 503 (DText ''Delegated session store unavailable'')), None)"
  by (simp add: on_store_def get_delegated_session_store_def)

lemma lookup_session_state: "snd (lookup_session lib sid s) = s"
  by (cases s)
    (auto simp: lookup_session_def on_store_Some on_store_None get_session_state
       split: option.splits sum.splits prod.splits dest: arg_cong [of _ _ snd])

text \<open>The sessions of the broker's state, as the callers see them.\<close>

definition broker_sessions :: "broker_lib \<Rightarrow> broker_state \<Rightarrow> string \<Rightarrow> session option" where
  "broker_sessions lib s sid =
     (case s of None \<Rightarrow> None | Some st \<Rightarrow> session_at (bl_fernet lib) (sessions_of st) sid)"

definition broker_ok :: "broker_state \<Rightarrow> bool" where
  "broker_ok s \<longleftrightarrow> (case s of None \<Rightarrow> False | Some st \<Rightarrow> sessions_ok st)"

lemma broker_ok_Some: "broker_ok s \<longleftrightarrow> (\<exists>st. s = Some st \<and> sessions_ok st)"
  by (auto simp: broker_ok_def split: option.splits)

lemma as_string_Some [simp]: "as_string v = Some x \<longleftrightarrow> v = JStr x"
  by (cases v) auto

lemma lookup_session_found:
  assumes "lookup_session lib sid s = (Inr (i, rec), s')"
  shows "sid = JStr i \<and> s' = s \<and> broker_sessions lib s i = Some rec"
proof -
  have s': "s' = s" using lookup_session_state [of lib sid s] assms by simp
  from assms obtain st where st: "s = Some st"
    by (cases s) (auto simp: lookup_session_def on_store_None)
  with assms obtain j where j: "sid = JStr j" "fst (get_session (bl_fernet lib) j st) = Inr (Some (i, rec))"
    by (auto simp: lookup_session_def on_store_Some
        split: option.split_asm sum.split_asm prod.split_asm if_split_asm)
  from get_session_found [OF j(2)] j(1) s' st show ?thesis by (simp add: broker_sessions_def)
qed

lemma lookup_session_ok:
  "broker_ok s \<Longrightarrow> broker_sessions lib s i = Some rec \<Longrightarrow> lookup_session lib (JStr i) s = (Inr (i, rec), s)"
  by (auto simp: broker_ok_Some broker_sessions_def lookup_session_def on_store_Some get_session_ok)

lemma on_store_delete:
  "broker_ok s \<Longrightarrow> \<exists>st. s = Some st \<and>
   on_store s (delete_session sid) = (Inr (), Some (st\<lparr>ss_table := Some (dict_pop (sessions_of st) sid)\<rparr>))"
  by (auto simp: broker_ok_Some on_store_Some delete_session_def on_sessions_ok)

lemma on_sessions_frame:
  assumes "\<And>t. session_at fl (snd (f t)) sid' = session_at fl t sid'"
  shows "session_at fl (sessions_of (snd (on_sessions st f))) sid' = session_at fl (sessions_of st) sid'"
  using assms
  by (auto simp: on_sessions_def sessions_of_def split: option.splits prod.splits) (metis snd_conv)

lemma on_store_frame:
  assumes "\<And>st. session_at (bl_fernet lib) (sessions_of (snd (f st))) sid' =
                session_at (bl_fernet lib) (sessions_of st) sid'"
  shows "broker_sessions lib (snd (on_store s f)) sid' = broker_sessions lib s sid'"
proof (cases s)
  case None
  then show ?thesis by (simp add: on_store_None)
next
  case (Some st)
  then show ?thesis using assms [of st]
    by (cases "f st") (simp add: on_store_Some broker_sessions_def)
qed

lemma delete_frame:
  "sid' \<noteq> sid \<Longrightarrow>
   broker_sessions lib (snd (on_store s (delete_session sid))) sid' = broker_sessions lib s sid'"
  unfolding delete_session_def
  by (intro on_store_frame on_sessions_frame) (simp add: session_at_def)

lemma store_rotation_frame:
  assumes "sid' \<noteq> sid"
  shows "broker_sessions lib (snd (store_rotation lib nonce sid refreshed s)) sid' =
         broker_sessions lib s sid'"
proof (cases "truthy refreshed")
  case True
  have "session_at (bl_fernet lib) (sessions_of (snd (case as_string refreshed of
            None \<Rightarrow> (Inl (if ss_pool st then AttributeError else store_not_initialized), st)
          | Some token \<Rightarrow> update_refresh_token (bl_fernet lib) nonce sid token st))) sid' =
        session_at (bl_fernet lib) (sessions_of st) sid'" for st
    using assms
    by (auto simp: update_refresh_token_def session_other_rotation
        intro!: on_sessions_frame split: option.split)
  then show ?thesis unfolding store_rotation_def using True
    by (simp only: if_False simp_thms) (rule on_store_frame)
qed (simp add: store_rotation_def)

lemma checked_session_frame:
  "sid' \<noteq> fst r \<Longrightarrow>
   broker_sessions lib (snd (checked_session now uid sess realm r s)) sid' = broker_sessions lib s sid'"
  using delete_frame [of sid' "fst r" lib s]
  by (auto simp: checked_session_def split: prod.splits sum.splits)

lemma store_rotation_stores:
  assumes "broker_ok s" "broker_sessions lib s sid = Some rec" "fernet_ok (bl_fernet lib)"
  shows "(\<exists>s'. store_rotation lib nonce sid (JStr x) s = (Inr (), s') \<and>
     broker_sessions lib s' sid = Some (if x = [] then rec else rec\<lparr>sn_refresh_token := x\<rparr>))"
proof (cases "x = []")
  case True
  with assms show ?thesis by (simp add: store_rotation_def)
next
  case False
  from assms(1) obtain st where st: "s = Some st" "sessions_ok st" by (auto simp: broker_ok_Some)
  with assms False show ?thesis
    by (simp add: store_rotation_def on_store_Some update_refresh_token_def on_sessions_ok
        broker_sessions_def session_after_rotation)
qed

lemma store_rotation_Inr:
  assumes "store_rotation lib nonce sid refreshed s = (Inr (), s')" "fernet_ok (bl_fernet lib)"
    and "broker_sessions lib s sid = Some rec"
  shows "\<not> truthy refreshed \<and> s' = s \<or>
    (\<exists>x. refreshed = JStr x \<and> x \<noteq> [] \<and>
       broker_sessions lib s' sid = Some (rec\<lparr>sn_refresh_token := x\<rparr>))"
proof (cases "truthy refreshed")
  case False
  with assms(1) show ?thesis by (simp add: store_rotation_def)
next
  case True
  from assms(3) obtain st where st: "s = Some st"
    by (auto simp: broker_sessions_def split: option.splits)
  from assms(1) True st obtain x where x: "refreshed = JStr x"
    "fst (update_refresh_token (bl_fernet lib) nonce sid x st) = Inr ()"
    "s' = Some (snd (update_refresh_token (bl_fernet lib) nonce sid x st))"
    by (auto simp: store_rotation_def on_store_Some split: option.split_asm prod.split_asm if_split_asm)
  have "session_at (bl_fernet lib) (sessions_of (snd (update_refresh_token (bl_fernet lib) nonce sid x st))) sid =
      Some (rec\<lparr>sn_refresh_token := x\<rparr>)"
    using x(2) assms(2,3) st
    by (auto simp: update_refresh_token_def on_sessions_def broker_sessions_def sessions_of_def
        session_after_rotation split: if_split_asm option.split_asm option.splits)
  with x True show ?thesis by (auto simp: broker_sessions_def)
qed

lemma checked_session_Inr:
  assumes "checked_session now uid sess realm (sid, rec) s = (Inr rec', s')"
  shows "rec' = rec \<and> s' = s \<and> now < sn_expires_at rec \<and> sn_user_id rec = uid \<and>
    sn_session_id rec = sess \<and> sn_realm rec = realm"
  using assms by (auto simp: checked_session_def split: if_split_asm prod.split_asm sum.split_asm)

lemma session_id_of_token_Inr:
  "session_id_of_token cfg lib now token = Inr sid \<Longrightarrow>
   token \<noteq> [] \<and> truthy sid \<and>
   (\<exists>claims. bl_verify lib now (BROKER_SESSION_SIGNING_SECRET cfg) token = Inr claims \<and>
      json_get claims ''sid'' = Inr sid)"
  by (auto simp: session_id_of_token_def andthen_Inr_iff split: if_split_asm sum.split_asm exn.split_asm)

text \<open>The steps of a successful exchange, one by one.\<close>

lemma exchange_via_session_Inr:
  assumes "exchange_via_session cfg lib nonce trace now1 now2 now3 token uid sess realm ttl s = (Inr t, s')"
  obtains sid rec refreshed expires_at where
    "session_id_of_token cfg lib now1 token = Inr (JStr sid)"
    "broker_sessions lib s sid = Some rec"
    "now1 < sn_expires_at rec" "sn_user_id rec = uid" "sn_session_id rec = sess" "sn_realm rec = realm"
    "refresh_subject_access_token cfg lib (sn_refresh_token rec) = Inr (bt_access_token t, refreshed)"
    "store_rotation lib nonce sid refreshed s = (Inr (), s')"
    "expiry_of_token lib (bt_access_token t) (now2 + clamp_requested_ttl cfg ttl) = Inr expires_at"
    "bt_expires_at_epoch_seconds t = expires_at" "bt_expires_in_seconds t = max (expires_at - now3) 1"
proof -
  obtain sidj where sid: "session_id_of_token cfg lib now1 token = Inr sidj"
    using assms by (cases "session_id_of_token cfg lib now1 token") (auto simp: exchange_via_session_def)
  obtain i rec where look: "lookup_session lib sidj s = (Inr (i, rec), s)"
    using assms sid lookup_session_state [of lib sidj s]
    by (cases "lookup_session lib sidj s") (auto simp: exchange_via_session_def split: sum.split_asm)
  from lookup_session_found [OF look] have i: "sidj = JStr i" "broker_sessions lib s i = Some rec"
    by simp_all
  obtain rec' s2 where chk: "checked_session now1 uid sess realm (i, rec) s = (Inr rec', s2)"
    using assms sid look
    by (cases "checked_session now1 uid sess realm (i, rec) s")
      (auto simp: exchange_via_session_def split: sum.split_asm)
  note chk' = checked_session_Inr [OF chk]
  obtain a refreshed where ref: "refresh_subject_access_token cfg lib (sn_refresh_token rec) = Inr (a, refreshed)"
    using assms sid look chk chk'
    by (cases "refresh_subject_access_token cfg lib (sn_refresh_token rec)")
      (auto simp: exchange_via_session_def)
  obtain s3 where rot: "store_rotation lib nonce i refreshed s = (Inr (), s3)"
    using assms sid look chk chk' ref
    by (cases "store_rotation lib nonce i refreshed s")
      (auto simp: exchange_via_session_def split: sum.split_asm)
  have "s3 = s'" "bt_access_token t = a" and e:
    "\<exists>e. expiry_of_token lib a (now2 + clamp_requested_ttl cfg ttl) = Inr e \<and>
       bt_expires_at_epoch_seconds t = e \<and> bt_expires_in_seconds t = max (e - now3) 1"
    using assms sid look chk chk' ref rot
    by (auto simp: exchange_via_session_def andthen_Inr_iff)
  with that sid i chk' ref rot show ?thesis by blast
qed

section \<open>Properties\<close>

text \<open>C4 A broker session hands out a token only to its own caller while it lives: the session token
  carries the broker's signature, the session it names exists, has not expired and was made
  for exactly this user, session and realm; the token returned is the one the identity
  provider gave for the stored refresh token, and a rotated refresh token replaces it.\<close>

theorem session_exchange_sound:
  assumes "exchange_via_session cfg lib nonce trace now1 now2 now3 token uid sess realm ttl s = (Inr t, s')"
    and "fernet_ok (bl_fernet lib)"
  shows "\<exists>sid rec claims refreshed.
    bl_verify lib now1 (BROKER_SESSION_SIGNING_SECRET cfg) token = Inr claims \<and>
    json_get claims ''sid'' = Inr (JStr sid) \<and>
    broker_sessions lib s sid = Some rec \<and> now1 < sn_expires_at rec \<and>
    sn_user_id rec = uid \<and> sn_session_id rec = sess \<and> sn_realm rec = realm \<and>
    refresh_subject_access_token cfg lib (sn_refresh_token rec) = Inr (bt_access_token t, refreshed) \<and>
    broker_sessions lib s' sid =
      Some (case as_string refreshed of
              Some x \<Rightarrow> if x = [] then rec else rec\<lparr>sn_refresh_token := x\<rparr>
            | None \<Rightarrow> rec) \<and>
    1 \<le> bt_expires_in_seconds t"
  using assms(1)
proof (rule exchange_via_session_Inr)
  fix sid rec refreshed expires_at
  assume sid: "session_id_of_token cfg lib now1 token = Inr (JStr sid)"
    and rec: "broker_sessions lib s sid = Some rec"
    and chk: "now1 < sn_expires_at rec" "sn_user_id rec = uid" "sn_session_id rec = sess"
      "sn_realm rec = realm"
    and ref: "refresh_subject_access_token cfg lib (sn_refresh_token rec) = Inr (bt_access_token t, refreshed)"
    and rot: "store_rotation lib nonce sid refreshed s = (Inr (), s')"
    and t: "bt_expires_in_seconds t = max (expires_at - now3) 1"
  have "broker_sessions lib s' sid =
      Some (case as_string refreshed of
              Some x \<Rightarrow> if x = [] then rec else rec\<lparr>sn_refresh_token := x\<rparr>
            | None \<Rightarrow> rec)"
    using store_rotation_Inr [OF rot assms(2) rec] rec by (cases refreshed) auto
  with session_id_of_token_Inr [OF sid] rec chk ref t show ?thesis by auto
qed

definition sample_fernet :: fernet_lib where
  "sample_fernet = \<lparr>fernet_encrypt = (\<lambda>n x. CHR ''#'' # x), fernet_decrypt = (\<lambda>y. Inr (tl y))\<rparr>"

text \<open>A provider that rotates the refresh token, and a signature that is the secret and the session id.\<close>

definition sample_broker :: broker_lib where
  "sample_broker =
     \<lparr>bl_post = (\<lambda>url f. Inr \<lparr>hr_status = 200,
                 hr_json = Inr (JObj [(''access_token'', JStr ''at''), (''refresh_token'', JStr ''rt2'')]),
                 hr_text = []\<rparr>),
      bl_sign = (\<lambda>secret claims. secret @ ''/'' @ (case json_get claims ''sid'' of Inr (JStr x) \<Rightarrow> x | _ \<Rightarrow> [])),
      bl_verify = (\<lambda>now secret tok. if starts_with tok (secret @ ''/'')
                     then Inr (JObj [(''sid'', JStr (drop_prefix (secret @ ''/'') tok))]) else Inl PyJWTError),
      bl_unverified = (\<lambda>tok. Inl PyJWTError),
      bl_fernet = sample_fernet\<rparr>"

definition sample_session :: "string \<Rightarrow> int \<Rightarrow> session" where
  "sample_session token expires =
     \<lparr>sn_subject = ''alice'', sn_user_id = ''alice'', sn_session_id = ''nb'', sn_realm = ''teehr'',
      sn_catalog = ''iceberg'', sn_audience = ''account'', sn_refresh_token = token, sn_expires_at = expires\<rparr>"

definition sample_state :: "(string, session) dict \<Rightarrow> broker_state" where
  "sample_state t = Some \<lparr>ss_pool = True, ss_table = Some t\<rparr>"

lemma sample_fernet_ok [simp]: "fernet_ok (bl_fernet sample_broker)"
  by (simp add: fernet_ok_def sample_broker_def sample_fernet_def)

lemmas sample_broker_simps = sample_broker_def sample_fernet_def sample_session_def sample_state_def
  broker_sessions_def session_at_def sessions_of_def refresh_subject_access_token_def

lemma sample_exchange:
  "exchange_via_session (cfg\<lparr>BROKER_SESSION_SIGNING_SECRET := ''k''\<rparr>) sample_broker ''n'' ''tr'' 100 100 100
     ''k/s1'' ''alice'' ''nb'' ''teehr'' None (sample_state [(''s1'', sample_session ''#rt1'' 200)]) =
   (Inr \<lparr>bt_access_token = JStr ''at'', bt_token_type = JStr ''Bearer'',
         bt_expires_in_seconds = max (clamp_requested_ttl cfg None) 1,
         bt_expires_at_epoch_seconds = 100 + clamp_requested_ttl cfg None, bt_trace_id = ''tr''\<rparr>,
    sample_state [(''s1'', sample_session ''#rt2'' 200)])"
  by (simp add: exchange_via_session_def session_id_of_token_def lookup_session_def checked_session_def
      store_rotation_def on_store_Some get_session_def on_sessions_def update_refresh_token_def
      set_refresh_token_def expiry_of_token_def drop_prefix_def clamp_requested_ttl_def sample_broker_simps)

lemma session_exchange_sound_witness:
  "\<forall>cfg :: Config. \<exists>rec.
     broker_sessions sample_broker (sample_state [(''s1'', sample_session ''#rt1'' 200)]) ''s1'' = Some rec \<and>
     sn_user_id rec = ''alice'' \<and> 100 < sn_expires_at rec"
proof
  fix cfg :: Config
  from session_exchange_sound [OF sample_exchange [of cfg] sample_fernet_ok] obtain sid rec claims where
    v: "bl_verify sample_broker 100 ''k'' ''k/s1'' = Inr claims" "json_get claims ''sid'' = Inr (JStr sid)"
    and r: "broker_sessions sample_broker (sample_state [(''s1'', sample_session ''#rt1'' 200)]) sid = Some rec"
      "100 < sn_expires_at rec" "sn_user_id rec = ''alice''"
    by auto
  from v have "sid = ''s1''" by (auto simp: sample_broker_def drop_prefix_def)
  with r show "\<exists>rec. broker_sessions sample_broker (sample_state [(''s1'', sample_session ''#rt1'' 200)]) ''s1'' = Some rec \<and>
     sn_user_id rec = ''alice'' \<and> 100 < sn_expires_at rec" by auto
qed

text \<open>An exchange, however it ends, touches the one session its token names: every other session
  stays as it was.\<close>

theorem exchange_touches_own_session:
  assumes "session_id_of_token cfg lib now1 token = Inr (JStr sid)" "sid' \<noteq> sid"
  shows "broker_sessions lib
      (snd (exchange_via_session cfg lib nonce trace now1 now2 now3 token uid sess realm ttl s)) sid' =
    broker_sessions lib s sid'"
proof (cases "lookup_session lib (JStr sid) s")
  case (Pair r s1)
  have s1: "s1 = s" using lookup_session_state [of lib "JStr sid" s] Pair by simp
  show ?thesis
  proof (cases r)
    case (Inl e)
    with assms Pair s1 show ?thesis by (simp add: exchange_via_session_def)
  next
    case (Inr x)
    obtain i rec where x: "x = (i, rec)" by (cases x)
    with lookup_session_found [of lib "JStr sid" s i rec s1] Pair Inr have i: "i = sid" by simp
    have chk: "broker_sessions lib (snd (checked_session now1 uid sess realm (i, rec) s)) sid' =
        broker_sessions lib s sid'"
      using checked_session_frame [of sid' "(i, rec)" lib] assms(2) i by simp
    have rot: "broker_sessions lib (snd (store_rotation lib nonce i refreshed s2)) sid' =
        broker_sessions lib s2 sid'" for refreshed s2
      using store_rotation_frame assms(2) i by blast
    show ?thesis
      using assms(1) Pair Inr x s1 chk rot
      by (auto simp: exchange_via_session_def split: sum.split prod.split) (metis snd_conv)+
  qed
qed

lemma exchange_touches_own_session_witness:
  "\<forall>cfg :: Config. broker_sessions sample_broker
     (snd (exchange_via_session (cfg\<lparr>BROKER_SESSION_SIGNING_SECRET := ''k''\<rparr>) sample_broker ''n'' ''tr''
        100 100 100 ''k/s1'' ''alice'' ''nb'' ''teehr'' None
        (sample_state [(''s1'', sample_session ''#rt1'' 50), (''s2'', sample_session ''#rt9'' 70)]))) ''s2'' =
   Some (sample_session ''rt9'' 70)"
proof
  fix cfg :: Config
  have sid: "session_id_of_token (cfg\<lparr>BROKER_SESSION_SIGNING_SECRET := ''k''\<rparr>) sample_broker 100 ''k/s1'' =
      Inr (JStr ''s1'')"
    by (simp add: session_id_of_token_def sample_broker_def drop_prefix_def)
  have "broker_sessions sample_broker (sample_state [(''s1'', sample_session ''#rt1'' 50),
      (''s2'', sample_session ''#rt9'' 70)]) ''s2'' = Some (sample_session ''rt9'' 70)"
    by (simp add: sample_broker_simps)
  then show "broker_sessions sample_broker
     (snd (exchange_via_session (cfg\<lparr>BROKER_SESSION_SIGNING_SECRET := ''k''\<rparr>) sample_broker ''n'' ''tr''
        100 100 100 ''k/s1'' ''alice'' ''nb'' ''teehr'' None
        (sample_state [(''s1'', sample_session ''#rt1'' 50), (''s2'', sample_session ''#rt9'' 70)]))) ''s2'' =
   Some (sample_session ''rt9'' 70)"
    by (subst exchange_touches_own_session [OF sid]) simp_all
qed

text \<open>A session that cannot serve the request is refused for the right reason: past its expiry with
  401, and then it is gone; before it, to any other user, session or realm with 403 and
  nothing changed.  In neither case is the identity provider asked.\<close>

theorem unusable_session_refused:
  assumes "broker_ok s" "session_id_of_token cfg lib now1 token = Inr (JStr sid)"
    and "broker_sessions lib s sid = Some rec"
    and "sn_expires_at rec \<le> now1 \<or>
         \<not> (sn_user_id rec = uid \<and> sn_session_id rec = sess \<and> sn_realm rec = realm)"
  shows "(case exchange_via_session cfg (lib\<lparr>bl_post := post\<rparr>) nonce trace now1 now2 now3 token uid sess realm ttl s of
      (r, s') \<Rightarrow>
        (if sn_expires_at rec \<le> now1
         then r = Inl (HTTPException 401 (DText ''Delegated broker session expired'')) \<and>
              broker_sessions lib s' sid = None
         else r = Inl (HTTPException 403 (DText ''Session identity mismatch'')) \<and> s' = s))"
proof -
  have "session_id_of_token cfg (lib\<lparr>bl_post := post\<rparr>) now1 token = session_id_of_token cfg lib now1 token"
    by (simp add: session_id_of_token_def)
  with assms(2) have sid: "session_id_of_token cfg (lib\<lparr>bl_post := post\<rparr>) now1 token = Inr (JStr sid)"
    by simp
  have look: "lookup_session (lib\<lparr>bl_post := post\<rparr>) (JStr sid) s = (Inr (sid, rec), s)"
    using assms(3)
    by (intro lookup_session_ok [OF assms(1)]) (cases s, simp_all add: broker_sessions_def)
  show ?thesis
  proof (cases "sn_expires_at rec \<le> now1")
    case True
    from on_store_delete [OF assms(1), of sid] obtain st where
      st: "on_store s (delete_session sid) = (Inr (), Some (st\<lparr>ss_table := Some (dict_pop (sessions_of st) sid)\<rparr>))"
      by blast
    with True sid look show ?thesis
      by (simp add: exchange_via_session_def checked_session_def unauthorized_def broker_sessions_def
          session_at_def)
  next
    case False
    with assms(4) sid look show ?thesis
      by (auto simp: exchange_via_session_def checked_session_def)
  qed
qed

lemma unusable_session_refused_witness:
  "\<forall>cfg :: Config. broker_sessions sample_broker
     (snd (exchange_via_session (cfg\<lparr>BROKER_SESSION_SIGNING_SECRET := ''k''\<rparr>) sample_broker ''n'' ''tr''
        100 100 100 ''k/s1'' ''alice'' ''nb'' ''teehr'' None (sample_state [(''s1'', sample_session ''#rt1'' 50)])))
     ''s1'' = None"
proof
  fix cfg :: Config
  let ?s = "sample_state [(''s1'', sample_session ''#rt1'' 50)]"
  have ok: "broker_ok ?s"
    by (simp add: broker_ok_def sample_state_def sessions_ok_def sessions_of_def dict_ok_def)
  have sid: "session_id_of_token (cfg\<lparr>BROKER_SESSION_SIGNING_SECRET := ''k''\<rparr>) sample_broker 100 ''k/s1'' =
      Inr (JStr ''s1'')"
    by (simp add: session_id_of_token_def sample_broker_def drop_prefix_def)
  have rec: "broker_sessions sample_broker ?s ''s1'' = Some (sample_session ''rt1'' 50)"
    by (simp add: sample_broker_simps)
  have same: "sample_broker\<lparr>bl_post := bl_post sample_broker\<rparr> = sample_broker" by simp
  show "broker_sessions sample_broker
     (snd (exchange_via_session (cfg\<lparr>BROKER_SESSION_SIGNING_SECRET := ''k''\<rparr>) sample_broker ''n'' ''tr''
        100 100 100 ''k/s1'' ''alice'' ''nb'' ''teehr'' None ?s)) ''s1'' = None"
    using unusable_session_refused [OF ok sid rec, of "''alice''" "''nb''" "''teehr''"
        "bl_post sample_broker" "''n''" "''tr''" 100 100 None]
    by (auto simp: sample_session_def split: prod.splits)
qed

lemma put_session_ok:
  assumes "broker_ok s" "fernet_ok (bl_fernet lib)"
    and "- 62135596800 \<le> sn_expires_at r" "sn_expires_at r \<le> 253402300799"
  shows "\<exists>s'. on_store s (put_session (bl_fernet lib) nonce sid r) = (Inr (), s') \<and> broker_ok s' \<and>
    broker_sessions lib s' sid = Some r"
proof -
  from assms(1) obtain st where st: "s = Some st" "sessions_ok st" by (auto simp: broker_ok_Some)
  have "from_timestamp (sn_expires_at r) = Inr (sn_expires_at r)"
    using assms(3,4) by (simp add: from_timestamp_def)
  with st assms(2) show ?thesis
    by (auto simp: on_store_Some put_session_def on_sessions_ok sessions_ok_def broker_sessions_def
        session_after_put broker_ok_Some) (auto simp: upsert_session_def sessions_of_def)
qed

text \<open>C31 A broker session works: the token returned when a session is created exchanges, before the
  session expires and for the same user, session and realm, for the access token the
  identity provider gives for the refresh token deposited, and the rotated refresh token is
  the one used next.\<close>

theorem created_session_exchanges:
  assumes "broker_ok s" "fernet_ok (bl_fernet lib)" "sn_refresh_token req \<noteq> []" "sid \<noteq> []"
    and "- 62135596800 \<le> now + session_ttl cfg" "now + session_ttl cfg \<le> 253402300799"
    and "now1 < now + session_ttl cfg"
    and "claims = session_claims sid (sn_subject req) (sn_user_id req) (now + session_ttl cfg) now"
    and "bl_verify lib now1 (BROKER_SESSION_SIGNING_SECRET cfg)
           (bl_sign lib (BROKER_SESSION_SIGNING_SECRET cfg) claims) = Inr claims"
    and "bl_sign lib (BROKER_SESSION_SIGNING_SECRET cfg) claims \<noteq> []"
    and "refresh_subject_access_token cfg lib (sn_refresh_token req) = Inr (access_token, JStr rotated)"
    and "expiry_of_token lib access_token (now2 + clamp_requested_ttl cfg ttl) = Inr expires"
  shows "(case create_delegated_broker_session cfg lib nonce sid now req s of
      (Inl e, s1) \<Rightarrow> False
    | (Inr (token, expires_at), s1) \<Rightarrow>
        expires_at = now + session_ttl cfg \<and>
        (case exchange_via_session cfg lib nonce' trace now1 now2 now3 token
                (sn_user_id req) (sn_session_id req) (sn_realm req) ttl s1 of
           (Inl e, s2) \<Rightarrow> False
         | (Inr t, s2) \<Rightarrow> bt_access_token t = access_token \<and>
             map_option sn_refresh_token (broker_sessions lib s2 sid) =
               Some (if rotated = [] then sn_refresh_token req else rotated)))"
proof -
  let ?secret = "BROKER_SESSION_SIGNING_SECRET cfg"
  let ?claims = "session_claims sid (sn_subject req) (sn_user_id req) (now + session_ttl cfg) now"
  let ?token = "bl_sign lib ?secret ?claims"
  let ?rec = "req\<lparr>sn_expires_at := now + session_ttl cfg\<rparr>"
  obtain s1 where s1: "on_store s (put_session (bl_fernet lib) nonce sid ?rec) = (Inr (), s1)"
    "broker_ok s1" "broker_sessions lib s1 sid = Some ?rec"
    using put_session_ok [OF assms(1,2), of ?rec nonce sid] assms(5,6) by auto
  have create: "create_delegated_broker_session cfg lib nonce sid now req s =
      (Inr (?token, now + session_ttl cfg), s1)"
    using assms(3) s1(1) by (simp add: create_delegated_broker_session_def Let_def)
  have tok: "session_id_of_token cfg lib now1 ?token = Inr (JStr sid)"
    using assms(4,8,9,10) by (simp add: session_id_of_token_def session_claims_def)
  obtain s2 where s2: "store_rotation lib nonce' sid (JStr rotated) s1 = (Inr (), s2)"
    "broker_sessions lib s2 sid = Some (if rotated = [] then ?rec else ?rec\<lparr>sn_refresh_token := rotated\<rparr>)"
    using store_rotation_stores [OF s1(2,3) assms(2)] by blast
  show ?thesis
    using assms(7,11,12) s2
    by (simp add: create exchange_via_session_def tok lookup_session_ok [OF s1(2,3)] checked_session_def)
qed

lemma created_session_exchanges_witness:
  "\<forall>cfg :: Config.
     (case create_delegated_broker_session (cfg\<lparr>BROKER_DELEGATED_SESSION_TTL_SECONDS := 600\<rparr>)
             (sample_broker\<lparr>bl_sign := (\<lambda>_ _. ''tok''),
                bl_verify := (\<lambda>_ _ _. Inr (session_claims ''s1'' ''alice'' ''alice'' 700 100))\<rparr>)
             ''n'' ''s1'' 100 (sample_session ''rt1'' 0) (sample_state []) of
        (Inl e, s1) \<Rightarrow> False
      | (Inr (token, expires_at), s1) \<Rightarrow> expires_at = 700)"
proof
  fix cfg :: Config
  let ?cfg = "cfg\<lparr>BROKER_DELEGATED_SESSION_TTL_SECONDS := 600\<rparr>"
  let ?lib = "sample_broker\<lparr>bl_sign := (\<lambda>_ _. ''tok''),
                bl_verify := (\<lambda>_ _ _. Inr (session_claims ''s1'' ''alice'' ''alice'' 700 100))\<rparr>"
  have ttl: "session_ttl ?cfg = 600" by (simp add: session_ttl_def)
  have ok: "broker_ok (sample_state [])"
    by (simp add: broker_ok_def sample_state_def sessions_ok_def sessions_of_def dict_ok_def)
  have fl: "fernet_ok (bl_fernet ?lib)" by (simp add: fernet_ok_def sample_broker_def sample_fernet_def)
  have ref: "refresh_subject_access_token ?cfg ?lib (sn_refresh_token (sample_session ''rt1'' 0)) =
      Inr (JStr ''at'', JStr ''rt2'')"
    by (simp add: refresh_subject_access_token_def sample_broker_def)
  have f: "sn_refresh_token (sample_session ''rt1'' 0) \<noteq> []" "''s1'' \<noteq> []"
    "- 62135596800 \<le> 100 + session_ttl ?cfg" "100 + session_ttl ?cfg \<le> 253402300799"
    "100 < 100 + session_ttl ?cfg"
    "session_claims ''s1'' ''alice'' ''alice'' 700 100 = session_claims ''s1'' (sn_subject (sample_session ''rt1'' 0))
       (sn_user_id (sample_session ''rt1'' 0)) (100 + session_ttl ?cfg) 100"
    "bl_verify ?lib 100 (BROKER_SESSION_SIGNING_SECRET ?cfg) (bl_sign ?lib (BROKER_SESSION_SIGNING_SECRET ?cfg)
       (session_claims ''s1'' ''alice'' ''alice'' 700 100)) = Inr (session_claims ''s1'' ''alice'' ''alice'' 700 100)"
    "bl_sign ?lib (BROKER_SESSION_SIGNING_SECRET ?cfg) (session_claims ''s1'' ''alice'' ''alice'' 700 100) \<noteq> []"
    by (simp_all add: ttl sample_session_def)
  have exp: "expiry_of_token ?lib (JStr ''at'') (100 + clamp_requested_ttl ?cfg None) =
      Inr (100 + clamp_requested_ttl ?cfg None)"
    by (simp add: expiry_of_token_def sample_broker_def)
  show "case create_delegated_broker_session ?cfg ?lib ''n'' ''s1'' 100 (sample_session ''rt1'' 0)
          (sample_state []) of
        (Inl e, s1) \<Rightarrow> False | (Inr (token, expires_at), s1) \<Rightarrow> expires_at = 700"
    using created_session_exchanges [OF ok fl f(1-8) ref exp, where nonce = "''n''" and nonce' = "''n''"
        and trace = "''t''" and ?now3.0 = 100]
    by (auto simp: ttl split: sum.splits prod.splits)
qed

text \<open>The lifetime asked of the identity provider stays within the configured bounds: a request
  inside them is granted as it is, one outside is moved to the nearer bound, none at all (or
  zero) gets the longest; and a token handed out by an exchange always has at least a second
  to live.\<close>

theorem ttl_clamped:
  assumes "BROKER_MIN_TTL_SECONDS cfg \<le> BROKER_MAX_TTL_SECONDS cfg"
  shows "clamp_requested_ttl cfg r \<in> {BROKER_MIN_TTL_SECONDS cfg..BROKER_MAX_TTL_SECONDS cfg} \<and>
    clamp_requested_ttl cfg r =
      (case r of
         None \<Rightarrow> BROKER_MAX_TTL_SECONDS cfg
       | Some n \<Rightarrow> if n = 0 \<or> BROKER_MAX_TTL_SECONDS cfg < n then BROKER_MAX_TTL_SECONDS cfg
                   else if n < BROKER_MIN_TTL_SECONDS cfg then BROKER_MIN_TTL_SECONDS cfg else n) \<and>
    exchange_token_for_polaris cfg lib trace now1 now2 tok aud r \<in>
      Inl ` UNIV \<union> Inr ` {t. 1 \<le> bt_expires_in_seconds t \<and> truthy (bt_access_token t)}"
proof -
  have "exchange_token_for_polaris cfg lib trace now1 now2 tok aud r = Inr t \<Longrightarrow>
      1 \<le> bt_expires_in_seconds t \<and> truthy (bt_access_token t)" for t
    by (auto simp: exchange_token_for_polaris_def exchange_body_def andthen_Inr_iff
        split: if_split_asm sum.split_asm exn.split_asm)
  then have "exchange_token_for_polaris cfg lib trace now1 now2 tok aud r \<in>
      Inl ` UNIV \<union> Inr ` {t. 1 \<le> bt_expires_in_seconds t \<and> truthy (bt_access_token t)}"
    by (cases "exchange_token_for_polaris cfg lib trace now1 now2 tok aud r") auto
  with assms clamp_between [of cfg r] show ?thesis
    by (auto simp: clamp_requested_ttl_def Let_def split: option.splits)
qed

lemma ttl_clamped_witness:
  "\<forall>cfg :: Config. clamp_requested_ttl (cfg\<lparr>BROKER_MIN_TTL_SECONDS := 120, BROKER_MAX_TTL_SECONDS := 900\<rparr>)
     (Some 5) = 120"
proof
  fix cfg :: Config
  show "clamp_requested_ttl (cfg\<lparr>BROKER_MIN_TTL_SECONDS := 120, BROKER_MAX_TTL_SECONDS := 900\<rparr>) (Some 5) = 120"
    by (subst ttl_clamped [THEN conjunct2, THEN conjunct1]) simp_all
qed

end
