(* ===== verification/Api_Auth.thy ===== *)
theory Api_Auth
  imports Api_Config
begin

text \<open>
  Authentication and authorisation of the API service (\<open>api/src/auth.py\<close>): the identity made of
  the claims of a validated token, who a request is, the guards of the routes, and the record
  limit a role gets.  The token validator itself is \<open>Keycloak\<close>.
\<close>

section \<open>Identities\<close>

record ApiIdentity = AuthIdentity +
  groups :: "string list"

definition is_authenticated :: "'a AuthIdentity_scheme \<Rightarrow> bool" where
  "is_authenticated u \<longleftrightarrow> auth_type u \<in> {''jwt'', ''api_key''}"

definition anonymous_identity :: ApiIdentity where
  "anonymous_identity =
     \<lparr>subject = ''anonymous'', auth_type = ''anonymous'', roles = [''anonymous''],
      scopes = [], preferred_username = None, groups = []\<rparr>"

section \<open>From claims to an identity\<close>

fun groups_of :: "json \<Rightarrow> string list" where
  "groups_of (JList vs) = map py_str vs"
| "groups_of _ = []"

text \<open>
  The code asks only that \<open>sub\<close> is truthy.  One that is no string does not get so far, since
  PyJWT refuses it from 2.10 on; here it is refused as if it were missing.
\<close>

definition identity_of_claims :: "Config \<Rightarrow> json \<Rightarrow> exn + ApiIdentity" where
  "identity_of_claims cfg claims =
     andthen (json_get claims ''aud'') (\<lambda>aud.
     andthen (json_get claims ''azp'') (\<lambda>azp.
     if \<not> audience_ok cfg aud azp then Inl (HTTPException 401 (DText ''Invalid access token''))
     else
       andthen (roles_of_claims claims) (\<lambda>rs.
       andthen (andthen (json_get claims ''scope'') scopes_of) (\<lambda>scs.
       andthen (json_get claims ''sub'') (\<lambda>sub.
       case as_string sub of
         None \<Rightarrow> Inl (HTTPException 401 (DText ''JWT missing subject''))
       | Some s \<Rightarrow>
           if s = [] then Inl (HTTPException 401 (DText ''JWT missing subject''))
           else
             andthen (json_get_or claims ''groups'' (JList [])) (\<lambda>gs.
             andthen (json_get claims ''preferred_username'') (\<lambda>pu.
             Inr \<lparr>subject = s, auth_type = ''jwt'', roles = rs, scopes = scs,
                  preferred_username = as_string pu, groups = groups_of gs\<rparr>)))))))"

definition validate ::
  "Config \<Rightarrow> jwt_lib \<Rightarrow> http \<Rightarrow> http \<Rightarrow> clock \<Rightarrow> clock \<Rightarrow> string \<Rightarrow> Validator
     \<Rightarrow> (exn + ApiIdentity) \<times> Validator"
where
  "validate cfg = validate_with cfg (identity_of_claims cfg)"

section \<open>Requests\<close>

text \<open>
  A request as the handlers read it: header names are in lower case, which is how the
  framework looks them up; \<open>rq_identity\<close> is \<open>request.state.identity\<close>.
\<close>

record Request =
  rq_method :: string
  rq_path :: string
  rq_headers :: "(string, string) dict"
  rq_client :: "string option"
  rq_identity :: "ApiIdentity option"

definition authorization :: "Request \<Rightarrow> string" where
  "authorization rq = dict_get_default (rq_headers rq) ''authorization'' []"

text \<open>
  \<open>resolve_identity\<close>: a bearer token, else an API key, else anonymous.  The validator's
  state is threaded; a key look-up reads the key table only.
\<close>

definition resolve_identity ::
  "(string \<Rightarrow> 's \<Rightarrow> (exn + ApiIdentity) \<times> 's) \<Rightarrow> (string \<Rightarrow> exn + ApiIdentity option)
     \<Rightarrow> Request \<Rightarrow> 's \<Rightarrow> (exn + ApiIdentity) \<times> 's"
where
  "resolve_identity validate_jwt validate_key rq s =
     (case bearer_token (authorization rq) of
        Some token \<Rightarrow> validate_jwt token s
      | None \<Rightarrow>
          (case dict_get (rq_headers rq) ''x-api-key'' of
             Some key \<Rightarrow>
               (if key \<noteq> [] then
                  (andthen (validate_key key) (\<lambda>found.
                     case found of
                       Some u \<Rightarrow> Inr u
                     | None \<Rightarrow> Inl (HTTPException 401 (DText ''Invalid API key''))), s)
                else (Inr anonymous_identity, s))
           | None \<Rightarrow> (Inr anonymous_identity, s)))"

text \<open>\<open>get_request_identity\<close>: the identity the middleware attached, resolved here otherwise.\<close>

definition get_request_identity ::
  "(Request \<Rightarrow> 's \<Rightarrow> (exn + ApiIdentity) \<times> 's) \<Rightarrow> Request \<Rightarrow> 's \<Rightarrow> (exn + ApiIdentity \<times> Request) \<times> 's"
where
  "get_request_identity resolve rq s =
     (case rq_identity rq of
        Some u \<Rightarrow> (Inr (u, rq), s)
      | None \<Rightarrow>
          (case resolve rq s of
             (Inl e, s') \<Rightarrow> (Inl e, s')
           | (Inr u, s') \<Rightarrow> (Inr (u, rq\<lparr>rq_identity := Some u\<rparr>), s')))"

definition extract_bearer_token :: "Request \<Rightarrow> exn + string" where
  "extract_bearer_token rq =
     (case bearer_token (authorization rq) of
        None \<Rightarrow> Inl (HTTPException 401 (DText ''Bearer token required''))
      | Some token \<Rightarrow>
          if token = [] then Inl (HTTPException 401 (DText ''Bearer token required'')) else Inr token)"

section \<open>Guards\<close>

definition get_authenticated_identity :: "ApiIdentity \<Rightarrow> exn + ApiIdentity" where
  "get_authenticated_identity u =
     (if \<not> is_authenticated u then Inl (HTTPException 401 (DText ''Authentication required''))
      else Inr u)"

definition get_admin_identity :: "ApiIdentity \<Rightarrow> exn + ApiIdentity" where
  "get_admin_identity u =
     andthen (get_authenticated_identity u) (\<lambda>u.
       if auth_type u \<noteq> ''jwt'' then Inl (HTTPException 403 (DText ''Admin JWT required''))
       else if ''admin'' \<notin> set (roles u) then Inl (HTTPException 403 (DText ''Admin role required''))
       else Inr u)"

section \<open>Record limits\<close>

definition record_limit_for_identity :: "Config \<Rightarrow> ApiIdentity \<Rightarrow> int option" where
  "record_limit_for_identity cfg u =
     (if ''admin'' \<in> set (roles u) then None
      else if ''basic-user'' \<in> set (roles u) then Some (ROW_LIMIT_BASIC_USER cfg)
      else if auth_type u = ''api_key'' then Some (ROW_LIMIT_API_KEY cfg)
      else if is_authenticated u then Some (ROW_LIMIT_AUTH cfg)
      else Some (ROW_LIMIT_ANON cfg))"

definition apply_role_record_limit :: "Config \<Rightarrow> ApiIdentity \<Rightarrow> int option \<Rightarrow> int option" where
  "apply_role_record_limit cfg u requested =
     (case record_limit_for_identity cfg u of
        None \<Rightarrow> requested
      | Some cap \<Rightarrow>
          (case requested of None \<Rightarrow> Some cap | Some n \<Rightarrow> Some (min n cap)))"

definition effective_limit_for_request :: "Config \<Rightarrow> Request \<Rightarrow> int option \<Rightarrow> int option" where
  "effective_limit_for_request cfg rq requested =
     (case rq_identity rq of
        None \<Rightarrow> apply_role_record_limit cfg anonymous_identity requested
      | Some u \<Rightarrow> apply_role_record_limit cfg u requested)"

section \<open>Properties\<close>

lemma identity_of_claims_Inr:
  assumes "identity_of_claims cfg claims = Inr u"
  shows "json_get claims ''sub'' = Inr (JStr (subject u)) \<and> subject u \<noteq> [] \<and> auth_type u = ''jwt'' \<and>
    (\<exists>aud azp. json_get claims ''aud'' = Inr aud \<and> json_get claims ''azp'' = Inr azp \<and>
       audience_ok cfg aud azp) \<and>
    roles_of_claims claims = Inr (roles u)"
proof -
  from assms obtain aud azp where
    aud: "json_get claims ''aud'' = Inr aud" and azp: "json_get claims ''azp'' = Inr azp"
    unfolding identity_of_claims_def andthen_Inr_iff by blast
  with assms have ok: "audience_ok cfg aud azp"
    unfolding identity_of_claims_def by (auto split: if_split_asm)
  with assms aud azp obtain rs scs sub where
    rs: "roles_of_claims claims = Inr rs"
    and scs: "andthen (json_get claims ''scope'') scopes_of = Inr scs"
    and sub: "json_get claims ''sub'' = Inr sub"
    using that by (auto simp: identity_of_claims_def andthen_Inr_iff)
  have "\<exists>n. as_string sub = Some n \<and> n \<noteq> [] \<and> subject u = n \<and> auth_type u = ''jwt'' \<and> roles u = rs"
    using assms ok
    by (auto simp: identity_of_claims_def aud azp rs scs sub andthen_Inr_iff
        split: if_split_asm option.split_asm)
  with sub have "json_get claims ''sub'' = Inr (JStr (subject u)) \<and> subject u \<noteq> [] \<and>
      auth_type u = ''jwt'' \<and> roles u = rs"
    by (cases sub) auto
  with aud azp ok rs show ?thesis by blast
qed

text \<open>
  The states a validator reaches over a network: it starts empty, and every validation, whatever
  the token, the time and what the network answered, may have changed its caches.
\<close>

inductive validator_reached :: "Config \<Rightarrow> network \<Rightarrow> Validator \<Rightarrow> bool" for cfg net where
  unused: "validator_reached cfg net init_validator"
| validated:
    "validator_reached cfg net v \<Longrightarrow> answers_from net http1 \<Longrightarrow> answers_from net http2 \<Longrightarrow>
     validate cfg lib http1 http2 t1 t2 token v = (r, v') \<Longrightarrow> validator_reached cfg net v'"

lemma reached_caches: "validator_reached cfg net v \<Longrightarrow> caches_from cfg net v"
proof (induction rule: validator_reached.induct)
  case unused
  show ?case by (simp add: caches_from_def init_validator_def)
next
  case (validated v http1 http2 lib t1 t2 token r v')
  show ?case
    by (rule validate_with_from [OF validated(4) [unfolded validate_def] validated(2,3,5)])
qed

text \<open>C10 A token is only ever accepted on the word of the identity provider: the key that verified
  its signature for the configured issuer stands, under the key id the token names, in a key
  set that the configured key address has answered with, or, where none is configured, an
  address that a discovery document of the issuer names.  This is so in every state the
  validator reaches, so also for a key set or an address from its caches.  The claims carry a
  non-empty subject, which is the identity's, and an allowed audience or client; the roles
  are the realm roles of the claims.\<close>

theorem accepted_tokens_verified:
  assumes "validator_reached cfg net v" "answers_from net http1" "answers_from net http2"
    and "validate cfg lib http1 http2 t1 t2 token v = (Inr u, v')"
  shows "\<exists>kid url jwks keys key claims aud azp.
    andthen (unverified_header lib token) (\<lambda>h. json_get h ''kid'') = Inr kid \<and> truthy kid \<and>
    (if KEYCLOAK_JWKS_URL cfg \<noteq> [] then url = KEYCLOAK_JWKS_URL cfg
     else \<exists>doc \<in> net (KEYCLOAK_ISSUER_URL cfg @ ''/.well-known/openid-configuration''). jwks_uri_of doc = Inr url) \<and>
    jwks \<in> net url \<and>
    json_get_or jwks ''keys'' (JList []) = Inr (JList keys) \<and> key \<in> set keys \<and>
    json_get key ''kid'' = Inr kid \<and>
    jwt_decode_rs256 lib token key (KEYCLOAK_ISSUER_URL cfg) = Inr claims \<and>
    json_get claims ''aud'' = Inr aud \<and> json_get claims ''azp'' = Inr azp \<and> audience_ok cfg aud azp \<and>
    json_get claims ''sub'' = Inr (JStr (subject u)) \<and> subject u \<noteq> [] \<and>
    roles_of_claims claims = Inr (roles u) \<and> auth_type u = ''jwt''"
proof -
  obtain kid jwks keys key claims where v:
    "andthen (unverified_header lib token) (\<lambda>h. json_get h ''kid'') = Inr kid" "truthy kid"
    "json_get_or jwks ''keys'' (JList []) = Inr (JList keys)" "key \<in> set keys"
    "json_get key ''kid'' = Inr kid"
    "jwt_decode_rs256 lib token key (KEYCLOAK_ISSUER_URL cfg) = Inr claims" "identity_of_claims cfg claims = Inr u"
    and j: "jwks \<in> provider_key_sets cfg net"
    using validate_with_Inr [OF assms(4) [unfolded validate_def] assms(2,3) reached_caches [OF assms(1)]] by blast
  from j obtain url where url: "jwks \<in> net url" "if KEYCLOAK_JWKS_URL cfg \<noteq> [] then url = KEYCLOAK_JWKS_URL cfg
     else \<exists>doc \<in> net (KEYCLOAK_ISSUER_URL cfg @ ''/.well-known/openid-configuration''). jwks_uri_of doc = Inr url"
    by (auto simp: provider_key_sets_def key_addresses_def named_addresses_def split: if_split_asm)
  from identity_of_claims_Inr [OF v(7)] v(1-6) url show ?thesis by blast
qed

text \<open>An identity provider at \<open>i\<close> whose discovery document names the address \<open>k\<close>.\<close>

definition sample_http :: http where
  "sample_http url =
     (if url = ''i/.well-known/openid-configuration'' then Inr (JObj [(''jwks_uri'', JStr ''k'')])
      else if url = ''k'' then Inr sample_jwks else Inl HTTPXError)"

definition sample_net :: network where
  "sample_net url = {j. sample_http url = Inr j}"

lemma sample_validate:
  "\<exists>v'. validate (cfg\<lparr>KEYCLOAK_ISSUER_URL := ''i'', KEYCLOAK_JWKS_URL := [], KEYCLOAK_ALLOWED_AUDIENCES := ''teehr-api''\<rparr>)
     sample_lib sample_http sample_http (at_time 1) (at_time 1) ''t'' init_validator =
   (Inr \<lparr>subject = ''alice'', auth_type = ''jwt'', roles = [''basic-user''], scopes = [],
         preferred_username = None, groups = []\<rparr>, v')"
  by (simp add: validate_def validate_with_def validate_body_def sample_lib_def sample_key_def sample_claims_def
      sample_jwks_def signing_key_def get_jwks_def get_jwks_locked_def get_jwks_url_def jwks_fresh_def jwks_url_fresh_def
      at_time_def init_validator_def sample_http_def
      JWKS_CACHE_TTL_def find_key_def identity_of_claims_def audience_ok_def allowed_audiences_def
      strip_def rstrip_with_def lstrip_with_def is_space_def roles_of_claims_def scopes_of_def)

lemma accepted_tokens_verified_witness:
  "\<forall>cfg :: Config. \<exists>url jwks keys key v'.
     validate (cfg\<lparr>KEYCLOAK_ISSUER_URL := ''i'', KEYCLOAK_JWKS_URL := [], KEYCLOAK_ALLOWED_AUDIENCES := ''teehr-api''\<rparr>)
       sample_lib sample_http sample_http (at_time 1) (at_time 1) ''t'' init_validator =
       (Inr \<lparr>subject = ''alice'', auth_type = ''jwt'', roles = [''basic-user''], scopes = [],
             preferred_username = None, groups = []\<rparr>, v') \<and>
     url = ''k'' \<and> jwks \<in> sample_net url \<and>
     json_get_or jwks ''keys'' (JList []) = Inr (JList keys) \<and> key \<in> set keys \<and>
     jwt_decode_rs256 sample_lib ''t'' key ''i'' = Inr sample_claims"
proof
  fix cfg :: Config
  let ?cfg = "cfg\<lparr>KEYCLOAK_ISSUER_URL := ''i'', KEYCLOAK_JWKS_URL := [], KEYCLOAK_ALLOWED_AUDIENCES := ''teehr-api''\<rparr>"
  obtain v' where g: "validate ?cfg sample_lib sample_http sample_http (at_time 1) (at_time 1) ''t'' init_validator =
       (Inr \<lparr>subject = ''alice'', auth_type = ''jwt'', roles = [''basic-user''], scopes = [],
             preferred_username = None, groups = []\<rparr>, v')"
    using sample_validate [of cfg] by blast
  have a: "answers_from sample_net sample_http" by (simp add: answers_from_def sample_net_def)
  have decoded: "jwt_decode_rs256 sample_lib t key i = Inr c \<Longrightarrow> c = sample_claims" for t key i c
    by (simp add: sample_lib_def split: if_splits)
  have doc: "doc \<in> sample_net ''i/.well-known/openid-configuration'' \<Longrightarrow> jwks_uri_of doc = Inr url \<Longrightarrow> url = ''k''" for doc url
    by (auto simp: sample_net_def sample_http_def)
  from accepted_tokens_verified [OF unused a a g] obtain url jwks keys key claims doc where
    f: "doc \<in> sample_net ''i/.well-known/openid-configuration''" "jwks_uri_of doc = Inr url" "jwks \<in> sample_net url"
    "json_get_or jwks ''keys'' (JList []) = Inr (JList keys)" "key \<in> set keys"
    "jwt_decode_rs256 sample_lib ''t'' key ''i'' = Inr claims" by auto
  from f(6) have dec: "jwt_decode_rs256 sample_lib ''t'' key ''i'' = Inr sample_claims" using decoded [OF f(6)] by simp
  show "\<exists>url jwks keys key v'.
     validate ?cfg sample_lib sample_http sample_http (at_time 1) (at_time 1) ''t'' init_validator =
       (Inr \<lparr>subject = ''alice'', auth_type = ''jwt'', roles = [''basic-user''], scopes = [],
             preferred_username = None, groups = []\<rparr>, v') \<and>
     url = ''k'' \<and> jwks \<in> sample_net url \<and>
     json_get_or jwks ''keys'' (JList []) = Inr (JList keys) \<and> key \<in> set keys \<and>
     jwt_decode_rs256 sample_lib ''t'' key ''i'' = Inr sample_claims"
    by (rule exI [of _ url], rule exI [of _ jwks], rule exI [of _ keys], rule exI [of _ key], rule exI [of _ v'])
      (intro conjI g doc [OF f(1,2)] f(3-5) dec)
qed

text \<open>No request is served more records than its caller's role allows: a caller with a cap always
  gets a limit, at most the cap and at most what was asked for, and it is one of the two;
  only an administrator is left without one.\<close>

theorem role_limit_enforced:
  "(case apply_role_record_limit cfg u requested of
      None \<Rightarrow> requested = None \<and> ''admin'' \<in> set (roles u)
    | Some n \<Rightarrow>
        (case record_limit_for_identity cfg u of
           None \<Rightarrow> requested = Some n \<and> ''admin'' \<in> set (roles u)
         | Some cap \<Rightarrow> n \<le> cap \<and> n \<le> (case requested of None \<Rightarrow> cap | Some r \<Rightarrow> r) \<and>
                        Some n \<in> {Some cap, requested}))"
  by (auto simp: apply_role_record_limit_def record_limit_for_identity_def split: option.splits)

end
