(* ===== verification/Rate_Limit.thy ===== *)
theory Rate_Limit
  imports Api_Auth
begin

text \<open>
  The in-memory rate limiter (\<open>api/src/rate_limit.py\<close>): one counter per key, the key
  starting with the minute; the counters of other minutes are dropped once more than
  50000 are held.  \<open>now\<close> is a reading of \<open>time.time()\<close>.
\<close>

type_synonym counts = "(string, int) dict"

definition minute_bucket :: "rat \<Rightarrow> int" where
  "minute_bucket now = \<lfloor>now / 60\<rfloor>"

definition rate_key :: "ApiIdentity \<Rightarrow> string \<Rightarrow> int \<Rightarrow> string" where
  "rate_key u route_key bucket =
     show_int bucket @ '':'' @ route_key @ '':'' @ auth_type u @ '':'' @ subject u"

definition limit_for :: "Config \<Rightarrow> ApiIdentity \<Rightarrow> int option" where
  "limit_for cfg u =
     (if ''admin'' \<in> set (roles u) then None
      else if is_authenticated u then Some (AUTH_RATE_LIMIT_RPM cfg)
      else Some (ANON_RATE_LIMIT_RPM cfg))"

definition MAX_COUNTS :: nat where
  "MAX_COUNTS = 50000"

definition rate_exceeded :: exn where
  "rate_exceeded =
     HTTPException 429
       (DText ''Rate limit exceeded. Authenticate for a higher limit or retry next minute.'')"

definition bucket_prefix :: "int \<Rightarrow> string" where
  "bucket_prefix bucket = show_int bucket @ '':''"

text \<open>The clean-up: keep the counters of this minute once there are too many.\<close>

definition cleanup :: "int \<Rightarrow> counts \<Rightarrow> counts" where
  "cleanup bucket c =
     (if MAX_COUNTS < length c then filter (\<lambda>kv. starts_with (fst kv) (bucket_prefix bucket)) c else c)"

text \<open>
  \<open>_enforce\<close>.  \<open>_counts\<close> is a \<open>defaultdict(int)\<close>: counting starts from 0, and the final
  read of a key that is not there would store a 0.
\<close>

definition enforce :: "string \<Rightarrow> int \<Rightarrow> int \<Rightarrow> counts \<Rightarrow> (exn + unit) \<times> counts" where
  "enforce key limit bucket c =
     (let c1 = dict_set c key (dict_get_default c key 0 + 1);
          c2 = cleanup bucket c1;
          c3 = (case dict_get c2 key of Some _ \<Rightarrow> c2 | None \<Rightarrow> dict_set c2 key 0)
      in (if limit < dict_get_default c3 key 0 then Inl rate_exceeded else Inr (), c3))"

definition check :: "Config \<Rightarrow> ApiIdentity \<Rightarrow> string \<Rightarrow> rat \<Rightarrow> counts \<Rightarrow> (exn + unit) \<times> counts" where
  "check cfg u route_key now c =
     (case limit_for cfg u of
        None \<Rightarrow> (Inr (), c)
      | Some limit \<Rightarrow>
          (let bucket = minute_bucket now
           in enforce (rate_key u route_key bucket) limit bucket c))"

definition check_by_key :: "string \<Rightarrow> int \<Rightarrow> rat \<Rightarrow> counts \<Rightarrow> (exn + unit) \<times> counts" where
  "check_by_key key_prefix limit now c =
     (let bucket = minute_bucket now
      in enforce (show_int bucket @ '':'' @ key_prefix) limit bucket c)"

section \<open>One request\<close>

definition count_of :: "counts \<Rightarrow> string \<Rightarrow> int" where
  "count_of c key = dict_get_default c key 0"

lemma cleanup_keeps [dict_simps]:
  "starts_with key (bucket_prefix b) \<Longrightarrow> dict_get (cleanup b c) key = dict_get c key"
  by (simp add: cleanup_def map_of_filter_key)

lemma cleanup_drops:
  "\<not> starts_with key (bucket_prefix b) \<Longrightarrow>
   dict_get (cleanup b c) key = (if MAX_COUNTS < length c then None else dict_get c key)"
  by (simp add: cleanup_def map_of_filter_key)

lemma dict_ok_cleanup: "dict_ok c \<Longrightarrow> dict_ok (cleanup b c)"
  by (auto simp: cleanup_def)

lemma enforce_state:
  assumes "starts_with key (bucket_prefix b)"
  shows "snd (enforce key limit b c) = cleanup b (dict_set c key (count_of c key + 1))"
  using assms by (simp add: enforce_def Let_def cleanup_keeps count_of_def)

lemma enforce_result:
  assumes "starts_with key (bucket_prefix b)"
  shows "fst (enforce key limit b c) =
    (if limit < count_of c key + 1 then Inl rate_exceeded else Inr ())"
  using assms by (simp add: enforce_def Let_def cleanup_keeps count_of_def dict_get_default_def)

lemma enforce_count:
  assumes "starts_with key (bucket_prefix b)" "starts_with k (bucket_prefix b)"
  shows "count_of (snd (enforce key limit b c)) k = count_of c k + (if k = key then 1 else 0)"
  using assms
  by (simp add: enforce_state count_of_def dict_get_default_def cleanup_keeps)

lemma enforce_dict_ok: "dict_ok c \<Longrightarrow> dict_ok (snd (enforce key limit b c))"
  by (auto simp: enforce_def Let_def split: option.splits intro!: dict_ok_cleanup dict_ok_set)

text \<open>The table never holds more than the limit and the counters of the current minute.\<close>

lemma enforce_bounded:
  assumes "starts_with key (bucket_prefix b)"
    and "MAX_COUNTS < length (snd (enforce key limit b c))"
  shows "\<forall>kv \<in> set (snd (enforce key limit b c)). starts_with (fst kv) (bucket_prefix b)"
  using assms by (auto simp: enforce_state cleanup_def split: if_splits)

section \<open>A minute of requests\<close>

text \<open>
  The requests of one minute, each with its key and the limit its caller has; \<open>granted\<close>
  lists the outcomes in order.
\<close>

fun enforce_all :: "int \<Rightarrow> (string \<times> int) list \<Rightarrow> counts \<Rightarrow> (exn + unit) list \<times> counts" where
  "enforce_all b [] c = ([], c)"
| "enforce_all b ((key, limit) # es) c =
     (case enforce key limit b c of (r, c') \<Rightarrow>
      case enforce_all b es c' of (rs, c'') \<Rightarrow> (r # rs, c''))"

definition allowed_for :: "string \<Rightarrow> (string \<times> int) list \<Rightarrow> (exn + unit) list \<Rightarrow> nat" where
  "allowed_for key es rs = length (filter (\<lambda>(e, r). fst e = key \<and> r = Inr ()) (zip es rs))"

definition requests_for :: "string \<Rightarrow> (string \<times> int) list \<Rightarrow> nat" where
  "requests_for key es = length (filter (\<lambda>e. fst e = key) es)"

lemma allowed_for_step:
  assumes "\<forall>e \<in> set es. starts_with (fst e) (bucket_prefix b)"
    and "\<forall>e \<in> set es. fst e = key \<longrightarrow> snd e = limit" "0 \<le> count_of c key"
    and "starts_with key (bucket_prefix b)"
  shows "int (allowed_for key es (fst (enforce_all b es c))) =
    min (int (requests_for key es)) (max 0 (limit - count_of c key))"
  using assms
proof (induction es arbitrary: c)
  case Nil
  then show ?case by (simp add: allowed_for_def requests_for_def)
next
  case (Cons e es)
  obtain k l where e: "e = (k, l)" by (cases e)
  let ?c' = "snd (enforce k l b c)"
  have k: "starts_with k (bucket_prefix b)" using Cons.prems(1) e by simp
  have cnt: "count_of ?c' key = count_of c key + (if key = k then 1 else 0)"
    using enforce_count [OF k Cons.prems(4)] by simp
  have IH: "int (allowed_for key es (fst (enforce_all b es ?c'))) =
      min (int (requests_for key es)) (max 0 (limit - count_of ?c' key))"
    using Cons.prems cnt by (intro Cons.IH) auto
  have res: "fst (enforce k l b c) = (if l < count_of c k + 1 then Inl rate_exceeded else Inr ())"
    using enforce_result [OF k] .
  have split: "fst (enforce_all b (e # es) c) =
      fst (enforce k l b c) # fst (enforce_all b es ?c')"
    by (simp add: e split: prod.splits)
  show ?case
  proof (cases "k = key")
    case True
    then have "l = limit" using Cons.prems(2) e by simp
    with True IH cnt res split show ?thesis
      by (auto simp: allowed_for_def requests_for_def e)
  next
    case False
    with IH cnt split show ?thesis
      by (auto simp: allowed_for_def requests_for_def e)
  qed
qed

section \<open>Keys\<close>

lemma is_digit_show_int: "c \<in> set (show_int n) \<Longrightarrow> is_digit c \<or> c = CHR ''-''"
  using show_nat_digits by (auto simp: show_int_def split: if_splits)

lemma colon_not_in_show_int [simp]: "CHR '':'' \<notin> set (show_int n)"
  using is_digit_show_int [of "CHR '':''" n] by (auto simp: is_digit_def)

lemma slash_not_in_show_int [simp]: "CHR ''/'' \<notin> set (show_int n)"
  using is_digit_show_int [of "CHR ''/''" n] by (auto simp: is_digit_def)

lemma show_nat_no_minus: "show_nat n \<noteq> CHR ''-'' # s"
  using show_nat_digits [of "CHR ''-''" n] by (auto simp: is_digit_def)

lemma show_int_inject [simp]: "show_int m = show_int n \<longleftrightarrow> m = n"
proof
  assume eq: "show_int m = show_int n"
  show "m = n"
  proof (cases "m < 0"; cases "n < 0")
    assume "m < 0" "n < 0"
    with eq have "nat (- m) = nat (- n)" by (simp add: show_int_def)
    with \<open>m < 0\<close> \<open>n < 0\<close> show ?thesis by arith
  next
    assume "\<not> m < 0" "\<not> n < 0"
    with eq have "nat m = nat n" by (simp add: show_int_def)
    with \<open>\<not> m < 0\<close> \<open>\<not> n < 0\<close> show ?thesis by arith
  next
    assume "m < 0" "\<not> n < 0"
    with eq have "show_nat (nat n) = CHR ''-'' # show_nat (nat (- m))"
      by (simp add: show_int_def)
    with show_nat_no_minus show ?thesis by blast
  next
    assume "\<not> m < 0" "n < 0"
    with eq have "show_nat (nat m) = CHR ''-'' # show_nat (nat (- n))"
      by (simp add: show_int_def)
    with show_nat_no_minus show ?thesis by blast
  qed
qed simp

lemma rate_key_prefix: "starts_with (rate_key u route b) (bucket_prefix b)"
  by (simp add: rate_key_def bucket_prefix_def)

lemma append_sep_inject:
  "c \<notin> set a \<Longrightarrow> c \<notin> set b \<Longrightarrow> a @ c # s = b @ c # t \<longleftrightarrow> a = b \<and> s = t"
proof (induction a arbitrary: b)
  case Nil
  then show ?case by (cases b) auto
next
  case (Cons x a)
  then show ?case by (cases b) auto
qed

lemma append_sep_inject_last:
  "c \<notin> set s \<Longrightarrow> c \<notin> set t \<Longrightarrow> a @ c # s = b @ c # t \<longleftrightarrow> a = b \<and> s = t"
proof -
  assume st: "c \<notin> set s" "c \<notin> set t"
  have "a @ c # s = b @ c # t \<longleftrightarrow> rev (a @ c # s) = rev (b @ c # t)"
    by (simp only: rev_is_rev_conv)
  also have "\<dots> \<longleftrightarrow> rev s @ c # rev a = rev t @ c # rev b"
    by (simp del: rev_is_rev_conv)
  also have "\<dots> \<longleftrightarrow> a = b \<and> s = t"
    using append_sep_inject [of c "rev s" "rev t" "rev a" "rev b"] st by auto
  finally show ?thesis .
qed

text \<open>
  Different requests have different counters, as long as subjects (Keycloak's UUIDs) hold
  no colon: a path may, and is read up to the last two fields.
\<close>

lemma rate_key_inject:
  assumes "CHR '':'' \<notin> set (subject u)" "CHR '':'' \<notin> set (subject u')"
    and "CHR '':'' \<notin> set (auth_type u)" "CHR '':'' \<notin> set (auth_type u')"
  shows "rate_key u r b = rate_key u' r' b' \<longleftrightarrow>
    b = b' \<and> r = r' \<and> auth_type u = auth_type u' \<and> subject u = subject u'"
proof -
  have "rate_key u r b = rate_key u' r' b' \<longleftrightarrow>
      show_int b = show_int b' \<and>
      (r @ CHR '':'' # auth_type u) @ CHR '':'' # subject u =
      (r' @ CHR '':'' # auth_type u') @ CHR '':'' # subject u'"
    by (simp add: rate_key_def append_sep_inject)
  also have "\<dots> \<longleftrightarrow> b = b' \<and> r @ CHR '':'' # auth_type u = r' @ CHR '':'' # auth_type u' \<and>
      subject u = subject u'"
    using append_sep_inject_last [OF assms(1,2), of "r @ CHR '':'' # auth_type u"
      "r' @ CHR '':'' # auth_type u'"] by auto
  also have "\<dots> \<longleftrightarrow> b = b' \<and> r = r' \<and> auth_type u = auth_type u' \<and> subject u = subject u'"
    using append_sep_inject_last [OF assms(3,4)] by auto
  finally show ?thesis .
qed

section \<open>Properties\<close>

text \<open>The requests of a run: who asks, for which path, at what time.\<close>

type_synonym rate_request = "ApiIdentity \<times> string \<times> rat"

fun check_all :: "Config \<Rightarrow> rate_request list \<Rightarrow> counts \<Rightarrow> (exn + unit) list \<times> counts" where
  "check_all cfg [] c = ([], c)"
| "check_all cfg ((u, route, now) # rqs) c =
     (case check cfg u route now c of (r, c') \<Rightarrow>
      case check_all cfg rqs c' of (rs, c'') \<Rightarrow> (r # rs, c''))"

text \<open>
  The requests charged to a counter: those of callers with a limit, whose key it is.  Callers
  without a limit are not counted.
\<close>

definition charged :: "Config \<Rightarrow> string \<Rightarrow> rate_request \<Rightarrow> bool" where
  "charged cfg key rq \<longleftrightarrow>
     (case rq of (u, route, now) \<Rightarrow>
        limit_for cfg u \<noteq> None \<and> rate_key u route (minute_bucket now) = key)"

text \<open>How many requests of a run are charged to a counter, and how many of them were let through.\<close>

definition charged_to :: "Config \<Rightarrow> string \<Rightarrow> rate_request list \<Rightarrow> nat" where
  "charged_to cfg key rqs = length (filter (charged cfg key) rqs)"

definition granted_on :: "Config \<Rightarrow> string \<Rightarrow> rate_request list \<Rightarrow> (exn + unit) list \<Rightarrow> nat" where
  "granted_on cfg key rqs rs = length (filter (\<lambda>(rq, r). charged cfg key rq \<and> r = Inr ()) (zip rqs rs))"

definition no_colon :: "ApiIdentity \<Rightarrow> bool" where
  "no_colon u \<longleftrightarrow> CHR '':'' \<notin> set (subject u) \<and> CHR '':'' \<notin> set (auth_type u)"

text \<open>A run within minute \<open>b\<close> in which all requests charged to \<open>key\<close> are under the same limit.\<close>

definition minute_run :: "Config \<Rightarrow> int \<Rightarrow> string \<Rightarrow> int \<Rightarrow> rate_request list \<Rightarrow> bool" where
  "minute_run cfg b key limit rqs \<longleftrightarrow>
     list_all (\<lambda>rq. minute_bucket (snd (snd rq)) = b \<and>
       (charged cfg key rq \<longrightarrow> limit_for cfg (fst rq) = Some limit)) rqs"

lemma charged_no_colon:
  assumes "no_colon u" "no_colon v"
  shows "charged cfg (rate_key u route b) (v, rt, now) =
     (limit_for cfg v \<noteq> None \<and> minute_bucket now = b \<and> rt = route \<and>
      auth_type v = auth_type u \<and> subject v = subject u)"
proof -
  have "rate_key v rt (minute_bucket now) = rate_key u route b \<longleftrightarrow>
      minute_bucket now = b \<and> rt = route \<and> auth_type v = auth_type u \<and> subject v = subject u"
    using rate_key_inject [of v u rt "minute_bucket now" route b] assms unfolding no_colon_def by blast
  then show ?thesis by (simp only: charged_def prod.case)
qed

lemma check_all_enforces:
  assumes "minute_run cfg b key limit rqs" "starts_with key (bucket_prefix b)"
  shows "int (granted_on cfg key rqs (fst (check_all cfg rqs c))) =
      min (int (charged_to cfg key rqs)) (max 0 (limit - count_of c key)) \<and>
    count_of (snd (check_all cfg rqs c)) key = count_of c key + int (charged_to cfg key rqs)"
  using assms(1)
proof (induction rqs arbitrary: c)
  case Nil
  then show ?case by (simp add: granted_on_def charged_to_def)
next
  case (Cons rq rqs)
  obtain v rt now where rq: "rq = (v, rt, now)" by (cases rq)
  let ?ch = "charged cfg key rq"
  from Cons.prems have b: "minute_bucket now = b" and lim: "?ch \<Longrightarrow> limit_for cfg v = Some limit"
    and run: "minute_run cfg b key limit rqs"
    by (auto simp: minute_run_def rq)
  let ?c' = "snd (check cfg v rt now c)"
  have split: "fst (check_all cfg (rq # rqs) c) = fst (check cfg v rt now c) # fst (check_all cfg rqs ?c')"
    "snd (check_all cfg (rq # rqs) c) = snd (check_all cfg rqs ?c')"
    by (simp_all add: rq split: prod.splits)
  have cnt: "count_of ?c' key = count_of c key + (if ?ch then 1 else 0)"
  proof (cases "limit_for cfg v")
    case None
    then show ?thesis by (simp add: check_def charged_def rq)
  next
    case (Some l)
    with enforce_count [OF rate_key_prefix [of b v rt] assms(2), of l c] b
    show ?thesis by (auto simp: check_def Let_def charged_def rq)
  qed
  have res: "fst (check cfg v rt now c) = (if limit < count_of c key + 1 then Inl rate_exceeded else Inr ())" if ch: ?ch
  proof -
    from ch have k: "rate_key v rt b = key" by (simp add: charged_def rq b)
    show ?thesis
      using enforce_result [OF rate_key_prefix [of b v rt], of limit c, unfolded k]
      by (simp only: check_def lim [OF ch] Let_def b k option.case)
  qed
  have count: "charged_to cfg key (rq # rqs) = (if ?ch then 1 else 0) + charged_to cfg key rqs"
    and grant: "granted_on cfg key (rq # rqs) (r # rs) =
      (if ?ch \<and> r = Inr () then 1 else 0) + granted_on cfg key rqs rs" for r rs
    by (simp_all add: charged_to_def granted_on_def)
  note IH = Cons.IH [OF run, of ?c', unfolded cnt]
  show ?case
  proof (cases ?ch)
    case False
    with IH show ?thesis by (simp add: split count grant)
  next
    case True
    show ?thesis
    proof (cases "limit < count_of c key + 1")
      case False
      with res [OF True] True have "fst (check cfg v rt now c) = Inr ()" by simp
      with True False IH show ?thesis unfolding split count grant by auto
    next
      case over: True
      with res [OF True] have "fst (check cfg v rt now c) = Inl rate_exceeded" by simp
      with True over IH show ?thesis unfolding split count grant by auto
    qed
  qed
qed

text \<open>C16 Within one minute exactly as many of the requests charged to a counter get through as its
  limit leaves, and no fewer: \<open>min\<close> of what was sent and of the requests-per-minute less
  what the counter already held, however they interleave with requests on other counters and
  with the clean-up of old ones; each of them, let through or not, is counted.  Where no
  subject holds a colon (Keycloak's UUIDs do not), a counter is one caller's on one path; a
  caller whose subject does hold one may share the counter of another path and caller.\<close>

theorem per_minute_quota:
  assumes "minute_run cfg b (rate_key u route b) limit rqs"
  shows "int (granted_on cfg (rate_key u route b) rqs (fst (check_all cfg rqs c))) =
      min (int (charged_to cfg (rate_key u route b) rqs)) (max 0 (limit - count_of c (rate_key u route b)))
    \<and> count_of (snd (check_all cfg rqs c)) (rate_key u route b) =
      count_of c (rate_key u route b) + int (charged_to cfg (rate_key u route b) rqs)
    \<and> (\<forall>v rt now. no_colon u \<and> no_colon v \<longrightarrow>
        charged cfg (rate_key u route b) (v, rt, now) =
          (limit_for cfg v \<noteq> None \<and> minute_bucket now = b \<and> rt = route \<and>
           auth_type v = auth_type u \<and> subject v = subject u))"
proof -
  note runs = check_all_enforces [OF assms rate_key_prefix, of c]
  show ?thesis
    by (intro conjI allI impI, rule conjunct1 [OF runs], rule conjunct2 [OF runs], elim conjE,
        rule charged_no_colon)
qed

definition api_user :: "string \<Rightarrow> ApiIdentity" where
  "api_user s = \<lparr>subject = s, auth_type = ''jwt'', roles = [], scopes = [],
                 preferred_username = None, groups = []\<rparr>"

lemma per_minute_quota_witness:
  "\<forall>cfg :: Config. int (granted_on (cfg\<lparr>AUTH_RATE_LIMIT_RPM := 3\<rparr>) ''1:/x:jwt:a''
      [(api_user ''a'', ''/x'', 61), (anonymous_identity, ''/x'', 62), (api_user ''a'', ''/x'', 70)]
      (fst (check_all (cfg\<lparr>AUTH_RATE_LIMIT_RPM := 3\<rparr>)
        [(api_user ''a'', ''/x'', 61), (anonymous_identity, ''/x'', 62), (api_user ''a'', ''/x'', 70)]
        [(''1:/x:jwt:a'', 2)]))) = 1"
  (is "\<forall>cfg. ?prop cfg")
proof
  fix cfg :: Config
  let ?cfg = "cfg\<lparr>AUTH_RATE_LIMIT_RPM := 3\<rparr>"
  let ?rqs = "[(api_user ''a'', ''/x'', 61), (anonymous_identity, ''/x'', 62), (api_user ''a'', ''/x'', 70)]"
  have key: "rate_key (api_user ''a'') ''/x'' 1 = ''1:/x:jwt:a''"
    by code_simp
  have other: "rate_key anonymous_identity ''/x'' 1 \<noteq> ''1:/x:jwt:a''"
    by code_simp
  have minute: "minute_bucket 61 = 1" "minute_bucket 62 = 1" "minute_bucket 70 = 1"
    by (simp_all add: minute_bucket_def floor_eq_iff)
  have lim: "limit_for ?cfg (api_user ''a'') = Some 3"
    by (simp add: limit_for_def is_authenticated_def api_user_def)
  have run: "minute_run ?cfg 1 (rate_key (api_user ''a'') ''/x'' 1) 3 ?rqs"
    and "charged_to ?cfg ''1:/x:jwt:a'' ?rqs = 2"
    using other by (simp_all add: minute_run_def charged_to_def charged_def minute key lim)
  with per_minute_quota [OF run, of "[(''1:/x:jwt:a'', 2)]"] show "?prop cfg"
    by (simp add: key count_of_def dict_get_default_def)
qed

lemma bucket_prefix_append [simp]: "starts_with (bucket_prefix b @ k) (bucket_prefix b)"
  by simp

lemma check_enforces:
  "limit_for cfg u = Some l \<Longrightarrow>
   check cfg u route now c = enforce (rate_key u route (minute_bucket now)) l (minute_bucket now) c"
  by (simp add: check_def Let_def)

text \<open>The counter table stays bounded: after a counted request, if it holds more than the limit
  then everything left in it belongs to the current minute, and no counter of the current
  minute has been lost or lowered by the clean-up.\<close>

theorem counts_bounded_to_minute:
  assumes "limit_for cfg u = Some l"
  shows "(length (snd (check cfg u route now c)) \<le> 50000 \<or>
      list_all (\<lambda>kv. starts_with (fst kv) (bucket_prefix (minute_bucket now)))
        (snd (check cfg u route now c))) \<and>
    count_of c (bucket_prefix (minute_bucket now) @ k) \<le>
      count_of (snd (check cfg u route now c)) (bucket_prefix (minute_bucket now) @ k)"
  using enforce_bounded [OF rate_key_prefix [of "minute_bucket now" u route], of l c]
    enforce_count [OF rate_key_prefix [of "minute_bucket now" u route] bucket_prefix_append, of l c k]
  unfolding check_enforces [OF assms] list_all_iff MAX_COUNTS_def by fastforce

lemma counts_bounded_to_minute_witness:
  "\<forall>cfg. count_of [(''0:/x'', 3)] (bucket_prefix (minute_bucket 5) @ ''/x'') \<le>
   count_of (snd (check cfg anonymous_identity ''/x'' 5 [(''0:/x'', 3)]))
     (bucket_prefix (minute_bucket 5) @ ''/x'')"
  (is "\<forall>cfg. ?prop cfg")
proof
  fix cfg
  have "limit_for cfg anonymous_identity = Some (ANON_RATE_LIMIT_RPM cfg)"
    by (simp add: limit_for_def anonymous_identity_def is_authenticated_def)
  from counts_bounded_to_minute [OF this] show "?prop cfg" by blast
qed

end
