(* ===== verification/Api_Key_Store.thy ===== *)
theory Api_Key_Store
  imports Api_Auth
begin

text \<open>
  The API key table (\<open>api/src/api_key_store.py\<close>): start-up with the copy of the legacy
  keys, creation, validation, listing and revocation.  The table is the list of its rows;
  each SQL statement of the file is the function it performs on them, with the primary key
  on \<open>id\<close> and the unique constraint on \<open>key_hash\<close> as the errors they raise.  The HMAC, the
  random token, the UUID and the clock are parameters; timestamps stay numbers.
\<close>

record key_row =
  kr_id :: string
  kr_owner_sub :: string
  kr_name :: string
  kr_key_hash :: string
  kr_scopes :: "string list option"
  kr_created_at :: rat
  kr_revoked_at :: "rat option"

text \<open>\<open>aks_pool\<close>: the connection pool exists; \<open>aks_table\<close>: \<open>None\<close> before the table is created.\<close>

record ApiKeyStore =
  aks_legacy_dsn :: string
  aks_pool :: bool
  aks_table :: "key_row list option"

definition not_initialized :: exn where
  "not_initialized = RuntimeError ''API key store is not initialized''"

section \<open>Start-up and the legacy copy\<close>

definition coalesce :: "'a option \<Rightarrow> 'a option \<Rightarrow> 'a option" where
  "coalesce x y = (case x of Some v \<Rightarrow> Some v | None \<Rightarrow> y)"

text \<open>One \<open>INSERT ... ON CONFLICT (id) DO UPDATE\<close> of \<open>_copy_legacy_keys\<close>.\<close>

definition upsert_legacy :: "key_row \<Rightarrow> key_row list \<Rightarrow> exn + key_row list" where
  "upsert_legacy row t =
     (if list_ex (\<lambda>r. kr_id r = kr_id row) t then
        Inr (map (\<lambda>r. if kr_id r = kr_id row
                      then r\<lparr>kr_revoked_at := coalesce (kr_revoked_at r) (kr_revoked_at row)\<rparr>
                      else r) t)
      else if list_ex (\<lambda>r. kr_key_hash r = kr_key_hash row) t then Inl (UniqueViolation ''key_hash'')
      else Inr (t @ [row]))"

fun upsert_all :: "key_row list \<Rightarrow> key_row list \<Rightarrow> exn + key_row list" where
  "upsert_all [] t = Inr t"
| "upsert_all (row # rows) t = andthen (upsert_legacy row t) (upsert_all rows)"

text \<open>
  \<open>_copy_legacy_keys\<close>: \<open>legacy\<close> is what the legacy database answers, \<open>None\<close> where it has
  no such table.  The inserts run in one transaction, so an error leaves the table as it was.
\<close>

definition copy_legacy_keys ::
  "exn + key_row list option \<Rightarrow> ApiKeyStore \<Rightarrow> (exn + unit) \<times> ApiKeyStore"
where
  "copy_legacy_keys legacy st =
     (case legacy of
        Inl e \<Rightarrow> (Inl e, st)
      | Inr None \<Rightarrow> (Inr (), st)
      | Inr (Some rows) \<Rightarrow>
          (case aks_table st of
             None \<Rightarrow> (Inl (DatabaseError ''api_keys''), st)
           | Some t \<Rightarrow>
               (case upsert_all rows t of
                  Inl e \<Rightarrow> (Inl e, st)
                | Inr t' \<Rightarrow> (Inr (), st\<lparr>aks_table := Some t'\<rparr>))))"

definition startup :: "exn + key_row list option \<Rightarrow> ApiKeyStore \<Rightarrow> (exn + unit) \<times> ApiKeyStore" where
  "startup legacy st =
     (let st1 = st\<lparr>aks_pool := True,
                   aks_table := (case aks_table st of None \<Rightarrow> Some [] | Some t \<Rightarrow> Some t)\<rparr>
      in if aks_legacy_dsn st \<noteq> [] then copy_legacy_keys legacy st1 else (Inr (), st1))"

section \<open>Keys\<close>

definition hash_key :: "(string \<Rightarrow> string \<Rightarrow> string) \<Rightarrow> Config \<Rightarrow> string \<Rightarrow> string" where
  "hash_key hmac cfg plaintext = hmac (API_KEY_HASH_SALT cfg) plaintext"

definition new_api_key :: "Config \<Rightarrow> string \<Rightarrow> string" where
  "new_api_key cfg token = API_KEY_PREFIX cfg @ token"

record created_key =
  ck_id :: string
  ck_name :: string
  ck_api_key :: string
  ck_scopes :: "string list"

definition insert_row :: "key_row \<Rightarrow> key_row list \<Rightarrow> exn + key_row list" where
  "insert_row row t =
     (if list_ex (\<lambda>r. kr_id r = kr_id row) t then Inl (UniqueViolation ''id'')
      else if list_ex (\<lambda>r. kr_key_hash r = kr_key_hash row) t then Inl (UniqueViolation ''key_hash'')
      else Inr (t @ [row]))"

text \<open>The rows a statement reaches: without the table every statement fails.\<close>

definition with_rows ::
  "ApiKeyStore \<Rightarrow> (key_row list \<Rightarrow> (exn + 'a) \<times> key_row list) \<Rightarrow> (exn + 'a) \<times> ApiKeyStore"
where
  "with_rows st f =
     (if \<not> aks_pool st then (Inl not_initialized, st)
      else case aks_table st of
        None \<Rightarrow> (Inl (DatabaseError ''api_keys''), st)
      | Some t \<Rightarrow> (case f t of (r, t') \<Rightarrow> (r, st\<lparr>aks_table := Some t'\<rparr>)))"

definition create_key ::
  "(string \<Rightarrow> string \<Rightarrow> string) \<Rightarrow> Config \<Rightarrow> string \<Rightarrow> string \<Rightarrow> rat \<Rightarrow> string \<Rightarrow> string \<Rightarrow> string list option
     \<Rightarrow> ApiKeyStore \<Rightarrow> (exn + created_key) \<times> ApiKeyStore"
where
  "create_key hmac cfg token uuid now owner nm scs st =
     (let plaintext = new_api_key cfg token;
          scs' = (case scs of None \<Rightarrow> [] | Some xs \<Rightarrow> xs);
          row = \<lparr>kr_id = uuid, kr_owner_sub = owner, kr_name = nm,
                 kr_key_hash = hash_key hmac cfg plaintext, kr_scopes = Some scs',
                 kr_created_at = now, kr_revoked_at = None\<rparr>
      in with_rows st (\<lambda>t.
           case insert_row row t of
             Inl e \<Rightarrow> (Inl e, t)
           | Inr t' \<Rightarrow> (Inr \<lparr>ck_id = uuid, ck_name = nm, ck_api_key = plaintext, ck_scopes = scs'\<rparr>, t')))"

definition key_identity :: "key_row \<Rightarrow> ApiIdentity" where
  "key_identity r =
     \<lparr>subject = kr_owner_sub r, auth_type = ''api_key'', roles = [''api-key''],
      scopes = (case kr_scopes r of Some xs \<Rightarrow> xs | None \<Rightarrow> []),
      preferred_username = None, groups = []\<rparr>"

definition validate_key ::
  "(string \<Rightarrow> string \<Rightarrow> string) \<Rightarrow> Config \<Rightarrow> string \<Rightarrow> ApiKeyStore
     \<Rightarrow> (exn + ApiIdentity option) \<times> ApiKeyStore"
where
  "validate_key hmac cfg plaintext st =
     with_rows st (\<lambda>t.
       (case find (\<lambda>r. kr_key_hash r = hash_key hmac cfg plaintext) t of
          None \<Rightarrow> Inr None
        | Some r \<Rightarrow> if kr_revoked_at r \<noteq> None then Inr None else Inr (Some (key_identity r)), t))"

record key_info =
  ki_id :: string
  ki_name :: string
  ki_scopes :: "string list"
  ki_created_at :: rat
  ki_revoked_at :: "rat option"

definition key_info_of :: "key_row \<Rightarrow> key_info" where
  "key_info_of r =
     \<lparr>ki_id = kr_id r, ki_name = kr_name r,
      ki_scopes = (case kr_scopes r of Some xs \<Rightarrow> xs | None \<Rightarrow> []),
      ki_created_at = kr_created_at r, ki_revoked_at = kr_revoked_at r\<rparr>"

text \<open>\<open>ORDER BY created_at DESC\<close>, one of the orders the statement allows on ties.\<close>

definition list_keys :: "ApiKeyStore \<Rightarrow> (exn + key_info list) \<times> ApiKeyStore" where
  "list_keys st =
     with_rows st (\<lambda>t. (Inr (map key_info_of (sort_key (\<lambda>r. - kr_created_at r) t)), t))"

definition revocable :: "string \<Rightarrow> string \<Rightarrow> key_row \<Rightarrow> bool" where
  "revocable owner key_id r \<longleftrightarrow>
     kr_id r = key_id \<and> kr_owner_sub r = owner \<and> kr_revoked_at r = None"

text \<open>The command tag of the \<open>UPDATE\<close>, whose last character the code looks at.\<close>

definition revoke_key ::
  "rat \<Rightarrow> string \<Rightarrow> string \<Rightarrow> ApiKeyStore \<Rightarrow> (exn + bool) \<times> ApiKeyStore"
where
  "revoke_key now owner key_id st =
     with_rows st (\<lambda>t.
       (let result = ''UPDATE '' @ show_nat (length (filter (revocable owner key_id) t))
        in (Inr (ends_with result ''1''),
            map (\<lambda>r. if revocable owner key_id r then r\<lparr>kr_revoked_at := Some now\<rparr> else r) t)))"

section \<open>The table invariant\<close>

definition keys_ok :: "key_row list \<Rightarrow> bool" where
  "keys_ok t \<longleftrightarrow> distinct (map kr_id t) \<and> distinct (map kr_key_hash t)"

definition store_ok :: "ApiKeyStore \<Rightarrow> bool" where
  "store_ok st \<longleftrightarrow> (case aks_table st of None \<Rightarrow> True | Some t \<Rightarrow> keys_ok t)"

lemma keys_ok_map_revoked:
  "keys_ok (map (\<lambda>r. if P r then r\<lparr>kr_revoked_at := h r\<rparr> else r) t) \<longleftrightarrow> keys_ok t"
proof -
  have "map kr_id (map (\<lambda>r. if P r then r\<lparr>kr_revoked_at := h r\<rparr> else r) t) = map kr_id t"
    by (induction t) auto
  moreover have
    "map kr_key_hash (map (\<lambda>r. if P r then r\<lparr>kr_revoked_at := h r\<rparr> else r) t) = map kr_key_hash t"
    by (induction t) auto
  ultimately show ?thesis unfolding keys_ok_def by (simp only:)
qed

lemma keys_ok_append:
  "keys_ok t \<Longrightarrow> \<not> list_ex (\<lambda>r. kr_id r = kr_id row) t \<Longrightarrow>
   \<not> list_ex (\<lambda>r. kr_key_hash r = kr_key_hash row) t \<Longrightarrow> keys_ok (t @ [row])"
  by (auto simp: keys_ok_def list_ex_iff)

lemma upsert_legacy_ok: "keys_ok t \<Longrightarrow> upsert_legacy row t = Inr t' \<Longrightarrow> keys_ok t'"
  by (auto simp: upsert_legacy_def keys_ok_append keys_ok_map_revoked split: if_splits)

lemma upsert_all_ok: "keys_ok t \<Longrightarrow> upsert_all rows t = Inr t' \<Longrightarrow> keys_ok t'"
  by (induction rows arbitrary: t) (auto simp: andthen_Inr_iff dest: upsert_legacy_ok)

lemma insert_row_ok: "keys_ok t \<Longrightarrow> insert_row row t = Inr t' \<Longrightarrow> keys_ok t'"
  by (auto simp: insert_row_def keys_ok_append split: if_splits)

lemma with_rows_ok:
  "store_ok st \<Longrightarrow> (\<And>t. keys_ok t \<Longrightarrow> keys_ok (snd (f t))) \<Longrightarrow> store_ok (snd (with_rows st f))"
  by (auto simp: with_rows_def store_ok_def split: option.splits prod.splits) (metis snd_conv)

lemma keys_ok_Nil [simp]: "keys_ok []"
  by (simp add: keys_ok_def)

lemma startup_ok: "store_ok st \<Longrightarrow> store_ok (snd (startup legacy st))"
  by (auto simp: startup_def copy_legacy_keys_def store_ok_def Let_def
      split: option.splits sum.splits intro: upsert_all_ok [of "[]"] upsert_all_ok)

lemma create_key_ok: "store_ok st \<Longrightarrow> store_ok (snd (create_key hmac cfg tk uuid now ow nm scs st))"
  unfolding create_key_def Let_def
  by (rule with_rows_ok) (auto split: sum.splits intro: insert_row_ok)

lemma validate_key_state: "snd (validate_key hmac cfg p st) = st"
  by (cases st) (auto simp: validate_key_def with_rows_def split: option.splits)

lemma list_keys_state: "snd (list_keys st) = st"
  by (cases st) (auto simp: list_keys_def with_rows_def split: option.splits)

lemma revoke_key_ok: "store_ok st \<Longrightarrow> store_ok (snd (revoke_key now ow kid st))"
  unfolding revoke_key_def Let_def
  by (rule with_rows_ok) (auto simp: keys_ok_map_revoked)

section \<open>Rows by id and by hash\<close>

definition row_of :: "key_row list \<Rightarrow> string \<Rightarrow> key_row option" where
  "row_of t i = find (\<lambda>r. kr_id r = i) t"

lemma find_distinct:
  "distinct (map f t) \<Longrightarrow> r \<in> set t \<Longrightarrow> find (\<lambda>r'. f r' = f r) t = Some r"
proof (induction t)
  case Nil
  then show ?case by simp
next
  case (Cons a t)
  then show ?case by (auto simp: image_iff)
qed

lemma find_SomeD: "find P t = Some r \<Longrightarrow> r \<in> set t \<and> P r"
  by (auto simp: find_Some_iff)

lemma row_of_iff: "keys_ok t \<Longrightarrow> row_of t i = Some r \<longleftrightarrow> r \<in> set t \<and> kr_id r = i"
  using find_distinct [of kr_id t r] by (auto simp: row_of_def keys_ok_def dest: find_SomeD)

lemma length_filter_unique:
  "distinct (map f t) \<Longrightarrow> (\<And>r. r \<in> set t \<Longrightarrow> P r \<Longrightarrow> f r = k) \<Longrightarrow>
   length (filter P t) = (if \<exists>r \<in> set t. P r then 1 else 0)"
proof (induction t)
  case Nil
  then show ?case by simp
next
  case (Cons a t)
  show ?case
  proof (cases "P a")
    case True
    then have "filter P t = []"
      using Cons.prems by (auto simp: filter_empty_conv image_iff)
    with True show ?thesis by simp
  next
    case False
    with Cons show ?thesis by auto
  qed
qed

lemma ends_with_one:
  "ends_with (''UPDATE '' @ show_nat (if b then 1 else 0)) ''1'' \<longleftrightarrow> b"
proof -
  have "show_nat 0 = ''0''" "show_nat 1 = ''1''" by code_simp+
  moreover have "ends_with (s @ ''1'') ''1''" "\<not> ends_with (s @ ''0'') ''1''" for s
    by (auto simp: suffix_def)
  ultimately show ?thesis by (cases b) (simp_all only: if_True if_False simp_thms)
qed

section \<open>What the operations do to the rows\<close>

lemma row_of_map_revoked:
  "row_of (map (\<lambda>r. if revocable ow i r then r\<lparr>kr_revoked_at := Some now\<rparr> else r) t) j =
     map_option (\<lambda>r. if revocable ow i r then r\<lparr>kr_revoked_at := Some now\<rparr> else r) (row_of t j)"
  unfolding row_of_def by (induction t) (auto simp: revocable_def)

lemma revoke_key_rows:
  assumes "keys_ok t" "aks_pool st" "aks_table st = Some t"
  shows "revoke_key now ow i st =
    (Inr (\<exists>r \<in> set t. revocable ow i r),
     st\<lparr>aks_table :=
          Some (map (\<lambda>r. if revocable ow i r then r\<lparr>kr_revoked_at := Some now\<rparr> else r) t)\<rparr>)"
proof -
  have "length (filter (revocable ow i) t) = (if \<exists>r \<in> set t. revocable ow i r then 1 else 0)"
    using assms by (intro length_filter_unique [of kr_id]) (auto simp: keys_ok_def revocable_def)
  with assms(2,3) show ?thesis
    by (simp only: revoke_key_def with_rows_def Let_def simp_thms if_True if_False
        option.case prod.case ends_with_one)
qed

section \<open>The row a plaintext key belongs to\<close>

definition row_for :: "(string \<Rightarrow> string \<Rightarrow> string) \<Rightarrow> Config \<Rightarrow> string \<Rightarrow> key_row list \<Rightarrow> key_row option" where
  "row_for hmac cfg p t = find (\<lambda>r. kr_key_hash r = hash_key hmac cfg p) t"

lemma validate_key_cases:
  "validate_key hmac cfg p st =
     (if \<not> aks_pool st then (Inl not_initialized, st)
      else case aks_table st of
        None \<Rightarrow> (Inl (DatabaseError ''api_keys''), st)
      | Some t \<Rightarrow> (case row_for hmac cfg p t of
            None \<Rightarrow> Inr None
          | Some r \<Rightarrow> if kr_revoked_at r \<noteq> None then Inr None else Inr (Some (key_identity r)), st))"
  by (cases st) (simp add: validate_key_def with_rows_def row_for_def split: option.splits)

lemma find_map_keeps:
  "(\<And>r. Q (f r) = Q r) \<Longrightarrow> find Q (map f t) = map_option f (find Q t)"
  by (induction t) auto

lemma row_for_revoked:
  "row_for hmac cfg p (map (\<lambda>r. if P r then r\<lparr>kr_revoked_at := h r\<rparr> else r) t) =
     map_option (\<lambda>r. if P r then r\<lparr>kr_revoked_at := h r\<rparr> else r) (row_for hmac cfg p t)"
  unfolding row_for_def by (rule find_map_keeps) simp

lemma row_for_mem:
  "row_for hmac cfg p t = Some r \<Longrightarrow> r \<in> set t \<and> kr_key_hash r = hash_key hmac cfg p"
  unfolding row_for_def by (rule find_SomeD)

lemma row_for_append:
  "row_for hmac cfg p (t @ [r]) =
     (case row_for hmac cfg p t of
        Some r' \<Rightarrow> Some r'
      | None \<Rightarrow> if kr_key_hash r = hash_key hmac cfg p then Some r else None)"
  unfolding row_for_def by (induction t) auto

lemma row_for_None:
  "row_for hmac cfg p t = None \<longleftrightarrow> \<not> list_ex (\<lambda>r. kr_key_hash r = hash_key hmac cfg p) t"
  unfolding row_for_def by (auto simp: find_None_iff list_ex_iff)

section \<open>Settled legacy rows\<close>

text \<open>A legacy row the copy has nothing left to do for.\<close>

definition settled :: "key_row list \<Rightarrow> key_row \<Rightarrow> bool" where
  "settled t row \<longleftrightarrow>
     (\<exists>r \<in> set t. kr_id r = kr_id row) \<and>
     (\<forall>r \<in> set t. kr_id r = kr_id row \<longrightarrow> kr_revoked_at r = None \<longrightarrow> kr_revoked_at row = None)"

lemma settled_map:
  "(\<And>r. kr_id (f r) = kr_id r) \<Longrightarrow> settled (map f t) row \<longleftrightarrow>
     (\<exists>r \<in> set t. kr_id r = kr_id row) \<and>
     (\<forall>r \<in> set t. kr_id r = kr_id row \<longrightarrow> kr_revoked_at (f r) = None \<longrightarrow> kr_revoked_at row = None)"
  by (auto simp: settled_def)

lemma settled_append:
  "settled t row \<Longrightarrow> \<not> list_ex (\<lambda>r. kr_id r = kr_id row') t \<Longrightarrow> settled (t @ [row']) row"
  by (auto simp: settled_def list_ex_iff)

lemma upsert_settled: "settled t row \<Longrightarrow> upsert_legacy row t = Inr t"
  unfolding upsert_legacy_def settled_def
  by (auto simp: list_ex_iff coalesce_def intro!: map_idI split: option.splits)

lemma upsert_settles: "upsert_legacy row t = Inr t' \<Longrightarrow> settled t' row"
  unfolding upsert_legacy_def
  by (auto simp: settled_map list_ex_iff coalesce_def split: if_splits option.splits)
    (auto simp: settled_def)

lemma upsert_keeps_settled: "upsert_legacy row t = Inr t' \<Longrightarrow> settled t row' \<Longrightarrow> settled t' row'"
  unfolding upsert_legacy_def
  by (auto simp: settled_map settled_append coalesce_def split: if_splits option.splits)
    (auto simp: settled_def)

lemma upsert_all_settles:
  "upsert_all rows t = Inr t' \<Longrightarrow> row \<in> set rows \<or> settled t row \<Longrightarrow> settled t' row"
  by (induction rows arbitrary: t)
    (auto simp: andthen_Inr_iff dest: upsert_settles upsert_keeps_settled)

lemma upsert_all_settled: "(\<And>row. row \<in> set rows \<Longrightarrow> settled t row) \<Longrightarrow> upsert_all rows t = Inr t"
  by (induction rows) (auto simp: upsert_settled)

text \<open>What survives every statement: a row keeps its owner and hash, and stays revoked.\<close>

definition row_kept :: "key_row \<Rightarrow> key_row \<Rightarrow> bool" where
  "row_kept r r' \<longleftrightarrow>
     r' = r\<lparr>kr_revoked_at := kr_revoked_at r'\<rparr> \<and>
     (kr_revoked_at r \<noteq> None \<longrightarrow> kr_revoked_at r' = kr_revoked_at r)"

definition table_kept :: "key_row list \<Rightarrow> key_row list \<Rightarrow> bool" where
  "table_kept t t' \<longleftrightarrow> (\<forall>r \<in> set t. \<exists>r' \<in> set t'. row_kept r r')"

lemma row_kept_refl [simp]: "row_kept r r"
  by (simp add: row_kept_def)

lemma row_kept_trans: "row_kept a b \<Longrightarrow> row_kept b c \<Longrightarrow> row_kept a c"
  by (cases a; cases b; cases c) (auto simp: row_kept_def)

lemma table_kept_refl [simp]: "table_kept t t"
  by (auto simp: table_kept_def intro: row_kept_refl)

lemma table_kept_trans: "table_kept a b \<Longrightarrow> table_kept b c \<Longrightarrow> table_kept a c"
  unfolding table_kept_def by (blast intro: row_kept_trans)

lemma table_kept_map: "(\<And>r. row_kept r (f r)) \<Longrightarrow> table_kept t (map f t)"
  by (auto simp: table_kept_def)

lemma table_kept_append [simp]: "table_kept t (t @ xs)"
  by (auto simp: table_kept_def intro: row_kept_refl)

lemma upsert_legacy_kept: "upsert_legacy row t = Inr t' \<Longrightarrow> table_kept t t'"
  by (auto simp: upsert_legacy_def coalesce_def row_kept_def
      intro!: table_kept_map split: if_splits option.splits)

lemma upsert_all_kept: "upsert_all rows t = Inr t' \<Longrightarrow> table_kept t t'"
  by (induction rows arbitrary: t)
    (auto simp: andthen_Inr_iff dest: upsert_legacy_kept intro: table_kept_trans)

lemma revoke_kept:
  "table_kept t (map (\<lambda>r. if revocable ow i r then r\<lparr>kr_revoked_at := Some now\<rparr> else r) t)"
  by (rule table_kept_map) (auto simp: row_kept_def revocable_def)

section \<open>Runs of the store\<close>

text \<open>Everything the service does to the store, in any order and with any arguments.\<close>

inductive key_step :: "(string \<Rightarrow> string \<Rightarrow> string) \<Rightarrow> Config \<Rightarrow> ApiKeyStore \<Rightarrow> ApiKeyStore \<Rightarrow> bool"
  for hmac cfg
where
  step_startup: "key_step hmac cfg st (snd (startup legacy st))"
| step_create: "key_step hmac cfg st (snd (create_key hmac cfg tk uuid now ow nm scs st))"
| step_validate: "key_step hmac cfg st (snd (validate_key hmac cfg p st))"
| step_list: "key_step hmac cfg st (snd (list_keys st))"
| step_revoke: "key_step hmac cfg st (snd (revoke_key now ow i st))"

inductive key_run :: "(string \<Rightarrow> string \<Rightarrow> string) \<Rightarrow> Config \<Rightarrow> ApiKeyStore \<Rightarrow> ApiKeyStore \<Rightarrow> bool"
  for hmac cfg st
where
  run_here: "key_run hmac cfg st st"
| run_step: "key_run hmac cfg st st' \<Longrightarrow> key_step hmac cfg st' st'' \<Longrightarrow> key_run hmac cfg st st''"

definition store_kept :: "ApiKeyStore \<Rightarrow> ApiKeyStore \<Rightarrow> bool" where
  "store_kept st st' \<longleftrightarrow>
     (aks_pool st \<longrightarrow> aks_pool st') \<and>
     (\<forall>t. aks_table st = Some t \<longrightarrow> (\<exists>t'. aks_table st' = Some t' \<and> table_kept t t'))"

lemma key_step_ok: "key_step hmac cfg st st' \<Longrightarrow> store_ok st \<Longrightarrow> store_ok st'"
  by (induction rule: key_step.induct)
    (simp_all add: startup_ok create_key_ok validate_key_state list_keys_state revoke_key_ok)

lemma with_rows_kept:
  "(\<And>t. table_kept t (snd (f t))) \<Longrightarrow> store_kept st (snd (with_rows st f))"
  by (auto simp: store_kept_def with_rows_def split: option.splits prod.splits) (metis snd_conv)

lemma startup_kept: "store_kept st (snd (startup legacy st))"
  by (auto simp: startup_def copy_legacy_keys_def store_kept_def Let_def
      split: option.splits sum.splits intro: upsert_all_kept)

lemma create_key_kept: "store_kept st (snd (create_key hmac cfg tk uuid now ow nm scs st))"
  unfolding create_key_def Let_def
  by (rule with_rows_kept) (auto simp: insert_row_def split: sum.splits if_splits)

lemma revoke_key_kept: "store_kept st (snd (revoke_key now ow i st))"
  unfolding revoke_key_def Let_def by (rule with_rows_kept) (simp add: revoke_kept)

lemma store_kept_refl [simp]: "store_kept st st"
  by (simp add: store_kept_def)

lemma store_kept_trans: "store_kept a b \<Longrightarrow> store_kept b c \<Longrightarrow> store_kept a c"
  unfolding store_kept_def by (meson table_kept_trans)

lemma key_step_kept: "key_step hmac cfg st st' \<Longrightarrow> store_kept st st'"
  by (induction rule: key_step.induct)
    (simp_all add: startup_kept create_key_kept validate_key_state list_keys_state revoke_key_kept)

lemma key_run_invariant: "key_run hmac cfg st st' \<Longrightarrow> store_ok st \<Longrightarrow> store_ok st' \<and> store_kept st st'"
  by (induction rule: key_run.induct)
    (auto dest: key_step_ok key_step_kept intro: store_kept_trans)

section \<open>Properties\<close>

lemma insert_row_Inr:
  "insert_row row t = Inr t' \<Longrightarrow>
     t' = t @ [row] \<and> \<not> list_ex (\<lambda>r. kr_id r = kr_id row) t \<and>
     \<not> list_ex (\<lambda>r. kr_key_hash r = kr_key_hash row) t"
  by (auto simp: insert_row_def split: if_splits)

lemma create_key_Inr:
  assumes "create_key hmac cfg tk uuid now ow nm scs st = (Inr k, st')"
  shows "\<exists>t row. aks_pool st \<and> aks_table st = Some t \<and> st' = st\<lparr>aks_table := Some (t @ [row])\<rparr> \<and>
    row_for hmac cfg (ck_api_key k) t = None \<and> kr_id row = ck_id k \<and> kr_revoked_at row = None \<and>
    kr_key_hash row = hash_key hmac cfg (ck_api_key k) \<and>
    key_identity row = \<lparr>subject = ow, auth_type = ''api_key'', roles = [''api-key''],
                        scopes = ck_scopes k, preferred_username = None, groups = []\<rparr>"
  using assms unfolding create_key_def Let_def with_rows_def
  by (auto simp: row_for_None key_identity_def dest!: insert_row_Inr
      split: if_splits option.splits sum.splits)

lemma create_key_made:
  "create_key hmac cfg tk uuid now ow nm scs st = (Inr k, st') \<Longrightarrow>
   k = \<lparr>ck_id = uuid, ck_name = nm, ck_api_key = API_KEY_PREFIX cfg @ tk,
        ck_scopes = (case scs of None \<Rightarrow> [] | Some xs \<Rightarrow> xs)\<rparr>"
  unfolding create_key_def Let_def with_rows_def new_api_key_def
  by (auto split: if_split_asm option.split_asm sum.split_asm)

text \<open>C33 The key a caller is handed on creation is the prefix and the fresh token, under the id and
  the name given, with exactly the scopes asked for, none where none were.  It authenticates
  as its owner, as an API key with those scopes and the role \<open>api-key\<close> alone, and creating it
  changes the answer for no key with another hash.\<close>

theorem created_key_authenticates:
  assumes "create_key hmac cfg tk uuid now ow nm scs st = (Inr k, st')"
  shows "k = \<lparr>ck_id = uuid, ck_name = nm, ck_api_key = API_KEY_PREFIX cfg @ tk,
              ck_scopes = (case scs of None \<Rightarrow> [] | Some xs \<Rightarrow> xs)\<rparr> \<and>
    validate_key hmac cfg (API_KEY_PREFIX cfg @ tk) st' =
      (Inr (Some \<lparr>subject = ow, auth_type = ''api_key'', roles = [''api-key''],
                  scopes = (case scs of None \<Rightarrow> [] | Some xs \<Rightarrow> xs),
                  preferred_username = None, groups = []\<rparr>), st') \<and>
    (\<forall>p. hash_key hmac cfg p \<noteq> hash_key hmac cfg (API_KEY_PREFIX cfg @ tk) \<longrightarrow>
         fst (validate_key hmac cfg p st') = fst (validate_key hmac cfg p st))"
  using create_key_Inr [OF assms, unfolded create_key_made [OF assms]] create_key_made [OF assms]
  by (auto simp: validate_key_cases row_for_append split: option.splits if_splits)

definition sample_hmac :: "string \<Rightarrow> string \<Rightarrow> string" where
  "sample_hmac salt x = salt @ rev x"

definition sample_row :: "string \<Rightarrow> string \<Rightarrow> string \<Rightarrow> rat option \<Rightarrow> key_row" where
  "sample_row i ow p rev_at =
     \<lparr>kr_id = i, kr_owner_sub = ow, kr_name = ''n'', kr_key_hash = rev p, kr_scopes = Some [],
      kr_created_at = 1, kr_revoked_at = rev_at\<rparr>"

definition sample_store :: "key_row list \<Rightarrow> ApiKeyStore" where
  "sample_store t = \<lparr>aks_legacy_dsn = ''dsn'', aks_pool = True, aks_table = Some t\<rparr>"

lemmas sample_key_simps = sample_hmac_def sample_row_def sample_store_def with_rows_def
  hash_key_def new_api_key_def insert_row_def

lemma created_key_authenticates_witness:
  "\<forall>cfg. \<exists>k st'. create_key sample_hmac cfg ''tok'' ''id-2'' 5 ''alice'' ''k'' (Some [''read''])
             (sample_store [sample_row ''id-1'' ''bob'' [] None]) = (Inr k, st') \<and>
           ck_scopes k = [''read''] \<and>
           fst (validate_key sample_hmac cfg (API_KEY_PREFIX cfg @ ''tok'') st') =
             Inr (Some \<lparr>subject = ''alice'', auth_type = ''api_key'', roles = [''api-key''],
                        scopes = [''read''], preferred_username = None, groups = []\<rparr>)"
proof
  fix cfg
  have "\<exists>k st'. create_key sample_hmac cfg ''tok'' ''id-2'' 5 ''alice'' ''k'' (Some [''read''])
      (sample_store [sample_row ''id-1'' ''bob'' [] None]) = (Inr k, st')"
    by (simp add: create_key_def sample_key_simps Let_def)
  then obtain k st' where c: "create_key sample_hmac cfg ''tok'' ''id-2'' 5 ''alice'' ''k'' (Some [''read''])
      (sample_store [sample_row ''id-1'' ''bob'' [] None]) = (Inr k, st')" by blast
  from created_key_authenticates [OF c] c
  show "\<exists>k st'. create_key sample_hmac cfg ''tok'' ''id-2'' 5 ''alice'' ''k'' (Some [''read''])
             (sample_store [sample_row ''id-1'' ''bob'' [] None]) = (Inr k, st') \<and>
           ck_scopes k = [''read''] \<and>
           fst (validate_key sample_hmac cfg (API_KEY_PREFIX cfg @ ''tok'') st') =
             Inr (Some \<lparr>subject = ''alice'', auth_type = ''api_key'', roles = [''api-key''],
                        scopes = [''read''], preferred_username = None, groups = []\<rparr>)"
    by simp
qed

text \<open>Revoking reports success exactly when the caller owns an unrevoked key of that id, and
  otherwise changes nothing; afterwards that key no longer authenticates and every other key
  is answered as before.\<close>

theorem revoke_key_effect:
  assumes "store_ok st" "aks_table st = Some t" "revoke_key now ow i st = (Inr b, st')"
  shows "(b \<longleftrightarrow> (\<exists>r. row_of t i = Some r \<and> kr_owner_sub r = ow \<and> kr_revoked_at r = None)) \<and>
    (\<not> b \<longrightarrow> st' = st) \<and>
    (\<forall>p. fst (validate_key hmac cfg p st') =
       (if b \<and> map_option kr_id (row_for hmac cfg p t) = Some i then Inr None
        else fst (validate_key hmac cfg p st)))"
proof -
  have ok: "keys_ok t" using assms(1,2) by (simp add: store_ok_def)
  have st: "aks_pool st"
    using assms(3) by (auto simp: revoke_key_def with_rows_def split: if_splits)
  let ?f = "\<lambda>r. if revocable ow i r then r\<lparr>kr_revoked_at := Some now\<rparr> else r"
  have b: "b \<longleftrightarrow> (\<exists>r \<in> set t. revocable ow i r)" and st': "st' = st\<lparr>aks_table := Some (map ?f t)\<rparr>"
    using assms(3) by (simp_all add: revoke_key_rows [OF ok st assms(2)])
  have id_eq: "\<not> b \<Longrightarrow> map ?f t = t" using b by (auto intro!: map_idI)
  have un: "r \<in> set t \<Longrightarrow> r' \<in> set t \<Longrightarrow> kr_id r = kr_id r' \<Longrightarrow> r = r'" for r r'
    using ok by (auto simp: keys_ok_def distinct_map inj_on_def)
  have "fst (validate_key hmac cfg p st') =
       (if b \<and> map_option kr_id (row_for hmac cfg p t) = Some i then Inr None
        else fst (validate_key hmac cfg p st))" for p
  proof (cases "row_for hmac cfg p t")
    case None
    then show ?thesis using st assms(2) by (simp add: validate_key_cases st' row_for_revoked)
  next
    case (Some r)
    with un b have "b \<and> kr_id r = i \<Longrightarrow> revocable ow i r"
      by (metis revocable_def row_for_mem)
    moreover have "\<not> b \<Longrightarrow> \<not> revocable ow i r" "revocable ow i r \<Longrightarrow> kr_id r = i"
      using b row_for_mem [OF Some] by (auto simp: revocable_def)
    ultimately show ?thesis using st assms(2) Some
      by (auto simp: validate_key_cases st' row_for_revoked)
  qed
  moreover have "b \<longleftrightarrow> (\<exists>r. row_of t i = Some r \<and> kr_owner_sub r = ow \<and> kr_revoked_at r = None)"
    using b by (auto simp: row_of_iff [OF ok] revocable_def)
  moreover have "\<not> b \<longrightarrow> st' = st" using id_eq st' assms(2) by (cases st) simp
  ultimately show ?thesis by blast
qed

lemma revoke_key_effect_witness:
  "\<forall>cfg p. fst (validate_key sample_hmac cfg p (snd (revoke_key 9 ''bob'' ''id-1''
          (sample_store [sample_row ''id-1'' ''bob'' p None])))) =
   (if map_option kr_id (row_for sample_hmac cfg p [sample_row ''id-1'' ''bob'' p None]) = Some ''id-1''
    then Inr None
    else fst (validate_key sample_hmac cfg p (sample_store [sample_row ''id-1'' ''bob'' p None])))"
  (is "\<forall>cfg p. ?prop cfg p")
proof (intro allI)
  fix cfg p
  have r: "revoke_key 9 ''bob'' ''id-1'' (sample_store [sample_row ''id-1'' ''bob'' p None]) =
    (Inr True, sample_store [sample_row ''id-1'' ''bob'' p (Some 9)])"
    by (subst revoke_key_rows [of "[sample_row ''id-1'' ''bob'' p None]"])
      (simp_all add: keys_ok_def sample_row_def sample_store_def revocable_def)
  have ok: "store_ok (sample_store [sample_row ''id-1'' ''bob'' p None])"
    and t: "aks_table (sample_store [sample_row ''id-1'' ''bob'' p None]) =
            Some [sample_row ''id-1'' ''bob'' p None]"
    by (simp_all add: store_ok_def sample_store_def keys_ok_def)
  show "?prop cfg p"
    using revoke_key_effect [OF ok t r, of sample_hmac cfg] unfolding r snd_conv by simp
qed

lemma row_kept_hash: "row_kept r r' \<Longrightarrow> kr_key_hash r' = kr_key_hash r"
  unfolding row_kept_def by (drule conjunct1, drule arg_cong [of _ _ kr_key_hash], cases r) simp

lemma row_kept_revoked: "row_kept r r' \<Longrightarrow> kr_revoked_at r \<noteq> None \<Longrightarrow> kr_revoked_at r' \<noteq> None"
  unfolding row_kept_def by (drule conjunct2) simp

lemma row_for_unique:
  "keys_ok t \<Longrightarrow> r \<in> set t \<Longrightarrow> kr_key_hash r = hash_key hmac cfg p \<Longrightarrow> row_for hmac cfg p t = Some r"
  unfolding row_for_def keys_ok_def using find_distinct [of kr_key_hash t r] by simp

text \<open>A key that has been revoked, in a table with its constraints.\<close>

definition locked :: "(string \<Rightarrow> string \<Rightarrow> string) \<Rightarrow> Config \<Rightarrow> string \<Rightarrow> ApiKeyStore \<Rightarrow> bool" where
  "locked hmac cfg p st \<longleftrightarrow>
     store_ok st \<and> (\<exists>t r. aks_table st = Some t \<and> row_for hmac cfg p t = Some r \<and> kr_revoked_at r \<noteq> None)"

lemma locked_kept:
  assumes "locked hmac cfg p st" "store_kept st st'" "store_ok st'"
  shows "locked hmac cfg p st'"
proof -
  from assms(1) obtain t r where r: "aks_table st = Some t" "row_for hmac cfg p t = Some r" "kr_revoked_at r \<noteq> None"
    by (auto simp: locked_def)
  with assms(2,3) obtain t' where t': "aks_table st' = Some t'" "table_kept t t'" "keys_ok t'"
    by (auto simp: store_kept_def store_ok_def)
  from row_for_mem [OF r(2)] t'(2) obtain r' where
    r': "r' \<in> set t'" "row_kept r r'" "kr_key_hash r = hash_key hmac cfg p" by (auto simp: table_kept_def)
  with r(3) have "row_for hmac cfg p t' = Some r'" "kr_revoked_at r' \<noteq> None"
    by (simp_all add: row_for_unique [OF t'(3)] row_kept_hash row_kept_revoked)
  with t' assms(3) show ?thesis by (auto simp: locked_def)
qed

lemma locked_refused:
  "locked hmac cfg p st \<Longrightarrow> aks_pool st \<Longrightarrow> fst (validate_key hmac cfg p st) = Inr None"
  by (auto simp: locked_def validate_key_cases)

lemma locked_revoked:
  assumes "store_ok st" "aks_table st = Some t" "row_for hmac cfg p t = Some r" "kr_id r = i"
    and "revoke_key now ow i st = (Inr True, st')"
  shows "locked hmac cfg p st' \<and> aks_pool st'"
proof -
  have ok: "keys_ok t" and pool: "aks_pool st"
    using assms(1,2,5) by (auto simp: store_ok_def revoke_key_def with_rows_def split: if_split_asm)
  from assms(5) have st': "\<exists>r \<in> set t. revocable ow i r"
    "st' = st\<lparr>aks_table := Some (map (\<lambda>r. if revocable ow i r then r\<lparr>kr_revoked_at := Some now\<rparr> else r) t)\<rparr>"
    by (simp_all add: revoke_key_rows [OF ok pool assms(2)])
  then obtain r' where r': "r' \<in> set t" "revocable ow i r'" by blast
  from r' row_for_mem [OF assms(3)] assms(4) ok have "r' = r"
    by (auto simp: revocable_def keys_ok_def distinct_map inj_on_def)
  with r' assms(3) pool revoke_key_ok [OF assms(1), of now ow i] assms(5) show ?thesis
    by (simp add: locked_def st'(2) row_for_revoked)
qed

text \<open>A revoked key never authenticates again, whatever the service does with the store
  afterwards: restarts with a legacy copy that still lists it as valid, new keys, revocations.\<close>

theorem revoked_key_stays_revoked:
  assumes "key_run hmac cfg st st'" "store_ok st" "aks_pool st" "aks_table st = Some t"
    and "row_for hmac cfg p t = Some r" "kr_revoked_at r \<noteq> None"
  shows "fst (validate_key hmac cfg p st') = Inr None"
proof -
  from key_run_invariant [OF assms(1,2)] have kept: "store_ok st'" "store_kept st st'" by simp_all
  with assms have "locked hmac cfg p st" "aks_pool st'" by (auto simp: locked_def store_kept_def)
  with kept show ?thesis by (blast intro: locked_refused locked_kept)
qed

lemma revoked_key_stays_revoked_witness:
  "\<forall>cfg. fst (validate_key sample_hmac (cfg\<lparr>API_KEY_HASH_SALT := []\<rparr>) ''thk_1''
     (snd (startup (Inr (Some [sample_row ''id-1'' ''bob'' ''thk_1'' None]))
        (sample_store [sample_row ''id-1'' ''bob'' ''thk_1'' (Some 9)])))) = Inr None"
  (is "\<forall>cfg. fst (validate_key _ (?cfg cfg) _ (snd (startup ?l ?st))) = _")
proof
  fix cfg
  have run: "key_run sample_hmac (?cfg cfg) ?st (snd (startup ?l ?st))"
    by (intro run_step [OF run_here] step_startup)
  show "fst (validate_key sample_hmac (?cfg cfg) ''thk_1'' (snd (startup ?l ?st))) = Inr None"
    by (rule revoked_key_stays_revoked [OF run, where t = "[sample_row ''id-1'' ''bob'' ''thk_1'' (Some 9)]"
          and r = "sample_row ''id-1'' ''bob'' ''thk_1'' (Some 9)"])
      (simp_all add: sample_key_simps store_ok_def keys_ok_def row_for_def)
qed

text \<open>The legacy copy may run on every start-up: a second copy of the same rows changes
  nothing.  After it every legacy key is in the table, revoked if either side had it revoked,
  and no row that was there has lost its owner, its hash or its revocation.\<close>

theorem legacy_copy_idempotent:
  assumes "aks_table st = Some t" "copy_legacy_keys (Inr (Some rows)) st = (Inr (), st')"
  shows "copy_legacy_keys (Inr (Some rows)) st' = (Inr (), st') \<and>
    (\<exists>t'. aks_table st' = Some t' \<and>
       (\<forall>row \<in> set rows. \<exists>r \<in> set t'. kr_id r = kr_id row \<and>
            (kr_revoked_at row \<noteq> None \<longrightarrow> kr_revoked_at r \<noteq> None)) \<and>
       (\<forall>r \<in> set t. \<exists>r' \<in> set t'. r' = r\<lparr>kr_revoked_at := kr_revoked_at r'\<rparr> \<and>
            (kr_revoked_at r \<noteq> None \<longrightarrow> kr_revoked_at r' = kr_revoked_at r)))"
proof -
  obtain t' where t': "upsert_all rows t = Inr t'" "st' = st\<lparr>aks_table := Some t'\<rparr>"
    using assms by (auto simp: copy_legacy_keys_def split: sum.splits)
  have settled: "\<forall>row \<in> set rows. settled t' row"
    using upsert_all_settles [OF t'(1)] by blast
  then have "upsert_all rows t' = Inr t'" by (simp add: upsert_all_settled)
  moreover have "\<forall>row \<in> set rows. \<exists>r \<in> set t'. kr_id r = kr_id row \<and>
      (kr_revoked_at row \<noteq> None \<longrightarrow> kr_revoked_at r \<noteq> None)"
    using settled unfolding settled_def by blast
  ultimately show ?thesis
    using upsert_all_kept [OF t'(1)] t'(2)
    by (simp add: copy_legacy_keys_def table_kept_def row_kept_def)
qed

lemma legacy_copy_idempotent_witness:
  "copy_legacy_keys (Inr (Some [sample_row ''id-1'' ''bob'' ''p'' (Some 3), sample_row ''id-2'' ''eve'' ''q'' None]))
     (sample_store [sample_row ''id-1'' ''bob'' ''p'' (Some 3), sample_row ''id-2'' ''eve'' ''q'' None]) =
   (Inr (), sample_store [sample_row ''id-1'' ''bob'' ''p'' (Some 3), sample_row ''id-2'' ''eve'' ''q'' None])"
proof -
  have c: "copy_legacy_keys
      (Inr (Some [sample_row ''id-1'' ''bob'' ''p'' (Some 3), sample_row ''id-2'' ''eve'' ''q'' None]))
      (sample_store [sample_row ''id-1'' ''bob'' ''p'' None]) =
    (Inr (), sample_store [sample_row ''id-1'' ''bob'' ''p'' (Some 3), sample_row ''id-2'' ''eve'' ''q'' None])"
    by (simp add: copy_legacy_keys_def sample_key_simps upsert_legacy_def coalesce_def)
  show ?thesis
    by (rule legacy_copy_idempotent [OF _ c, THEN conjunct1, of "[sample_row ''id-1'' ''bob'' ''p'' None]"])
      (simp add: sample_store_def)
qed

end
