(* ===== verification/Auth_Routes.thy ===== *)
theory Auth_Routes
  imports Broker Rate_Limit Api_Key_Store
begin

text \<open>
  The routes under \<open>/auth\<close> (\<open>api/src/routes/auth.py\<close>): the caller's own identity, the
  administration of API keys, and the three token routes.  A payload is a record of the
  fields pydantic has read, with its field constraints as a guard that answers 422; the
  guards of the dependencies come first, as the framework runs them.
\<close>

definition unprocessable :: exn where
  "unprocessable = HTTPException 422 (DText ''Unprocessable Entity'')"

section \<open>Payloads\<close>

record ApiKeyCreateRequest =
  akc_name :: string
  akc_scopes :: "string list"

definition ApiKeyCreateRequest_valid :: "ApiKeyCreateRequest \<Rightarrow> bool" where
  "ApiKeyCreateRequest_valid p \<longleftrightarrow> 1 \<le> length (akc_name p) \<and> length (akc_name p) \<le> 120"

record PolarisTokenRequest =
  ptr_user_id :: string
  ptr_session_id :: string
  ptr_realm :: string
  ptr_catalog :: string
  ptr_groups :: "string list"
  ptr_requested_ttl_seconds :: int
  ptr_audience :: string

definition PolarisTokenRequest_valid :: "PolarisTokenRequest \<Rightarrow> bool" where
  "PolarisTokenRequest_valid p \<longleftrightarrow>
     ptr_user_id p \<noteq> [] \<and> ptr_session_id p \<noteq> [] \<and> ptr_realm p \<noteq> [] \<and> ptr_catalog p \<noteq> [] \<and>
     1 \<le> ptr_requested_ttl_seconds p"

text \<open>The defaults of the fields a body may leave out.\<close>

definition PolarisTokenRequest_default :: "Config \<Rightarrow> string \<Rightarrow> string \<Rightarrow> string \<Rightarrow> PolarisTokenRequest" where
  "PolarisTokenRequest_default cfg user_id session_id realm =
     \<lparr>ptr_user_id = user_id, ptr_session_id = session_id, ptr_realm = realm,
      ptr_catalog = ''iceberg'', ptr_groups = [], ptr_requested_ttl_seconds = 600,
      ptr_audience = BROKER_TARGET_AUDIENCE cfg\<rparr>"

record PolarisSessionRequest =
  psr_user_id :: string
  psr_session_id :: string
  psr_realm :: string
  psr_catalog :: string
  psr_audience :: string
  psr_refresh_token :: string

definition PolarisSessionRequest_valid :: "PolarisSessionRequest \<Rightarrow> bool" where
  "PolarisSessionRequest_valid p \<longleftrightarrow>
     psr_user_id p \<noteq> [] \<and> psr_session_id p \<noteq> [] \<and> psr_realm p \<noteq> [] \<and> psr_catalog p \<noteq> [] \<and>
     psr_refresh_token p \<noteq> []"

record PolarisTokenIssuedFor =
  pif_user_id :: string
  pif_session_id :: string
  pif_realm :: string

record PolarisTokenResponse =
  prs_access_token :: string
  prs_token_type :: string
  prs_expires_at_epoch_seconds :: int
  prs_expires_in_seconds :: int
  prs_issued_for :: PolarisTokenIssuedFor
  prs_trace_id :: string

text \<open>Building the response: a token that is no string fails pydantic's check, a \<open>ValueError\<close>.\<close>

definition token_response :: "PolarisTokenRequest \<Rightarrow> broker_token \<Rightarrow> exn + PolarisTokenResponse" where
  "token_response p t =
     (case (as_string (bt_access_token t), as_string (bt_token_type t)) of
        (Some a, Some ty) \<Rightarrow>
          Inr \<lparr>prs_access_token = a, prs_token_type = ty,
               prs_expires_at_epoch_seconds = bt_expires_at_epoch_seconds t,
               prs_expires_in_seconds = bt_expires_in_seconds t,
               prs_issued_for = \<lparr>pif_user_id = ptr_user_id p, pif_session_id = ptr_session_id p,
                                 pif_realm = ptr_realm p\<rparr>,
               prs_trace_id = bt_trace_id t\<rparr>
      | _ \<Rightarrow> Inl (ValueError ''PolarisTokenResponse''))"

section \<open>Identity and API keys\<close>

definition me :: "ApiIdentity \<Rightarrow> json" where
  "me u = JObj [(''subject'', JStr (subject u)), (''auth_type'', JStr (auth_type u)),
                (''roles'', JList (map JStr (roles u))), (''scopes'', JList (map JStr (scopes u))),
                (''authenticated'', JBool (is_authenticated u))]"

definition list_api_keys ::
  "ApiIdentity \<Rightarrow> ApiKeyStore \<Rightarrow> (exn + key_info list) \<times> ApiKeyStore"
where
  "list_api_keys u st =
     (case get_admin_identity u of Inl e \<Rightarrow> (Inl e, st) | Inr v \<Rightarrow> list_keys st)"

definition create_api_key ::
  "(string \<Rightarrow> string \<Rightarrow> string) \<Rightarrow> Config \<Rightarrow> string \<Rightarrow> string \<Rightarrow> rat \<Rightarrow> ApiIdentity \<Rightarrow> ApiKeyCreateRequest
     \<Rightarrow> ApiKeyStore \<Rightarrow> (exn + created_key) \<times> ApiKeyStore"
where
  "create_api_key hmac cfg token uuid now u p st =
     (case get_admin_identity u of
        Inl e \<Rightarrow> (Inl e, st)
      | Inr v \<Rightarrow>
          if \<not> ApiKeyCreateRequest_valid p then (Inl unprocessable, st)
          else create_key hmac cfg token uuid now (subject v) (akc_name p) (Some (akc_scopes p)) st)"

definition revoke_api_key ::
  "rat \<Rightarrow> ApiIdentity \<Rightarrow> string \<Rightarrow> ApiKeyStore \<Rightarrow> (exn + unit) \<times> ApiKeyStore"
where
  "revoke_api_key now u key_id st =
     (case get_admin_identity u of
        Inl e \<Rightarrow> (Inl e, st)
      | Inr v \<Rightarrow>
          (case revoke_key now (subject v) key_id st of
             (Inl e, st') \<Rightarrow> (Inl e, st')
           | (Inr revoked, st') \<Rightarrow>
               (if \<not> revoked then Inl (HTTPException 404 (DText ''API key not found'')) else Inr (), st')))"

section \<open>Token routes\<close>

text \<open>The user ids a caller may ask a token for: its subject and, where it has one, its user name.\<close>

definition allowed_user_ids :: "ApiIdentity \<Rightarrow> string list" where
  "allowed_user_ids u =
     subject u # (case preferred_username u of Some n \<Rightarrow> if n \<noteq> [] then [n] else [] | None \<Rightarrow> [])"

definition own_user_id :: "ApiIdentity \<Rightarrow> string \<Rightarrow> exn + unit" where
  "own_user_id u user_id =
     (if auth_type u \<noteq> ''jwt'' then Inl (HTTPException 403 (DText ''JWT identity required''))
      else if user_id \<notin> set (allowed_user_ids u)
      then Inl (HTTPException 403 (DText ''Requested user_id does not match authenticated identity''))
      else Inr ())"

definition polaris_token ::
  "Config \<Rightarrow> broker_lib \<Rightarrow> string \<Rightarrow> int \<Rightarrow> int \<Rightarrow> Request \<Rightarrow> ApiIdentity \<Rightarrow> PolarisTokenRequest
     \<Rightarrow> exn + PolarisTokenResponse"
where
  "polaris_token cfg lib trace_id now1 now2 rq u p =
     andthen (get_authenticated_identity u) (\<lambda>u.
     if \<not> PolarisTokenRequest_valid p then Inl unprocessable
     else
       andthen (own_user_id u (ptr_user_id p)) (\<lambda>_.
       andthen (extract_bearer_token rq) (\<lambda>bearer.
       andthen (exchange_token_for_polaris cfg lib trace_id now1 now2 bearer (ptr_audience p)
                  (Some (ptr_requested_ttl_seconds p)))
         (token_response p))))"

definition polaris_session ::
  "Config \<Rightarrow> broker_lib \<Rightarrow> string \<Rightarrow> string \<Rightarrow> int \<Rightarrow> ApiIdentity \<Rightarrow> PolarisSessionRequest \<Rightarrow> broker_state
     \<Rightarrow> (exn + string \<times> int) \<times> broker_state"
where
  "polaris_session cfg lib nonce sid now u p s =
     (case andthen (get_authenticated_identity u) (\<lambda>u.
             if \<not> PolarisSessionRequest_valid p then Inl unprocessable
             else andthen (own_user_id u (psr_user_id p)) (\<lambda>_. Inr u)) of
        Inl e \<Rightarrow> (Inl e, s)
      | Inr u \<Rightarrow>
          create_delegated_broker_session cfg lib nonce sid now
            \<lparr>sn_subject = subject u, sn_user_id = psr_user_id p, sn_session_id = psr_session_id p,
             sn_realm = psr_realm p, sn_catalog = psr_catalog p, sn_audience = psr_audience p,
             sn_refresh_token = psr_refresh_token p, sn_expires_at = 0\<rparr> s)"

definition polaris_token_via_session ::
  "Config \<Rightarrow> broker_lib \<Rightarrow> string \<Rightarrow> string \<Rightarrow> int \<Rightarrow> int \<Rightarrow> int \<Rightarrow> Request \<Rightarrow> PolarisTokenRequest \<Rightarrow> broker_state
     \<Rightarrow> (exn + PolarisTokenResponse) \<times> broker_state"
where
  "polaris_token_via_session cfg lib nonce trace_id now1 now2 now3 rq p s =
     (if \<not> PolarisTokenRequest_valid p then (Inl unprocessable, s)
      else
        (let token = strip (dict_get_default (rq_headers rq) ''x-broker-session-token'' [])
         in case exchange_via_session cfg lib nonce trace_id now1 now2 now3 token (ptr_user_id p)
                   (ptr_session_id p) (ptr_realm p) (Some (ptr_requested_ttl_seconds p)) s of
              (Inl e, s') \<Rightarrow> (Inl e, s')
            | (Inr t, s') \<Rightarrow> (token_response p t, s')))"

section \<open>Properties\<close>

lemma token_response_for:
  "token_response p t = Inr r \<Longrightarrow>
   prs_issued_for r = \<lparr>pif_user_id = ptr_user_id p, pif_session_id = ptr_session_id p, pif_realm = ptr_realm p\<rparr>"
  by (auto simp: token_response_def split: option.split_asm)

text \<open>C32 Nobody is issued a Polaris token, or a broker session, for another user: both routes answer
  only a bearer of a Keycloak token, whose subject or user name is the user id asked for.\<close>

theorem tokens_for_own_user_only:
  "polaris_token cfg lib trace now1 now2 rq u p \<in>
     Inl ` UNIV \<union>
     Inr ` {r. auth_type u = ''jwt'' \<and> pif_user_id (prs_issued_for r) = ptr_user_id p \<and>
               (ptr_user_id p = subject u \<or> preferred_username u = Some (ptr_user_id p)) \<and>
               bearer_token (authorization rq) \<noteq> None} \<and>
   fst (polaris_session cfg lib nonce sid now u q s) \<in>
     Inl ` UNIV \<union>
     Inr ` {r. auth_type u = ''jwt'' \<and>
               (psr_user_id q = subject u \<or> preferred_username u = Some (psr_user_id q))}"
proof
  have own: "own_user_id v i = Inr () \<Longrightarrow>
      auth_type v = ''jwt'' \<and> (i = subject v \<or> preferred_username v = Some i)" for v i
    by (auto simp: own_user_id_def allowed_user_ids_def split: if_split_asm option.split_asm)
  have auth: "get_authenticated_identity v = Inr w \<Longrightarrow> w = v" for v w
    by (auto simp: get_authenticated_identity_def split: if_split_asm)
  have "auth_type u = ''jwt'' \<and> pif_user_id (prs_issued_for r) = ptr_user_id p \<and>
      (ptr_user_id p = subject u \<or> preferred_username u = Some (ptr_user_id p)) \<and>
      bearer_token (authorization rq) \<noteq> None"
    if "polaris_token cfg lib trace now1 now2 rq u p = Inr r" for r
    using that
    by (auto simp: polaris_token_def andthen_Inr_iff extract_bearer_token_def token_response_for
        split: if_split_asm option.split_asm dest!: auth own)
  then show "polaris_token cfg lib trace now1 now2 rq u p \<in> Inl ` UNIV \<union>
     Inr ` {r. auth_type u = ''jwt'' \<and> pif_user_id (prs_issued_for r) = ptr_user_id p \<and>
               (ptr_user_id p = subject u \<or> preferred_username u = Some (ptr_user_id p)) \<and>
               bearer_token (authorization rq) \<noteq> None}"
    by (cases "polaris_token cfg lib trace now1 now2 rq u p") auto
  have "auth_type u = ''jwt'' \<and> (psr_user_id q = subject u \<or> preferred_username u = Some (psr_user_id q))"
    if "fst (polaris_session cfg lib nonce sid now u q s) = Inr r" for r
    using that
    by (auto simp: polaris_session_def andthen_Inr_iff split: if_split_asm sum.split_asm
        dest!: auth own)
  then show "fst (polaris_session cfg lib nonce sid now u q s) \<in> Inl ` UNIV \<union>
     Inr ` {r. auth_type u = ''jwt'' \<and>
               (psr_user_id q = subject u \<or> preferred_username u = Some (psr_user_id q))}"
    by (cases "fst (polaris_session cfg lib nonce sid now u q s)") auto
qed

text \<open>API keys are listed, created and revoked by administrators signed in with a token only: any
  other caller, an API key included, is turned away with 401 or 403 and the table is as
  before.\<close>

theorem key_administration_guarded:
  assumes "auth_type u \<noteq> ''jwt'' \<or> ''admin'' \<notin> set (roles u)"
  shows "\<exists>e. exn_status e \<in> {Some 401, Some 403} \<and> list_api_keys u st = (Inl e, st) \<and>
    create_api_key hmac cfg token uuid now u p st = (Inl e, st) \<and>
    revoke_api_key now u key_id st = (Inl e, st)"
  using assms
  by (auto simp: list_api_keys_def create_api_key_def revoke_api_key_def get_admin_identity_def
      get_authenticated_identity_def)

lemma key_administration_guarded_witness:
  "\<forall>st. \<exists>e. exn_status e \<in> {Some 401, Some 403} \<and>
     revoke_api_key 9 (key_identity (sample_row ''i'' ''bob'' ''p'' None)) ''i'' st = (Inl e, st)"
proof
  fix st
  have "auth_type (key_identity (sample_row ''i'' ''bob'' ''p'' None)) \<noteq> ''jwt''"
    by (simp add: key_identity_def)
  then show "\<exists>e. exn_status e \<in> {Some 401, Some 403} \<and>
     revoke_api_key 9 (key_identity (sample_row ''i'' ''bob'' ''p'' None)) ''i'' st = (Inl e, st)"
    using key_administration_guarded [of "key_identity (sample_row ''i'' ''bob'' ''p'' None)" st] by blast
qed

end
