(* ===== verification/Api_Main.thy ===== *)
theory Api_Main
  imports Auth_Routes
begin

text \<open>
  The application of the API service (\<open>api/src/main.py\<close>): its state, the two middleware
  functions of its own, the order all its middleware runs in, the CORS settings and the
  security part of its OpenAPI document.  \<open>call_next\<close>, the rest of the stack, is an argument.
\<close>

section \<open>State and replies\<close>

record AppState =
  as_validator :: Validator
  as_counts :: counts
  as_keys :: ApiKeyStore
  as_sessions :: broker_state

text \<open>
  What a handler sends: \<open>{"detail": ...}\<close> or a body of its own.  Rendering is the framework's.
\<close>

datatype content = Detail detail | Body json

record reply =
  rp_status :: int
  rp_content :: content
  rp_headers :: "(string, string) dict"

definition error_reply :: "int \<Rightarrow> detail \<Rightarrow> reply" where
  "error_reply status d = \<lparr>rp_status = status, rp_content = Detail d, rp_headers = []\<rparr>"

type_synonym 's handler = "Request \<Rightarrow> 's \<Rightarrow> (exn + reply) \<times> 's"

section \<open>The authentication middleware\<close>

definition SESSION_PATH :: string where
  "SESSION_PATH = ''/auth/polaris-token/session''"

definition exempt_path :: "string \<Rightarrow> bool" where
  "exempt_path path \<longleftrightarrow>
     path = ''/health'' \<or> path = ''/openapi.json'' \<or> starts_with path ''/docs'' \<or> starts_with path ''/redoc''"

text \<open>The libraries and the time of one request.\<close>

record request_env =
  re_jwt :: jwt_lib
  re_http1 :: http
  re_http2 :: http
  re_clock1 :: clock
  re_clock2 :: clock
  re_hmac :: "string \<Rightarrow> string \<Rightarrow> string"
  re_now :: rat

definition app_validate_jwt ::
  "Config \<Rightarrow> request_env \<Rightarrow> string \<Rightarrow> AppState \<Rightarrow> (exn + ApiIdentity) \<times> AppState"
where
  "app_validate_jwt cfg env token s =
     (case validate cfg (re_jwt env) (re_http1 env) (re_http2 env) (re_clock1 env) (re_clock2 env)
             token (as_validator s) of
        (r, v) \<Rightarrow> (r, s\<lparr>as_validator := v\<rparr>))"

definition app_validate_key ::
  "Config \<Rightarrow> request_env \<Rightarrow> AppState \<Rightarrow> string \<Rightarrow> exn + ApiIdentity option"
where
  "app_validate_key cfg env s key = fst (validate_key (re_hmac env) cfg key (as_keys s))"

definition app_resolve_identity ::
  "Config \<Rightarrow> request_env \<Rightarrow> Request \<Rightarrow> AppState \<Rightarrow> (exn + ApiIdentity) \<times> AppState"
where
  "app_resolve_identity cfg env rq s =
     resolve_identity (app_validate_jwt cfg env) (app_validate_key cfg env s) rq s"

definition client_host :: "Request \<Rightarrow> string" where
  "client_host rq = (case rq_client rq of Some h \<Rightarrow> h | None \<Rightarrow> ''unknown'')"

definition auth_context_middleware ::
  "Config \<Rightarrow> request_env \<Rightarrow> AppState handler \<Rightarrow> AppState handler"
where
  "auth_context_middleware cfg env call_next rq s =
     (if rq_method rq = ''OPTIONS'' then call_next rq s
      else if rq_path rq = SESSION_PATH then
        (case check_by_key (''polaris-token-session:'' @ client_host rq) (AUTH_RATE_LIMIT_RPM cfg)
                (re_now env) (as_counts s) of
           (Inl e, c) \<Rightarrow> (Inl e, s\<lparr>as_counts := c\<rparr>)
         | (Inr _, c) \<Rightarrow> call_next rq (s\<lparr>as_counts := c\<rparr>))
      else
        (case app_resolve_identity cfg env rq s of
           (Inl (HTTPException status d), s1) \<Rightarrow> (Inr (error_reply status d), s1)
         | (Inl e, s1) \<Rightarrow> (Inl e, s1)
         | (Inr u, s1) \<Rightarrow>
             (let exempt = exempt_path (rq_path rq); rq' = rq\<lparr>rq_identity := Some u\<rparr>
              in if \<not> exempt \<and> \<not> is_authenticated u
                 then (Inr (error_reply 401 (DText ''Authentication required'')), s1)
                 else if \<not> exempt then
                   (case check cfg u (rq_path rq) (re_now env) (as_counts s1) of
                      (Inl e, c) \<Rightarrow> (Inl e, s1\<lparr>as_counts := c\<rparr>)
                    | (Inr _, c) \<Rightarrow> call_next rq' (s1\<lparr>as_counts := c\<rparr>))
                 else call_next rq' s1)))"

section \<open>The timeout middleware\<close>

text \<open>
  \<open>elapsed\<close> is how long the rest of the stack takes, \<open>shown\<close> its decimal text: past the limit the
  call is cancelled and what it would have answered is lost; what it did to the state by then
  is taken to be all it would have done (\<open>Broker_Async\<close> cuts an exchange off between its steps).
\<close>

definition timeout_middleware :: "Config \<Rightarrow> rat \<Rightarrow> string \<Rightarrow> 's handler \<Rightarrow> 's handler" where
  "timeout_middleware cfg elapsed shown call_next rq s =
     (if rat_of_int (REQUEST_TIMEOUT cfg) \<le> elapsed then
        (Inr (error_reply 504 (DText (''Request timed out after '' @ show_int (REQUEST_TIMEOUT cfg)
            @ '' seconds. Try reducing the data range or adding more filters.''))), snd (call_next rq s))
      else
        (case call_next rq s of
           (Inr r, s') \<Rightarrow> (Inr (r\<lparr>rp_headers := dict_set (rp_headers r) ''X-Process-Time'' shown\<rparr>), s')
         | (Inl e, s') \<Rightarrow>
             if is_http_exception e then (Inl e, s')
             else (Inr (error_reply 500 (DCause ''Internal server error: '' e)), s')))"

section \<open>The middleware stack\<close>

datatype middleware = CORS | GZip | AuthContext | Timeout

text \<open>\<open>add_middleware\<close> puts the new one in front: the last added is the outermost.\<close>

definition add_middleware :: "middleware \<Rightarrow> middleware list \<Rightarrow> middleware list" where
  "add_middleware m ms = m # ms"

definition app_middleware :: "middleware list" where
  "app_middleware = fold add_middleware [CORS, GZip, AuthContext, Timeout] []"

text \<open>The two functions of the application around the rest, which GZip and CORS wrap.\<close>

definition app_stack ::
  "Config \<Rightarrow> request_env \<Rightarrow> rat \<Rightarrow> string \<Rightarrow> AppState handler \<Rightarrow> AppState handler"
where
  "app_stack cfg env elapsed shown inner =
     timeout_middleware cfg elapsed shown (auth_context_middleware cfg env inner)"

section \<open>CORS\<close>

record cors_settings =
  allow_origins :: "string list"
  allow_credentials :: bool
  allow_methods :: "string list"
  allow_headers :: "string list"
  max_age :: int

definition cors :: "Config \<Rightarrow> cors_settings" where
  "cors cfg =
     (let all = CORS_ORIGINS cfg = ''*''
      in \<lparr>allow_origins = (if all then [''*''] else map strip (split_on (CHR '','') (CORS_ORIGINS cfg))),
          allow_credentials = (\<not> all),
          allow_methods = [''GET'', ''POST'', ''PUT'', ''DELETE'', ''OPTIONS''],
          allow_headers = [''*''],
          max_age = 600\<rparr>)"

section \<open>Start-up and health\<close>

definition startup_event :: "Config \<Rightarrow> exn + key_row list option \<Rightarrow> key_row list option
     \<Rightarrow> (string, session) dict option \<Rightarrow> exn + AppState"
where
  "startup_event cfg legacy keys sessions =
     (case startup legacy \<lparr>aks_legacy_dsn = LEGACY_API_KEYS_DB_DSN cfg, aks_pool = False, aks_table = keys\<rparr> of
        (Inl e, _) \<Rightarrow> Inl e
      | (Inr _, ks) \<Rightarrow>
          Inr \<lparr>as_validator = init_validator, as_counts = [], as_keys = ks,
               as_sessions = set_delegated_session_store
                 (store_startup \<lparr>ss_pool = False, ss_table = sessions\<rparr>) None\<rparr>)"

definition health_check :: "string \<Rightarrow> json" where
  "health_check utcnow =
     JObj [(''status'', JStr ''healthy''), (''timestamp'', JStr utcnow), (''version'', JStr ''0.1.0'')]"

section \<open>Properties\<close>

lemma validate_jwt_type:
  "validate cfg lib http1 http2 t1 t2 token v = (Inr u, v') \<Longrightarrow> auth_type u = ''jwt''"
  using validate_with_claims [of cfg "identity_of_claims cfg"] identity_of_claims_Inr [of cfg _ u]
  by (metis validate_def)

lemma validate_key_type:
  "fst (validate_key hmac cfg key st) = Inr (Some u) \<Longrightarrow> auth_type u = ''api_key''"
  by (auto simp: validate_key_cases key_identity_def split: if_split_asm option.split_asm)

lemma app_resolve_types:
  assumes "app_resolve_identity cfg env rq s = (Inr u, s')"
  shows "(auth_type u = ''jwt'' \<and> bearer_token (authorization rq) \<noteq> None) \<or>
    (auth_type u = ''api_key'' \<and> dict_get (rq_headers rq) ''x-api-key'' \<notin> {None, Some []}) \<or>
    (u = anonymous_identity \<and> bearer_token (authorization rq) = None \<and>
       dict_get (rq_headers rq) ''x-api-key'' \<in> {None, Some []})"
  using assms
  by (auto simp: app_resolve_identity_def resolve_identity_def app_validate_jwt_def
      app_validate_key_def andthen_Inr_iff
      split: option.split_asm prod.split_asm if_split_asm dest: validate_jwt_type validate_key_type)

text \<open>A caller is taken for anonymous only if it presents nothing: no bearer token and no API key.
  A bad token or key is an error, never a downgrade; a token makes a token identity and a
  key a key identity.\<close>

theorem bad_credentials_not_anonymous:
  assumes "app_resolve_identity cfg env rq s = (Inr u, s')"
  shows "auth_type u =
    (if bearer_token (authorization rq) \<noteq> None then ''jwt''
     else if dict_get (rq_headers rq) ''x-api-key'' \<in> {None, Some []} then ''anonymous'' else ''api_key'')"
  using app_resolve_types [OF assms] assms
  by (auto simp: anonymous_identity_def app_resolve_identity_def resolve_identity_def app_validate_jwt_def
      app_validate_key_def andthen_Inr_iff
      split: option.split_asm prod.split_asm if_split_asm dest: validate_jwt_type validate_key_type)

text \<open>No handler runs for a caller that is not signed in: outside the diagnostic paths, a request
  is either answered by the middleware itself, the handler having no part in it, or handed
  to the handler with an authenticated identity attached and counted against its limit.\<close>

theorem handlers_need_authentication:
  assumes "rq_method rq \<noteq> ''OPTIONS''" "rq_path rq \<noteq> SESSION_PATH" "\<not> exempt_path (rq_path rq)"
  shows "(\<exists>answer. (\<lambda>next. auth_context_middleware cfg env next rq s) = (\<lambda>next. answer)) \<or>
    (\<exists>u s1 c. is_authenticated u \<and> app_resolve_identity cfg env rq s = (Inr u, s1) \<and>
       check cfg u (rq_path rq) (re_now env) (as_counts s1) = (Inr (), c) \<and>
       (\<lambda>next. auth_context_middleware cfg env next rq s) =
       (\<lambda>next. next (rq\<lparr>rq_identity := Some u\<rparr>) (s1\<lparr>as_counts := c\<rparr>)))"
proof (cases "app_resolve_identity cfg env rq s")
  case (Pair r s1)
  show ?thesis
  proof (cases r)
    case (Inl e)
    with Pair assms show ?thesis
      by (cases e) (auto simp: auth_context_middleware_def)
  next
    case (Inr u)
    obtain x c where x: "check cfg u (rq_path rq) (re_now env) (as_counts s1) = (x, c)"
      by (cases "check cfg u (rq_path rq) (re_now env) (as_counts s1)")
    with Pair Inr assms show ?thesis
      by (cases "is_authenticated u"; cases x) (auto simp: auth_context_middleware_def Let_def)
  qed
qed

text \<open>C38 A caller over its limit never reaches a handler, but it is not answered 429 either: the
  limiter's exception leaves both middleware functions as an exception, since only the
  resolution of the identity is caught and the timeout middleware raises it again.\<close>

theorem rate_limit_escapes_middleware:
  assumes "rq_method rq \<noteq> ''OPTIONS''" "rq_path rq \<noteq> SESSION_PATH" "\<not> exempt_path (rq_path rq)"
    and "app_resolve_identity cfg env rq s = (Inr u, s1)" "is_authenticated u"
    and "fst (check cfg u (rq_path rq) (re_now env) (as_counts s1)) = Inl rate_exceeded"
    and "elapsed < rat_of_int (REQUEST_TIMEOUT cfg)"
  shows "fst (app_stack cfg env elapsed shown next rq s) =
    Inl (HTTPException 429
      (DText ''Rate limit exceeded. Authenticate for a higher limit or retry next minute.''))"
  using assms
  by (cases "check cfg u (rq_path rq) (re_now env) (as_counts s1)")
    (simp add: app_stack_def timeout_middleware_def auth_context_middleware_def Let_def
      rate_exceeded_def)

definition sample_env :: request_env where
  "sample_env =
     \<lparr>re_jwt = sample_lib, re_http1 = (\<lambda>_. Inl HTTPXError), re_http2 = (\<lambda>_. Inl HTTPXError),
      re_clock1 = at_time 1, re_clock2 = at_time 1, re_hmac = sample_hmac, re_now = 5\<rparr>"

definition sample_request :: Request where
  "sample_request =
     \<lparr>rq_method = ''GET'', rq_path = ''/collections'', rq_headers = [(''x-api-key'', ''thk_1'')],
      rq_client = None, rq_identity = None\<rparr>"

definition sample_app :: AppState where
  "sample_app =
     \<lparr>as_validator = init_validator, as_counts = [],
      as_keys = sample_store [sample_row ''id-1'' ''bob'' ''thk_1'' None], as_sessions = None\<rparr>"

lemma sample_resolve:
  "app_resolve_identity (cfg\<lparr>API_KEY_HASH_SALT := [], AUTH_RATE_LIMIT_RPM := 0, REQUEST_TIMEOUT := 300\<rparr>)
     sample_env sample_request sample_app =
   (Inr (key_identity (sample_row ''id-1'' ''bob'' ''thk_1'' None)), sample_app)"
  by (simp add: app_resolve_identity_def resolve_identity_def app_validate_key_def sample_request_def
      sample_app_def sample_env_def authorization_def bearer_token_def lower_def
      validate_key_cases sample_key_simps row_for_def dict_get_default_def)

lemma bad_credentials_not_anonymous_witness:
  "auth_type (key_identity (sample_row ''id-1'' ''bob'' ''thk_1'' None)) =
   (if bearer_token (authorization sample_request) \<noteq> None then ''jwt''
    else if dict_get (rq_headers sample_request) ''x-api-key'' \<in> {None, Some []} then ''anonymous''
    else ''api_key'')"
  by (rule bad_credentials_not_anonymous [OF sample_resolve])

lemma handlers_need_authentication_witness:
  "\<forall>cfg s. (\<exists>answer. (\<lambda>next. auth_context_middleware cfg sample_env next sample_request s) = (\<lambda>next. answer)) \<or>
    (\<exists>u s1 c. is_authenticated u \<and> app_resolve_identity cfg sample_env sample_request s = (Inr u, s1) \<and>
       check cfg u ''/collections'' 5 (as_counts s1) = (Inr (), c) \<and>
       (\<lambda>next. auth_context_middleware cfg sample_env next sample_request s) =
       (\<lambda>next. next (sample_request\<lparr>rq_identity := Some u\<rparr>) (s1\<lparr>as_counts := c\<rparr>)))"
proof (intro allI)
  fix cfg s
  have "rq_method sample_request \<noteq> ''OPTIONS''" "rq_path sample_request \<noteq> SESSION_PATH"
    "\<not> exempt_path (rq_path sample_request)"
    by (simp_all add: sample_request_def SESSION_PATH_def exempt_path_def)
  from handlers_need_authentication [OF this, of cfg sample_env s]
  show "(\<exists>answer. (\<lambda>next. auth_context_middleware cfg sample_env next sample_request s) = (\<lambda>next. answer)) \<or>
    (\<exists>u s1 c. is_authenticated u \<and> app_resolve_identity cfg sample_env sample_request s = (Inr u, s1) \<and>
       check cfg u ''/collections'' 5 (as_counts s1) = (Inr (), c) \<and>
       (\<lambda>next. auth_context_middleware cfg sample_env next sample_request s) =
       (\<lambda>next. next (sample_request\<lparr>rq_identity := Some u\<rparr>) (s1\<lparr>as_counts := c\<rparr>)))"
    by (simp add: sample_request_def sample_env_def)
qed

lemma rate_limit_escapes_middleware_witness:
  "\<forall>cfg next. fst (app_stack (cfg\<lparr>API_KEY_HASH_SALT := [], AUTH_RATE_LIMIT_RPM := 0, REQUEST_TIMEOUT := 300\<rparr>)
      sample_env 1 ''1'' next sample_request sample_app) =
    Inl (HTTPException 429
      (DText ''Rate limit exceeded. Authenticate for a higher limit or retry next minute.''))"
proof (intro allI)
  fix cfg :: Config and "next"
  let ?cfg = "cfg\<lparr>API_KEY_HASH_SALT := [], AUTH_RATE_LIMIT_RPM := 0, REQUEST_TIMEOUT := 300\<rparr>"
  let ?u = "key_identity (sample_row ''id-1'' ''bob'' ''thk_1'' None)"
  have rq: "rq_method sample_request \<noteq> ''OPTIONS''" "rq_path sample_request \<noteq> SESSION_PATH"
    "\<not> exempt_path (rq_path sample_request)"
    by (simp_all add: sample_request_def SESSION_PATH_def exempt_path_def)
  have u: "is_authenticated ?u" "limit_for ?cfg ?u = Some 0"
    by (simp_all add: is_authenticated_def key_identity_def limit_for_def sample_row_def)
  have over: "fst (check ?cfg ?u (rq_path sample_request) (re_now sample_env) (as_counts sample_app)) =
      Inl rate_exceeded"
    unfolding check_enforces [OF u(2)]
    by (subst enforce_result) (simp_all add: rate_key_prefix count_of_def dict_get_default_def sample_app_def)
  show "fst (app_stack ?cfg sample_env 1 ''1'' next sample_request sample_app) =
    Inl (HTTPException 429
      (DText ''Rate limit exceeded. Authenticate for a higher limit or retry next minute.''))"
    by (rule rate_limit_escapes_middleware [OF rq sample_resolve u(1) over]) simp
qed

end
