(* ===== verification/Sql_Text.thy ===== *)
theory Sql_Text
  imports Api_Config
begin

text \<open>
  The SQL text the API service composes: the sanitiser and the retrying query runner of
  \<open>api/src/database.py\<close>, the predicates of \<open>routes/filtering.py\<close>, \<open>routes/timeseries.py\<close> and
  \<open>routes/crosswalks.py\<close>, and a scanner for SQL text (words, string literals, line comments,
  other symbols) against which they are shown to keep caller input inside literals.
\<close>

section \<open>The sanitiser\<close>

definition safe_char :: "char \<Rightarrow> bool" where
  "safe_char c \<longleftrightarrow>
     (let n = of_char c :: nat
      in 97 \<le> n \<and> n \<le> 122 \<or> 65 \<le> n \<and> n \<le> 90 \<or> 48 \<le> n \<and> n \<le> 57 \<or>
         c = CHR ''_'' \<or> c = CHR ''-'' \<or> c = CHR ''.'')"

text \<open>\<open>re.match(r'^[...]+$', v)\<close>: \<open>$\<close> also matches before a final newline, which the value then keeps.\<close>

definition safe_text :: "string \<Rightarrow> bool" where
  "safe_text v \<longleftrightarrow>
     v \<noteq> [] \<and> list_all safe_char v \<or>
     v \<noteq> [] \<and> last v = CHR 0x0A \<and> butlast v \<noteq> [] \<and> list_all safe_char (butlast v)"

definition sanitize_string :: "string option \<Rightarrow> exn + string" where
  "sanitize_string value =
     (case value of
        None \<Rightarrow> Inl (ValueError ''Value cannot be None'')
      | Some v \<Rightarrow>
          if safe_text v then Inr v
          else Inl (ValueError (''Invalid characters in value: '' @ v @ ''. Only alphanumeric characters, underscores, hyphens, and dots are allowed.'')))"

text \<open>What a client of a sanitiser relies on: it changes nothing, and lets no quote through.\<close>

locale sanitizer =
  fixes accept :: "string \<Rightarrow> exn + string"
  assumes accepts_same: "accept v = Inr w \<Longrightarrow> w = v"
    and accepts_no_quote: "accept v = Inr w \<Longrightarrow> CHR 0x27 \<notin> set w"
begin

lemma accept_all: "map_result accept vs = Inr ws \<Longrightarrow> ws = vs \<and> (\<forall>w \<in> set ws. CHR 0x27 \<notin> set w)"
  by (induction vs arbitrary: ws)
    (auto simp: andthen_Inr_iff dest: accepts_same accepts_no_quote)

end

lemma safe_char_no_quote: "\<not> safe_char (CHR 0x27)"
  by (simp add: safe_char_def)

lemma safe_text_chars: "safe_text v \<Longrightarrow> c \<in> set v \<Longrightarrow> safe_char c \<or> c = CHR 0x0A"
  unfolding safe_text_def list_all_iff
  by (metis in_set_butlastD append_butlast_last_id in_set_conv_decomp insertE list.set(1)
      list.set(2) set_append Un_iff singletonD)

lemma safe_text_no_quote: "safe_text v \<Longrightarrow> CHR 0x27 \<notin> set v"
  using safe_text_chars [of v "CHR 0x27"] safe_char_no_quote by auto

lemma sanitize_Inr: "sanitize_string (Some v) = Inr w \<longleftrightarrow> w = v \<and> safe_text v"
  by (auto simp: sanitize_string_def)

interpretation sanitizing: sanitizer "\<lambda>v. sanitize_string (Some v)"
  by unfold_locales (auto simp: sanitize_Inr dest: safe_text_no_quote)

section \<open>A scanner for SQL text\<close>

datatype token = Word string | Lit string | Sym char

definition word_char :: "char \<Rightarrow> bool" where
  "word_char c \<longleftrightarrow>
     (let n = of_char c :: nat
      in 97 \<le> n \<and> n \<le> 122 \<or> 65 \<le> n \<and> n \<le> 90 \<or> 48 \<le> n \<and> n \<le> 57 \<or> c = CHR ''_'')"

text \<open>The rest of a string literal after its opening quote; a doubled quote is one character.\<close>

fun scan_literal :: "string \<Rightarrow> (string \<times> string) option" where
  "scan_literal [] = None"
| "scan_literal (c # s) =
     (if c = CHR 0x27 then
        (case s of
           d # s' \<Rightarrow> if d = CHR 0x27 then map_option (\<lambda>(v, r). (c # v, r)) (scan_literal s') else Some ([], s)
         | [] \<Rightarrow> Some ([], []))
      else map_option (\<lambda>(v, r). (c # v, r)) (scan_literal s))"

lemma scan_literal_length: "scan_literal s = Some (v, r) \<Longrightarrow> length r < length s"
proof (induction s arbitrary: v r rule: scan_literal.induct)
  case 1
  then show ?case by simp
next
  case (2 c s)
  then show ?case
    by (cases s) (fastforce split: if_split_asm)+
qed

function scan :: "string \<Rightarrow> token list option" where
  "scan [] = Some []"
| "scan (c # s) =
     (if c = CHR 0x27 then
        (case scan_literal s of
           None \<Rightarrow> None
         | Some (v, r) \<Rightarrow> map_option ((#) (Lit v)) (scan r))
      else if c = CHR ''-'' \<and> s \<noteq> [] \<and> hd s = CHR ''-'' then scan (dropWhile (\<lambda>x. x \<noteq> CHR 0x0A) s)
      else if is_space c then scan s
      else if word_char c
           then map_option ((#) (Word (c # takeWhile word_char s))) (scan (dropWhile word_char s))
      else map_option ((#) (Sym c)) (scan s))"
  by pat_completeness auto
termination
  by (relation "measure length")
    (auto dest!: scan_literal_length simp: le_imp_less_Suc length_dropWhile_le)

declare scan.simps [simp del]

section \<open>Quoted values\<close>

definition quoted :: "string \<Rightarrow> string" where
  "quoted v = CHR 0x27 # v @ [CHR 0x27]"

definition quoted_list :: "string list \<Rightarrow> string" where
  "quoted_list vs = join '', '' (map quoted vs)"

lemma scan_literal_plain:
  "CHR 0x27 \<notin> set v \<Longrightarrow> (rest = [] \<or> hd rest \<noteq> CHR 0x27) \<Longrightarrow>
   scan_literal (v @ CHR 0x27 # rest) = Some (v, rest)"
proof (induction v)
  case Nil
  then show ?case by (cases rest) auto
next
  case (Cons c v)
  then show ?case by auto
qed

lemma scan_quoted:
  "CHR 0x27 \<notin> set v \<Longrightarrow> (rest = [] \<or> hd rest \<noteq> CHR 0x27) \<Longrightarrow>
   scan (quoted v @ rest) = map_option ((#) (Lit v)) (scan rest)"
  by (simp add: quoted_def scan.simps scan_literal_plain)

lemma scan_symbol:
  "c \<notin> {CHR 0x27, CHR ''-''} \<Longrightarrow> \<not> is_space c \<Longrightarrow> \<not> word_char c \<Longrightarrow>
   scan (c # s) = map_option ((#) (Sym c)) (scan s)"
  by (simp add: scan.simps)

lemma scan_space: "is_space c \<Longrightarrow> c \<notin> {CHR 0x27, CHR ''-''} \<Longrightarrow> scan (c # s) = scan s"
  by (simp add: scan.simps)

definition plain_word :: "string \<Rightarrow> bool" where
  "plain_word w \<longleftrightarrow> w \<noteq> [] \<and> list_all word_char w"

lemma scan_word:
  assumes "plain_word w" "rest = [] \<or> \<not> word_char (hd rest)"
  shows "scan (w @ rest) = map_option ((#) (Word w)) (scan rest)"
proof -
  obtain c v where w: "w = c # v" "word_char c" "list_all word_char v"
    using assms(1) by (cases w) (auto simp: plain_word_def)
  have "c \<noteq> CHR 0x27" "c \<noteq> CHR ''-''" "\<not> is_space c"
    using w(2) by (auto simp: word_char_def is_space_def)
  moreover have "takeWhile word_char (v @ rest) = v" "dropWhile word_char (v @ rest) = rest"
    using w(3) assms(2)
    by (auto simp: takeWhile_append2 dropWhile_append2 list_all_iff takeWhile_eq_Nil_iff
        dropWhile_eq_self_iff)
  ultimately show ?thesis using w by (simp add: scan.simps)
qed

fun literal_tokens :: "string list \<Rightarrow> token list" where
  "literal_tokens [] = []"
| "literal_tokens [v] = [Lit v]"
| "literal_tokens (v # w # vs) = Lit v # Sym (CHR '','') # literal_tokens (w # vs)"

lemma scan_quoted_list:
  assumes "\<forall>v \<in> set vs. CHR 0x27 \<notin> set v" "rest \<noteq> []" "hd rest \<noteq> CHR 0x27"
  shows "scan (quoted_list vs @ rest) = map_option ((@) (literal_tokens vs)) (scan rest)"
  using assms(1)
proof (induction vs rule: literal_tokens.induct)
  case 1
  then show ?case by (cases "scan rest") (simp_all add: quoted_list_def)
next
  case (2 v)
  then show ?case using assms(2,3)
    by (cases "scan rest") (simp_all add: quoted_list_def scan_quoted)
next
  case (3 v w vs)
  have "scan (quoted_list (v # w # vs) @ rest) = scan (quoted v @ CHR '','' # CHR '' '' # quoted_list (w # vs) @ rest)"
    by (simp add: quoted_list_def)
  also have "\<dots> = map_option ((#) (Lit v)) (scan (CHR '','' # CHR '' '' # quoted_list (w # vs) @ rest))"
    using "3.prems" by (subst scan_quoted) simp_all
  also have "scan (CHR '','' # CHR '' '' # quoted_list (w # vs) @ rest) =
      map_option ((#) (Sym (CHR '',''))) (scan (quoted_list (w # vs) @ rest))"
    by (subst scan_symbol) (simp_all add: is_space_def word_char_def scan_space)
  also have "scan (quoted_list (w # vs) @ rest) = map_option ((@) (literal_tokens (w # vs))) (scan rest)"
    using "3.prems" by (intro "3.IH") simp
  finally show ?case by (cases "scan rest") simp_all
qed

section \<open>Predicates\<close>

text \<open>\<open>f"'{sanitize_string(v)}'"\<close> for each value, joined by commas.\<close>

definition sanitize_all :: "string list \<Rightarrow> exn + string list" where
  "sanitize_all vs = map_result (\<lambda>v. sanitize_string (Some v)) vs"

lemma sanitize_all_Inr: "sanitize_all vs = Inr ws \<longleftrightarrow> ws = vs \<and> list_all safe_text vs"
  unfolding sanitize_all_def
  by (induction vs arbitrary: ws) (auto simp: andthen_Inr_iff sanitize_Inr)

lemma sanitize_all_error: "sanitize_all vs = Inl e \<Longrightarrow> \<not> list_all safe_text vs"
  by (metis sanitize_all_Inr sum.distinct(1))

text \<open>\<open>_in_condition\<close>: nothing without values.\<close>

definition in_condition :: "string \<Rightarrow> string list option \<Rightarrow> exn + string list" where
  "in_condition column values =
     (case values of
        None \<Rightarrow> Inr []
      | Some vs \<Rightarrow>
          if vs = [] then Inr []
          else andthen (sanitize_all vs) (\<lambda>ws.
                 Inr [column @ '' IN ('' @ quoted_list ws @ '')'']))"

definition like_clause :: "string \<Rightarrow> string \<Rightarrow> string" where
  "like_clause column p = column @ '' LIKE '' @ quoted (p @ ''-%'')"

text \<open>\<open>_prefix_condition\<close>.\<close>

definition prefix_condition :: "string \<Rightarrow> string list option \<Rightarrow> exn + string list" where
  "prefix_condition column ps =
     (case ps of
        None \<Rightarrow> Inr []
      | Some vs \<Rightarrow>
          if vs = [] then Inr []
          else andthen (sanitize_all vs) (\<lambda>ws.
                 Inr [''('' @ join '' OR '' (map (like_clause column) ws) @ '')'']))"

definition qualified_column :: "string \<Rightarrow> string option \<Rightarrow> string" where
  "qualified_column column table_alias =
     (case table_alias of
        Some a \<Rightarrow> if a \<noteq> [] then a @ ''.'' @ column else column
      | None \<Rightarrow> column)"

text \<open>\<open>_build_string_in_condition\<close>: empty values are left out, one value is an equality.\<close>

definition build_string_in_condition ::
  "string \<Rightarrow> string list \<Rightarrow> string option \<Rightarrow> exn + string option"
where
  "build_string_in_condition column values table_alias =
     andthen (sanitize_all (filter (\<lambda>v. v \<noteq> []) values)) (\<lambda>ws.
       case ws of
         [] \<Rightarrow> Inr None
       | [w] \<Rightarrow> Inr (Some (qualified_column column table_alias @ '' = '' @ quoted w))
       | _ \<Rightarrow> Inr (Some (qualified_column column table_alias @ '' IN ('' @ quoted_list ws @ '')'')))"

section \<open>Schema-driven filters (\<open>routes/filtering.py\<close>)\<close>

text \<open>
  A collection schema, of which the filters use the group-by columns (absent for the static
  collections) and the names of the properties.
\<close>

record col_schema =
  cs_group_by :: "string list option"
  cs_properties :: "string list"

definition get_filterable_columns :: "col_schema \<Rightarrow> bool \<Rightarrow> string list" where
  "get_filterable_columns sch default_to_properties =
     (case cs_group_by sch of
        Some columns \<Rightarrow> columns
      | None \<Rightarrow> if default_to_properties then cs_properties sch else [])"

definition verify_filtered_columns :: "col_schema \<Rightarrow> string list \<Rightarrow> bool \<Rightarrow> exn + unit" where
  "verify_filtered_columns sch filtered default_to_properties =
     (let invalid = filter (\<lambda>c. c \<notin> set (get_filterable_columns sch default_to_properties)) filtered
      in if invalid \<noteq> []
         then Inl (HTTPException 400 (DText (''Unsupported filters: '' @ join '', '' (sorted_set invalid))))
         else Inr ())"

definition equality_condition :: "string \<Rightarrow> string \<Rightarrow> string" where
  "equality_condition column value =
     (if value = ''null'' then column @ '' IS NULL'' else column @ '' = '' @ quoted value)"

definition equality_filter :: "string \<times> string \<Rightarrow> exn + string" where
  "equality_filter kv =
     andthen (sanitize_string (Some (fst kv))) (\<lambda>column.
     andthen (sanitize_string (Some (snd kv))) (\<lambda>value. Inr (equality_condition column value)))"

definition build_equality_filter_conditions :: "(string, string) dict \<Rightarrow> exn + string list" where
  "build_equality_filter_conditions filters = map_result equality_filter filters"

lemma build_equality_Inr:
  "build_equality_filter_conditions filters = Inr cs \<longleftrightarrow>
     cs = map (\<lambda>kv. equality_condition (fst kv) (snd kv)) filters \<and>
     list_all (\<lambda>kv. safe_text (fst kv) \<and> safe_text (snd kv)) filters"
  unfolding build_equality_filter_conditions_def
  by (induction filters arbitrary: cs)
    (auto simp: andthen_Inr_iff equality_filter_def sanitize_Inr)

lemma build_equality_error:
  "build_equality_filter_conditions filters = Inl e \<Longrightarrow>
   \<not> list_all (\<lambda>kv. safe_text (fst kv) \<and> safe_text (snd kv)) filters"
  using build_equality_Inr [of filters "map (\<lambda>kv. equality_condition (fst kv) (snd kv)) filters"] by simp

section \<open>Running a query (\<open>execute_query\<close>)\<close>

definition TRANSIENT_ERRORS :: "string list" where
  "TRANSIENT_ERRORS =
     [''all connection attempts failed'', ''failed to establish a new connection'',
      ''connection reset'', ''connection timeout'', ''connection refused'',
      ''max retries exceeded'', ''temporary failure'', ''server busy'']"

text \<open>\<open>message\<close> is \<open>str(error)\<close>.\<close>

definition should_retry_error :: "string \<Rightarrow> bool" where
  "should_retry_error message = list_ex (contains (lower message)) TRANSIENT_ERRORS"

definition with_limit :: "int option \<Rightarrow> string \<Rightarrow> string" where
  "with_limit max_rows query =
     (case max_rows of
        Some n \<Rightarrow> if n \<noteq> 0 \<and> \<not> contains (upper query) ''LIMIT''
                  then query @ '' LIMIT '' @ show_int n else query
      | None \<Rightarrow> query)"

text \<open>
  \<open>run k q\<close> is what the database answers to attempt number \<open>k\<close>, a failure with its text.  The
  result is the answer and the waits, in seconds, before the retries.
\<close>

function execute_query ::
  "int \<Rightarrow> (nat \<Rightarrow> string \<Rightarrow> (exn \<times> string) + 'df) \<Rightarrow> int option \<Rightarrow> string \<Rightarrow> nat \<Rightarrow> (exn + 'df) \<times> nat list"
where
  "execute_query max_retries run max_rows query retry_count =
     (let q = with_limit max_rows query
      in case run retry_count q of
           Inr df \<Rightarrow> (Inr df, [])
         | Inl (e, message) \<Rightarrow>
             if int retry_count < max_retries \<and> should_retry_error message
             then (case execute_query max_retries run max_rows q (retry_count + 1) of
                     (r, delays) \<Rightarrow> (r, 2 ^ retry_count # delays))
             else (Inl e, []))"
  by pat_completeness auto
termination
  by (relation "measure (\<lambda>(max_retries, _, _, _, retry_count). nat (max_retries - int retry_count))") auto

declare execute_query.simps [simp del]

text \<open>A limit, once in the text, is not added again.\<close>

lemma contains_limit: "contains (upper (q @ '' LIMIT '' @ s)) ''LIMIT''"
proof -
  have "upper (q @ '' LIMIT '' @ s) = (upper q @ '' '') @ ''LIMIT'' @ ('' '' @ upper s)"
    by (simp add: upper_def upper_char_def)
  then show ?thesis unfolding sublist_def by blast
qed

lemma with_limit_idem: "with_limit m (with_limit m q) = with_limit m q"
  using contains_limit by (auto simp: with_limit_def split: option.splits)

section \<open>What the predicates scan to\<close>

lemma scan_Nil [simp]: "scan [] = Some []"
  by (simp add: scan.simps)

lemma scan_blank: "scan (CHR '' '' # s) = scan s"
  by (rule scan_space) (simp_all add: is_space_def)

lemma not_word [simp]:
  "\<not> word_char (CHR '' '')" "\<not> word_char (CHR ''('')" "\<not> word_char (CHR '')'')" "\<not> word_char (CHR ''='')"
  "\<not> word_char (CHR ''.'')" "\<not> word_char (CHR '','')" "\<not> is_space (CHR ''('')" "\<not> is_space (CHR '')'')"
  "\<not> is_space (CHR ''='')" "\<not> is_space (CHR ''.'')" "\<not> is_space (CHR '','')"
  by (simp_all add: word_char_def is_space_def)

lemma scan_keyword:
  "plain_word w \<Longrightarrow> scan (w @ CHR '' '' # s) = map_option ((#) (Word w)) (scan s)"
  by (subst scan_word) (simp_all add: scan_blank)

lemma plain_words [simp]: "plain_word ''IN''" "plain_word ''LIKE''" "plain_word ''OR''" "plain_word ''AND''"
  "plain_word ''IS''" "plain_word ''NULL''"
  by (simp_all add: plain_word_def word_char_def)

lemma map_option_Cons [simp]: "map_option ((#) x) (Some xs) = Some (x # xs)"
  by simp

definition column_tokens :: "string option \<Rightarrow> string \<Rightarrow> token list" where
  "column_tokens table_alias column =
     (case table_alias of
        Some a \<Rightarrow> if a \<noteq> [] then [Word a, Sym (CHR ''.''), Word column] else [Word column]
      | None \<Rightarrow> [Word column])"

definition in_tokens :: "string list \<Rightarrow> token list" where
  "in_tokens vs = Word ''IN'' # Sym (CHR ''('') # literal_tokens vs @ [Sym (CHR '')'')]"

lemma scan_in_list:
  assumes "\<forall>v \<in> set vs. CHR 0x27 \<notin> set v"
  shows "scan (''IN ('' @ quoted_list vs @ '')'') = Some (in_tokens vs)"
proof -
  have "scan (''IN ('' @ quoted_list vs @ '')'') = map_option ((#) (Word ''IN'')) (scan (CHR ''('' # quoted_list vs @ '')''))"
    using scan_keyword [of "''IN''" "CHR ''('' # quoted_list vs @ '')''"] by simp
  also have "scan (CHR ''('' # quoted_list vs @ '')'') =
      map_option ((#) (Sym (CHR ''(''))) (scan (quoted_list vs @ '')''))"
    by (rule scan_symbol) simp_all
  also have "scan (quoted_list vs @ '')'') = map_option ((@) (literal_tokens vs)) (scan '')'')"
    using assms by (intro scan_quoted_list) simp_all
  also have "scan '')'' = Some [Sym (CHR '')'')]"
    using scan_symbol [of "CHR '')''" "[]"] by simp
  finally show ?thesis by (simp add: in_tokens_def)
qed

lemma scan_column:
  assumes "plain_word column" "\<And>a. table_alias = Some a \<Longrightarrow> a = [] \<or> plain_word a"
  shows "scan (qualified_column column table_alias @ CHR '' '' # s) =
    map_option ((@) (column_tokens table_alias column)) (scan s)"
proof -
  have "scan (a @ CHR ''.'' # column @ CHR '' '' # s) =
      map_option ((@) [Word a, Sym (CHR ''.''), Word column]) (scan s)" if "plain_word a" for a
  proof -
    have "scan (a @ CHR ''.'' # column @ CHR '' '' # s) =
        map_option ((#) (Word a)) (scan (CHR ''.'' # column @ CHR '' '' # s))"
      using that by (subst scan_word) simp_all
    also have "scan (CHR ''.'' # column @ CHR '' '' # s) =
        map_option ((#) (Sym (CHR ''.''))) (map_option ((#) (Word column)) (scan s))"
      using assms(1) by (simp add: scan_symbol scan_keyword)
    finally show ?thesis by (cases "scan s") simp_all
  qed
  with assms show ?thesis
    by (cases "scan s")
      (auto simp: qualified_column_def column_tokens_def scan_keyword split: option.splits)
qed

lemma scan_eq_literal:
  assumes "CHR 0x27 \<notin> set v"
  shows "scan (''= '' @ quoted v) = Some [Sym (CHR ''=''), Lit v]"
proof -
  have "scan (''= '' @ quoted v) = map_option ((#) (Sym (CHR ''=''))) (scan (CHR '' '' # quoted v))"
    by (simp add: scan_symbol)
  with scan_quoted [OF assms, of "[]"] show ?thesis by (simp add: scan_blank)
qed

fun like_tokens :: "string \<Rightarrow> string list \<Rightarrow> token list" where
  "like_tokens column [] = []"
| "like_tokens column [p] = [Word column, Word ''LIKE'', Lit (p @ ''-%'')]"
| "like_tokens column (p # q # ps) =
     Word column # Word ''LIKE'' # Lit (p @ ''-%'') # Word ''OR'' # like_tokens column (q # ps)"

lemma scan_like_clause:
  assumes "plain_word column" "CHR 0x27 \<notin> set p" "rest = [] \<or> hd rest \<noteq> CHR 0x27"
  shows "scan (like_clause column p @ rest) =
    map_option ((@) [Word column, Word ''LIKE'', Lit (p @ ''-%'')]) (scan rest)"
proof -
  have "scan (like_clause column p @ rest) =
      map_option ((#) (Word column)) (scan (''LIKE '' @ quoted (p @ ''-%'') @ rest))"
    using scan_keyword [OF assms(1), of "''LIKE '' @ quoted (p @ ''-%'') @ rest"]
    by (simp add: like_clause_def)
  also have "scan (''LIKE '' @ quoted (p @ ''-%'') @ rest) =
      map_option ((#) (Word ''LIKE'')) (scan (quoted (p @ ''-%'') @ rest))"
    using scan_keyword [of "''LIKE''" "quoted (p @ ''-%'') @ rest"] by simp
  also have "scan (quoted (p @ ''-%'') @ rest) = map_option ((#) (Lit (p @ ''-%''))) (scan rest)"
    using assms by (intro scan_quoted) auto
  finally show ?thesis by (cases "scan rest") simp_all
qed

lemma scan_like_clauses:
  assumes "plain_word column" "\<forall>p \<in> set ps. CHR 0x27 \<notin> set p" "rest \<noteq> []" "hd rest \<noteq> CHR 0x27"
  shows "scan (join '' OR '' (map (like_clause column) ps) @ rest) =
    map_option ((@) (like_tokens column ps)) (scan rest)"
  using assms(2)
proof (induction ps rule: induct_list012)
  case 1
  then show ?case by (cases "scan rest") simp_all
next
  case (2 p)
  then show ?case using assms scan_like_clause [of column p rest]
    by (cases "scan rest") simp_all
next
  case (3 p q ps)
  let ?tail = "join '' OR '' (map (like_clause column) (q # ps)) @ rest"
  have "scan (like_clause column p @ '' OR '' @ ?tail) =
      map_option ((@) [Word column, Word ''LIKE'', Lit (p @ ''-%'')]) (scan ('' OR '' @ ?tail))"
    using "3.prems" assms(1) by (intro scan_like_clause) simp_all
  also have "scan ('' OR '' @ ?tail) = map_option ((#) (Word ''OR'')) (scan ?tail)"
    using scan_keyword [of "''OR''" ?tail] by (simp add: scan_blank)
  also have "scan ?tail = map_option ((@) (like_tokens column (q # ps))) (scan rest)"
    using "3.prems" by (intro "3.IH") simp
  finally show ?case by (cases "scan rest") simp_all
qed

section \<open>Properties\<close>

lemma safe_texts_no_quote: "list_all safe_text vs \<Longrightarrow> \<forall>v \<in> set vs. CHR 0x27 \<notin> set v"
  using safe_text_no_quote by (auto simp: list_all_iff)

lemma scan_in_condition:
  assumes "plain_word column" "\<And>a. table_alias = Some a \<Longrightarrow> a = [] \<or> plain_word a"
    and "\<forall>v \<in> set vs. CHR 0x27 \<notin> set v"
  shows "scan (qualified_column column table_alias @ '' IN ('' @ quoted_list vs @ '')'') =
    Some (column_tokens table_alias column @ in_tokens vs)"
  using scan_column [OF assms(1,2), of table_alias "''IN ('' @ quoted_list vs @ '')''"] scan_in_list [OF assms(3)]
  by simp

lemma scan_equality:
  assumes "plain_word column" "\<And>a. table_alias = Some a \<Longrightarrow> a = [] \<or> plain_word a" "CHR 0x27 \<notin> set v"
  shows "scan (qualified_column column table_alias @ '' = '' @ quoted v) =
    Some (column_tokens table_alias column @ [Sym (CHR ''=''), Lit v])"
  using scan_column [OF assms(1,2), of table_alias "''= '' @ quoted v"] scan_eq_literal [OF assms(3)] by simp

text \<open>C13 Caller-supplied filter values never become SQL: a list of values either is refused with a
  \<open>ValueError\<close>, or turns into exactly one membership test, one equality or one disjunction of
  prefix tests whose only contents besides the fixed words are string literals holding
  precisely the values given, in order.\<close>

theorem filter_values_stay_literals:
  assumes "plain_word column" "plain_word al" "vs \<noteq> []"
  shows "(case in_condition column (Some vs) of
       Inl e \<Rightarrow> \<not> list_all safe_text vs
     | Inr cs \<Rightarrow> map scan cs = [Some (Word column # in_tokens vs)]) \<and>
    (case prefix_condition column (Some vs) of
       Inl e \<Rightarrow> \<not> list_all safe_text vs
     | Inr cs \<Rightarrow> map scan cs = [Some (Sym (CHR ''('') # like_tokens column vs @ [Sym (CHR '')'')])]) \<and>
    (case build_string_in_condition column vs (Some al) of
       Inl e \<Rightarrow> \<not> list_all safe_text (filter (\<lambda>v. v \<noteq> []) vs)
     | Inr None \<Rightarrow> filter (\<lambda>v. v \<noteq> []) vs = []
     | Inr (Some c) \<Rightarrow> scan c = Some ([Word al, Sym (CHR ''.''), Word column] @
         (case filter (\<lambda>v. v \<noteq> []) vs of [v] \<Rightarrow> [Sym (CHR ''=''), Lit v] | ws \<Rightarrow> in_tokens ws)))"
proof (intro conjI)
  have al: "\<And>a. Some al = Some a \<Longrightarrow> a = [] \<or> plain_word a" and ne: "al \<noteq> []"
    using assms(2) by (auto simp: plain_word_def)
  show "case in_condition column (Some vs) of
       Inl e \<Rightarrow> \<not> list_all safe_text vs
     | Inr cs \<Rightarrow> map scan cs = [Some (Word column # in_tokens vs)]"
  proof (cases "sanitize_all vs")
    case (Inl e)
    then show ?thesis using assms(3) sanitize_all_error by (simp add: in_condition_def)
  next
    case (Inr ws)
    then have ws: "ws = vs" "\<forall>p \<in> set vs. CHR 0x27 \<notin> set p"
      using safe_texts_no_quote by (auto simp: sanitize_all_Inr)
    with Inr assms(3) scan_in_condition [OF assms(1) _ ws(2), of None] show ?thesis
      by (simp add: in_condition_def qualified_column_def column_tokens_def)
  qed
  show "case prefix_condition column (Some vs) of
       Inl e \<Rightarrow> \<not> list_all safe_text vs
     | Inr cs \<Rightarrow> map scan cs = [Some (Sym (CHR ''('') # like_tokens column vs @ [Sym (CHR '')'')])]"
  proof (cases "sanitize_all vs")
    case (Inl e)
    then show ?thesis using assms(3) sanitize_all_error by (simp add: prefix_condition_def)
  next
    case (Inr ws)
    then have ws: "ws = vs" "\<forall>p \<in> set vs. CHR 0x27 \<notin> set p"
      using safe_texts_no_quote by (auto simp: sanitize_all_Inr)
    have "scan (CHR ''('' # join '' OR '' (map (like_clause column) vs) @ '')'') =
        Some (Sym (CHR ''('') # like_tokens column vs @ [Sym (CHR '')'')])"
      using scan_like_clauses [OF assms(1) ws(2), of "'')''"] scan_symbol [of "CHR '')''" "[]"]
      by (simp add: scan_symbol)
    with Inr ws(1) assms(3) show ?thesis by (simp add: prefix_condition_def)
  qed
  show "case build_string_in_condition column vs (Some al) of
       Inl e \<Rightarrow> \<not> list_all safe_text (filter (\<lambda>v. v \<noteq> []) vs)
     | Inr None \<Rightarrow> filter (\<lambda>v. v \<noteq> []) vs = []
     | Inr (Some c) \<Rightarrow> scan c = Some ([Word al, Sym (CHR ''.''), Word column] @
         (case filter (\<lambda>v. v \<noteq> []) vs of [v] \<Rightarrow> [Sym (CHR ''=''), Lit v] | ws \<Rightarrow> in_tokens ws))"
  proof (cases "sanitize_all (filter (\<lambda>v. v \<noteq> []) vs)")
    case (Inl e)
    then show ?thesis using sanitize_all_error by (simp add: build_string_in_condition_def)
  next
    case (Inr ws)
    then have ws: "ws = filter (\<lambda>v. v \<noteq> []) vs" "\<forall>v \<in> set ws. CHR 0x27 \<notin> set v"
      using safe_texts_no_quote by (auto simp: sanitize_all_Inr)
    have one: "scan (qualified_column column (Some al) @ '' = '' @ quoted v) =
        Some [Word al, Sym (CHR ''.''), Word column, Sym (CHR ''=''), Lit v]" if "ws = [v]" for v
      using scan_equality [where table_alias = "Some al", OF assms(1) al, of v] ws(2) that ne
      by (simp add: column_tokens_def)
    note scans = one scan_in_condition [where table_alias = "Some al", OF assms(1) al ws(2)]
    from Inr ws(1) ne scans show ?thesis
      by (auto simp: build_string_in_condition_def column_tokens_def split: list.splits)
  qed
qed

lemma filter_values_stay_literals_witness:
  "(case prefix_condition ''location_id'' (Some [''usgs'', ''nwm30'']) of
      Inl e \<Rightarrow> False
    | Inr cs \<Rightarrow> map scan cs = [Some (Sym (CHR ''('') # like_tokens ''location_id'' [''usgs'', ''nwm30''] @ [Sym (CHR '')'')])]) \<and>
   (case in_condition ''location_id'' (Some [''usgs' OR '1'='1'']) of
      Inl e \<Rightarrow> True
    | Inr cs \<Rightarrow> map scan cs = [Some (Word ''location_id'' # in_tokens [''usgs' OR '1'='1''])])"
proof -
  have w: "plain_word ''location_id''" "plain_word ''st''"
    by (simp_all add: plain_word_def word_char_def)
  have "list_all safe_text [''usgs'', ''nwm30'']"
    by (simp add: safe_text_def safe_char_def)
  then show ?thesis
    using filter_values_stay_literals [OF w, of "[''usgs'', ''nwm30'']"]
      filter_values_stay_literals [OF w, of "[''usgs' OR '1'='1'']"]
    by (auto split: sum.splits)
qed

definition equality_tokens :: "string \<Rightarrow> string \<Rightarrow> token list" where
  "equality_tokens c v =
     Word c # (if v = ''null'' then [Word ''IS'', Word ''NULL''] else [Sym (CHR ''=''), Lit v])"

lemma scan_equality_condition:
  "plain_word c \<Longrightarrow> safe_text v \<Longrightarrow> scan (equality_condition c v) = Some (equality_tokens c v)"
  using scan_equality [of c None v] scan_keyword [of c "''IS NULL''"] scan_keyword [of "''IS''" "''NULL''"]
    scan_word [of "''NULL''" "[]"] safe_text_no_quote [of v]
  by (simp add: equality_condition_def equality_tokens_def qualified_column_def column_tokens_def)

text \<open>A filter reaches the query only on a column the collection declares, and there only as data:
  an undeclared one is a 400 that names exactly the undeclared columns; a declared one gives
  one predicate per filter, in order, comparing that column with that value as a literal (or
  with \<open>NULL\<close> for the word \<open>null\<close>).\<close>

theorem equality_filters_confined:
  assumes "list_all plain_word (get_filterable_columns sch dflt)"
  shows "(case verify_filtered_columns sch (map fst filters) dflt of
      Inl e \<Rightarrow>
        (\<exists>bad. bad \<noteq> [] \<and> set bad = fst ` set filters - set (get_filterable_columns sch dflt) \<and>
           e = HTTPException 400 (DText (''Unsupported filters: '' @ join '', '' bad)))
    | Inr _ \<Rightarrow>
        fst ` set filters \<subseteq> set (get_filterable_columns sch dflt) \<and>
        (case build_equality_filter_conditions filters of
           Inl e \<Rightarrow> \<not> list_all (\<lambda>kv. safe_text (fst kv) \<and> safe_text (snd kv)) filters
         | Inr cs \<Rightarrow> map scan cs = map (\<lambda>kv. Some (Word (fst kv) #
             (if snd kv = ''null'' then [Word ''IS'', Word ''NULL''] else [Sym (CHR ''=''), Lit (snd kv)])))
             filters))"
proof (cases "filter (\<lambda>c. c \<notin> set (get_filterable_columns sch dflt)) (map fst filters) = []")
  case False
  let ?bad = "filter (\<lambda>c. c \<notin> set (get_filterable_columns sch dflt)) (map fst filters)"
  have "sorted_set ?bad \<noteq> []" using False by simp
  moreover have "set (sorted_set ?bad) = fst ` set filters - set (get_filterable_columns sch dflt)"
    by auto
  moreover have "verify_filtered_columns sch (map fst filters) dflt =
      Inl (HTTPException 400 (DText (''Unsupported filters: '' @ join '', '' (sorted_set ?bad))))"
    using False unfolding verify_filtered_columns_def Let_def by (simp only: if_True simp_thms)
  ultimately show ?thesis by (simp only: sum.case) blast
next
  case True
  then have sub: "fst ` set filters \<subseteq> set (get_filterable_columns sch dflt)"
    by (auto simp: filter_empty_conv)
  have plain: "plain_word (fst kv)" if "kv \<in> set filters" for kv
    using sub assms that by (auto simp: list_all_iff)
  have "map scan (map (\<lambda>kv. equality_condition (fst kv) (snd kv)) filters) =
      map (\<lambda>kv. Some (Word (fst kv) #
        (if snd kv = ''null'' then [Word ''IS'', Word ''NULL''] else [Sym (CHR ''=''), Lit (snd kv)]))) filters"
    if "list_all (\<lambda>kv. safe_text (fst kv) \<and> safe_text (snd kv)) filters"
    using that plain by (simp add: list_all_iff scan_equality_condition equality_tokens_def)
  note ok = this
  have "case build_equality_filter_conditions filters of
      Inl e \<Rightarrow> \<not> list_all (\<lambda>kv. safe_text (fst kv) \<and> safe_text (snd kv)) filters
    | Inr cs \<Rightarrow> map scan cs = map (\<lambda>kv. Some (Word (fst kv) #
        (if snd kv = ''null'' then [Word ''IS'', Word ''NULL''] else [Sym (CHR ''=''), Lit (snd kv)]))) filters"
  proof (cases "build_equality_filter_conditions filters")
    case (Inl e)
    then show ?thesis using build_equality_error by (simp only: sum.case simp_thms)
  next
    case (Inr cs)
    then have "cs = map (\<lambda>kv. equality_condition (fst kv) (snd kv)) filters"
      "list_all (\<lambda>kv. safe_text (fst kv) \<and> safe_text (snd kv)) filters"
      by (simp_all add: build_equality_Inr)
    with Inr ok show ?thesis by (simp only: sum.case)
  qed
  with sub True show ?thesis by (simp add: verify_filtered_columns_def Let_def)
qed

lemma equality_filters_confined_witness:
  "map_option length (case build_equality_filter_conditions [(''variable_name'', ''stage''), (''unit_name'', ''null'')] of
     Inl e \<Rightarrow> None | Inr cs \<Rightarrow> Some (concat (map (\<lambda>c. case scan c of None \<Rightarrow> [] | Some ts \<Rightarrow> ts) cs))) = Some 6"
proof -
  let ?s = "\<lparr>cs_group_by = Some [''variable_name'', ''unit_name''], cs_properties = []\<rparr>"
  let ?f = "[(''variable_name'', ''stage''), (''unit_name'', ''null'')]"
  have p: "list_all plain_word (get_filterable_columns ?s False)"
    by (simp add: get_filterable_columns_def plain_word_def word_char_def)
  have v: "verify_filtered_columns ?s (map fst ?f) False = Inr ()"
    by (simp add: verify_filtered_columns_def get_filterable_columns_def)
  have s: "list_all (\<lambda>kv. safe_text (fst kv) \<and> safe_text (snd kv)) ?f"
    by (simp add: safe_text_def safe_char_def)
  obtain cs where cs: "build_equality_filter_conditions ?f = Inr cs"
    using s build_equality_error by (cases "build_equality_filter_conditions ?f") blast+
  have "map scan cs = [Some [Word ''variable_name'', Sym (CHR ''=''), Lit ''stage''],
      Some [Word ''unit_name'', Word ''IS'', Word ''NULL'']]"
    using equality_filters_confined [OF p, of ?f] unfolding v cs by simp
  then show ?thesis unfolding cs by (auto simp: map_eq_Cons_conv)
qed

lemma should_retry_some: "should_retry_error ''connection reset by peer''"
  by (simp add: should_retry_error_def TRANSIENT_ERRORS_def lower_def lower_char_def)

text \<open>C37 The query runner tries a query at most once more than the configured number of retries,
  after doubling waits of 1, 2, 4 ... seconds, always with the same text; it retries only
  transient failures and gives back the first answer or the first failure it does not retry.\<close>

theorem execute_query_retries:
  assumes "\<And>i. i < n \<Longrightarrow> \<exists>e m. run i (with_limit rows q) = Inl (e, m) \<and> should_retry_error m"
    and "int n \<le> max_retries"
    and "run n (with_limit rows q) = Inr df \<or>
      (\<exists>e m. run n (with_limit rows q) = Inl (e, m) \<and> (int n = max_retries \<or> \<not> should_retry_error m))"
  shows "execute_query max_retries run rows q 0 =
    (case run n (with_limit rows q) of Inr df \<Rightarrow> Inr df | Inl (e, m) \<Rightarrow> Inl e, map (\<lambda>i. 2 ^ i) [0..<n])"
proof -
  let ?res = "case run n (with_limit rows q) of Inr df \<Rightarrow> Inr df | Inl (e, m) \<Rightarrow> Inl e"
  have "execute_query max_retries run rows q' k = (?res, map (\<lambda>i. 2 ^ i) [k..<n])"
    if "k \<le> n" "with_limit rows q' = with_limit rows q" for k q'
    using that
  proof (induction "n - k" arbitrary: k q')
    case 0
    then have "k = n" by simp
    with 0 assms(2,3) show ?case by (auto simp: execute_query.simps [of _ _ _ _ n] Let_def)
  next
    case (Suc d)
    then have k: "k < n" by simp
    from assms(1) [OF k] obtain e m where e: "run k (with_limit rows q) = Inl (e, m)" "should_retry_error m"
      by blast
    have "execute_query max_retries run rows (with_limit rows q) (k + 1) =
        (?res, map (\<lambda>i. 2 ^ i) [k + 1..<n])"
      using Suc k by (intro Suc.hyps) (simp_all add: with_limit_idem)
    with e k assms(2) Suc.prems(2) show ?case
      by (simp add: execute_query.simps [of _ _ _ q' k] Let_def upt_conv_Cons)
  qed
  from this [of 0 q] show ?thesis by simp
qed

lemma execute_query_retries_witness:
  "execute_query 3 (\<lambda>k t. if k < 2 then Inl (DatabaseError [], ''connection reset by peer'') else Inr t)
     (Some 5) ''SELECT 1'' 0 = (Inr ''SELECT 1 LIMIT 5'', [1, 2])"
proof -
  have q: "with_limit (Some 5) ''SELECT 1'' = ''SELECT 1 LIMIT 5''"
    by code_simp
  show ?thesis
    by (subst execute_query_retries [where n = 2]) (simp_all add: q should_retry_some upt_conv_Cons)
qed

end
