(* ===== verification/Url_Query.thy ===== *)
theory Url_Query
  imports Py_Strings
begin

text \<open>
  Query strings as the pagination links use them: \<open>urlparse\<close> and \<open>urlunparse\<close> around the query,
  \<open>parse_qs\<close>, \<open>urlencode\<close> with and without \<open>doseq\<close>, all on the bytes of the text.  The round
  trip of a parameter dictionary through its encoding is what the links rest on.
\<close>

section \<open>Percent coding\<close>

definition unreserved :: "char \<Rightarrow> bool" where
  "unreserved c \<longleftrightarrow>
     (let n = of_char c :: nat
      in 48 \<le> n \<and> n \<le> 57 \<or> 65 \<le> n \<and> n \<le> 90 \<or> 97 \<le> n \<and> n \<le> 122 \<or>
         c \<in> {CHR ''_'', CHR ''.'', CHR ''-'', CHR ''~''})"

definition hex_upper :: "nat \<Rightarrow> char" where
  "hex_upper d = (if d < 10 then char_of (48 + d) else char_of (55 + d))"

definition hex_val :: "char \<Rightarrow> nat option" where
  "hex_val c =
     (let n = of_char c :: nat
      in if 48 \<le> n \<and> n \<le> 57 then Some (n - 48)
         else if 65 \<le> n \<and> n \<le> 70 then Some (n - 55)
         else if 97 \<le> n \<and> n \<le> 102 then Some (n - 87)
         else None)"

definition quote_char :: "char \<Rightarrow> string" where
  "quote_char c =
     (if unreserved c then [c]
      else if c = CHR '' '' then ''+''
      else [CHR ''%'', hex_upper (of_char c div 16), hex_upper (of_char c mod 16)])"

definition quote_plus :: "string \<Rightarrow> string" where
  "quote_plus s = concat (map quote_char s)"

text \<open>A \<open>%\<close> not followed by two hexadecimal digits stays as it is.\<close>

fun unquote_plus :: "string \<Rightarrow> string" where
  "unquote_plus [] = []"
| "unquote_plus (c # a # b # s) =
     (if c = CHR ''+'' then CHR '' '' # unquote_plus (a # b # s)
      else if c = CHR ''%'' then
        (case (hex_val a, hex_val b) of
           (Some x, Some y) \<Rightarrow> char_of (16 * x + y) # unquote_plus s
         | _ \<Rightarrow> c # unquote_plus (a # b # s))
      else c # unquote_plus (a # b # s))"
| "unquote_plus (c # s) = (if c = CHR ''+'' then CHR '' '' else c) # unquote_plus s"

lemma hex_val_upper: "d < 16 \<Longrightarrow> hex_val (hex_upper d) = Some d"
  by (auto simp: hex_val_def hex_upper_def Let_def)

lemma high_nibble: "(of_char c :: nat) div 16 < 16"
  by (rule less_mult_imp_div_less) (use nat_of_char_less_256 [of c] in simp)

lemma quote_char_unquote: "unquote_plus (quote_char c @ s) = c # unquote_plus s"
proof (cases "unreserved c")
  case True
  then have "c \<noteq> CHR ''+''" "c \<noteq> CHR ''%''" by (auto simp: unreserved_def)
  with True show ?thesis
    by (cases s; cases "tl s") (simp_all add: quote_char_def)
next
  case False
  show ?thesis
  proof (cases "c = CHR '' ''")
    case True
    with False show ?thesis
      by (cases s; cases "tl s") (simp_all add: quote_char_def)
  next
    case sp: False
    have "hex_val (hex_upper (of_char c div 16)) = Some (of_char c div 16)"
      "hex_val (hex_upper (of_char c mod 16)) = Some (of_char c mod 16)"
      by (simp_all add: hex_val_upper high_nibble)
    with False sp show ?thesis by (simp add: quote_char_def)
  qed
qed

lemma unquote_quote_append: "unquote_plus (quote_plus s @ t) = s @ unquote_plus t"
  by (induction s) (simp_all add: quote_plus_def quote_char_unquote)

lemma unquote_quote [simp]: "unquote_plus (quote_plus s) = s"
  using unquote_quote_append [of s "[]"] by simp

lemma quote_char_nonempty: "quote_char c \<noteq> []"
  by (simp add: quote_char_def)

lemma quote_plus_empty [simp]: "quote_plus s = [] \<longleftrightarrow> s = []"
  by (cases s) (simp_all add: quote_plus_def quote_char_nonempty)

lemma hex_upper_unreserved: "d < 16 \<Longrightarrow> unreserved (hex_upper d)"
  by (auto simp: hex_upper_def unreserved_def Let_def)

lemma quote_plus_chars: "x \<in> set (quote_plus s) \<Longrightarrow> unreserved x \<or> x = CHR ''+'' \<or> x = CHR ''%''"
proof -
  have "x \<in> set (quote_char c) \<Longrightarrow> unreserved x \<or> x = CHR ''+'' \<or> x = CHR ''%''" for c
    by (auto simp: quote_char_def hex_upper_unreserved high_nibble split: if_splits)
  then show "x \<in> set (quote_plus s) \<Longrightarrow> ?thesis" by (auto simp: quote_plus_def)
qed

lemma quote_plus_no_amp [simp]: "CHR ''&'' \<notin> set (quote_plus s)"
  and quote_plus_no_eq [simp]: "CHR ''='' \<notin> set (quote_plus s)"
  and quote_plus_no_mark [simp]: "CHR ''?'' \<notin> set (quote_plus s)"
  and quote_plus_no_hash [simp]: "CHR ''#'' \<notin> set (quote_plus s)"
  by (auto dest!: quote_plus_chars simp: unreserved_def)

section \<open>Parameter dictionaries\<close>

type_synonym params = "(string, string list) dict"

text \<open>\<open>parse_qsl\<close>: fields without \<open>=\<close> and fields with an empty value are dropped.\<close>

definition parse_field :: "string \<Rightarrow> (string \<times> string) list" where
  "parse_field f =
     (if CHR ''='' \<in> set f \<and> after_first (CHR ''='') f \<noteq> []
      then [(unquote_plus (before_first (CHR ''='') f), unquote_plus (after_first (CHR ''='') f))]
      else [])"

definition parse_qsl :: "string \<Rightarrow> (string \<times> string) list" where
  "parse_qsl q = concat (map parse_field (split_on (CHR ''&'') q))"

definition add_value :: "string \<times> string \<Rightarrow> params \<Rightarrow> params" where
  "add_value kv d = dict_set d (fst kv) (dict_get_default d (fst kv) [] @ [snd kv])"

definition parse_qs :: "string \<Rightarrow> params" where
  "parse_qs q = fold add_value (parse_qsl q) []"

definition encode_field :: "string \<times> string \<Rightarrow> string" where
  "encode_field kv = quote_plus (fst kv) @ ''='' @ quote_plus (snd kv)"

definition urlencode_pairs :: "(string \<times> string) list \<Rightarrow> string" where
  "urlencode_pairs kvs = join ''&'' (map encode_field kvs)"

text \<open>\<open>urlencode(d, doseq=True)\<close>, and \<open>urlencode({k: v[0] for k, v in d.items()})\<close>.\<close>

definition param_pairs :: "params \<Rightarrow> (string \<times> string) list" where
  "param_pairs d = concat (map (\<lambda>(k, vs). map (Pair k) vs) d)"

definition urlencode_doseq :: "params \<Rightarrow> string" where
  "urlencode_doseq d = urlencode_pairs (param_pairs d)"

definition urlencode_first :: "params \<Rightarrow> string" where
  "urlencode_first d = urlencode_pairs (map (\<lambda>(k, vs). (k, hd vs)) d)"

section \<open>The round trip\<close>

lemma parse_encode_field: "snd kv \<noteq> [] \<Longrightarrow> parse_field (encode_field kv) = [kv]"
  by (simp add: parse_field_def encode_field_def)

lemma parse_urlencode_pairs:
  assumes "\<forall>kv \<in> set kvs. snd kv \<noteq> []"
  shows "parse_qsl (urlencode_pairs kvs) = kvs"
proof (cases "kvs = []")
  case True
  then show ?thesis by (simp add: parse_qsl_def urlencode_pairs_def parse_field_def)
next
  case False
  have "split_on (CHR ''&'') (join ''&'' (map encode_field kvs)) = map encode_field kvs"
    using False by (intro split_on_join) (auto simp: encode_field_def)
  then have "parse_qsl (urlencode_pairs kvs) = concat (map (\<lambda>kv. parse_field (encode_field kv)) kvs)"
    by (simp add: parse_qsl_def urlencode_pairs_def comp_def)
  also have "\<dots> = concat (map (\<lambda>kv. [kv]) kvs)"
    using assms parse_encode_field by (metis (no_types, lifting) map_eq_conv)
  finally show ?thesis by simp
qed

text \<open>The dictionaries \<open>parse_qs\<close> yields: distinct names, each with values, none empty.\<close>

definition params_ok :: "params \<Rightarrow> bool" where
  "params_ok d \<longleftrightarrow> dict_ok d \<and> list_all (\<lambda>(k, vs). vs \<noteq> [] \<and> list_all (\<lambda>v. v \<noteq> []) vs) d"

lemma update_snoc_new: "k \<notin> fst ` set d \<Longrightarrow> AList.update k v d = d @ [(k, v)]"
  by (induction d) auto

lemma update_last: "k \<notin> fst ` set d \<Longrightarrow> AList.update k v (d @ [(k, w)]) = d @ [(k, v)]"
  by (induction d) auto

lemma fold_add_values:
  "k \<notin> fst ` set d \<Longrightarrow> fold add_value (map (Pair k) vs) (d @ [(k, ws)]) = d @ [(k, ws @ vs)]"
proof (induction vs arbitrary: ws)
  case Nil
  then show ?case by simp
next
  case (Cons v vs)
  have "dict_get d k = None" using Cons.prems by (simp add: map_of_eq_None_iff)
  then have "dict_get (d @ [(k, ws)]) k = Some ws" by (simp add: map_add_def)
  then have "add_value (k, v) (d @ [(k, ws)]) = d @ [(k, ws @ [v])]"
    using Cons.prems by (simp add: add_value_def dict_get_default_def update_last)
  with Cons show ?case by simp
qed

lemma fold_add_name:
  assumes "k \<notin> fst ` set d" "vs \<noteq> []"
  shows "fold add_value (map (Pair k) vs) d = d @ [(k, vs)]"
proof -
  obtain v ws where vs: "vs = v # ws" using assms(2) by (cases vs) auto
  have "dict_get d k = None" using assms(1) by (simp add: map_of_eq_None_iff)
  then have "add_value (k, v) d = d @ [(k, [v])]"
    using assms(1) by (simp add: add_value_def dict_get_default_def update_snoc_new)
  with vs assms(1) fold_add_values [of k d ws "[v]"] show ?thesis by simp
qed

lemma fold_param_pairs:
  assumes "distinct (map fst (d @ e))" "\<forall>(k, vs) \<in> set e. vs \<noteq> []"
  shows "fold add_value (param_pairs e) d = d @ e"
  using assms
proof (induction e arbitrary: d)
  case Nil
  then show ?case by (simp add: param_pairs_def)
next
  case (Cons kv e)
  obtain k vs where kv: "kv = (k, vs)" by (cases kv)
  have "fold add_value (map (Pair k) vs) d = d @ [(k, vs)]"
    using Cons.prems kv by (intro fold_add_name) (auto simp: image_iff)
  moreover have "fold add_value (param_pairs e) (d @ [(k, vs)]) = (d @ [(k, vs)]) @ e"
    using Cons.prems kv by (intro Cons.IH) auto
  ultimately show ?case by (simp add: kv param_pairs_def)
qed

lemma parse_urlencode_doseq: "params_ok d \<Longrightarrow> parse_qs (urlencode_doseq d) = d"
proof -
  assume ok: "params_ok d"
  have "\<forall>kv \<in> set (param_pairs d). snd kv \<noteq> []"
    using ok by (auto simp: params_ok_def param_pairs_def list_all_iff)
  then have "parse_qsl (urlencode_doseq d) = param_pairs d"
    unfolding urlencode_doseq_def by (rule parse_urlencode_pairs)
  moreover have "fold add_value (param_pairs d) [] = [] @ d"
    using ok by (intro fold_param_pairs) (auto simp: params_ok_def dict_ok_def list_all_iff)
  ultimately show ?thesis by (simp add: parse_qs_def)
qed

lemma urlencode_first_doseq:
  "urlencode_first d = urlencode_doseq (map (\<lambda>(k, vs). (k, [hd vs])) d)"
proof -
  have "param_pairs (map (\<lambda>(k, vs). (k, [hd vs])) d) = map (\<lambda>(k, vs). (k, hd vs)) d"
    by (induction d) (auto simp: param_pairs_def)
  then show ?thesis by (simp only: urlencode_first_def urlencode_doseq_def)
qed

lemma params_ok_first: "params_ok d \<Longrightarrow> params_ok (map (\<lambda>(k, vs). (k, [hd vs])) d)"
  by (auto simp: params_ok_def dict_ok_def list_all_iff comp_def case_prod_beta)

lemma parse_urlencode_first: "params_ok d \<Longrightarrow> parse_qs (urlencode_first d) = map (\<lambda>(k, vs). (k, [hd vs])) d"
  by (simp add: urlencode_first_doseq parse_urlencode_doseq params_ok_first)

lemma set_update_subset: "kv \<in> set (dict_set d k v) \<Longrightarrow> kv = (k, v) \<or> kv \<in> set d"
  by (induction d) (auto split: if_split_asm)

lemma params_ok_iff:
  "params_ok d \<longleftrightarrow> dict_ok d \<and> (\<forall>kv \<in> set d. snd kv \<noteq> [] \<and> [] \<notin> set (snd kv))"
  unfolding params_ok_def list_all_iff case_prod_beta by blast

lemma params_ok_set: "params_ok d \<Longrightarrow> vs \<noteq> [] \<Longrightarrow> [] \<notin> set vs \<Longrightarrow> params_ok (dict_set d k vs)"
  unfolding params_ok_iff by (intro conjI ballI) (auto dest!: set_update_subset)

lemma add_value_ok: "params_ok d \<Longrightarrow> snd kv \<noteq> [] \<Longrightarrow> params_ok (add_value kv d)"
proof -
  assume d: "params_ok d" and v: "snd kv \<noteq> []"
  have "[] \<notin> set (dict_get_default d (fst kv) [])"
    using d unfolding params_ok_iff dict_get_default_def
    by (cases "dict_get d (fst kv)") (auto dest!: map_of_SomeD)
  with d v show ?thesis unfolding add_value_def by (intro params_ok_set) auto
qed

lemma unquote_nonempty: "s \<noteq> [] \<Longrightarrow> unquote_plus s \<noteq> []"
  by (induction s rule: unquote_plus.induct) (auto split: option.splits)

lemma parse_qs_ok: "params_ok (parse_qs q)"
proof -
  have "\<forall>kv \<in> set (parse_qsl q). snd kv \<noteq> []"
    by (auto simp: parse_qsl_def parse_field_def unquote_nonempty split: if_splits)
  moreover have "params_ok d \<Longrightarrow> \<forall>kv \<in> set kvs. snd kv \<noteq> [] \<Longrightarrow> params_ok (fold add_value kvs d)" for kvs d
    by (induction kvs arbitrary: d) (simp_all add: add_value_ok)
  moreover have "params_ok []" by (simp add: params_ok_def)
  ultimately show ?thesis by (simp add: parse_qs_def)
qed

section \<open>URLs\<close>

text \<open>A URL up to its query, its query, its fragment.\<close>

record url =
  u_base :: string
  u_query :: string
  u_fragment :: string

definition urlparse :: "string \<Rightarrow> url" where
  "urlparse s =
     (let main = before_first (CHR ''#'') s
      in \<lparr>u_base = before_first (CHR ''?'') main, u_query = after_first (CHR ''?'') main,
          u_fragment = after_first (CHR ''#'') s\<rparr>)"

definition urlunparse :: "url \<Rightarrow> string" where
  "urlunparse u =
     u_base u @ (if u_query u \<noteq> [] then CHR ''?'' # u_query u else []) @
     (if u_fragment u \<noteq> [] then CHR ''#'' # u_fragment u else [])"

definition url_ok :: "url \<Rightarrow> bool" where
  "url_ok u \<longleftrightarrow> CHR ''?'' \<notin> set (u_base u) \<and> CHR ''#'' \<notin> set (u_base u) \<and> CHR ''#'' \<notin> set (u_query u)"

lemma urlparse_ok: "url_ok (urlparse s)"
  by (auto simp: url_ok_def urlparse_def Let_def before_first_def after_first_def
      dest!: set_takeWhileD in_set_dropD set_dropWhileD)

lemma urlparse_urlunparse: "url_ok u \<Longrightarrow> urlparse (urlunparse u) = u"
proof -
  assume ok: "url_ok u"
  have frag: "before_first (CHR ''#'') (a @ (if f = [] then [] else CHR ''#'' # f)) = a"
    "after_first (CHR ''#'') (a @ (if f = [] then [] else CHR ''#'' # f)) = f"
    if "CHR ''#'' \<notin> set a" for a f
    using that by simp_all
  have query: "before_first (CHR ''?'') (a @ (if q = [] then [] else CHR ''?'' # q)) = a"
    "after_first (CHR ''?'') (a @ (if q = [] then [] else CHR ''?'' # q)) = q"
    if "CHR ''?'' \<notin> set a" for a q
    using that by simp_all
  let ?main = "u_base u @ (if u_query u = [] then [] else CHR ''?'' # u_query u)"
  have all: "urlunparse u = ?main @ (if u_fragment u = [] then [] else CHR ''#'' # u_fragment u)"
    by (simp add: urlunparse_def)
  have main: "CHR ''#'' \<notin> set ?main" and base: "CHR ''?'' \<notin> set (u_base u)"
    using ok by (simp_all add: url_ok_def)
  have "urlparse (urlunparse u) =
      \<lparr>u_base = before_first (CHR ''?'') ?main, u_query = after_first (CHR ''?'') ?main,
       u_fragment = u_fragment u\<rparr>"
    unfolding urlparse_def Let_def all frag [OF main] ..
  then show ?thesis unfolding query [OF base] by simp
qed

end
