(* ===== verification/Ogc_Utils.thy ===== *)
theory Ogc_Utils
  imports Url_Query
begin

text \<open>
  The shared helpers of the OGC routes (\<open>api/src/routes/utils.py\<close>): the id column, the datetime
  and coordinate parameters, the preparation of a data frame for JSON, and the record and
  GeoJSON envelopes with their pagination links.  A data frame is its column names and the
  cells of its rows; date parsing and formatting and float parsing
  are parameters, and so are the features a frame is made into, which \<open>Geojson\<close> defines.
\<close>

section \<open>Small helpers\<close>

definition ID_COLUMNS :: "string list" where
  "ID_COLUMNS = [''location_id'', ''primary_location_id'']"

definition get_id_column :: "string list \<Rightarrow> string option" where
  "get_id_column group_by = find (\<lambda>c. c \<in> set group_by) ID_COLUMNS"

text \<open>\<open>fromisoformat(s.replace("Z", "+00:00"))\<close>, \<open>fromiso\<close> being the library's parser.\<close>

definition parse_instant :: "(string \<Rightarrow> exn + 't) \<Rightarrow> string \<Rightarrow> exn + 't" where
  "parse_instant fromiso s = fromiso (replace_char (CHR ''Z'') ''+00:00'' s)"

definition parse_bound :: "(string \<Rightarrow> exn + 't) \<Rightarrow> string \<Rightarrow> exn + 't option" where
  "parse_bound fromiso s =
     (if s = ''..'' then Inr None else andthen (parse_instant fromiso s) (\<lambda>t. Inr (Some t)))"

definition parse_datetime_parameter ::
  "(string \<Rightarrow> exn + 't) \<Rightarrow> string option \<Rightarrow> exn + 't option \<times> 't option"
where
  "parse_datetime_parameter fromiso param =
     (case param of
        None \<Rightarrow> Inr (None, None)
      | Some s \<Rightarrow>
          if s = [] then Inr (None, None)
          else if CHR ''/'' \<in> set s then
            (let parts = split_on (CHR ''/'') s
             in andthen (parse_bound fromiso (parts ! 0)) (\<lambda>a.
                andthen (parse_bound fromiso (parts ! 1)) (\<lambda>b. Inr (a, b))))
          else andthen (parse_instant fromiso s) (\<lambda>t. Inr (Some t, Some t)))"

text \<open>\<open>POINT(lon lat)\<close>; \<open>to_float\<close> is \<open>float\<close>, and \<open>index\<close> and unpacking fail with \<open>ValueError\<close>.\<close>

definition index_of :: "char \<Rightarrow> string \<Rightarrow> exn + nat" where
  "index_of c s =
     (if c \<in> set s then Inr (length (before_first c s)) else Inl (ValueError ''substring not found''))"

definition parse_coords_parameter ::
  "(string \<Rightarrow> exn + 'f) \<Rightarrow> string option \<Rightarrow> exn + ('f \<times> 'f) option"
where
  "parse_coords_parameter to_float coords =
     (case coords of
        None \<Rightarrow> Inr None
      | Some s0 \<Rightarrow>
          if s0 = [] then Inr None
          else
            (let s = strip s0
             in if starts_with (upper s) ''POINT'' then
                  andthen (index_of (CHR ''('') s) (\<lambda>i.
                  andthen (index_of (CHR '')'') s) (\<lambda>j.
                  andthen (map_result to_float (split_blank (strip (drop (i + 1) (take j s))))) (\<lambda>xs.
                    case xs of [lon, lat] \<Rightarrow> Inr (Some (lon, lat))
                    | _ \<Rightarrow> Inl (ValueError ''values to unpack''))))
                else Inr None))"

section \<open>Data frames\<close>

text \<open>A cell: missing in its three forms, infinite, a finite float by its text, a time, or a JSON value.\<close>

datatype cell = CNone | CNaN | CNaT | CInf bool | CFloat string | CTime int | CJson json

record frame =
  fr_columns :: "string list"
  fr_rows :: "cell list list"

definition isna :: "cell \<Rightarrow> bool" where
  "isna c \<longleftrightarrow> c = CNone \<or> c = CNaN \<or> c = CNaT"

definition DEFAULT_DATETIME_COLUMNS :: "string list" where
  "DEFAULT_DATETIME_COLUMNS = [''created_at'', ''updated_at'']"

text \<open>
  \<open>to_time\<close> is \<open>pd.to_datetime(..., errors="coerce")\<close> on a cell, \<open>None\<close> where it yields \<open>NaT\<close>: the
  format that pandas infers for the whole column is fixed with it.  Cells of other types that a
  database may give, such as \<open>Decimal\<close> and \<open>bytes\<close>, are not among the cells here.
  \<open>fmt\<close> is \<open>strftime("%Y-%m-%d %H:%M:%S")\<close>.
\<close>

definition format_time :: "(cell \<Rightarrow> int option) \<Rightarrow> (int \<Rightarrow> string) \<Rightarrow> cell \<Rightarrow> cell" where
  "format_time to_time fmt c = (case to_time c of None \<Rightarrow> CNone | Some t \<Rightarrow> CJson (JStr (fmt t)))"

definition prepare_cell ::
  "(cell \<Rightarrow> int option) \<Rightarrow> (int \<Rightarrow> string) \<Rightarrow> string list \<Rightarrow> bool \<Rightarrow> bool \<Rightarrow> string \<Rightarrow> cell \<Rightarrow> cell"
where
  "prepare_cell to_time fmt datetime_columns replace_nan replace_inf column c =
     (let c1 = (if column \<in> set datetime_columns then format_time to_time fmt c else c);
          c2 = (if replace_nan \<and> isna c1 then CNone else c1)
      in if replace_inf \<and> (\<exists>b \<in> {True, False}. c2 = CInf b) then CNone else c2)"

definition prepare_for_serialization ::
  "(cell \<Rightarrow> int option) \<Rightarrow> (int \<Rightarrow> string) \<Rightarrow> string list option \<Rightarrow> bool \<Rightarrow> bool \<Rightarrow> frame \<Rightarrow> frame"
where
  "prepare_for_serialization to_time fmt datetime_columns replace_nan replace_inf df =
     (let cols = (case datetime_columns of None \<Rightarrow> DEFAULT_DATETIME_COLUMNS | Some cs \<Rightarrow> cs)
      in df\<lparr>fr_rows := map (\<lambda>row. map2 (prepare_cell to_time fmt cols replace_nan replace_inf)
                                     (fr_columns df) row) (fr_rows df)\<rparr>)"

text \<open>\<open>df.to_dict(orient="records")\<close> and the columns of a dropped one.\<close>

type_synonym item = "(string, cell) dict"

definition to_records :: "frame \<Rightarrow> item list" where
  "to_records df = map (zip (fr_columns df)) (fr_rows df)"

definition drop_column :: "string \<Rightarrow> frame \<Rightarrow> frame" where
  "drop_column c df =
     \<lparr>fr_columns = filter (\<lambda>x. x \<noteq> c) (fr_columns df),
      fr_rows = map (\<lambda>row. map snd (filter (\<lambda>xc. fst xc \<noteq> c) (zip (fr_columns df) row))) (fr_rows df)\<rparr>"

text \<open>What \<open>JSONResponse\<close> can render: no \<open>NaN\<close>, no infinity, no time object.\<close>

definition serializable :: "cell \<Rightarrow> bool" where
  "serializable c \<longleftrightarrow> (case c of CNone \<Rightarrow> True | CFloat s \<Rightarrow> True | CJson j \<Rightarrow> True | _ \<Rightarrow> False)"

section \<open>Pagination links\<close>

record link =
  ln_href :: string
  ln_rel :: string
  ln_type :: string
  ln_title :: "string option"

definition page_params :: "int \<Rightarrow> int \<Rightarrow> params \<Rightarrow> params" where
  "page_params new_offset limit d =
     dict_set (dict_set d ''offset'' [show_int new_offset]) ''limit'' [show_int limit]"

text \<open>The two ways the code re-encodes the parameters: all values, or the first of each.\<close>

definition page_url :: "(params \<Rightarrow> string) \<Rightarrow> string \<Rightarrow> int \<Rightarrow> int \<Rightarrow> string" where
  "page_url enc request_url new_offset limit =
     (let parsed = urlparse request_url
      in urlunparse (parsed\<lparr>u_query := enc (page_params new_offset limit (parse_qs (u_query parsed)))\<rparr>))"

definition page_link :: "string \<Rightarrow> string \<Rightarrow> string \<Rightarrow> string \<Rightarrow> int \<Rightarrow> int \<Rightarrow> link" where
  "page_link rel title ty request_url new_offset limit =
     \<lparr>ln_href = page_url urlencode_first request_url new_offset limit, ln_rel = rel, ln_type = ty,
      ln_title = Some title\<rparr>"

definition self_link :: "string \<Rightarrow> string \<Rightarrow> link" where
  "self_link ty request_url =
     \<lparr>ln_href = request_url, ln_rel = ''self'', ln_type = ty, ln_title = Some ''This document''\<rparr>"

definition collection_links :: "string option \<Rightarrow> link list" where
  "collection_links collection_id =
     (case collection_id of
        None \<Rightarrow> []
      | Some c \<Rightarrow>
          if c = [] then []
          else [\<lparr>ln_href = ''/collections/'' @ c, ln_rel = ''collection'', ln_type = ''application/json'',
                 ln_title = Some ''The collection document''\<rparr>])"

text \<open>A next link after a full page, a previous link beyond the first page.\<close>

definition paging_links :: "string \<Rightarrow> string \<Rightarrow> nat \<Rightarrow> int \<Rightarrow> int \<Rightarrow> link list" where
  "paging_links ty request_url number_returned limit offset =
     (if int number_returned = limit
      then [page_link ''next'' ''Next page'' ty request_url (offset + limit) limit] else []) @
     (if 0 < offset
      then [page_link ''prev'' ''Previous page'' ty request_url (max 0 (offset - limit)) limit] else [])"

section \<open>The record envelope\<close>

record 'a records_response =
  rr_items :: "'a list"
  rr_number_returned :: nat
  rr_number_matched :: "int option"
  rr_links :: "link list"

definition create_ogc_records_response ::
  "'a list \<Rightarrow> string \<Rightarrow> int option \<Rightarrow> string option \<Rightarrow> int option \<Rightarrow> int option \<Rightarrow> 'a records_response"
where
  "create_ogc_records_response items request_url number_matched collection_id limit offset =
     \<lparr>rr_items = items, rr_number_returned = length items, rr_number_matched = number_matched,
      rr_links = self_link ''application/json'' request_url # collection_links collection_id @
        (case limit of
           None \<Rightarrow> []
         | Some l \<Rightarrow> paging_links ''application/json'' request_url (length items) l
                      (case offset of None \<Rightarrow> 0 | Some x \<Rightarrow> x))\<rparr>"

section \<open>The GeoJSON envelope\<close>

text \<open>A feature as geopandas renders it, its geometry opaque.\<close>

record 'g feature =
  ft_id :: "json option"
  ft_properties :: "(string, json) dict"
  ft_geometry :: 'g

definition set_feature_id :: "'g feature \<Rightarrow> 'g feature" where
  "set_feature_id ft =
     (let step = (\<lambda>key i. case dict_get (ft_properties ft) key of Some v \<Rightarrow> Some v | None \<Rightarrow> i)
      in ft\<lparr>ft_id := step ''location_id'' (step ''primary_location_id'' (step ''id'' (ft_id ft)))\<rparr>)"

record 'g geojson_response =
  gj_features :: "'g feature list"
  gj_number_returned :: nat
  gj_number_matched :: int
  gj_links :: "link list"

definition create_ogc_geojson_response ::
  "'g feature list \<Rightarrow> string \<Rightarrow> int option \<Rightarrow> string option \<Rightarrow> int option \<Rightarrow> int option \<Rightarrow> 'g geojson_response"
where
  "create_ogc_geojson_response features request_url number_matched collection_id limit offset =
     (let n = length features
      in \<lparr>gj_features = map set_feature_id features, gj_number_returned = n,
          gj_number_matched = (case number_matched of Some m \<Rightarrow> m | None \<Rightarrow> int n),
          gj_links = self_link ''application/geo+json'' request_url # collection_links collection_id @
            (case (limit, offset) of
               (Some l, Some x) \<Rightarrow> paging_links ''application/geo+json'' request_url n l x
             | _ \<Rightarrow> [])\<rparr>)"

section \<open>What a link asks for\<close>

definition url_params :: "string \<Rightarrow> params" where
  "url_params u = parse_qs (u_query (urlparse u))"

lemma show_int_nonempty [simp]: "show_int n \<noteq> []" "[] \<noteq> show_int n"
  by (auto simp: show_int_def dest: sym [of "[]"])

lemma page_params_ok: "params_ok d \<Longrightarrow> params_ok (page_params n l d)"
  unfolding page_params_def by (intro params_ok_set) auto

lemma join_chars: "x \<in> set (join sep ws) \<Longrightarrow> x \<in> set sep \<or> (\<exists>w \<in> set ws. x \<in> set w)"
  by (induction sep ws rule: join.induct) auto

lemma urlencode_no_hash: "CHR ''#'' \<notin> set (urlencode_pairs kvs)"
  by (auto simp: urlencode_pairs_def encode_field_def dest!: join_chars)

lemma urlencode_doseq_no_hash: "CHR ''#'' \<notin> set (urlencode_doseq d)"
  and urlencode_first_no_hash: "CHR ''#'' \<notin> set (urlencode_first d)"
  by (simp_all add: urlencode_doseq_def urlencode_first_def urlencode_no_hash)

lemma page_url_parse:
  assumes "\<And>d. CHR ''#'' \<notin> set (enc d)"
  shows "urlparse (page_url enc u n l) = (urlparse u)\<lparr>u_query := enc (page_params n l (url_params u))\<rparr>"
proof -
  have "url_ok (urlparse u\<lparr>u_query := enc (page_params n l (url_params u))\<rparr>)"
    using urlparse_ok [of u] assms by (simp add: url_ok_def)
  then show ?thesis
    by (simp add: url_params_def page_url_def Let_def urlparse_urlunparse)
qed

lemma page_url_params:
  "(\<And>d. CHR ''#'' \<notin> set (enc d)) \<Longrightarrow>
   url_params (page_url enc u n l) = parse_qs (enc (page_params n l (url_params u)))"
  by (simp add: url_params_def [of "page_url enc u n l"] page_url_parse)

lemma url_params_ok: "params_ok (url_params u)"
  by (simp add: url_params_def parse_qs_ok)

lemma page_url_first_params:
  "url_params (page_url urlencode_first u n l) =
     map (\<lambda>(k, vs). (k, [hd vs])) (page_params n l (url_params u))"
  by (subst page_url_params)
    (simp_all add: urlencode_first_no_hash parse_urlencode_first page_params_ok url_params_ok)

lemma page_url_doseq_params:
  "url_params (page_url urlencode_doseq u n l) = page_params n l (url_params u)"
  by (subst page_url_params)
    (simp_all add: urlencode_doseq_no_hash parse_urlencode_doseq page_params_ok url_params_ok)

section \<open>Properties\<close>

lemma dict_get_firsts:
  "dict_get (map (\<lambda>(k, vs). (k, [hd vs])) (d :: params)) k = map_option (\<lambda>vs. [hd vs]) (dict_get d k)"
  by (induction d) auto

lemma dict_get_map_first: "dict_get (map (\<lambda>(k, vs). (k, [hd vs])) d) k = map_option (\<lambda>vs. [hd vs]) (dict_get d k)"
  by (induction d) auto

text \<open>C39 The link to another page asks for that page: it is the address of the request with another
  query alone.  Its offset is the new one, its limit the one given, each once, and every other
  parameter is as in the request, whatever the values hold: with all its values where the
  endpoints encode them all, with its first value only in the shared envelopes.\<close>

theorem page_links_round_trip:
  "dict_get (url_params (page_url urlencode_doseq u n l)) k =
     (if k = ''limit'' then Some [show_int l] else if k = ''offset'' then Some [show_int n]
      else dict_get (url_params u) k) \<and>
   dict_get (url_params (page_url urlencode_first u n l)) k =
     (if k = ''limit'' then Some [show_int l] else if k = ''offset'' then Some [show_int n]
      else map_option (\<lambda>vs. [hd vs]) (dict_get (url_params u) k)) \<and>
   (\<exists>query. urlparse (page_url urlencode_doseq u n l) = (urlparse u)\<lparr>u_query := query\<rparr>) \<and>
   (\<exists>query. urlparse (page_url urlencode_first u n l) = (urlparse u)\<lparr>u_query := query\<rparr>)"
proof (intro conjI)
  show "dict_get (url_params (page_url urlencode_doseq u n l)) k =
     (if k = ''limit'' then Some [show_int l] else if k = ''offset'' then Some [show_int n]
      else dict_get (url_params u) k)"
    by (simp add: page_url_doseq_params page_params_def)
  show "dict_get (url_params (page_url urlencode_first u n l)) k =
     (if k = ''limit'' then Some [show_int l] else if k = ''offset'' then Some [show_int n]
      else map_option (\<lambda>vs. [hd vs]) (dict_get (url_params u) k))"
    by (simp add: page_url_first_params page_params_def dict_get_map_first)
  show "\<exists>query. urlparse (page_url urlencode_doseq u n l) = (urlparse u)\<lparr>u_query := query\<rparr>"
    by (rule exI, rule page_url_parse, rule urlencode_doseq_no_hash)
  show "\<exists>query. urlparse (page_url urlencode_first u n l) = (urlparse u)\<lparr>u_query := query\<rparr>"
    by (rule exI, rule page_url_parse, rule urlencode_first_no_hash)
qed

text \<open>A client that follows the next links of the record envelope over a table of rows: each page
  is what \<open>OFFSET\<close> and \<open>LIMIT\<close> select, and the offset is read from the link.\<close>

definition param_nat :: "string \<Rightarrow> string \<Rightarrow> nat" where
  "param_nat u name =
     (case dict_get (url_params u) name of
        Some vs \<Rightarrow> if vs = [] then 0 else nat_of_digits (last vs)
      | None \<Rightarrow> 0)"

definition serve_page :: "'a list \<Rightarrow> nat \<Rightarrow> string \<Rightarrow> 'a records_response" where
  "serve_page rows l u =
     (let x = param_nat u ''offset''
      in create_ogc_records_response (take l (drop x rows)) u None (Some ''c'') (Some (int l)) (Some (int x)))"

definition next_href :: "link list \<Rightarrow> string option" where
  "next_href links = map_option ln_href (find (\<lambda>l. ln_rel l = ''next'') links)"

fun follow :: "nat \<Rightarrow> 'a list \<Rightarrow> nat \<Rightarrow> string \<Rightarrow> 'a list list" where
  "follow 0 rows l u = []"
| "follow (Suc fuel) rows l u =
     (let r = serve_page rows l u
      in rr_items r #
         (case next_href (rr_links r) of None \<Rightarrow> [] | Some u' \<Rightarrow> follow fuel rows l u'))"

lemma next_href_page:
  "next_href (rr_links (serve_page rows l u)) =
     (if length (take l (drop (param_nat u ''offset'') rows)) = l
      then Some (page_url urlencode_first u (int (param_nat u ''offset'' + l)) (int l)) else None)"
  by (simp add: serve_page_def Let_def create_ogc_records_response_def next_href_def self_link_def
      collection_links_def paging_links_def page_link_def)

lemma param_nat_page_url: "param_nat (page_url urlencode_first u (int n) l) ''offset'' = n"
proof -
  have "dict_get (url_params (page_url urlencode_first u (int n) l)) ''offset'' = Some [show_int (int n)]"
    by (simp add: page_url_first_params page_params_def dict_get_firsts)
  then show ?thesis by (simp add: param_nat_def show_int_def)
qed

text \<open>Following the next links from any page visits every later row exactly once, in order, and
  ends: with pages of at least one row, fuel for one page more than there are rows is
  enough, and the pages concatenate to the rows from the first offset on.\<close>

theorem next_links_cover_rows:
  assumes "1 \<le> l" "length rows < fuel + param_nat u ''offset''"
  shows "concat (follow fuel rows l u) = drop (param_nat u ''offset'') rows"
  using assms(2)
proof (induction fuel arbitrary: u)
  case 0
  then show ?case by simp
next
  case (Suc fuel)
  let ?x = "param_nat u ''offset''"
  let ?page = "take l (drop ?x rows)"
  have items: "rr_items (serve_page rows l u) = ?page"
    by (simp add: serve_page_def Let_def create_ogc_records_response_def)
  show ?case
  proof (cases "length ?page = l")
    case True
    let ?u = "page_url urlencode_first u (int (?x + l)) (int l)"
    have "concat (follow fuel rows l ?u) = drop (?x + l) rows"
      using Suc.IH [of ?u] Suc.prems assms(1) param_nat_page_url [of u "?x + l" "int l"] by simp
    then have "concat (follow (Suc fuel) rows l u) = ?page @ drop (?x + l) rows"
      using True by (simp add: Let_def items next_href_page)
    then show ?thesis by (metis append_take_drop_id drop_drop add.commute)
  next
    case False
    then have "?page = drop ?x rows" by (auto simp: min_def split: if_splits)
    with False show ?thesis by (simp add: Let_def items next_href_page)
  qed
qed

lemma next_links_cover_rows_witness:
  "concat (follow 4 [10, 20, 30 :: nat] 2 ''http://h/collections/c/items?limit=2&id=a&id=b'') = [10, 20, 30]"
proof -
  have o: "param_nat ''http://h/collections/c/items?limit=2&id=a&id=b'' ''offset'' = 0"
    by code_simp
  show ?thesis
    using next_links_cover_rows [of 2 "[10, 20, 30 :: nat]" 4 "''http://h/collections/c/items?limit=2&id=a&id=b''"]
    unfolding o by simp
qed

fun is_time :: "cell \<Rightarrow> bool" where
  "is_time (CTime t) = True"
| "is_time _ = False"

text \<open>Rows as long as the columns, with times only under the given columns.\<close>

definition times_listed :: "string list \<Rightarrow> frame \<Rightarrow> bool" where
  "times_listed cols df \<longleftrightarrow>
     list_all (list_all2 (\<lambda>column c. is_time c \<longrightarrow> column \<in> set cols) (fr_columns df)) (fr_rows df)"

lemma prepare_cell_serializable:
  "(is_time c \<Longrightarrow> column \<in> set cols) \<Longrightarrow> serializable (prepare_cell to_time fmt cols True True column c)"
  by (cases c) (auto simp: prepare_cell_def format_time_def isna_def serializable_def Let_def
      split: option.splits cell.splits)

lemma prepare_cell_id:
  "column \<notin> set cols \<Longrightarrow> serializable c \<Longrightarrow> prepare_cell to_time fmt cols True True column c = c"
  by (cases c) (auto simp: prepare_cell_def isna_def serializable_def Let_def)

lemma map2_serializable:
  "list_all2 (\<lambda>column c. is_time c \<longrightarrow> column \<in> set cols) columns row \<Longrightarrow>
   list_all serializable (map2 (prepare_cell to_time fmt cols True True) columns row)"
  by (induction columns row rule: list_all2_induct) (auto intro: prepare_cell_serializable)

lemma prepare_rows:
  "fr_rows (prepare_for_serialization to_time fmt (Some cols) True True df) =
     map (map2 (prepare_cell to_time fmt cols True True) (fr_columns df)) (fr_rows df)"
  by (simp add: prepare_for_serialization_def)

lemma map_map2_serializable:
  "list_all (list_all2 (\<lambda>column c. is_time c \<longrightarrow> column \<in> set cols) columns) rows \<Longrightarrow>
   list_all (list_all serializable) (map (map2 (prepare_cell to_time fmt cols True True) columns) rows)"
proof (induction rows)
  case (Cons row rows)
  then show ?case using map2_serializable [of cols columns row to_time fmt] by (simp only: list.map list.pred_inject simp_thms)
qed simp

text \<open>C40 A prepared data frame can be rendered: once every column that holds times is among the
  formatted ones, no cell is left that JSON has no value for, and a cell of another column
  that could be rendered is unchanged.\<close>

theorem prepared_frame_serializable:
  assumes "times_listed cols df"
  shows "list_all (list_all serializable)
      (fr_rows (prepare_for_serialization to_time fmt (Some cols) True True df)) \<and>
    (if column \<notin> set cols \<and> serializable c
     then prepare_cell to_time fmt cols True True column c = c else True)"
proof -
  have "list_all (list_all serializable)
      (fr_rows (prepare_for_serialization to_time fmt (Some cols) True True df))"
    using assms unfolding prepare_rows times_listed_def
    by (rule map_map2_serializable)
  then show ?thesis by (simp add: prepare_cell_id)
qed

lemma prepared_frame_serializable_witness:
  "list_all (list_all serializable)
     (fr_rows (prepare_for_serialization (\<lambda>c. case c of CTime t \<Rightarrow> Some t | _ \<Rightarrow> None) show_int
        (Some [''t'']) True True
        \<lparr>fr_columns = [''t'', ''v''], fr_rows = [[CTime 5, CNaN], [CNaT, CInf True]]\<rparr>))"
  by (rule prepared_frame_serializable [THEN conjunct1]) (simp add: times_listed_def)

end
