(* ===== verification/Item_Query.thy ===== *)
theory Item_Query
  imports Api_Auth Sql_Text Ogc_Utils
begin

text \<open>
  What the item endpoints share: a query by its clauses and the SQL text they compose (blanks
  aside; an empty list of conditions stands for no WHERE clause), the plain record envelope, the next link that keeps every parameter, and the
  \<open>except\<close> clauses that turn failures into responses.  \<open>exec\<close> is \<open>execute_query\<close> on the
  database at hand, \<open>to_time\<close> and \<open>fmt\<close> are pandas' date conversions.
\<close>

section \<open>Queries\<close>

record sql_query =
  sq_select :: string
  sq_from :: string
  sq_where :: "string list"
  sq_order_by :: string
  sq_offset :: "int option"
  sq_limit :: "int option"

definition table_name :: "Config \<Rightarrow> string \<Rightarrow> string" where
  "table_name cfg t = TRINO_CATALOG cfg @ ''.'' @ TRINO_SCHEMA cfg @ ''.'' @ t"

definition where_clause :: "string list \<Rightarrow> string" where
  "where_clause conditions = (if conditions = [] then ''1=1'' else join '' AND '' conditions)"

definition pagination :: "int option \<Rightarrow> int option \<Rightarrow> string" where
  "pagination offset limit =
     (case offset of None \<Rightarrow> [] | Some n \<Rightarrow> '' OFFSET '' @ show_int n) @
     (case limit of None \<Rightarrow> [] | Some n \<Rightarrow> '' LIMIT '' @ show_int n)"

definition sql_text :: "sql_query \<Rightarrow> string" where
  "sql_text q =
     ''SELECT '' @ sq_select q @ '' FROM '' @ sq_from q @ '' WHERE '' @ where_clause (sq_where q) @
     (if sq_order_by q = [] then [] else '' ORDER BY '' @ sq_order_by q) @
     pagination (sq_offset q) (sq_limit q)"

type_synonym exec = "sql_query \<Rightarrow> exn + frame"

text \<open>
  The database runs the text of a query.  The documented meaning of \<open>LIMIT\<close>: no more rows
  than it says.
\<close>

definition exec_of :: "(string \<Rightarrow> exn + frame) \<Rightarrow> exec" where
  "exec_of run q = run (sql_text q)"

definition respects_limit :: "exec \<Rightarrow> bool" where
  "respects_limit exec \<longleftrightarrow>
     (\<forall>q df l. exec q = Inr df \<longrightarrow> sq_limit q = Some l \<longrightarrow> 0 \<le> l \<longrightarrow> int (length (fr_rows df)) \<le> l)"

lemma respects_limitD:
  "respects_limit exec \<Longrightarrow> exec q = Inr df \<Longrightarrow> sq_limit q = Some l \<Longrightarrow> 0 \<le> l \<Longrightarrow>
   int (length (fr_rows df)) \<le> l"
  by (simp add: respects_limit_def)

section \<open>The paging parameters of an endpoint\<close>

text \<open>\<open>limit: ge=1\<close>, \<open>offset: ge=0\<close>: pydantic answers 422 otherwise.\<close>

record page_args =
  pa_limit :: "int option"
  pa_offset :: "int option"

definition page_args_valid :: "page_args \<Rightarrow> bool" where
  "page_args_valid p \<longleftrightarrow>
     (case pa_limit p of None \<Rightarrow> True | Some n \<Rightarrow> 1 \<le> n) \<and>
     (case pa_offset p of None \<Rightarrow> True | Some n \<Rightarrow> 0 \<le> n)"

definition offset_or_zero :: "int option \<Rightarrow> int" where
  "offset_or_zero offset = (case offset of None \<Rightarrow> 0 | Some n \<Rightarrow> n)"

section \<open>The plain record envelope\<close>

record items_response =
  ir_items :: "item list"
  ir_number_returned :: nat
  ir_links :: "link list"

definition plain_link :: "string \<Rightarrow> string \<Rightarrow> link" where
  "plain_link href rel = \<lparr>ln_href = href, ln_rel = rel, ln_type = ''application/json'', ln_title = None\<rparr>"

definition self_and_collection :: "string \<Rightarrow> string \<Rightarrow> link list" where
  "self_and_collection url collection_id =
     [plain_link url ''self'', plain_link (''/collections/'' @ collection_id) ''collection'']"

text \<open>After a full page, the next link; \<open>enc\<close> is how the endpoint re-encodes the parameters.\<close>

definition next_link :: "(params \<Rightarrow> string) \<Rightarrow> string \<Rightarrow> nat \<Rightarrow> int option \<Rightarrow> int option \<Rightarrow> link list" where
  "next_link enc url returned limit offset =
     (case limit of
        None \<Rightarrow> []
      | Some l \<Rightarrow>
          if int returned = l then [plain_link (page_url enc url (offset_or_zero offset + l) l) ''next'']
          else [])"

definition items_response_of :: "item list \<Rightarrow> link list \<Rightarrow> items_response" where
  "items_response_of items links =
     \<lparr>ir_items = items, ir_number_returned = length items, ir_links = links\<rparr>"

text \<open>Preparing a frame with the default date columns, and its records.\<close>

record pandas =
  pd_to_time :: "cell \<Rightarrow> int option"
  pd_format :: "int \<Rightarrow> string"

definition prepared :: "pandas \<Rightarrow> string list option \<Rightarrow> frame \<Rightarrow> frame" where
  "prepared pd cols df = prepare_for_serialization (pd_to_time pd) (pd_format pd) cols True True df"

definition frame_empty :: "frame \<Rightarrow> bool" where
  "frame_empty df \<longleftrightarrow> fr_rows df = []"

lemma prepared_columns [simp]: "fr_columns (prepared pd cols df) = fr_columns df"
  by (simp add: prepared_def prepare_for_serialization_def Let_def)

lemma prepared_length [simp]: "length (fr_rows (prepared pd cols df)) = length (fr_rows df)"
  by (simp add: prepared_def prepare_for_serialization_def Let_def)

lemma prepared_empty [simp]: "fr_rows (prepared pd cols df) = [] \<longleftrightarrow> fr_rows df = []"
  by (metis length_0_conv prepared_length)

lemma to_records_length [simp]: "length (to_records df) = length (fr_rows df)"
  by (simp add: to_records_def)

section \<open>Failures\<close>

text \<open>\<open>except Exception\<close> alone catches an \<open>HTTPException\<close> too; after \<open>except HTTPException: raise\<close> it does not.\<close>

definition failing_as :: "string \<Rightarrow> exn + 'a \<Rightarrow> exn + 'a" where
  "failing_as message r =
     (case r of Inl e \<Rightarrow> Inl (HTTPException 500 (DCause message e)) | Inr x \<Rightarrow> Inr x)"

definition failing_as_unless_http :: "string \<Rightarrow> exn + 'a \<Rightarrow> exn + 'a" where
  "failing_as_unless_http message r =
     (case r of
        Inl e \<Rightarrow> if is_http_exception e then Inl e else Inl (HTTPException 500 (DCause message e))
      | Inr x \<Rightarrow> Inr x)"

lemma failing_as_Inr [simp]: "failing_as m r = Inr x \<longleftrightarrow> r = Inr x"
  by (simp add: failing_as_def split: sum.splits)

lemma failing_as_unless_http_Inr [simp]: "failing_as_unless_http m r = Inr x \<longleftrightarrow> r = Inr x"
  by (simp add: failing_as_unless_http_def split: sum.splits)

lemma failing_as_status: "failing_as m r = Inl e \<Longrightarrow> exn_status e = Some 500"
  by (auto simp: failing_as_def split: sum.split_asm)

section \<open>The caller's limit\<close>

definition request_identity :: "Request \<Rightarrow> ApiIdentity" where
  "request_identity rq = (case rq_identity rq of None \<Rightarrow> anonymous_identity | Some u \<Rightarrow> u)"

text \<open>The cap of the caller's role holds for the effective limit, whatever was asked.\<close>

lemma effective_limit_capped:
  "record_limit_for_identity cfg (request_identity rq) = Some cap \<Longrightarrow>
   \<exists>n. effective_limit_for_request cfg rq requested = Some n \<and> n \<le> cap \<and>
     (\<forall>r. requested = Some r \<longrightarrow> n \<le> r) \<and> (n = cap \<or> requested = Some n)"
  by (auto simp: effective_limit_for_request_def request_identity_def apply_role_record_limit_def
      split: option.splits)

lemma effective_limit_nonneg:
  "record_limit_for_identity cfg (request_identity rq) = Some cap \<Longrightarrow> 0 \<le> cap \<Longrightarrow>
   (\<And>r. requested = Some r \<Longrightarrow> 0 \<le> r) \<Longrightarrow>
   \<exists>n. effective_limit_for_request cfg rq requested = Some n \<and> 0 \<le> n \<and> n \<le> cap"
  using effective_limit_capped [of cfg rq cap requested] by auto

lemma exec_capped:
  assumes "respects_limit exec" "exec q = Inr df"
    and "sq_limit q = effective_limit_for_request cfg rq requested"
    and "record_limit_for_identity cfg (request_identity rq) = Some cap" "0 \<le> cap"
    and "\<And>r. requested = Some r \<Longrightarrow> 1 \<le> r"
  shows "int (length (fr_rows df)) \<le> cap"
proof -
  have "\<And>r. requested = Some r \<Longrightarrow> 0 \<le> r" using assms(6) by force
  from effective_limit_nonneg [OF assms(4,5) this] obtain n where
    n: "effective_limit_for_request cfg rq requested = Some n" "0 \<le> n" "n \<le> cap" by blast
  have "int (length (fr_rows df)) \<le> n"
    using respects_limitD [OF assms(1,2)] assms(3) n by simp
  with n show ?thesis by simp
qed

end
