(* ===== verification/Record_Routes.thy ===== *)
theory Record_Routes
  imports Item_Query
begin

text \<open>
  The record collections: the mapping tables of \<open>routes/crosswalks.py\<close> (crosswalks, location id
  aliases, configuration pairs) and the reference tables of \<open>routes/reference_data.py\<close>
  (configurations, units, variables, attributes, location attributes).
\<close>

section \<open>Mapping tables\<close>

definition mapping_query ::
  "Config \<Rightarrow> string \<Rightarrow> string list \<Rightarrow> string \<Rightarrow> int option \<Rightarrow> int option \<Rightarrow> sql_query"
where
  "mapping_query cfg collection_id conditions order_by limit offset =
     \<lparr>sq_select = ''*'', sq_from = table_name cfg collection_id, sq_where = conditions,
      sq_order_by = order_by, sq_offset = offset, sq_limit = limit\<rparr>"

text \<open>\<open>_query_records\<close>: an empty answer links only to itself.\<close>

definition query_records ::
  "Config \<Rightarrow> pandas \<Rightarrow> exec \<Rightarrow> Request \<Rightarrow> string \<Rightarrow> string \<Rightarrow> string list \<Rightarrow> string \<Rightarrow> page_args
     \<Rightarrow> exn + items_response"
where
  "query_records cfg pd exec rq url collection_id conditions order_by p =
     (let limit = effective_limit_for_request cfg rq (pa_limit p)
      in andthen (exec (mapping_query cfg collection_id conditions order_by limit (pa_offset p))) (\<lambda>df.
         if frame_empty df then Inr (items_response_of [] [plain_link url ''self''])
         else
           (let items = to_records (prepared pd None df)
            in Inr (items_response_of items
                 (self_and_collection url collection_id @
                  next_link urlencode_doseq url (length items) limit (pa_offset p))))))"

definition all_conditions :: "(exn + string list) list \<Rightarrow> exn + string list" where
  "all_conditions cs = andthen (map_result id cs) (\<lambda>css. Inr (concat css))"

record crosswalk_args =
  ca_primary_location_id :: "string list option"
  ca_secondary_location_id :: "string list option"
  ca_primary_location_id_prefix :: "string list option"
  ca_secondary_location_id_prefix :: "string list option"

definition get_crosswalk_items ::
  "Config \<Rightarrow> pandas \<Rightarrow> exec \<Rightarrow> Request \<Rightarrow> string \<Rightarrow> crosswalk_args \<Rightarrow> page_args \<Rightarrow> exn + items_response"
where
  "get_crosswalk_items cfg pd exec rq url a p =
     failing_as ''Failed to load crosswalks: ''
       (andthen (all_conditions
           [in_condition ''primary_location_id'' (ca_primary_location_id a),
            in_condition ''secondary_location_id'' (ca_secondary_location_id a),
            prefix_condition ''primary_location_id'' (ca_primary_location_id_prefix a),
            prefix_condition ''secondary_location_id'' (ca_secondary_location_id_prefix a)]) (\<lambda>conditions.
         query_records cfg pd exec rq url ''location_crosswalks'' conditions
           ''primary_location_id, secondary_location_id'' p))"

record alias_args =
  aa_location_id :: "string list option"
  aa_location_id_alias :: "string list option"
  aa_location_id_prefix :: "string list option"
  aa_location_id_alias_prefix :: "string list option"

definition get_location_id_alias_items ::
  "Config \<Rightarrow> pandas \<Rightarrow> exec \<Rightarrow> Request \<Rightarrow> string \<Rightarrow> alias_args \<Rightarrow> page_args \<Rightarrow> exn + items_response"
where
  "get_location_id_alias_items cfg pd exec rq url a p =
     failing_as ''Failed to load location ID aliases: ''
       (andthen (all_conditions
           [in_condition ''location_id'' (aa_location_id a),
            in_condition ''location_id_alias'' (aa_location_id_alias a),
            prefix_condition ''location_id'' (aa_location_id_prefix a),
            prefix_condition ''location_id_alias'' (aa_location_id_alias_prefix a)]) (\<lambda>conditions.
         query_records cfg pd exec rq url ''location_id_aliases'' conditions
           ''location_id, location_id_alias'' p))"

definition get_configuration_pair_items ::
  "Config \<Rightarrow> pandas \<Rightarrow> exec \<Rightarrow> Request \<Rightarrow> string \<Rightarrow> string list option \<Rightarrow> string list option \<Rightarrow> page_args
     \<Rightarrow> exn + items_response"
where
  "get_configuration_pair_items cfg pd exec rq url primary_name secondary_name p =
     failing_as ''Failed to load configuration pairs: ''
       (andthen (all_conditions
           [in_condition ''primary_configuration_name'' primary_name,
            in_condition ''secondary_configuration_name'' secondary_name]) (\<lambda>conditions.
         query_records cfg pd exec rq url ''configuration_pairs'' conditions
           ''primary_configuration_name, secondary_configuration_name'' p))"

section \<open>Reference tables\<close>

text \<open>A filter by equality on a text parameter; an empty one is no filter.\<close>

definition text_condition :: "string \<Rightarrow> string option \<Rightarrow> exn + string list" where
  "text_condition column value =
     (case value of
        None \<Rightarrow> Inr []
      | Some v \<Rightarrow>
          if v = [] then Inr []
          else andthen (sanitize_string (Some v)) (\<lambda>w. Inr [column @ '' = '' @ quoted w]))"

definition reference_query ::
  "Config \<Rightarrow> string \<Rightarrow> string list \<Rightarrow> string \<Rightarrow> int option \<Rightarrow> int option \<Rightarrow> sql_query"
where
  "reference_query cfg t conditions order_by limit offset =
     \<lparr>sq_select = ''*'', sq_from = table_name cfg t, sq_where = conditions,
      sq_order_by = order_by, sq_offset = offset, sq_limit = limit\<rparr>"

definition reference_items :: "pandas \<Rightarrow> frame \<Rightarrow> item list" where
  "reference_items pd df = (if frame_empty df then [] else to_records (prepared pd None df))"

definition reference_response ::
  "Config \<Rightarrow> pandas \<Rightarrow> exec \<Rightarrow> Request \<Rightarrow> string \<Rightarrow> string \<Rightarrow> exn + string list \<Rightarrow> string \<Rightarrow> page_args
     \<Rightarrow> exn + items_response"
where
  "reference_response cfg pd exec rq url t conditions order_by p =
     (let limit = effective_limit_for_request cfg rq (pa_limit p)
      in andthen conditions (\<lambda>cs.
         andthen (exec (reference_query cfg t cs order_by limit (pa_offset p))) (\<lambda>df.
           Inr (items_response_of (reference_items pd df) (self_and_collection url t)))))"

definition get_configuration_items ::
  "Config \<Rightarrow> pandas \<Rightarrow> exec \<Rightarrow> Request \<Rightarrow> string \<Rightarrow> string option \<Rightarrow> string option \<Rightarrow> page_args
     \<Rightarrow> exn + items_response"
where
  "get_configuration_items cfg pd exec rq url nm timeseries_type p =
     failing_as ''Failed to load configurations: ''
       (reference_response cfg pd exec rq url ''configurations''
          (all_conditions [text_condition ''name'' nm, text_condition ''timeseries_type'' timeseries_type])
          ''name'' p)"

definition get_unit_items ::
  "Config \<Rightarrow> pandas \<Rightarrow> exec \<Rightarrow> Request \<Rightarrow> string \<Rightarrow> string option \<Rightarrow> page_args \<Rightarrow> exn + items_response"
where
  "get_unit_items cfg pd exec rq url nm p =
     failing_as ''Failed to load units: ''
       (reference_response cfg pd exec rq url ''units'' (text_condition ''name'' nm) ''name'' p)"

definition get_variable_items ::
  "Config \<Rightarrow> pandas \<Rightarrow> exec \<Rightarrow> Request \<Rightarrow> string \<Rightarrow> string option \<Rightarrow> page_args \<Rightarrow> exn + items_response"
where
  "get_variable_items cfg pd exec rq url nm p =
     failing_as ''Failed to load variables: ''
       (reference_response cfg pd exec rq url ''variables'' (text_condition ''name'' nm) ''name'' p)"

definition get_attribute_items ::
  "Config \<Rightarrow> pandas \<Rightarrow> exec \<Rightarrow> Request \<Rightarrow> string \<Rightarrow> string option \<Rightarrow> page_args \<Rightarrow> exn + items_response"
where
  "get_attribute_items cfg pd exec rq url nm p =
     failing_as ''Failed to load attributes: ''
       (reference_response cfg pd exec rq url ''attributes'' (text_condition ''name'' nm) ''name'' p)"

text \<open>One prefix parameter, unlike the repeated ones of the mapping tables, and no parentheses.\<close>

definition single_prefix_condition :: "string \<Rightarrow> string option \<Rightarrow> exn + string list" where
  "single_prefix_condition column pfx =
     (case pfx of
        None \<Rightarrow> Inr []
      | Some v \<Rightarrow>
          if v = [] then Inr []
          else andthen (sanitize_string (Some v)) (\<lambda>w. Inr [like_clause column w]))"

definition get_location_attribute_items ::
  "Config \<Rightarrow> pandas \<Rightarrow> exec \<Rightarrow> Request \<Rightarrow> string \<Rightarrow> string list option \<Rightarrow> string option \<Rightarrow> string list option
     \<Rightarrow> page_args \<Rightarrow> exn + items_response"
where
  "get_location_attribute_items cfg pd exec rq url location_id pfx attribute_name p =
     failing_as ''Failed to load location attributes: ''
       (let limit = effective_limit_for_request cfg rq (pa_limit p)
        in andthen (all_conditions
             [in_condition ''location_id'' location_id,
              single_prefix_condition ''location_id'' pfx,
              in_condition ''attribute_name'' attribute_name]) (\<lambda>cs.
           andthen (exec (reference_query cfg ''location_attributes'' cs ''location_id, attribute_name''
                           limit (pa_offset p))) (\<lambda>df.
             (let items = reference_items pd df
              in Inr (items_response_of items
                   (self_and_collection url ''location_attributes'' @
                    next_link urlencode_first url (length items) limit (pa_offset p)))))))"

section \<open>Facts\<close>

lemma items_response_of_count [simp]:
  "ir_number_returned (items_response_of items links) = length items"
  "ir_items (items_response_of items links) = items"
  "ir_links (items_response_of items links) = links"
  by (simp_all add: items_response_of_def)

lemma query_records_capped:
  assumes "respects_limit exec" "query_records cfg pd exec rq url c conds ob p = Inr r"
    and "record_limit_for_identity cfg (request_identity rq) = Some cap" "0 \<le> cap" "page_args_valid p"
  shows "int (length (ir_items r)) \<le> cap"
proof -
  obtain df where df: "exec (mapping_query cfg c conds ob
      (effective_limit_for_request cfg rq (pa_limit p)) (pa_offset p)) = Inr df"
    and r: "length (ir_items r) = length (fr_rows df)"
    using assms(2) by (auto simp: query_records_def Let_def andthen_Inr_iff frame_empty_def split: if_split_asm)
  have "int (length (fr_rows df)) \<le> cap"
    by (rule exec_capped [OF assms(1) df _ assms(3,4)])
      (use assms(5) in \<open>auto simp: mapping_query_def page_args_valid_def split: option.splits\<close>)
  with r show ?thesis by simp
qed

lemma reference_response_capped:
  assumes "respects_limit exec" "reference_response cfg pd exec rq url t conds ob p = Inr r"
    and "record_limit_for_identity cfg (request_identity rq) = Some cap" "0 \<le> cap" "page_args_valid p"
  shows "int (length (ir_items r)) \<le> cap"
proof -
  obtain cs df where df: "exec (reference_query cfg t cs ob
      (effective_limit_for_request cfg rq (pa_limit p)) (pa_offset p)) = Inr df"
    and r: "length (ir_items r) = length (fr_rows df)"
    using assms(2) by (auto simp: reference_response_def Let_def andthen_Inr_iff reference_items_def frame_empty_def)
  have "int (length (fr_rows df)) \<le> cap"
    by (rule exec_capped [OF assms(1) df _ assms(3,4)])
      (use assms(5) in \<open>auto simp: reference_query_def page_args_valid_def split: option.splits\<close>)
  with r show ?thesis by simp
qed

lemma location_attributes_capped:
  assumes "respects_limit exec"
    and "get_location_attribute_items cfg pd exec rq url l pfx an p = Inr r"
    and "record_limit_for_identity cfg (request_identity rq) = Some cap" "0 \<le> cap" "page_args_valid p"
  shows "int (length (ir_items r)) \<le> cap"
proof -
  obtain cs df where df: "exec (reference_query cfg ''location_attributes'' cs ''location_id, attribute_name''
      (effective_limit_for_request cfg rq (pa_limit p)) (pa_offset p)) = Inr df"
    and r: "length (ir_items r) = length (fr_rows df)"
    using assms(2)
    by (auto simp: get_location_attribute_items_def Let_def andthen_Inr_iff reference_items_def frame_empty_def)
  have "int (length (fr_rows df)) \<le> cap"
    by (rule exec_capped [OF assms(1) df _ assms(3,4)])
      (use assms(5) in \<open>auto simp: reference_query_def page_args_valid_def split: option.splits\<close>)
  with r show ?thesis by simp
qed

section \<open>Properties\<close>

text \<open>No record collection serves a caller more rows than its role's cap, whichever of the eight
  endpoints, filters and paging parameters it uses, as long as the database honours
  \<open>LIMIT\<close>.\<close>

theorem record_collections_capped:
  assumes "respects_limit exec" "page_args_valid p" "0 \<le> cap"
    and "record_limit_for_identity cfg (request_identity rq) = Some cap"
    and "Inr r \<in> {get_crosswalk_items cfg pd exec rq url a p,
                   get_location_id_alias_items cfg pd exec rq url al p,
                   get_configuration_pair_items cfg pd exec rq url pn sn p,
                   get_configuration_items cfg pd exec rq url nm ty p,
                   get_unit_items cfg pd exec rq url nm p,
                   get_variable_items cfg pd exec rq url nm p,
                   get_attribute_items cfg pd exec rq url nm p,
                   get_location_attribute_items cfg pd exec rq url ls pfx ats p}"
  shows "int (length (ir_items r)) \<le> cap \<and> ir_number_returned r = length (ir_items r)"
proof -
  have "int (length (ir_items r)) \<le> cap"
    using assms(5) query_records_capped [OF assms(1) _ assms(4,3,2)]
      reference_response_capped [OF assms(1) _ assms(4,3,2)]
      location_attributes_capped [OF assms(1) _ assms(4,3,2)]
    by (auto simp: get_crosswalk_items_def get_location_id_alias_items_def get_configuration_pair_items_def
        get_configuration_items_def get_unit_items_def get_variable_items_def get_attribute_items_def
        andthen_Inr_iff dest!: sym [of "Inr r"])
  moreover have "ir_number_returned r = length (ir_items r)"
    using assms(5)
    by (auto simp: get_crosswalk_items_def get_location_id_alias_items_def get_configuration_pair_items_def
        get_configuration_items_def get_unit_items_def get_variable_items_def get_attribute_items_def
        get_location_attribute_items_def query_records_def reference_response_def Let_def
        andthen_Inr_iff dest!: sym [of "Inr r"] split: if_split_asm)
  ultimately show ?thesis ..
qed

text \<open>A database that holds the given rows and honours the paging of the query.\<close>

definition sample_exec :: "cell list list \<Rightarrow> exec" where
  "sample_exec rows q =
     Inr \<lparr>fr_columns = [''name''],
          fr_rows = (case sq_limit q of None \<Rightarrow> rows | Some l \<Rightarrow> take (nat l) rows)\<rparr>"

lemma sample_exec_limit: "respects_limit (sample_exec rows)"
  by (auto simp: respects_limit_def sample_exec_def min_def)

definition sample_pandas :: pandas where
  "sample_pandas = \<lparr>pd_to_time = (\<lambda>c. case c of CTime t \<Rightarrow> Some t | _ \<Rightarrow> None), pd_format = show_int\<rparr>"

definition anonymous_request :: Request where
  "anonymous_request =
     \<lparr>rq_method = ''GET'', rq_path = ''/collections/units/items'', rq_headers = [], rq_client = None,
      rq_identity = None\<rparr>"

lemma record_collections_capped_witness:
  "\<forall>cfg :: Config. \<exists>r. get_unit_items (cfg\<lparr>ROW_LIMIT_ANON := 2\<rparr>) sample_pandas
       (sample_exec [[CNone], [CNaN], [CNone]]) anonymous_request ''u'' None
       \<lparr>pa_limit = Some 5, pa_offset = None\<rparr> = Inr r \<and> int (length (ir_items r)) \<le> 2"
proof
  fix cfg :: Config
  let ?cfg = "cfg\<lparr>ROW_LIMIT_ANON := 2\<rparr>"
  let ?p = "\<lparr>pa_limit = Some 5, pa_offset = None\<rparr>"
  let ?get = "get_unit_items ?cfg sample_pandas (sample_exec [[CNone], [CNaN], [CNone]]) anonymous_request ''u'' None ?p"
  have p: "page_args_valid ?p" by (simp add: page_args_valid_def)
  have cap: "record_limit_for_identity ?cfg (request_identity anonymous_request) = Some 2"
    by (simp add: record_limit_for_identity_def request_identity_def anonymous_request_def
        anonymous_identity_def is_authenticated_def)
  obtain r where r: "?get = Inr r"
    by (simp add: get_unit_items_def reference_response_def text_condition_def sample_exec_def)
  have "int (length (ir_items r)) \<le> 2"
    by (rule record_collections_capped [OF sample_exec_limit [of "[[CNone], [CNaN], [CNone]]"] p _ cap,
          where pd = sample_pandas and url = "''u''" and nm = None, THEN conjunct1]) (simp_all add: r)
  with r show "\<exists>r. ?get = Inr r \<and> int (length (ir_items r)) \<le> 2" by blast
qed

end
