(* ===== verification/Timeseries_Routes.thy ===== *)
theory Timeseries_Routes
  imports Record_Routes Complex_Main
begin

text \<open>
  The timeseries collections (\<open>routes/timeseries.py\<close>): the ISO 8601 duration parser with the
  double-precision seconds it goes through, the time and name filters, the two queries and
  their responses.  Parsing and formatting of instants and the conversion of geometry are
  parameters.
\<close>

section \<open>ISO durations\<close>

text \<open>\<open>int(float(x))\<close> for a non-negative rational: rounding to 53 bits, then the integral part.\<close>

fun bit_length :: "nat \<Rightarrow> nat" where
  "bit_length n = (if n = 0 then 0 else Suc (bit_length (n div 2)))"

declare bit_length.simps [simp del]

definition round_half_even :: "rat \<Rightarrow> int" where
  "round_half_even r =
     (let n = \<lfloor>r\<rfloor>; d = r - of_int n
      in if d < 1 / 2 then n else if 1 / 2 < d then n + 1 else if even n then n else n + 1)"

definition int_of_double :: "rat \<Rightarrow> exn + int" where
  "int_of_double q =
     (if q < 1 then Inr (if 1 - 1 / 2 ^ 54 \<le> q then 1 else 0)
      else
        (let bits = bit_length (nat \<lfloor>q\<rfloor>);
             v = (if 53 \<le> bits then round_half_even (q / 2 ^ (bits - 53)) * 2 ^ (bits - 53)
                  else \<lfloor>of_int (round_half_even (q * 2 ^ (53 - bits))) / (2 ^ (53 - bits) :: rat)\<rfloor>)
         in if 2 ^ 1024 \<le> v then Inl OverflowError else Inr v))"

text \<open>One optional \<open>(\\d+)X\<close> group: its digits, and the rest.\<close>

definition component :: "char \<Rightarrow> string \<Rightarrow> string option \<times> string" where
  "component c s =
     (let ds = takeWhile is_digit s; r = dropWhile is_digit s
      in if ds \<noteq> [] \<and> r \<noteq> [] \<and> hd r = c then (Some ds, tl r) else (None, s))"

text \<open>The seconds group, whole and fractional digits.\<close>

definition seconds_component :: "string \<Rightarrow> (string \<times> string) option \<times> string" where
  "seconds_component s =
     (let ds = takeWhile is_digit s; r = dropWhile is_digit s;
          fs = takeWhile is_digit (tl r); r2 = dropWhile is_digit (tl r)
      in if ds = [] \<or> r = [] then (None, s)
         else if hd r = CHR ''S'' then (Some (ds, []), tl r)
         else if hd r = CHR ''.'' \<and> fs \<noteq> [] \<and> r2 \<noteq> [] \<and> hd r2 = CHR ''S'' then (Some (ds, fs), tl r2)
         else (None, s))"

record duration_match =
  dm_days :: "string option"
  dm_hours :: "string option"
  dm_minutes :: "string option"
  dm_seconds :: "(string \<times> string) option"

text \<open>The regular expression: its groups are told apart by their letters, so nothing is tried twice.\<close>

definition match_duration :: "string \<Rightarrow> duration_match option" where
  "match_duration s =
     (if s = [] \<or> hd s \<noteq> CHR ''P'' then None
      else
        (case component (CHR ''D'') (tl s) of (d, s1) \<Rightarrow>
           if s1 = [] then Some \<lparr>dm_days = d, dm_hours = None, dm_minutes = None, dm_seconds = None\<rparr>
           else if hd s1 \<noteq> CHR ''T'' then None
           else
             (case component (CHR ''H'') (tl s1) of (h, s2) \<Rightarrow>
              case component (CHR ''M'') s2 of (m, s3) \<Rightarrow>
              case seconds_component s3 of (sec, s4) \<Rightarrow>
                if s4 = []
                then Some \<lparr>dm_days = d, dm_hours = h, dm_minutes = m, dm_seconds = sec\<rparr> else None)))"

definition int_group :: "string option \<Rightarrow> exn + int" where
  "int_group g = (case g of None \<Rightarrow> Inr 0 | Some ds \<Rightarrow> py_int ds)"

definition decimal :: "string \<times> string \<Rightarrow> rat" where
  "decimal df = of_nat (nat_of_digits (fst df)) + of_nat (nat_of_digits (snd df)) / 10 ^ length (snd df)"

definition seconds_group :: "(string \<times> string) option \<Rightarrow> exn + int" where
  "seconds_group g = (case g of None \<Rightarrow> Inr 0 | Some df \<Rightarrow> int_of_double (decimal df))"

definition duration_error :: "string \<Rightarrow> exn" where
  "duration_error s = ValueError (''Invalid or unsupported ISO 8601 duration: '' @ quoted s @
     ''. Year and month components (P[n]Y, P[n]M) are not supported.'')"

definition parse_iso_duration :: "string \<Rightarrow> exn + int" where
  "parse_iso_duration s =
     (case match_duration s of
        None \<Rightarrow> Inl (duration_error s)
      | Some m \<Rightarrow>
          andthen (int_group (dm_days m)) (\<lambda>days.
          andthen (int_group (dm_hours m)) (\<lambda>hours.
          andthen (int_group (dm_minutes m)) (\<lambda>minutes.
          andthen (seconds_group (dm_seconds m)) (\<lambda>seconds.
            (let total = days * 86400 + hours * 3600 + minutes * 60 + seconds
             in if total = 0
                then Inl (ValueError (''Duration '' @ quoted s @ '' resolves to zero seconds.''))
                else Inr total))))))"

definition build_duration_condition :: "string \<Rightarrow> string \<Rightarrow> exn + string" where
  "build_duration_condition column s =
     andthen (parse_iso_duration s) (\<lambda>n.
       Inr (''CAST(to_unixtime('' @ column @ '') AS BIGINT) % '' @ show_int n @ '' = 0''))"

section \<open>Filters\<close>

record 't timelib =
  tl_fromiso :: "string \<Rightarrow> exn + 't"
  tl_strftime :: "'t \<Rightarrow> string"

definition time_bound :: "'t timelib \<Rightarrow> string \<Rightarrow> string \<Rightarrow> string \<Rightarrow> exn + string list" where
  "time_bound lib column op s =
     (if s = [] \<or> s = ''..'' then Inr []
      else andthen (parse_instant (tl_fromiso lib) s) (\<lambda>t.
             Inr [column @ '' '' @ op @ '' TIMESTAMP '' @ quoted (tl_strftime lib t)]))"

text \<open>A range parameter: both ends from one instant, or the two sides of the first slash.\<close>

definition range_conditions :: "'t timelib \<Rightarrow> string \<Rightarrow> string option \<Rightarrow> exn + string list" where
  "range_conditions lib column interval =
     (case interval of
        None \<Rightarrow> Inr []
      | Some r \<Rightarrow>
          if r = [] then Inr []
          else
            (let a = (if CHR ''/'' \<in> set r then before_first (CHR ''/'') r else r);
                 b = (if CHR ''/'' \<in> set r then after_first (CHR ''/'') r else r)
             in andthen (time_bound lib column ''>='' a) (\<lambda>x.
                andthen (time_bound lib column ''<='' b) (\<lambda>y. Inr (x @ y)))))"

definition name_conditions :: "string \<Rightarrow> string list option \<Rightarrow> string option \<Rightarrow> exn + string list" where
  "name_conditions column values table_alias =
     (case values of
        None \<Rightarrow> Inr []
      | Some vs \<Rightarrow>
          if vs = [] then Inr []
          else andthen (build_string_in_condition column vs table_alias) (\<lambda>c.
                 Inr (case c of None \<Rightarrow> [] | Some x \<Rightarrow> [x])))"

text \<open>A duration that cannot be read is turned into a 400 here.\<close>

definition timestep_conditions :: "string \<Rightarrow> string option \<Rightarrow> exn + string list" where
  "timestep_conditions column timestep =
     (case timestep of
        None \<Rightarrow> Inr []
      | Some s \<Rightarrow>
          if s = [] then Inr []
          else (case build_duration_condition column s of
                  Inr c \<Rightarrow> Inr [c]
                | Inl (ValueError m) \<Rightarrow> Inl (HTTPException 400 (DText m))
                | Inl e \<Rightarrow> Inl e))"

section \<open>Responses\<close>

datatype 'g ts_response = TsItems items_response | TsGeo "'g geojson_response"

definition is_geojson :: "string option \<Rightarrow> bool" where
  "is_geojson f = (case f of None \<Rightarrow> False | Some s \<Rightarrow> s \<noteq> [] \<and> lower s = ''geojson'')"

definition empty_response :: "string \<Rightarrow> string \<Rightarrow> string option \<Rightarrow> 'g ts_response" where
  "empty_response url collection_id f =
     (if is_geojson f then TsGeo (create_ogc_geojson_response [] url None (Some collection_id) None None)
      else TsItems (items_response_of [] (self_and_collection url collection_id)))"

definition TS_DATES :: "string list" where
  "TS_DATES = [''reference_time'', ''created_at'', ''updated_at'']"

text \<open>\<open>pd.to_datetime\<close> without \<open>coerce\<close>: a missing column and a cell that is no instant raise.\<close>

definition format_column :: "pandas \<Rightarrow> string \<Rightarrow> frame \<Rightarrow> exn + frame" where
  "format_column pd column df =
     (if column \<notin> set (fr_columns df) then Inl (KeyError column)
      else if list_ex (\<lambda>row. list_ex (\<lambda>cx. fst cx = column \<and> \<not> isna (snd cx) \<and> pd_to_time pd (snd cx) = None)
                (zip (fr_columns df) row)) (fr_rows df)
      then Inl (ValueError ''not a datetime'')
      else Inr (df\<lparr>fr_rows := map (\<lambda>row. map2 (\<lambda>c x. if c = column then format_time (pd_to_time pd) (pd_format pd) x else x)
                                        (fr_columns df) row) (fr_rows df)\<rparr>))"

lemma format_column_length: "format_column pd column df = Inr df1 \<Longrightarrow> length (fr_rows df1) = length (fr_rows df)"
  by (auto simp: format_column_def split: if_split_asm)

definition ts_response_of ::
  "pandas \<Rightarrow> (frame \<Rightarrow> exn + 'g feature list) \<Rightarrow> string \<Rightarrow> string \<Rightarrow> string option \<Rightarrow> int option \<Rightarrow> int option
     \<Rightarrow> frame \<Rightarrow> exn + 'g ts_response"
where
  "ts_response_of pd to_features url collection_id f limit offset df =
     (if frame_empty df then Inr (empty_response url collection_id f)
      else
        andthen (format_column pd ''value_time'' df) (\<lambda>df0.
        (let df1 = prepared pd (Some TS_DATES) df0
         in if is_geojson f then
              andthen (to_features df1) (\<lambda>fs.
                Inr (TsGeo (create_ogc_geojson_response fs url None (Some collection_id) None None)))
            else
              (let items = to_records df1
               in Inr (TsItems (items_response_of items
                    (self_and_collection url collection_id @
                     next_link urlencode_doseq url (length items) limit offset)))))))"

section \<open>Primary timeseries\<close>

record primary_args =
  pt_primary_location_id :: "string list"
  pt_datetime :: "string option"
  pt_variable_name :: "string list option"
  pt_configuration_name :: "string list option"
  pt_timestep_duration :: "string option"
  pt_f :: "string option"

definition location_in :: "string \<Rightarrow> string list \<Rightarrow> exn + string list" where
  "location_in column ids =
     andthen (sanitize_all ids) (\<lambda>ws. Inr [column @ '' IN ('' @ quoted_list ws @ '')''])"

definition conditions_in_order :: "(exn + string list) list \<Rightarrow> exn + string list" where
  "conditions_in_order cs = andthen (map_result id cs) (\<lambda>css. Inr (concat css))"

definition primary_conditions :: "'t timelib \<Rightarrow> primary_args \<Rightarrow> exn + string list" where
  "primary_conditions lib a =
     conditions_in_order
       [location_in ''location_id'' (pt_primary_location_id a),
        range_conditions lib ''value_time'' (pt_datetime a),
        name_conditions ''variable_name'' (pt_variable_name a) None,
        name_conditions ''configuration_name'' (pt_configuration_name a) None,
        timestep_conditions ''value_time'' (pt_timestep_duration a)]"

definition primary_query ::
  "Config \<Rightarrow> bool \<Rightarrow> string list \<Rightarrow> int option \<Rightarrow> int option \<Rightarrow> sql_query"
where
  "primary_query cfg geo conditions limit offset =
     (if geo then
        \<lparr>sq_select = ''pt.location_id as primary_location_id, pt.reference_time, pt.configuration_name, pt.variable_name, pt.unit_name, pt.value_time, pt.value, pt.created_at, pt.updated_at, l.geometry'',
         sq_from = table_name cfg ''primary_timeseries'' @ '' pt JOIN '' @ table_name cfg ''locations'' @
                   '' l ON pt.location_id = l.id'',
         sq_where = conditions, sq_order_by = ''pt.value_time'', sq_offset = offset, sq_limit = limit\<rparr>
      else
        \<lparr>sq_select = quoted ''primary'' @ '' as series_type, location_id as primary_location_id, reference_time, configuration_name, variable_name, unit_name, value_time, value, created_at, updated_at'',
         sq_from = table_name cfg ''primary_timeseries'',
         sq_where = conditions, sq_order_by = ''value_time'', sq_offset = offset, sq_limit = limit\<rparr>)"

definition primary_body ::
  "Config \<Rightarrow> 't timelib \<Rightarrow> pandas \<Rightarrow> (frame \<Rightarrow> exn + 'g feature list) \<Rightarrow> exec \<Rightarrow> Request \<Rightarrow> string
     \<Rightarrow> primary_args \<Rightarrow> page_args \<Rightarrow> exn + 'g ts_response"
where
  "primary_body cfg lib pd to_features exec rq url a p =
     (let limit = effective_limit_for_request cfg rq (pa_limit p)
      in andthen (primary_conditions lib a) (\<lambda>cs.
         andthen (exec (primary_query cfg (is_geojson (pt_f a)) cs limit (pa_offset p))) (\<lambda>df.
           ts_response_of pd to_features url ''primary_timeseries'' (pt_f a) limit (pa_offset p) df)))"

definition get_primary_timeseries_items ::
  "Config \<Rightarrow> 't timelib \<Rightarrow> pandas \<Rightarrow> (frame \<Rightarrow> exn + 'g feature list) \<Rightarrow> exec \<Rightarrow> Request \<Rightarrow> string
     \<Rightarrow> primary_args \<Rightarrow> page_args \<Rightarrow> exn + 'g ts_response"
where
  "get_primary_timeseries_items cfg lib pd to_features exec rq url a p =
     failing_as ''Failed to load primary timeseries: ''
       (primary_body cfg lib pd to_features exec rq url a p)"

section \<open>Secondary timeseries\<close>

record secondary_args =
  st_primary_location_id :: "string list option"
  st_secondary_location_id :: "string list option"
  st_datetime :: "string option"
  st_reference_time :: "string option"
  st_variable_name :: "string list option"
  st_configuration_name :: "string list option"
  st_timestep_duration :: "string option"
  st_f :: "string option"

definition given :: "string list option \<Rightarrow> bool" where
  "given v \<longleftrightarrow> v \<noteq> None \<and> v \<noteq> Some []"

definition secondary_location :: "secondary_args \<Rightarrow> exn + string list" where
  "secondary_location a =
     (if given (st_primary_location_id a) \<and> given (st_secondary_location_id a)
      then Inl (HTTPException 400 (DText ''Cannot filter by both primary_location_id and secondary_location_id. Use one or the other.''))
      else if given (st_primary_location_id a)
      then location_in ''lc.primary_location_id'' (the (st_primary_location_id a))
      else if given (st_secondary_location_id a)
      then location_in ''lc.secondary_location_id'' (the (st_secondary_location_id a))
      else Inl (HTTPException 400 (DText ''Must provide either primary_location_id or secondary_location_id'')))"

definition secondary_conditions :: "'t timelib \<Rightarrow> secondary_args \<Rightarrow> exn + string list" where
  "secondary_conditions lib a =
     conditions_in_order
       [secondary_location a,
        range_conditions lib ''st.value_time'' (st_datetime a),
        range_conditions lib ''st.reference_time'' (st_reference_time a),
        name_conditions ''variable_name'' (st_variable_name a) (Some ''st''),
        name_conditions ''configuration_name'' (st_configuration_name a) (Some ''st''),
        timestep_conditions ''st.value_time'' (st_timestep_duration a)]"

definition secondary_query ::
  "Config \<Rightarrow> bool \<Rightarrow> string list \<Rightarrow> int option \<Rightarrow> int option \<Rightarrow> sql_query"
where
  "secondary_query cfg geo conditions limit offset =
     \<lparr>sq_select =
        ''st.value_time, st.value, st.configuration_name, st.variable_name, st.unit_name, st.member, st.reference_time, st.created_at, st.updated_at, '' @
        (if geo then ''lc.primary_location_id, lc.secondary_location_id, l.geometry''
         else ''lc.primary_location_id, '' @ quoted ''secondary'' @ '' as series_type, lc.secondary_location_id''),
      sq_from =
        table_name cfg ''secondary_timeseries'' @ '' st JOIN '' @ table_name cfg ''location_crosswalks'' @
        '' lc ON st.location_id = lc.secondary_location_id'' @
        (if geo then '' JOIN '' @ table_name cfg ''locations'' @ '' l ON lc.primary_location_id = l.id'' else []),
      sq_where = conditions, sq_order_by = ''st.value_time'', sq_offset = offset, sq_limit = limit\<rparr>"

definition secondary_body ::
  "Config \<Rightarrow> 't timelib \<Rightarrow> pandas \<Rightarrow> (frame \<Rightarrow> exn + 'g feature list) \<Rightarrow> exec \<Rightarrow> Request \<Rightarrow> string
     \<Rightarrow> secondary_args \<Rightarrow> page_args \<Rightarrow> exn + 'g ts_response"
where
  "secondary_body cfg lib pd to_features exec rq url a p =
     (let limit = effective_limit_for_request cfg rq (pa_limit p)
      in andthen (secondary_conditions lib a) (\<lambda>cs.
         andthen (exec (secondary_query cfg (is_geojson (st_f a)) cs limit (pa_offset p))) (\<lambda>df.
           ts_response_of pd to_features url ''secondary_timeseries'' (st_f a) limit (pa_offset p) df)))"

definition get_secondary_timeseries_items ::
  "Config \<Rightarrow> 't timelib \<Rightarrow> pandas \<Rightarrow> (frame \<Rightarrow> exn + 'g feature list) \<Rightarrow> exec \<Rightarrow> Request \<Rightarrow> string
     \<Rightarrow> secondary_args \<Rightarrow> page_args \<Rightarrow> exn + 'g ts_response"
where
  "get_secondary_timeseries_items cfg lib pd to_features exec rq url a p =
     failing_as ''Failed to load secondary timeseries: ''
       (secondary_body cfg lib pd to_features exec rq url a p)"

section \<open>What the parser reads\<close>

lemma takeWhile_digits [simp]:
  "\<not> is_digit c \<Longrightarrow> takeWhile is_digit (show_nat n @ c # r) = show_nat n"
  "\<not> is_digit c \<Longrightarrow> dropWhile is_digit (show_nat n @ c # r) = c # r"
  using show_nat_digits [of _ n] by (simp_all add: takeWhile_append dropWhile_append)

lemma component_show_nat [simp]:
  "\<not> is_digit c \<Longrightarrow> component c (show_nat n @ c # r) = (Some (show_nat n), r)"
  by (simp add: component_def)

lemma seconds_component_show_nat [simp]:
  "seconds_component (show_nat n @ CHR ''S'' # r) = (Some (show_nat n, []), r)"
  by (simp add: seconds_component_def is_digit_def)

lemma strip_no_space: "(\<And>c. c \<in> set s \<Longrightarrow> \<not> is_space c) \<Longrightarrow> strip s = s"
proof -
  assume a: "\<And>c. c \<in> set s \<Longrightarrow> \<not> is_space c"
  have "dropWhile is_space s = s" using a by (cases s) simp_all
  moreover have "rstrip_with is_space s = s"
    using a by (intro rstrip_with_id) (cases s rule: rev_cases; simp)
  ultimately show ?thesis by (simp add: strip_def lstrip_with_def)
qed

lemma digit_groups_all: "s \<noteq> [] \<Longrightarrow> (\<And>c. c \<in> set s \<Longrightarrow> is_digit c) \<Longrightarrow> digit_groups s"
proof (induction s rule: digit_groups.induct)
  case (3 c d cs)
  have "is_digit d" using 3(4) by simp
  then have "d \<noteq> CHR ''_''" by (auto simp: is_digit_def)
  with 3 show ?case by simp
qed simp_all

lemma py_int_show_nat [simp]:
  assumes "length (show_nat n) \<le> 4300"
  shows "py_int (show_nat n) = Inr (int n)"
proof -
  have d: "\<And>c. c \<in> set (show_nat n) \<Longrightarrow> is_digit c" by (rule show_nat_digits)
  have "strip (show_nat n) = show_nat n"
    by (rule strip_no_space) (use d in \<open>fastforce simp: is_digit_def is_space_def\<close>)
  moreover have "hd (show_nat n) \<noteq> CHR ''-''" "hd (show_nat n) \<noteq> CHR ''+''"
    using d [of "hd (show_nat n)"] by (auto simp: is_digit_def)
  moreover have "filter is_digit (show_nat n) = show_nat n" using d by (simp add: filter_id_conv)
  moreover have "digit_groups (show_nat n)" by (rule digit_groups_all) (simp_all add: d)
  ultimately show ?thesis using assms by (simp add: py_int_def Let_def)
qed

lemma bit_length_bound: "n < 2 ^ k \<Longrightarrow> bit_length n \<le> k"
proof (induction k arbitrary: n)
  case 0
  then show ?case by (simp add: bit_length.simps)
next
  case (Suc k)
  then have "n div 2 < 2 ^ k" by simp
  then have "bit_length (n div 2) \<le> k" by (rule Suc.IH)
  then show ?case by (subst bit_length.simps) simp
qed

lemma round_half_even_of_int [simp]: "round_half_even (of_int z) = z"
  by (simp add: round_half_even_def Let_def)

text \<open>Whole seconds below \<open>2 ^ 53\<close> are doubles.\<close>

lemma int_of_double_of_nat:
  assumes "n < 2 ^ 53"
  shows "int_of_double (of_nat n) = Inr (int n)"
proof (cases "n = 0")
  case True
  then show ?thesis by (simp add: int_of_double_def)
next
  case False
  let ?b = "bit_length n"
  have b: "?b \<le> 53" by (rule bit_length_bound [OF assms])
  have e: "of_nat n * 2 ^ (53 - ?b) = (of_int (int n * 2 ^ (53 - ?b)) :: rat)" by simp
  have r: "round_half_even (of_nat n * 2 ^ (53 - ?b)) = int n * 2 ^ (53 - ?b)"
    unfolding e by (rule round_half_even_of_int)
  have whole: "round_half_even (of_nat n) = int n"
    using round_half_even_of_int [of "int n"] by simp
  have "int n < int (2 ^ 53)" using assms by (simp only: of_nat_less_iff)
  then have "int n < 2 ^ 53" by simp
  also have "(2 :: int) ^ 53 \<le> 2 ^ 1024" by (rule power_increasing) simp_all
  finally have "\<not> 2 ^ 1024 \<le> int n" by simp
  moreover have "\<lfloor>of_int (int n * 2 ^ (53 - ?b)) / (2 ^ (53 - ?b) :: rat)\<rfloor> = int n" by simp
  ultimately show ?thesis
    using False b r whole by (auto simp: int_of_double_def Let_def not_le)
qed

lemma int_of_double_nonneg: "int_of_double q = Inr n \<Longrightarrow> 0 \<le> n"
  unfolding int_of_double_def round_half_even_def Let_def
  by (auto split: if_splits)

section \<open>Properties\<close>

definition iso_duration :: "nat \<Rightarrow> nat \<Rightarrow> nat \<Rightarrow> nat \<Rightarrow> string" where
  "iso_duration d h m s =
     ''P'' @ show_nat d @ ''DT'' @ show_nat h @ ''H'' @ show_nat m @ ''M'' @ show_nat s @ ''S''"

lemma match_iso_duration:
  "match_duration (iso_duration d h m s) =
     Some \<lparr>dm_days = Some (show_nat d), dm_hours = Some (show_nat h), dm_minutes = Some (show_nat m),
           dm_seconds = Some (show_nat s, [])\<rparr>"
proof -
  have c: "\<not> is_digit CHR ''D''" "\<not> is_digit CHR ''H''" "\<not> is_digit CHR ''M''" by (simp_all add: is_digit_def)
  show ?thesis
    using c seconds_component_show_nat [of s "[]"] by (simp add: match_duration_def iso_duration_def)
qed

lemma component_digits:
  "component c s = (Some ds, r) \<Longrightarrow> ds \<noteq> [] \<and> (\<forall>x \<in> set ds. is_digit x)"
  by (auto simp: component_def Let_def dest: set_takeWhileD split: if_split_asm)

lemma py_int_digits_nonneg:
  assumes "\<forall>x \<in> set ds. is_digit x" "py_int ds = Inr k" shows "0 \<le> k"
proof -
  have "strip ds = ds"
    by (rule strip_no_space) (use assms(1) in \<open>fastforce simp: is_digit_def is_space_def\<close>)
  moreover have "\<not> (ds \<noteq> [] \<and> hd ds = CHR ''-'')"
    using assms(1) by (cases ds) (auto simp: is_digit_def)
  ultimately show ?thesis using assms(2) by (auto simp: py_int_def Let_def split: if_split_asm)
qed

text \<open>A group that took part in the match holds digits only.\<close>

definition digit_group :: "string option \<Rightarrow> bool" where
  "digit_group g \<longleftrightarrow> (\<forall>ds. g = Some ds \<longrightarrow> (\<forall>x \<in> set ds. is_digit x))"

lemma component_digit_group: "component c s = (g, r) \<Longrightarrow> digit_group g"
  using component_digits [of c s _ r] by (cases g) (auto simp: digit_group_def)

lemma int_group_nonneg: "digit_group g \<Longrightarrow> int_group g = Inr k \<Longrightarrow> 0 \<le> k"
  using py_int_digits_nonneg [of _ k] by (cases g) (auto simp: int_group_def digit_group_def)

lemma seconds_group_nonneg: "seconds_group g = Inr k \<Longrightarrow> 0 \<le> k"
  using int_of_double_nonneg by (auto simp: seconds_group_def split: option.split_asm)

lemma match_groups:
  "match_duration s = Some m \<Longrightarrow>
   digit_group (dm_days m) \<and> digit_group (dm_hours m) \<and> digit_group (dm_minutes m)"
  by (auto simp: match_duration_def digit_group_def [of None] intro: component_digit_group
      split: if_split_asm prod.split_asm)

lemma parse_iso_duration_pos:
  assumes "parse_iso_duration s = Inr n" shows "0 < n"
proof -
  obtain m d h mi se where m: "match_duration s = Some m"
    and g: "int_group (dm_days m) = Inr d" "int_group (dm_hours m) = Inr h"
      "int_group (dm_minutes m) = Inr mi" "seconds_group (dm_seconds m) = Inr se"
    and n: "n = d * 86400 + h * 3600 + mi * 60 + se" "n \<noteq> 0"
    using assms
    by (auto simp: parse_iso_duration_def andthen_Inr_iff Let_def split: option.split_asm if_split_asm)
  from match_groups [OF m] g have "0 \<le> d" "0 \<le> h" "0 \<le> mi"
    by (auto intro: int_group_nonneg)
  moreover have "0 \<le> se" using g(4) by (rule seconds_group_nonneg)
  ultimately show ?thesis using n by linarith
qed

text \<open>C36 The duration parser reads back what is written: days, hours, minutes and whole seconds (each
  a number Python converts, the seconds below \<open>2 ^ 53\<close>) give their sum in seconds, unless that
  is zero, which is refused; and no text at all is read as a negative or zero duration, so the
  modulus of the alignment filter is positive.\<close>

theorem durations_read:
  assumes "list_all (\<lambda>n. length (show_nat n) \<le> 4300) [d, h, m, s]" "s < 2 ^ 53"
  shows "parse_iso_duration (iso_duration d h m s) =
      (if d * 86400 + h * 3600 + m * 60 + s = 0
       then Inl (ValueError (''Duration '' @ quoted (iso_duration d h m s) @ '' resolves to zero seconds.''))
       else Inr (int (d * 86400 + h * 3600 + m * 60 + s))) \<and>
    (\<forall>x. case parse_iso_duration x of Inr n \<Rightarrow> 0 < n | Inl _ \<Rightarrow> True)"
proof
  have "decimal (show_nat s, []) = of_nat s" by (simp add: decimal_def nat_of_digits_def [of "[]"])
  then have "seconds_group (Some (show_nat s, [])) = Inr (int s)"
    using int_of_double_of_nat [OF assms(2)] by (simp add: seconds_group_def)
  moreover have "int_group (Some (show_nat k)) = Inr (int k)" if "k \<in> {d, h, m}" for k
    using assms(1) that by (auto simp: int_group_def)
  moreover have "(int d * 86400 + int h * 3600 + int m * 60 + int s = 0) = (d * 86400 + h * 3600 + m * 60 + s = 0)"
    by linarith
  ultimately show "parse_iso_duration (iso_duration d h m s) =
      (if d * 86400 + h * 3600 + m * 60 + s = 0
       then Inl (ValueError (''Duration '' @ quoted (iso_duration d h m s) @ '' resolves to zero seconds.''))
       else Inr (int (d * 86400 + h * 3600 + m * 60 + s)))"
    by (simp add: parse_iso_duration_def match_iso_duration Let_def)
  show "\<forall>x. case parse_iso_duration x of Inr n \<Rightarrow> 0 < n | Inl _ \<Rightarrow> True"
    by (auto intro: parse_iso_duration_pos split: sum.split)
qed

lemma durations_read_witness:
  "parse_iso_duration ''P1DT2H0M5S'' = Inr 93605 \<and>
   (\<forall>x. case parse_iso_duration x of Inr n \<Rightarrow> 0 < n | Inl _ \<Rightarrow> True)"
proof -
  have "iso_duration 1 2 0 5 = ''P1DT2H0M5S''" by code_simp
  then show ?thesis using durations_read [of 1 2 0 5] by (simp add: show_nat.simps)
qed

fun ts_count :: "'g ts_response \<Rightarrow> nat" where
  "ts_count (TsItems r) = length (ir_items r)"
| "ts_count (TsGeo r) = length (gj_features r)"

lemma ts_response_count:
  assumes "\<And>df fs. to_features df = Inr fs \<Longrightarrow> length fs = length (fr_rows df)"
    and "ts_response_of pd to_features url c f limit offset df = Inr r"
  shows "ts_count r = length (fr_rows df)"
proof (cases "frame_empty df")
  case True
  with assms(2) show ?thesis
    by (auto simp: ts_response_of_def empty_response_def items_response_of_def create_ogc_geojson_response_def
        Let_def frame_empty_def)
next
  case False
  then obtain df0 where df0: "format_column pd ''value_time'' df = Inr df0"
    using assms(2) by (auto simp: ts_response_of_def andthen_Inr_iff)
  let ?df = "prepared pd (Some TS_DATES) df0"
  have n: "length (fr_rows ?df) = length (fr_rows df)" using format_column_length [OF df0] by simp
  show ?thesis
  proof (cases "is_geojson f")
    case True
    then obtain fs where "to_features ?df = Inr fs"
      and "r = TsGeo (create_ogc_geojson_response fs url None (Some c) None None)"
      using assms(2) False df0 by (auto simp: ts_response_of_def Let_def andthen_Inr_iff)
    with assms(1) n show ?thesis by (simp add: create_ogc_geojson_response_def Let_def)
  next
    case geo: False
    with assms(2) False n df0 show ?thesis
      by (auto simp: ts_response_of_def Let_def items_response_of_def)
  qed
qed

text \<open>Neither timeseries collection serves a caller more rows than its role's cap, in either
  format, whatever the filters and the paging parameters, as long as the database honours
  \<open>LIMIT\<close> and each row gives one feature.\<close>

theorem timeseries_capped:
  assumes "respects_limit exec" "page_args_valid p" "0 \<le> cap"
    and "record_limit_for_identity cfg (request_identity rq) = Some cap"
    and "\<And>df fs. to_features df = Inr fs \<Longrightarrow> length fs = length (fr_rows df)"
    and "Inr r \<in> {get_primary_timeseries_items cfg lib pd to_features exec rq url a p,
                   get_secondary_timeseries_items cfg lib pd to_features exec rq url b p}"
  shows "int (ts_count r) \<le> cap"
proof -
  have lim: "\<And>x. pa_limit p = Some x \<Longrightarrow> 1 \<le> x"
    using assms(2) by (simp add: page_args_valid_def)
  obtain q df c f where "exec q = Inr df" "sq_limit q = effective_limit_for_request cfg rq (pa_limit p)"
    and "ts_response_of pd to_features url c f (effective_limit_for_request cfg rq (pa_limit p)) (pa_offset p) df
      = Inr r"
    using assms(6)
    by (fastforce simp: get_primary_timeseries_items_def get_secondary_timeseries_items_def primary_body_def
        secondary_body_def Let_def andthen_Inr_iff primary_query_def secondary_query_def
        dest!: sym [of "Inr r"] split: if_split_asm)
  then show ?thesis
    using exec_capped [OF assms(1) _ _ assms(4,3) lim] ts_response_count [OF assms(5)] by metis
qed

definition sample_series :: "cell list list \<Rightarrow> exec" where
  "sample_series rows q = andthen (sample_exec rows q) (\<lambda>df. Inr (df\<lparr>fr_columns := [''value_time'']\<rparr>))"

lemma sample_series_limit: "respects_limit (sample_series rows)"
  using sample_exec_limit [of rows]
  by (auto simp: respects_limit_def sample_series_def andthen_Inr_iff)

definition sample_timelib :: "string timelib" where
  "sample_timelib = \<lparr>tl_fromiso = Inr, tl_strftime = id\<rparr>"

definition no_geometry :: "frame \<Rightarrow> exn + unit feature list" where
  "no_geometry df = Inr (map (\<lambda>_. \<lparr>ft_id = None, ft_properties = [], ft_geometry = ()\<rparr>) (fr_rows df))"

definition sample_primary :: primary_args where
  "sample_primary =
     \<lparr>pt_primary_location_id = [''usgs-1''], pt_datetime = Some ''2020-01-01/..'', pt_variable_name = None,
      pt_configuration_name = None, pt_timestep_duration = None, pt_f = Some ''json''\<rparr>"

lemma timeseries_capped_witness:
  "\<forall>cfg :: Config. \<exists>r. get_primary_timeseries_items (cfg\<lparr>ROW_LIMIT_ANON := 2\<rparr>) sample_timelib sample_pandas
       no_geometry (sample_series [[CTime 0], [CNone], [CTime 3600]]) anonymous_request ''u'' sample_primary
       \<lparr>pa_limit = Some 5, pa_offset = None\<rparr> = Inr r \<and> int (ts_count r) \<le> 2"
proof
  fix cfg :: Config
  let ?cfg = "cfg\<lparr>ROW_LIMIT_ANON := 2\<rparr>"
  let ?p = "\<lparr>pa_limit = Some 5, pa_offset = None\<rparr>"
  let ?get = "get_primary_timeseries_items ?cfg sample_timelib sample_pandas no_geometry
    (sample_series [[CTime 0], [CNone], [CTime 3600]]) anonymous_request ''u'' sample_primary ?p"
  have p: "page_args_valid ?p" by (simp add: page_args_valid_def)
  have cap: "record_limit_for_identity ?cfg (request_identity anonymous_request) = Some 2"
    by (simp add: record_limit_for_identity_def request_identity_def anonymous_request_def
        anonymous_identity_def is_authenticated_def)
  have "case primary_conditions sample_timelib sample_primary of Inr _ \<Rightarrow> True | Inl _ \<Rightarrow> False"
    by code_simp
  then have conds: "\<exists>cs. primary_conditions sample_timelib sample_primary = Inr cs"
    by (cases "primary_conditions sample_timelib sample_primary") simp_all
  have lim: "effective_limit_for_request ?cfg anonymous_request (Some 5) = Some 2"
    using cap by (simp add: effective_limit_for_request_def apply_role_record_limit_def request_identity_def anonymous_request_def)
  have "\<exists>r. ?get = Inr r"
    using conds
    by (auto simp: lim primary_query_def get_primary_timeseries_items_def primary_body_def Let_def sample_series_def sample_exec_def format_column_def isna_def sample_pandas_def ts_response_of_def
        is_geojson_def sample_primary_def lower_def lower_char_def)
  then obtain r where r: "?get = Inr r" by blast
  have "int (ts_count r) \<le> 2"
    by (rule timeseries_capped [OF sample_series_limit [of "[[CTime 0], [CNone], [CTime 3600]]"] p _ cap,
          where pd = sample_pandas and url = "''u''" and to_features = no_geometry and
          a = sample_primary and lib = sample_timelib])
      (auto simp: r no_geometry_def)
  with r show "\<exists>r. ?get = Inr r \<and> int (ts_count r) \<le> 2" by blast
qed

text \<open>Every failure of the timeseries collections is answered with status 500, the caller's own
  mistakes included: a request naming both kinds of location ids or neither raises the documented
  400 inside the handler, and its own \<open>except Exception\<close> clause wraps it into a 500.\<close>

theorem timeseries_errors_are_500:
  assumes "given (st_primary_location_id b) = given (st_secondary_location_id b)"
  shows "(\<exists>t. get_secondary_timeseries_items cfg lib pd to_features exec rq url b p =
        Inl (HTTPException 500 (DCause ''Failed to load secondary timeseries: ''
          (HTTPException 400 (DText t))))) \<and>
    (case get_primary_timeseries_items cfg lib pd to_features exec rq url a p of
       Inl e \<Rightarrow> exn_status e = Some 500 | Inr _ \<Rightarrow> True) \<and>
    (case get_secondary_timeseries_items cfg lib pd to_features exec rq url c p of
       Inl e \<Rightarrow> exn_status e = Some 500 | Inr _ \<Rightarrow> True)"
proof (intro conjI)
  obtain t where t: "secondary_location b = Inl (HTTPException 400 (DText t))"
    using assms by (cases "given (st_primary_location_id b)") (auto simp: secondary_location_def)
  then have "secondary_conditions lib b = Inl (HTTPException 400 (DText t))"
    by (simp add: secondary_conditions_def conditions_in_order_def)
  then show "\<exists>t. get_secondary_timeseries_items cfg lib pd to_features exec rq url b p =
        Inl (HTTPException 500 (DCause ''Failed to load secondary timeseries: ''
          (HTTPException 400 (DText t))))"
    by (simp add: get_secondary_timeseries_items_def secondary_body_def Let_def failing_as_def)
  show "case get_primary_timeseries_items cfg lib pd to_features exec rq url a p of
       Inl e \<Rightarrow> exn_status e = Some 500 | Inr _ \<Rightarrow> True"
    by (auto simp: get_primary_timeseries_items_def dest: failing_as_status split: sum.split)
  show "case get_secondary_timeseries_items cfg lib pd to_features exec rq url c p of
       Inl e \<Rightarrow> exn_status e = Some 500 | Inr _ \<Rightarrow> True"
    by (auto simp: get_secondary_timeseries_items_def dest: failing_as_status split: sum.split)
qed

definition sample_secondary :: secondary_args where
  "sample_secondary =
     \<lparr>st_primary_location_id = Some [''usgs-1''], st_secondary_location_id = Some [''nwm30-2''], st_datetime = None,
      st_reference_time = None, st_variable_name = None, st_configuration_name = None,
      st_timestep_duration = None, st_f = None\<rparr>"

lemma timeseries_errors_are_500_witness:
  "\<forall>cfg :: Config. \<exists>t. get_secondary_timeseries_items cfg sample_timelib sample_pandas no_geometry (sample_exec [])
     anonymous_request ''u'' sample_secondary \<lparr>pa_limit = None, pa_offset = None\<rparr> =
     Inl (HTTPException 500 (DCause ''Failed to load secondary timeseries: '' (HTTPException 400 (DText t))))"
proof -
  have "given (st_primary_location_id sample_secondary) = given (st_secondary_location_id sample_secondary)"
    by (simp add: sample_secondary_def given_def)
  from timeseries_errors_are_500 [OF this, THEN conjunct1] show ?thesis by blast
qed

end
