(* ===== verification/Queryables.thy ===== *)
theory Queryables
  imports Item_Query
begin

text \<open>
  Queryable schemas and values (\<open>routes/queryables.py\<close>): the static collections, the schema read
  from the Iceberg properties of a table, the combinations table and the values endpoint.  The
  rows of a raw metadata query and \<open>execute_query\<close> are parameters.
\<close>

section \<open>The static collections\<close>

record collection_config =
  cc_table :: string
  cc_type :: string
  cc_description :: string
  cc_static_properties :: "(string, json) dict"

definition locations_config :: collection_config where
  "locations_config =
     \<lparr>cc_table = ''locations'', cc_type = ''feature'',
      cc_description = ''Geographic locations where observations are collected'',
      cc_static_properties =
      [(''id'', JObj [(''title'', JStr ''Location ID''), (''type'', JStr ''string''), (''x-ogc-role'', JStr ''id'')]),
       (''name'', JObj [(''title'', JStr ''Location Name''), (''type'', JStr ''string'')]),
       (''geometry'', JObj [(''$ref'', JStr ''https://geojson.org/schema/Point.json''), (''x-ogc-role'', JStr ''primary-geometry'')]),
       (''properties'', JObj [(''title'', JStr ''Additional Properties''), (''type'', JStr ''object'')]),
       (''created_at'', JObj [(''title'', JStr ''Created At''), (''type'', JStr ''string''), (''format'', JStr ''date-time'')]),
       (''updated_at'', JObj [(''title'', JStr ''Updated At''), (''type'', JStr ''string''), (''format'', JStr ''date-time'')])]\<rparr>"

definition primary_timeseries_config :: collection_config where
  "primary_timeseries_config =
     \<lparr>cc_table = ''primary_timeseries'', cc_type = ''feature'',
      cc_description = ''Observed timeseries data at monitoring locations'',
      cc_static_properties =
      [(''location_id'', JObj [(''title'', JStr ''Location ID''), (''type'', JStr ''string''), (''x-ogc-role'', JStr ''id'')]),
       (''value_time'', JObj [(''title'', JStr ''Value Time''), (''type'', JStr ''string''), (''format'', JStr ''date-time'')]),
       (''value'', JObj [(''title'', JStr ''Observed Value''), (''type'', JStr ''number'')]),
       (''variable_name'', JObj [(''title'', JStr ''Variable/Parameter''), (''type'', JStr ''string'')]),
       (''configuration_name'', JObj [(''title'', JStr ''Configuration''), (''type'', JStr ''string'')]),
       (''unit_name'', JObj [(''title'', JStr ''Unit''), (''type'', JStr ''string'')]),
       (''created_at'', JObj [(''title'', JStr ''Created At''), (''type'', JStr ''string''), (''format'', JStr ''date-time'')]),
       (''updated_at'', JObj [(''title'', JStr ''Updated At''), (''type'', JStr ''string''), (''format'', JStr ''date-time'')])]\<rparr>"

definition secondary_timeseries_config :: collection_config where
  "secondary_timeseries_config =
     \<lparr>cc_table = ''secondary_timeseries'', cc_type = ''feature'',
      cc_description = ''Forecast/simulated timeseries data'',
      cc_static_properties =
      [(''location_id'', JObj [(''title'', JStr ''Location ID''), (''type'', JStr ''string''), (''x-ogc-role'', JStr ''id'')]),
       (''value_time'', JObj [(''title'', JStr ''Value Time''), (''type'', JStr ''string''), (''format'', JStr ''date-time'')]),
       (''reference_time'', JObj [(''title'', JStr ''Reference/Forecast Time''), (''type'', JStr ''string''), (''format'', JStr ''date-time'')]),
       (''value'', JObj [(''title'', JStr ''Forecast Value''), (''type'', JStr ''number'')]),
       (''variable_name'', JObj [(''title'', JStr ''Variable/Parameter''), (''type'', JStr ''string'')]),
       (''configuration_name'', JObj [(''title'', JStr ''Configuration''), (''type'', JStr ''string'')]),
       (''member'', JObj [(''title'', JStr ''Ensemble Member''), (''type'', JStr ''string'')]),
       (''unit_name'', JObj [(''title'', JStr ''Unit''), (''type'', JStr ''string'')]),
       (''created_at'', JObj [(''title'', JStr ''Created At''), (''type'', JStr ''string''), (''format'', JStr ''date-time'')]),
       (''updated_at'', JObj [(''title'', JStr ''Updated At''), (''type'', JStr ''string''), (''format'', JStr ''date-time'')])]\<rparr>"

definition location_crosswalks_config :: collection_config where
  "location_crosswalks_config =
     \<lparr>cc_table = ''location_crosswalks'', cc_type = ''feature'',
      cc_description = ''Crosswalk mapping between primary and secondary location identifiers'',
      cc_static_properties =
      [(''primary_location_id'', JObj [(''title'', JStr ''Primary Location ID''), (''type'', JStr ''string'')]),
       (''secondary_location_id'', JObj [(''title'', JStr ''Secondary Location ID''), (''type'', JStr ''string'')]),
       (''properties'', JObj [(''title'', JStr ''Additional Properties''), (''type'', JStr ''object'')]),
       (''created_at'', JObj [(''title'', JStr ''Created At''), (''type'', JStr ''string''), (''format'', JStr ''date-time'')]),
       (''updated_at'', JObj [(''title'', JStr ''Updated At''), (''type'', JStr ''string''), (''format'', JStr ''date-time'')])]\<rparr>"

definition location_id_aliases_config :: collection_config where
  "location_id_aliases_config =
     \<lparr>cc_table = ''location_id_aliases'', cc_type = ''feature'',
      cc_description = ''Alternate IDs that map to a location ID'',
      cc_static_properties =
      [(''location_id'', JObj [(''title'', JStr ''Location ID''), (''type'', JStr ''string'')]),
       (''location_id_alias'', JObj [(''title'', JStr ''Location ID Alias''), (''type'', JStr ''string'')]),
       (''properties'', JObj [(''title'', JStr ''Additional Properties''), (''type'', JStr ''object'')]),
       (''created_at'', JObj [(''title'', JStr ''Created At''), (''type'', JStr ''string''), (''format'', JStr ''date-time'')]),
       (''updated_at'', JObj [(''title'', JStr ''Updated At''), (''type'', JStr ''string''), (''format'', JStr ''date-time'')])]\<rparr>"

definition configuration_pairs_config :: collection_config where
  "configuration_pairs_config =
     \<lparr>cc_table = ''configuration_pairs'', cc_type = ''feature'',
      cc_description = ''Primary configurations each secondary configuration is evaluated against'',
      cc_static_properties =
      [(''primary_configuration_name'', JObj [(''title'', JStr ''Primary Configuration Name''), (''type'', JStr ''string'')]),
       (''secondary_configuration_name'', JObj [(''title'', JStr ''Secondary Configuration Name''), (''type'', JStr ''string'')]),
       (''properties'', JObj [(''title'', JStr ''Additional Properties''), (''type'', JStr ''object'')]),
       (''created_at'', JObj [(''title'', JStr ''Created At''), (''type'', JStr ''string''), (''format'', JStr ''date-time'')]),
       (''updated_at'', JObj [(''title'', JStr ''Updated At''), (''type'', JStr ''string''), (''format'', JStr ''date-time'')])]\<rparr>"

definition configurations_config :: collection_config where
  "configurations_config =
     \<lparr>cc_table = ''configurations'', cc_type = ''feature'',
      cc_description = ''Configuration definitions for data sources'',
      cc_static_properties =
      [(''name'', JObj [(''title'', JStr ''Configuration Name''), (''type'', JStr ''string''), (''x-ogc-role'', JStr ''id'')]),
       (''timeseries_type'', JObj [(''title'', JStr ''Type''), (''type'', JStr ''string'')]),
       (''description'', JObj [(''title'', JStr ''Description''), (''type'', JStr ''string'')]),
       (''properties'', JObj [(''title'', JStr ''Additional Properties''), (''type'', JStr ''object'')]),
       (''created_at'', JObj [(''title'', JStr ''Created At''), (''type'', JStr ''string''), (''format'', JStr ''date-time'')]),
       (''updated_at'', JObj [(''title'', JStr ''Updated At''), (''type'', JStr ''string''), (''format'', JStr ''date-time'')])]\<rparr>"

definition units_config :: collection_config where
  "units_config =
     \<lparr>cc_table = ''units'', cc_type = ''feature'',
      cc_description = ''Unit definitions for measurements'',
      cc_static_properties =
      [(''name'', JObj [(''title'', JStr ''Unit Name''), (''type'', JStr ''string''), (''x-ogc-role'', JStr ''id'')]),
       (''long_name'', JObj [(''title'', JStr ''Long Name''), (''type'', JStr ''string'')]),
       (''created_at'', JObj [(''title'', JStr ''Created At''), (''type'', JStr ''string''), (''format'', JStr ''date-time'')]),
       (''updated_at'', JObj [(''title'', JStr ''Updated At''), (''type'', JStr ''string''), (''format'', JStr ''date-time'')])]\<rparr>"

definition variables_config :: collection_config where
  "variables_config =
     \<lparr>cc_table = ''variables'', cc_type = ''feature'',
      cc_description = ''Variable definitions for measured quantities'',
      cc_static_properties =
      [(''name'', JObj [(''title'', JStr ''Variable Name''), (''type'', JStr ''string''), (''x-ogc-role'', JStr ''id'')]),
       (''long_name'', JObj [(''title'', JStr ''Long Name''), (''type'', JStr ''string'')]),
       (''created_at'', JObj [(''title'', JStr ''Created At''), (''type'', JStr ''string''), (''format'', JStr ''date-time'')]),
       (''updated_at'', JObj [(''title'', JStr ''Updated At''), (''type'', JStr ''string''), (''format'', JStr ''date-time'')])]\<rparr>"

definition attributes_config :: collection_config where
  "attributes_config =
     \<lparr>cc_table = ''attributes'', cc_type = ''feature'',
      cc_description = ''Attribute definitions for location attribute types'',
      cc_static_properties =
      [(''name'', JObj [(''title'', JStr ''Attribute Name''), (''type'', JStr ''string''), (''x-ogc-role'', JStr ''id'')]),
       (''description'', JObj [(''title'', JStr ''Description''), (''type'', JStr ''string'')]),
       (''type'', JObj [(''title'', JStr ''Type''), (''type'', JStr ''string'')]),
       (''created_at'', JObj [(''title'', JStr ''Created At''), (''type'', JStr ''string''), (''format'', JStr ''date-time'')]),
       (''updated_at'', JObj [(''title'', JStr ''Updated At''), (''type'', JStr ''string''), (''format'', JStr ''date-time'')])]\<rparr>"

definition location_attributes_config :: collection_config where
  "location_attributes_config =
     \<lparr>cc_table = ''location_attributes'', cc_type = ''feature'',
      cc_description = ''Attribute values associated with locations'',
      cc_static_properties =
      [(''location_id'', JObj [(''title'', JStr ''Location ID''), (''type'', JStr ''string'')]),
       (''attribute_name'', JObj [(''title'', JStr ''Attribute Name''), (''type'', JStr ''string'')]),
       (''value'', JObj [(''title'', JStr ''Value''), (''type'', JStr ''string'')]),
       (''properties'', JObj [(''title'', JStr ''Additional Properties''), (''type'', JStr ''object'')]),
       (''created_at'', JObj [(''title'', JStr ''Created At''), (''type'', JStr ''string''), (''format'', JStr ''date-time'')]),
       (''updated_at'', JObj [(''title'', JStr ''Updated At''), (''type'', JStr ''string''), (''format'', JStr ''date-time'')])]\<rparr>"

definition COLLECTION_CONFIGS :: "(string, collection_config) dict" where
  "COLLECTION_CONFIGS =
     [(''locations'', locations_config),
      (''primary_timeseries'', primary_timeseries_config),
      (''secondary_timeseries'', secondary_timeseries_config),
      (''location_crosswalks'', location_crosswalks_config),
      (''location_id_aliases'', location_id_aliases_config),
      (''configuration_pairs'', configuration_pairs_config),
      (''configurations'', configurations_config),
      (''units'', units_config),
      (''variables'', variables_config),
      (''attributes'', attributes_config),
      (''location_attributes'', location_attributes_config)]"

section \<open>Schemas\<close>

text \<open>The part of a schema that varies; the TEEHR extensions are absent for a static collection.\<close>

record schema =
  sc_id :: string
  sc_title :: string
  sc_description :: string
  sc_properties :: "(string, json) dict"
  sc_extensions :: "(string list \<times> string list) option"

definition sc_group_by :: "schema \<Rightarrow> string list option" where
  "sc_group_by sch = map_option fst (sc_extensions sch)"

definition schema_json :: "schema \<Rightarrow> json" where
  "schema_json sch =
     JObj ([(''$schema'', JStr ''https://json-schema.org/draft/2020-12/schema''),
            (''$id'', JStr (sc_id sch)), (''type'', JStr ''object''), (''title'', JStr (sc_title sch)),
            (''description'', JStr (sc_description sch)), (''properties'', JObj (sc_properties sch))] @
           (case sc_extensions sch of
              None \<Rightarrow> []
            | Some (g, m) \<Rightarrow> [(''x-teehr-group-by'', JList (map JStr g)), (''x-teehr-metrics'', JList (map JStr m))]))"

text \<open>The parts the filters use.\<close>

definition columns_of :: "schema \<Rightarrow> col_schema" where
  "columns_of sch = \<lparr>cs_group_by = sc_group_by sch, cs_properties = map fst (sc_properties sch)\<rparr>"

definition static_schema :: "string \<Rightarrow> collection_config \<Rightarrow> schema" where
  "static_schema collection_id config =
     \<lparr>sc_id = ''/collections/'' @ collection_id @ ''/queryables'', sc_title = collection_id,
      sc_description = cc_description config, sc_properties = cc_static_properties config,
      sc_extensions = None\<rparr>"

section \<open>The schema of a metrics table\<close>

text \<open>\<open>field.replace("_", " ").title()\<close>: a letter is upper case after a non-letter, else lower case.\<close>

definition is_letter :: "char \<Rightarrow> bool" where
  "is_letter c \<longleftrightarrow> lower_char c \<noteq> c \<or> upper_char c \<noteq> c"

fun title_from :: "bool \<Rightarrow> string \<Rightarrow> string" where
  "title_from inside [] = []"
| "title_from inside (c # s) =
     (if is_letter c then (if inside then lower_char c else upper_char c) # title_from True s
      else c # title_from False s)"

definition field_title :: "string \<Rightarrow> string" where
  "field_title field = title_from False (replace_char (CHR ''_'') '' '' field)"

definition geometry_property :: json where
  "geometry_property =
     JObj [(''$ref'', JStr ''https://geojson.org/schema/Point.json''), (''x-ogc-role'', JStr ''primary-geometry'')]"

definition group_by_property :: "string option \<Rightarrow> string \<Rightarrow> json" where
  "group_by_property ogc_id_field field =
     JObj ([(''title'', JStr (field_title field)), (''type'', JStr ''string''), (''x-teehr-role'', JStr ''group_by'')] @
           (if ogc_id_field = Some field then [(''x-ogc-role'', JStr ''id'')] else []))"

definition metric_property :: "string \<Rightarrow> json" where
  "metric_property field =
     JObj [(''title'', JStr (field_title field)), (''type'', JStr ''number''), (''x-teehr-role'', JStr ''metric'')]"

text \<open>The dictionary is filled in this order: geometry, the group-by columns, the metrics.\<close>

definition table_properties :: "string list \<Rightarrow> string list \<Rightarrow> (string, json) dict" where
  "table_properties group_by metrics =
     fold (\<lambda>f d. dict_set d f (metric_property f)) metrics
       (fold (\<lambda>f d. if f = ''geometry'' then d else dict_set d f (group_by_property (get_id_column group_by) f)) group_by
         (if ''geometry'' \<in> set group_by then [(''geometry'', geometry_property)] else []))"

definition properties_query :: "string \<Rightarrow> string" where
  "properties_query table =
     ''SELECT key, value FROM '' @ [CHR 0x22] @ table @ ''$properties'' @ [CHR 0x22] @
     '' WHERE key IN ('' @ quoted_list [''metrics'', ''group_by'', ''description''] @ '')''"

text \<open>The rows the metadata query returns, as the last value of each key.\<close>

definition meta_of :: "(string \<times> string) list \<Rightarrow> (string, string) dict" where
  "meta_of rows = fold (\<lambda>kv d. dict_set d (fst kv) (snd kv)) rows []"

definition meta_list :: "(string, string) dict \<Rightarrow> string \<Rightarrow> string list" where
  "meta_list meta key =
     (case dict_get meta key of None \<Rightarrow> [] | Some v \<Rightarrow> map strip (split_on (CHR '','') v))"

definition metrics_schema :: "string \<Rightarrow> (string \<times> string) list \<Rightarrow> schema" where
  "metrics_schema table rows =
     (let meta = meta_of rows; group_by = meta_list meta ''group_by''; metrics = meta_list meta ''metrics''
      in \<lparr>sc_id = ''/collections/'' @ table @ ''/queryables'', sc_title = table,
          sc_description = dict_get_default meta ''description'' (''Metrics table: '' @ table),
          sc_properties = table_properties group_by metrics,
          sc_extensions = Some (group_by, metrics)\<rparr>)"

type_synonym fetch = "string \<Rightarrow> exn + (string \<times> string) list"

definition get_metrics_table_queryables :: "fetch \<Rightarrow> string \<Rightarrow> exn + schema" where
  "get_metrics_table_queryables fetch table =
     failing_as (''Failed to load queryables for '' @ table @ '': '')
       (andthen (fetch (properties_query table)) (\<lambda>rows. Inr (metrics_schema table rows)))"

definition build_collection_schema :: "fetch \<Rightarrow> string \<Rightarrow> exn + schema" where
  "build_collection_schema fetch collection_id =
     (case dict_get COLLECTION_CONFIGS collection_id of
        Some config \<Rightarrow> Inr (static_schema collection_id config)
      | None \<Rightarrow>
          andthen (sanitize_string (Some collection_id)) (\<lambda>sanitized. get_metrics_table_queryables fetch sanitized))"

definition get_collection_queryables :: "fetch \<Rightarrow> string \<Rightarrow> exn + json" where
  "get_collection_queryables fetch collection_id =
     andthen (build_collection_schema fetch collection_id) (\<lambda>sch. Inr (schema_json sch))"

section \<open>Values of a property\<close>

definition validate_queryable_property :: "schema \<Rightarrow> string \<Rightarrow> exn + unit" where
  "validate_queryable_property sch property =
     (if property \<notin> fst ` set (sc_properties sch)
      then Inl (HTTPException 400 (DText (''Unsupported property: '' @ property))) else Inr ())"

definition COMBINATIONS_TABLE :: string where
  "COMBINATIONS_TABLE = ''queryable_combinations''"

definition element_at :: "string \<Rightarrow> string" where
  "element_at key = ''element_at(dimensions, '' @ quoted key @ '')''"

definition has_dimension :: "string \<Rightarrow> string" where
  "has_dimension key = ''contains(map_keys(dimensions), '' @ quoted key @ '')''"

definition dimension_condition :: "string \<times> string \<Rightarrow> exn + string" where
  "dimension_condition kv =
     andthen (sanitize_string (Some (snd kv))) (\<lambda>v.
       Inr (element_at (fst kv) @ (if v = ''null'' then '' IS NULL'' else '' = '' @ quoted v)))"

definition current_snapshot :: "Config \<Rightarrow> string \<Rightarrow> string" where
  "current_snapshot cfg collection =
     ''source_snapshot_id = ( SELECT CAST(value AS BIGINT) FROM '' @ TRINO_CATALOG cfg @ ''.'' @ TRINO_SCHEMA cfg @ ''.'' @
     [CHR 0x22] @ collection @ ''$properties'' @ [CHR 0x22] @ '' WHERE key = '' @ quoted ''current-snapshot-id'' @ '' )''"

definition cached_conditions ::
  "Config \<Rightarrow> string \<Rightarrow> string \<Rightarrow> (string, string) dict \<Rightarrow> exn + string list"
where
  "cached_conditions cfg collection property filters =
     andthen (map_result dimension_condition filters) (\<lambda>cs.
       Inr ((''source_table = '' @ quoted collection) # map has_dimension (property # map fst filters) @ cs @
            (if CACHE_REQUIRES_CURRENT_SNAPSHOT cfg then [current_snapshot cfg collection] else [])))"

definition cached_query :: "Config \<Rightarrow> string \<Rightarrow> string list \<Rightarrow> sql_query" where
  "cached_query cfg property conditions =
     \<lparr>sq_select = ''DISTINCT '' @ element_at property @ '' AS '' @ property,
      sq_from = table_name cfg COMBINATIONS_TABLE, sq_where = conditions, sq_order_by = property,
      sq_offset = None, sq_limit = None\<rparr>"

text \<open>\<open>df[name].tolist()\<close>.\<close>

definition column_values :: "string \<Rightarrow> frame \<Rightarrow> exn + cell list" where
  "column_values name df =
     (if name \<in> set (fr_columns df)
      then Inr (map (\<lambda>row. the (map_of (zip (fr_columns df) row) name)) (fr_rows df))
      else Inl (KeyError name))"

text \<open>\<open>None\<close> where the combinations table has no answer: a failed query, or no row.\<close>

definition query_cached_values ::
  "Config \<Rightarrow> pandas \<Rightarrow> exec \<Rightarrow> string \<Rightarrow> string \<Rightarrow> (string, string) dict \<Rightarrow> exn + cell list option"
where
  "query_cached_values cfg pd exec collection property filters =
     andthen (cached_conditions cfg collection property filters) (\<lambda>cs.
       (case exec (cached_query cfg property cs) of
          Inl e \<Rightarrow> Inr None
        | Inr df \<Rightarrow>
            if frame_empty df then Inr None
            else andthen (column_values property (prepared pd None df)) (\<lambda>vs. Inr (Some vs))))"

definition values_query :: "Config \<Rightarrow> string \<Rightarrow> string \<Rightarrow> string list \<Rightarrow> sql_query" where
  "values_query cfg collection property conditions =
     \<lparr>sq_select = ''DISTINCT '' @ property, sq_from = table_name cfg collection, sq_where = conditions,
      sq_order_by = property, sq_offset = None, sq_limit = None\<rparr>"

definition direct_values :: "Config \<Rightarrow> pandas \<Rightarrow> exec \<Rightarrow> string \<Rightarrow> string \<Rightarrow> string list \<Rightarrow> exn + cell list" where
  "direct_values cfg pd exec collection property conditions =
     andthen (exec (values_query cfg collection property conditions)) (\<lambda>df.
       (if frame_empty df then Inr [] else column_values property (prepared pd None df)))"

definition queryable_values_body ::
  "Config \<Rightarrow> pandas \<Rightarrow> fetch \<Rightarrow> exec \<Rightarrow> string \<Rightarrow> string \<Rightarrow> (string, string) dict \<Rightarrow> exn + cell list"
where
  "queryable_values_body cfg pd fetch exec collection property filters =
     andthen (build_collection_schema fetch collection) (\<lambda>sch.
     andthen (validate_queryable_property sch property) (\<lambda>_.
     andthen (verify_filtered_columns (columns_of sch) (map fst filters) True) (\<lambda>_.
     andthen (build_equality_filter_conditions filters) (\<lambda>conds.
     andthen (if property \<in> set (case sc_group_by sch of None \<Rightarrow> [] | Some g \<Rightarrow> g)
              then query_cached_values cfg pd exec collection property filters else Inr None) (\<lambda>cached.
       (case cached of
          Some vs \<Rightarrow> Inr vs
        | None \<Rightarrow> direct_values cfg pd exec collection property conds))))))"

definition get_queryable_values ::
  "Config \<Rightarrow> pandas \<Rightarrow> fetch \<Rightarrow> exec \<Rightarrow> string \<Rightarrow> string \<Rightarrow> (string, string) dict \<Rightarrow> exn + cell list"
where
  "get_queryable_values cfg pd fetch exec collection_id property_name filters =
     andthen (sanitize_string (Some collection_id)) (\<lambda>collection.
     andthen (sanitize_string (Some property_name)) (\<lambda>property.
       (if collection = [] \<or> property = []
        then Inl (HTTPException 400 (DText ''Invalid collection or property name''))
        else failing_as_unless_http (''Failed to get values for '' @ property_name @ '': '')
               (queryable_values_body cfg pd fetch exec collection property filters))))"

section \<open>Facts\<close>

lemma split_join_blank:
  assumes "xs \<noteq> []" "\<And>x. x \<in> set xs \<Longrightarrow> CHR '','' \<notin> set x \<and> strip x = x"
  shows "map strip (split_on (CHR '','') (join '', '' xs)) = xs"
  using assms
proof (induction xs rule: induct_list012)
  case 1
  then show ?case by simp
next
  case (2 x)
  then show ?case by simp
next
  case (3 x y zs)
  have x: "CHR '','' \<notin> set x" "strip x = x" using "3.prems"(2) [of x] by simp_all
  have rest: "map strip (split_on (CHR '','') (join '', '' (y # zs))) = y # zs"
    using "3.IH"(2) "3.prems" by simp
  obtain w ws where w: "split_on (CHR '','') (join '', '' (y # zs)) = w # ws"
    by (cases "split_on (CHR '','') (join '', '' (y # zs))") simp_all
  have "strip (CHR '' '' # w) = strip w" by (simp add: strip_def lstrip_with_def is_space_def)
  moreover have "join '', '' (x # y # zs) = x @ CHR '','' # CHR '' '' # join '', '' (y # zs)" by simp
  ultimately show ?case
    using w rest x split_on_append_sep [of "CHR '',''" x "CHR '' '' # join '', '' (y # zs)"] by simp
qed

lemma fold_set_get:
  "dict_get (fold (\<lambda>k d. dict_set d k (f k)) ks d) k = (if k \<in> set ks then Some (f k) else dict_get d k)"
  by (induction ks arbitrary: d) auto

lemma fold_skip_get:
  "dict_get (fold (\<lambda>k d. if k = x then d else dict_set d k (f k)) ks d) k =
     (if k \<in> set ks \<and> k \<noteq> x then Some (f k) else dict_get d k)"
  by (induction ks arbitrary: d) auto

lemma fold_set_ok: "dict_ok d \<Longrightarrow> dict_ok (fold (\<lambda>k d. dict_set d k (f k)) ks d)"
  by (induction ks arbitrary: d) auto

lemma fold_skip_ok: "dict_ok d \<Longrightarrow> dict_ok (fold (\<lambda>k d. if k = x then d else dict_set d k (f k)) ks d)"
  by (induction ks arbitrary: d) auto

lemma table_properties_get:
  "dict_get (table_properties gs ms) f =
     (if f \<in> set ms then Some (metric_property f)
      else if f \<notin> set gs then None
      else if f = ''geometry'' then Some geometry_property
      else Some (group_by_property (get_id_column gs) f))"
  unfolding table_properties_def fold_set_get fold_skip_get by simp

lemma table_properties_ok: "dict_ok (table_properties gs ms)"
  unfolding table_properties_def by (intro fold_set_ok fold_skip_ok) (simp add: dict_ok_def)

lemma dict_keys: "k \<in> fst ` set d \<longleftrightarrow> dict_get d k \<noteq> None"
  by (metis domIff dom_map_of_conv_image_fst)

text \<open>The schema of a metrics table says what its properties say: names written as a comma-separated
  list are read back in order, exactly they become properties, each once and in its role (a metric,
  the geometry, a dimension with the id role on the id column alone), and the dimensions are exactly
  the columns the item filters accept.\<close>

theorem schema_reads_table:
  assumes "gs \<noteq> []" "ms \<noteq> []"
    and "\<And>x. x \<in> set (gs @ ms) \<Longrightarrow> CHR '','' \<notin> set x \<and> strip x = x"
    and "fetch (properties_query table) = Inr rows"
    and "map_of (rev rows) ''group_by'' = Some (join '', '' gs)"
    and "map_of (rev rows) ''metrics'' = Some (join '', '' ms)"
  shows "\<exists>sch. get_metrics_table_queryables fetch table = Inr sch \<and> sc_extensions sch = Some (gs, ms) \<and>
    dict_ok (sc_properties sch) \<and> fst ` set (sc_properties sch) = set gs \<union> set ms \<and>
    (\<forall>f. dict_get (sc_properties sch) f =
       (if f \<in> set ms then Some (metric_property f) else if f \<notin> set gs then None
        else if f = ''geometry'' then Some geometry_property
        else Some (group_by_property (get_id_column gs) f))) \<and>
    (\<forall>fs. verify_filtered_columns (columns_of sch) fs False = Inr () \<longleftrightarrow> set fs \<subseteq> set gs)"
proof -
  have meta: "dict_get (meta_of rows) k = map_of (rev rows) k" for k
  proof -
    have "dict_get (fold (\<lambda>kv d. dict_set d (fst kv) (snd kv)) rows d) k =
        (case map_of (rev rows) k of None \<Rightarrow> dict_get d k | Some v \<Rightarrow> Some v)" for d
      by (induction rows arbitrary: d) (auto simp: map_add_def split: option.splits)
    then show ?thesis by (simp add: meta_of_def split: option.splits)
  qed
  have g: "meta_list (meta_of rows) ''group_by'' = gs"
    using assms(1,3,5) split_join_blank [of gs] by (simp add: meta_list_def meta)
  have m: "meta_list (meta_of rows) ''metrics'' = ms"
    using assms(2,3,6) split_join_blank [of ms] by (simp add: meta_list_def meta)
  let ?sch = "metrics_schema table rows"
  have ext: "sc_extensions ?sch = Some (gs, ms)" and props: "sc_properties ?sch = table_properties gs ms"
    by (simp_all add: metrics_schema_def Let_def g m)
  have "set gs \<union> set ms = fst ` set (table_properties gs ms)"
    by (rule set_eqI) (simp add: dict_keys table_properties_get)
  moreover have "verify_filtered_columns (columns_of ?sch) fs False = Inr () \<longleftrightarrow> set fs \<subseteq> set gs" for fs
    by (auto simp: verify_filtered_columns_def get_filterable_columns_def columns_of_def sc_group_by_def ext
        filter_empty_conv)
  ultimately show ?thesis
    using assms(4) ext props table_properties_get table_properties_ok
    by (intro exI [of _ ?sch]) (simp add: get_metrics_table_queryables_def)
qed

lemma schema_reads_table_witness:
  "\<exists>sch. get_metrics_table_queryables
       (\<lambda>_. Inr [(''group_by'', ''location_id, member''), (''metrics'', ''kge'')]) ''fcst_metrics'' = Inr sch \<and>
     sc_extensions sch = Some ([''location_id'', ''member''], [''kge''])"
proof -
  have "x \<in> set ([''location_id'', ''member''] @ [''kge'']) \<Longrightarrow> CHR '','' \<notin> set x \<and> strip x = x" for x
    by (auto simp: strip_def lstrip_with_def rstrip_with_def is_space_def)
  note names = this
  let ?fetch = "\<lambda>_. Inr [(''group_by'', ''location_id, member''), (''metrics'', ''kge'')]"
  have "\<exists>sch. get_metrics_table_queryables ?fetch ''fcst_metrics'' = Inr sch \<and>
      sc_extensions sch = Some ([''location_id'', ''member''], [''kge'']) \<and> True"
    by (rule ex_forward [OF schema_reads_table [where fetch = ?fetch and table = "''fcst_metrics''" and
          gs = "[''location_id'', ''member'']" and ms = "[''kge'']" and
          rows = "[(''group_by'', ''location_id, member''), (''metrics'', ''kge'')]"]])
      (use names in \<open>simp_all\<close>)
  then show ?thesis by blast
qed

section \<open>The combinations table\<close>

text \<open>The values endpoint without the combinations table: what the source table says.\<close>

definition source_values ::
  "Config \<Rightarrow> pandas \<Rightarrow> fetch \<Rightarrow> exec \<Rightarrow> string \<Rightarrow> string \<Rightarrow> (string, string) dict \<Rightarrow> exn + cell list"
where
  "source_values cfg pd fetch exec collection property filters =
     failing_as_unless_http (''Failed to get values for '' @ property @ '': '')
       (andthen (build_collection_schema fetch collection) (\<lambda>sch.
        andthen (validate_queryable_property sch property) (\<lambda>_.
        andthen (verify_filtered_columns (columns_of sch) (map fst filters) True) (\<lambda>_.
        andthen (build_equality_filter_conditions filters) (\<lambda>conds.
          direct_values cfg pd exec collection property conds)))))"

text \<open>
  What the two tables hold, apart from any SQL.  A row of the combinations table names its
  source table, the snapshot it was made at and a map of dimensions; the columns of a source
  table are texts or null.
\<close>

record combination =
  cb_source :: string
  cb_snapshot :: int
  cb_dims :: "string \<rightharpoonup> string option"

type_synonym source_row = "string \<Rightarrow> string option"

datatype combo_condition =
    SourceIs string
  | HasKey string
  | DimIs string string
  | DimIsNull string
  | SnapshotCurrent string

text \<open>What the conditions mean: \<open>element_at\<close> is null where the key is missing or its value is.\<close>

fun combo_holds :: "(string \<Rightarrow> int) \<Rightarrow> combination \<Rightarrow> combo_condition \<Rightarrow> bool" where
  "combo_holds current r (SourceIs t) \<longleftrightarrow> cb_source r = t"
| "combo_holds current r (HasKey k) \<longleftrightarrow> cb_dims r k \<noteq> None"
| "combo_holds current r (DimIs k v) \<longleftrightarrow> cb_dims r k = Some (Some v)"
| "combo_holds current r (DimIsNull k) \<longleftrightarrow> cb_dims r k = None \<or> cb_dims r k = Some None"
| "combo_holds current r (SnapshotCurrent t) \<longleftrightarrow> cb_snapshot r = current t"

text \<open>Their SQL, letter for letter.\<close>

fun combo_sql :: "Config \<Rightarrow> combo_condition \<Rightarrow> string" where
  "combo_sql cfg (SourceIs t) = ''source_table = '' @ [CHR 0x27] @ t @ [CHR 0x27]"
| "combo_sql cfg (HasKey k) = ''contains(map_keys(dimensions), '' @ [CHR 0x27] @ k @ [CHR 0x27] @ '')''"
| "combo_sql cfg (DimIs k v) =
     ''element_at(dimensions, '' @ [CHR 0x27] @ k @ [CHR 0x27] @ '') = '' @ [CHR 0x27] @ v @ [CHR 0x27]"
| "combo_sql cfg (DimIsNull k) = ''element_at(dimensions, '' @ [CHR 0x27] @ k @ [CHR 0x27] @ '') IS NULL''"
| "combo_sql cfg (SnapshotCurrent t) =
     ''source_snapshot_id = ( SELECT CAST(value AS BIGINT) FROM '' @ TRINO_CATALOG cfg @ ''.'' @ TRINO_SCHEMA cfg @
     ''.'' @ [CHR 0x22] @ t @ ''$properties'' @ [CHR 0x22] @ '' WHERE key = '' @ [CHR 0x27] @ ''current-snapshot-id'' @
     [CHR 0x27] @ '' )''"

text \<open>
  What a request asks of the combinations table: rows of this table, with the property and
  every filter among their dimensions, that meet the filters, made at the current snapshot
  where that is required.
\<close>

definition request_conditions ::
  "Config \<Rightarrow> string \<Rightarrow> string \<Rightarrow> (string, string) dict \<Rightarrow> combo_condition list"
where
  "request_conditions cfg collection property filters =
     [SourceIs collection, HasKey property] @ map (\<lambda>kv. HasKey (fst kv)) filters @
     map (\<lambda>kv. if snd kv = ''null'' then DimIsNull (fst kv) else DimIs (fst kv) (snd kv)) filters @
     (if CACHE_REQUIRES_CURRENT_SNAPSHOT cfg then [SnapshotCurrent collection] else [])"

definition combinations_query :: "Config \<Rightarrow> string \<Rightarrow> combo_condition list \<Rightarrow> sql_query" where
  "combinations_query cfg property conditions =
     \<lparr>sq_select = ''DISTINCT element_at(dimensions, '' @ [CHR 0x27] @ property @ [CHR 0x27] @ '') AS '' @ property,
      sq_from = TRINO_CATALOG cfg @ ''.'' @ TRINO_SCHEMA cfg @ ''.queryable_combinations'',
      sq_where = map (combo_sql cfg) conditions, sq_order_by = property, sq_offset = None, sq_limit = None\<rparr>"

definition source_query :: "Config \<Rightarrow> string \<Rightarrow> string \<Rightarrow> (string, string) dict \<Rightarrow> sql_query" where
  "source_query cfg collection property filters =
     \<lparr>sq_select = ''DISTINCT '' @ property,
      sq_from = TRINO_CATALOG cfg @ ''.'' @ TRINO_SCHEMA cfg @ ''.'' @ collection,
      sq_where = map (\<lambda>kv. if snd kv = ''null'' then fst kv @ '' IS NULL''
                           else fst kv @ '' = '' @ [CHR 0x27] @ snd kv @ [CHR 0x27]) filters,
      sq_order_by = property, sq_offset = None, sq_limit = None\<rparr>"

text \<open>The values each query selects, and the frame of \<open>SELECT DISTINCT\<close> with \<open>ORDER BY\<close>: nulls come last.\<close>

definition combo_values ::
  "(string \<Rightarrow> int) \<Rightarrow> combination list \<Rightarrow> combo_condition list \<Rightarrow> string \<Rightarrow> string option set"
where
  "combo_values current combos conditions property =
     {v. \<exists>r \<in> set combos. (\<forall>c \<in> set conditions. combo_holds current r c) \<and> cb_dims r property = Some v}"

definition table_values :: "source_row list \<Rightarrow> (string, string) dict \<Rightarrow> string \<Rightarrow> string option set" where
  "table_values table filters property =
     {row property | row. row \<in> set table \<and>
        (\<forall>kv \<in> set filters. row (fst kv) = (if snd kv = ''null'' then None else Some (snd kv)))}"

definition distinct_frame :: "string \<Rightarrow> string option set \<Rightarrow> frame" where
  "distinct_frame property vs =
     \<lparr>fr_columns = [property],
      fr_rows = map (\<lambda>v. [CJson (JStr v)]) (sorted_list_of_set {v. Some v \<in> vs}) @ (if None \<in> vs then [[CNone]] else [])\<rparr>"

text \<open>
  What the workflow fills the table with: for some sets of columns, the combinations of their
  values in the source table, each set in full; nothing at all is one such filling.  Where the
  current snapshot is required only the rows of that snapshot need to be so.
\<close>

definition combinations_filled ::
  "Config \<Rightarrow> (string \<Rightarrow> int) \<Rightarrow> combination list \<Rightarrow> string \<Rightarrow> source_row list \<Rightarrow> bool"
where
  "combinations_filled cfg current combos collection table \<longleftrightarrow>
     (\<exists>Ks. \<forall>d. (\<exists>r \<in> set combos. cb_source r = collection \<and> cb_dims r = d \<and>
                 (CACHE_REQUIRES_CURRENT_SNAPSHOT cfg \<longrightarrow> cb_snapshot r = current collection)) \<longleftrightarrow>
             (\<exists>K \<in> Ks. \<exists>row \<in> set table. d = (\<lambda>k. if k \<in> K then Some (row k) else None)))"

lemma filled_values:
  assumes "combinations_filled cfg current combos collection table"
  shows "combo_values current combos (request_conditions cfg collection property filters) property \<in>
    {{}, table_values table filters property}"
proof -
  from assms obtain Ks where Ks: "\<And>d. (\<exists>r \<in> set combos. cb_source r = collection \<and> cb_dims r = d \<and>
        (CACHE_REQUIRES_CURRENT_SNAPSHOT cfg \<longrightarrow> cb_snapshot r = current collection)) \<longleftrightarrow>
      (\<exists>K \<in> Ks. \<exists>row \<in> set table. d = (\<lambda>k. if k \<in> K then Some (row k) else None))"
    unfolding combinations_filled_def by blast
  let ?want = "\<lambda>d. \<forall>kv \<in> set filters. d (fst kv) = Some (if snd kv = ''null'' then None else Some (snd kv))"
  have one: "(\<exists>d. (\<exists>K \<in> Ks. \<exists>row \<in> set table. d = (\<lambda>k. if k \<in> K then Some (row k) else None)) \<and> Q d) \<longleftrightarrow>
      (\<exists>K \<in> Ks. \<exists>row \<in> set table. Q (\<lambda>k. if k \<in> K then Some (row k) else None))" for Q :: "(string \<rightharpoonup> string option) \<Rightarrow> bool"
    by blast
  have some: "?want (\<lambda>k. if k \<in> K then Some (row k) else None) \<and>
        (if property \<in> K then Some (row property) else None) = Some v \<longleftrightarrow>
      insert property (fst ` set filters) \<subseteq> K \<and> row property = v \<and>
      (\<forall>kv \<in> set filters. row (fst kv) = (if snd kv = ''null'' then None else Some (snd kv)))" for K v and row :: source_row
    by (auto simp: image_subset_iff split: if_split_asm)
  have parts: "(\<forall>c \<in> set (request_conditions cfg collection property filters). combo_holds current r c) \<longleftrightarrow>
      cb_source r = collection \<and> cb_dims r property \<noteq> None \<and> (\<forall>kv \<in> set filters. cb_dims r (fst kv) \<noteq> None) \<and>
      (\<forall>kv \<in> set filters. combo_holds current r (if snd kv = ''null'' then DimIsNull (fst kv) else DimIs (fst kv) (snd kv))) \<and>
      (CACHE_REQUIRES_CURRENT_SNAPSHOT cfg \<longrightarrow> cb_snapshot r = current collection)" for r
    unfolding list_all_iff [symmetric]
    by (simp add: request_conditions_def list_all_append list.pred_map comp_def)
  have conditions: "(\<forall>c \<in> set (request_conditions cfg collection property filters). combo_holds current r c) \<longleftrightarrow>
      cb_source r = collection \<and> cb_dims r property \<noteq> None \<and> ?want (cb_dims r) \<and>
      (CACHE_REQUIRES_CURRENT_SNAPSHOT cfg \<longrightarrow> cb_snapshot r = current collection)" for r
    unfolding parts by fastforce
  have "combo_values current combos (request_conditions cfg collection property filters) property =
      {v. \<exists>d. (\<exists>r \<in> set combos. cb_source r = collection \<and> cb_dims r = d \<and>
        (CACHE_REQUIRES_CURRENT_SNAPSHOT cfg \<longrightarrow> cb_snapshot r = current collection)) \<and> ?want d \<and> d property = Some v}"
    unfolding combo_values_def conditions by auto
  also have "\<dots> = {v. \<exists>K \<in> Ks. \<exists>row \<in> set table. insert property (fst ` set filters) \<subseteq> K \<and> row property = v \<and>
      (\<forall>kv \<in> set filters. row (fst kv) = (if snd kv = ''null'' then None else Some (snd kv)))}"
    unfolding Ks one some ..
  also have "\<dots> \<in> {{}, table_values table filters property}"
  proof (cases "\<exists>K \<in> Ks. insert property (fst ` set filters) \<subseteq> K")
    case True
    then show ?thesis unfolding table_values_def by blast
  next
    case False
    then show ?thesis by blast
  qed
  finally show ?thesis .
qed

text \<open>The queries the code makes are those, letter for letter.\<close>

lemma cached_conditions_sql:
  assumes "build_equality_filter_conditions filters = Inr conds"
  shows "cached_conditions cfg collection property filters =
    Inr (map (combo_sql cfg) (request_conditions cfg collection property filters))"
proof -
  have "map_result dimension_condition filters =
      Inr (map (\<lambda>kv. combo_sql cfg (if snd kv = ''null'' then DimIsNull (fst kv) else DimIs (fst kv) (snd kv))) filters)"
    using assms
    by (intro map_result_total)
      (auto simp: build_equality_Inr list_all_iff dimension_condition_def sanitize_Inr andthen_Inr_iff
        element_at_def quoted_def)
  then show ?thesis
    by (simp add: cached_conditions_def request_conditions_def has_dimension_def quoted_def current_snapshot_def comp_def)
qed

lemma cached_query_sql:
  "cached_query cfg property (map (combo_sql cfg) conditions) = combinations_query cfg property conditions"
  by (simp add: cached_query_def combinations_query_def element_at_def quoted_def table_name_def COMBINATIONS_TABLE_def)

lemma values_query_sql:
  "build_equality_filter_conditions filters = Inr conds \<Longrightarrow>
   values_query cfg collection property conds = source_query cfg collection property filters"
  by (simp add: build_equality_Inr values_query_def source_query_def equality_condition_def quoted_def table_name_def)

lemma distinct_frame_values:
  "\<exists>vs. column_values property (prepared pd None (distinct_frame property S)) = Inr vs"
  by (simp add: column_values_def distinct_frame_def)

lemma distinct_frame_empty: "frame_empty (distinct_frame property S)" if "S = {}"
  using that by (simp add: frame_empty_def distinct_frame_def)

text \<open>
  The lookup has no answer, or answers what the source query selects.  \<open>true_frame\<close> is what the
  source query selects.
\<close>

definition true_frame :: "source_row list \<Rightarrow> (string, string) dict \<Rightarrow> string \<Rightarrow> frame" where
  "true_frame table filters property = distinct_frame property (table_values table filters property)"

lemma cached_answer:
  assumes "build_equality_filter_conditions filters = Inr conds"
    and "combinations_filled cfg current combos collection table"
    and "\<And>df. exec (combinations_query cfg property (request_conditions cfg collection property filters)) = Inr df \<Longrightarrow>
      df = distinct_frame property
        (combo_values current combos (request_conditions cfg collection property filters) property)"
  shows "query_cached_values cfg pd exec collection property filters = Inr None \<or>
    (\<exists>vs. query_cached_values cfg pd exec collection property filters = Inr (Some vs) \<and>
       (if frame_empty (true_frame table filters property) then Inr []
        else column_values property (prepared pd None (true_frame table filters property))) = Inr vs)"
proof (cases "exec (combinations_query cfg property (request_conditions cfg collection property filters))")
  case (Inl e)
  then show ?thesis
    by (simp add: query_cached_values_def cached_conditions_sql [OF assms(1)] cached_query_sql)
next
  case (Inr df)
  show ?thesis
  proof (cases "frame_empty df")
    case True
    with Inr show ?thesis
      by (simp add: query_cached_values_def cached_conditions_sql [OF assms(1)] cached_query_sql)
  next
    case False
    with assms(3) [OF Inr] filled_values [OF assms(2), of property filters] have df: "df = true_frame table filters property"
      using distinct_frame_empty by (auto simp: true_frame_def)
    obtain vs where "column_values property (prepared pd None df) = Inr vs"
      using distinct_frame_values df unfolding true_frame_def by blast
    with False Inr show ?thesis
      by (simp add: query_cached_values_def cached_conditions_sql [OF assms(1)] cached_query_sql df [symmetric])
  qed
qed

text \<open>C24 The combinations table only saves time.  Let it hold what the workflow fills it with, and let
  the database answer the two queries of a request, if at all, with the distinct values they
  select: of its rows that are of this table, have the property and the filters among their
  dimensions, meet the filters and are current where that is required; and of the source
  table.  Then the values endpoint answers, errors included, exactly what the source table alone
  gives; only where that cannot be read the combinations table may still answer, and then with
  what the source table holds.\<close>

theorem values_cache_transparent:
  assumes "safe_text collection" "safe_text property"
    and "combinations_filled cfg current combos collection table"
    and "\<And>df. exec (combinations_query cfg property (request_conditions cfg collection property filters)) = Inr df \<Longrightarrow>
      df = distinct_frame property
        (combo_values current combos (request_conditions cfg collection property filters) property)"
    and "\<And>df. exec (source_query cfg collection property filters) = Inr df \<Longrightarrow>
      df = distinct_frame property (table_values table filters property)"
  shows "get_queryable_values cfg pd fetch exec collection property filters =
      source_values cfg pd fetch exec collection property filters \<or>
    (\<exists>e. exec (source_query cfg collection property filters) = Inl e) \<and>
    get_queryable_values cfg pd fetch exec collection property filters =
      source_values cfg pd fetch
        (exec(source_query cfg collection property filters := Inr (distinct_frame property (table_values table filters property))))
        collection property filters"
proof -
  let ?q = "source_query cfg collection property filters"
  let ?true = "true_frame table filters property"
  have san: "sanitize_string (Some collection) = Inr collection" "sanitize_string (Some property) = Inr property"
    and ne: "collection \<noteq> []" "property \<noteq> []"
    using assms(1,2) by (auto simp: sanitize_Inr safe_text_def)
  have answers: "get_queryable_values cfg pd fetch exec collection property filters =
      source_values cfg pd fetch exec' collection property filters"
    if "\<And>sch conds. build_collection_schema fetch collection = Inr sch \<Longrightarrow> build_equality_filter_conditions filters = Inr conds \<Longrightarrow>
      andthen (if property \<in> set (case sc_group_by sch of None \<Rightarrow> [] | Some g \<Rightarrow> g)
               then query_cached_values cfg pd exec collection property filters else Inr None)
        (\<lambda>cached. case cached of Some vs \<Rightarrow> Inr vs | None \<Rightarrow> direct_values cfg pd exec collection property conds) =
      direct_values cfg pd exec' collection property conds" for exec'
  proof -
    have "queryable_values_body cfg pd fetch exec collection property filters =
      andthen (build_collection_schema fetch collection) (\<lambda>sch.
      andthen (validate_queryable_property sch property) (\<lambda>_.
      andthen (verify_filtered_columns (columns_of sch) (map fst filters) True) (\<lambda>_.
      andthen (build_equality_filter_conditions filters) (\<lambda>conds.
        direct_values cfg pd exec' collection property conds))))"
      unfolding queryable_values_body_def
      by (cases "build_collection_schema fetch collection"; cases "build_equality_filter_conditions filters")
        (simp_all only: andthen_simps that)
    with ne san show ?thesis by (simp add: get_queryable_values_def source_values_def)
  qed
  show ?thesis
  proof (cases "\<exists>sch conds vs. build_collection_schema fetch collection = Inr sch \<and>
      build_equality_filter_conditions filters = Inr conds \<and>
      property \<in> set (case sc_group_by sch of None \<Rightarrow> [] | Some g \<Rightarrow> g) \<and>
      query_cached_values cfg pd exec collection property filters = Inr (Some vs)")
    case False
    have "get_queryable_values cfg pd fetch exec collection property filters =
        source_values cfg pd fetch exec collection property filters"
    proof (rule answers)
      fix sch conds
      assume s: "build_collection_schema fetch collection = Inr sch" and c: "build_equality_filter_conditions filters = Inr conds"
      from cached_answer [where exec = exec and pd = pd, OF c assms(3,4)] False s c
      show "andthen (if property \<in> set (case sc_group_by sch of None \<Rightarrow> [] | Some g \<Rightarrow> g)
               then query_cached_values cfg pd exec collection property filters else Inr None)
        (\<lambda>cached. case cached of Some vs \<Rightarrow> Inr vs | None \<Rightarrow> direct_values cfg pd exec collection property conds) =
        direct_values cfg pd exec collection property conds"
        by auto
    qed
    then show ?thesis ..
  next
    case True
    then obtain sch conds vs where s: "build_collection_schema fetch collection = Inr sch"
      and c: "build_equality_filter_conditions filters = Inr conds"
      and p: "property \<in> set (case sc_group_by sch of None \<Rightarrow> [] | Some g \<Rightarrow> g)"
      and q: "query_cached_values cfg pd exec collection property filters = Inr (Some vs)" by blast
    from cached_answer [where exec = exec and pd = pd, OF c assms(3,4)] q have vs: "(if frame_empty ?true then Inr []
        else column_values property (prepared pd None ?true)) = Inr vs" by auto
    have hit: "get_queryable_values cfg pd fetch exec collection property filters =
        source_values cfg pd fetch exec' collection property filters" if e: "exec' ?q = Inr ?true" for exec'
    proof (rule answers)
      fix sch' conds'
      assume s': "build_collection_schema fetch collection = Inr sch'"
        and c': "build_equality_filter_conditions filters = Inr conds'"
      have "direct_values cfg pd exec' collection property conds' = Inr vs"
        using e vs by (simp add: direct_values_def values_query_sql [OF c'])
      with s s' p q show "andthen (if property \<in> set (case sc_group_by sch' of None \<Rightarrow> [] | Some g \<Rightarrow> g)
               then query_cached_values cfg pd exec collection property filters else Inr None)
        (\<lambda>cached. case cached of Some vs \<Rightarrow> Inr vs | None \<Rightarrow> direct_values cfg pd exec collection property conds') =
        direct_values cfg pd exec' collection property conds'" by simp
    qed
    show ?thesis
    proof (cases "exec ?q")
      case (Inl e)
      from hit [where exec' = "exec(?q := Inr ?true)"] Inl show ?thesis by (simp add: true_frame_def)
    next
      case (Inr df)
      with assms(5) have "exec ?q = Inr ?true" by (simp add: true_frame_def)
      from hit [where exec' = exec, OF this] show ?thesis ..
    qed
  qed
qed

text \<open>
  A metrics table \<open>m\<close> of two rows, its combinations and one of another table, and a database that
  answers the two queries of a request for the locations of member 1.
\<close>

definition member_row :: "string \<Rightarrow> string \<Rightarrow> source_row" where
  "member_row l m = map_of [(''location_id'', l), (''member'', m)]"

lemma member_row_simps [simp]: "member_row l m ''location_id'' = Some l" "member_row l m ''member'' = Some m"
  by (simp_all add: member_row_def)

definition sample_table :: "source_row list" where
  "sample_table = [member_row ''a'' ''1'', member_row ''b'' ''2'']"

definition sample_combos :: "combination list" where
  "sample_combos =
     \<lparr>cb_source = ''other'', cb_snapshot = 7, cb_dims = map_of [(''location_id'', Some ''z''), (''member'', Some ''1'')]\<rparr> #
     map (\<lambda>row. \<lparr>cb_source = ''m'', cb_snapshot = 7,
                 cb_dims = (\<lambda>k. if k \<in> {''location_id'', ''member''} then Some (row k) else None)\<rparr>) sample_table"

definition sample_filters :: "(string, string) dict" where
  "sample_filters = [(''member'', ''1'')]"

definition sample_values_exec :: "Config \<Rightarrow> exec" where
  "sample_values_exec cfg q =
     (if q = combinations_query cfg ''location_id'' (request_conditions cfg ''m'' ''location_id'' sample_filters)
      then Inr (distinct_frame ''location_id'' (combo_values (\<lambda>_. 7) sample_combos
             (request_conditions cfg ''m'' ''location_id'' sample_filters) ''location_id''))
      else if q = source_query cfg ''m'' ''location_id'' sample_filters
      then Inr (distinct_frame ''location_id'' (table_values sample_table sample_filters ''location_id''))
      else Inl OSError)"

lemma sample_filled: "combinations_filled cfg (\<lambda>_. 7) sample_combos ''m'' sample_table"
  unfolding combinations_filled_def
  by (rule exI [of _ "{{''location_id'', ''member''}}"]) (auto simp: sample_combos_def)

lemma sample_table_values: "table_values sample_table sample_filters ''location_id'' = {Some ''a''}"
  by (auto simp: table_values_def sample_table_def sample_filters_def intro!: exI [of _ "member_row ''a'' ''1''"])

lemma sample_combo_values:
  "combo_values (\<lambda>_. 7) sample_combos (request_conditions cfg ''m'' ''location_id'' sample_filters) ''location_id'' = {Some ''a''}"
proof -
  let ?r = "\<lparr>cb_source = ''m'', cb_snapshot = 7,
     cb_dims = (\<lambda>k. if k \<in> {''location_id'', ''member''} then Some (member_row ''a'' ''1'' k) else None)\<rparr>"
  have "?r \<in> set sample_combos" by (simp add: sample_combos_def sample_table_def)
  moreover have "\<forall>c \<in> set (request_conditions cfg ''m'' ''location_id'' sample_filters). combo_holds (\<lambda>_. 7) ?r c"
    by (simp add: request_conditions_def sample_filters_def)
  ultimately have "Some ''a'' \<in>
      combo_values (\<lambda>_. 7) sample_combos (request_conditions cfg ''m'' ''location_id'' sample_filters) ''location_id''"
    unfolding combo_values_def by (intro CollectI bexI [of _ ?r] conjI) simp_all
  with filled_values [OF sample_filled, of cfg "''location_id''" sample_filters] sample_table_values show ?thesis by auto
qed

lemma sample_queries_differ:
  "combinations_query cfg ''location_id'' (request_conditions cfg ''m'' ''location_id'' sample_filters) \<noteq>
   source_query cfg ''m'' ''location_id'' sample_filters"
  by (simp add: combinations_query_def source_query_def request_conditions_def sample_filters_def)

lemma values_cache_transparent_witness:
  "\<forall>cfg pd fetch. query_cached_values cfg pd (sample_values_exec cfg) ''m'' ''location_id'' sample_filters =
       Inr (Some [prepare_cell (pd_to_time pd) (pd_format pd) DEFAULT_DATETIME_COLUMNS True True ''location_id'' (CJson (JStr ''a''))]) \<and>
     get_queryable_values cfg pd fetch (sample_values_exec cfg) ''m'' ''location_id'' sample_filters =
       source_values cfg pd fetch (sample_values_exec cfg) ''m'' ''location_id'' sample_filters"
proof (intro allI conjI)
  fix cfg pd fetch
  let ?exec = "sample_values_exec cfg" and ?cs = "request_conditions cfg ''m'' ''location_id'' sample_filters"
  have cached: "?exec (combinations_query cfg ''location_id'' ?cs) =
      Inr (distinct_frame ''location_id'' (combo_values (\<lambda>_. 7) sample_combos ?cs ''location_id''))"
    by (simp only: sample_values_exec_def if_True simp_thms)
  have direct: "?exec (source_query cfg ''m'' ''location_id'' sample_filters) =
      Inr (distinct_frame ''location_id'' (table_values sample_table sample_filters ''location_id''))"
    using sample_queries_differ [of cfg] by (simp only: sample_values_exec_def if_True if_False simp_thms not_sym)
  have conds: "build_equality_filter_conditions sample_filters = Inr (map (\<lambda>kv. equality_condition (fst kv) (snd kv)) sample_filters)"
    by (simp add: build_equality_Inr sample_filters_def safe_text_def safe_char_def)
  have "{v. Some v \<in> {Some ''a''}} = {''a''}" by auto
  then show "query_cached_values cfg pd ?exec ''m'' ''location_id'' sample_filters =
       Inr (Some [prepare_cell (pd_to_time pd) (pd_format pd) DEFAULT_DATETIME_COLUMNS True True ''location_id'' (CJson (JStr ''a''))])"
    unfolding query_cached_values_def cached_conditions_sql [OF conds] andthen_simps cached_query_sql cached
      sample_combo_values sum.case
    by (simp add: distinct_frame_def frame_empty_def column_values_def prepared_def prepare_for_serialization_def)
  have "safe_text ''m''" "safe_text ''location_id''" by (simp_all add: safe_text_def safe_char_def)
  note T = values_cache_transparent [where exec = ?exec and pd = pd and fetch = fetch and cfg = cfg and
      filters = sample_filters, OF this sample_filled, unfolded cached direct]
  have "get_queryable_values cfg pd fetch ?exec ''m'' ''location_id'' sample_filters =
      source_values cfg pd fetch ?exec ''m'' ''location_id'' sample_filters \<or>
    (\<exists>e. Inr (distinct_frame ''location_id'' (table_values sample_table sample_filters ''location_id'')) = (Inl e :: exn + frame))"
    using T by blast
  then show "get_queryable_values cfg pd fetch ?exec ''m'' ''location_id'' sample_filters =
       source_values cfg pd fetch ?exec ''m'' ''location_id'' sample_filters"
    by simp
qed

end
