(* ===== verification/Metrics_Route.thy ===== *)
theory Metrics_Route
  imports Queryables Record_Routes
begin

text \<open>
  The generic collection endpoint (\<open>routes/metrics.py\<close>): the short-lived schema cache, the query it
  builds from the declared columns, the output formats and the responses.  Which columns of a
  frame are timestamps, geometry decoding and the clock are parameters.
\<close>

section \<open>The schema cache\<close>

type_synonym schema_cache = "(string, rat \<times> schema) dict"

definition SCHEMA_CACHE_TTL_SECONDS :: rat where
  "SCHEMA_CACHE_TTL_SECONDS = 60"

definition cached_schema :: "string \<Rightarrow> schema_cache \<Rightarrow> rat \<Rightarrow> schema option" where
  "cached_schema table cache now =
     (case dict_get cache table of
        None \<Rightarrow> None
      | Some (stored, sch) \<Rightarrow> if now - stored < SCHEMA_CACHE_TTL_SECONDS then Some sch else None)"

definition store_schema :: "string \<Rightarrow> schema_cache \<Rightarrow> rat \<Rightarrow> schema \<Rightarrow> schema_cache" where
  "store_schema table cache now sch = dict_set cache table (now, sch)"

text \<open>The clock is read once before the cache test and once more when the answer is stored.\<close>

definition read_through ::
  "exn + schema \<Rightarrow> string \<Rightarrow> rat \<Rightarrow> rat \<Rightarrow> schema_cache \<Rightarrow> (exn + schema) \<times> schema_cache"
where
  "read_through answer table now later cache =
     (case cached_schema table cache now of
        Some sch \<Rightarrow> (Inr sch, cache)
      | None \<Rightarrow>
          (case answer of
             Inl e \<Rightarrow> (Inl e, cache)
           | Inr sch \<Rightarrow> (Inr sch, store_schema table cache later sch)))"

definition get_collection_schema ::
  "fetch \<Rightarrow> string \<Rightarrow> rat \<Rightarrow> rat \<Rightarrow> schema_cache \<Rightarrow> (exn + schema) \<times> schema_cache"
where
  "get_collection_schema fetch table = read_through (get_metrics_table_queryables fetch table) table"

section \<open>The query\<close>

definition RESERVED_PARAMS :: "string list" where
  "RESERVED_PARAMS = [''collection_id'', ''location_id'', ''limit'', ''offset'', ''f'']"

text \<open>\<open>schema["x-teehr-group-by"]\<close>.\<close>

definition group_by_of :: "schema \<Rightarrow> exn + string list" where
  "group_by_of sch = (case sc_group_by sch of None \<Rightarrow> Inl (KeyError ''x-teehr-group-by'') | Some g \<Rightarrow> Inr g)"

definition order_by_clause :: "schema \<Rightarrow> exn + string" where
  "order_by_clause sch =
     andthen (group_by_of sch) (\<lambda>g.
     andthen (sanitize_all (filter (\<lambda>c. c \<noteq> ''geometry'') g)) (\<lambda>cs. Inr (join '', '' cs)))"

text \<open>\<open>location_id\<close> names the id column; without it only gage locations are asked for.\<close>

definition id_condition :: "schema \<Rightarrow> (string, string) dict \<Rightarrow> exn + string list" where
  "id_condition sch params =
     andthen (group_by_of sch) (\<lambda>g.
       (case get_id_column g of
          None \<Rightarrow> Inr []
        | Some id_col \<Rightarrow>
            (case dict_get params ''location_id'' of
               Some v \<Rightarrow> andthen (sanitize_string (Some v)) (\<lambda>w. Inr [id_col @ '' = '' @ quoted w])
             | None \<Rightarrow> Inr [id_col @ '' LIKE '' @ quoted ''usgs-%''])))"

definition filters_of :: "(string, string) dict \<Rightarrow> (string, string) dict" where
  "filters_of params = filter (\<lambda>kv. fst kv \<notin> set RESERVED_PARAMS) params"

definition items_query ::
  "Config \<Rightarrow> string \<Rightarrow> schema \<Rightarrow> (string, string) dict \<Rightarrow> int option \<Rightarrow> int option \<Rightarrow> exn + sql_query"
where
  "items_query cfg table sch params limit offset =
     andthen (verify_filtered_columns (columns_of sch) (map fst (filters_of params)) False) (\<lambda>_.
     andthen (id_condition sch params) (\<lambda>ids.
     andthen (build_equality_filter_conditions (filters_of params)) (\<lambda>conds.
     andthen (order_by_clause sch) (\<lambda>ob.
       Inr \<lparr>sq_select = ''*'', sq_from = table_name cfg table, sq_where = ids @ conds, sq_order_by = ob,
            sq_offset = offset, sq_limit = limit\<rparr>))))"

section \<open>The response\<close>

definition GEOJSON :: string where "GEOJSON = ''geojson''"

definition JSON :: string where "JSON = ''json''"

definition resolve_format :: "string option \<Rightarrow> bool \<Rightarrow> exn + string" where
  "resolve_format requested has_geometry =
     (case requested of
        None \<Rightarrow> Inr (if has_geometry then GEOJSON else JSON)
      | Some r \<Rightarrow>
          if lower r \<notin> {JSON, GEOJSON}
          then Inl (HTTPException 400 (DText (''Unsupported format '' @ quoted r @ ''. Use 'json' or 'geojson'.'')))
          else if lower r = GEOJSON \<and> \<not> has_geometry
          then Inl (HTTPException 400 (DText ''Collection has no geometry column; use f=json.''))
          else Inr (lower r))"

datatype 'g collection_response = CrRecords "item records_response" | CrGeo "'g geojson_response"

definition collection_response_of ::
  "pandas \<Rightarrow> (frame \<Rightarrow> string list) \<Rightarrow> (frame \<Rightarrow> exn + 'g feature list) \<Rightarrow> string \<Rightarrow> string \<Rightarrow> string option
     \<Rightarrow> int option \<Rightarrow> int option \<Rightarrow> frame \<Rightarrow> exn + 'g collection_response"
where
  "collection_response_of pd datetimes to_features url collection_id f limit offset df0 =
     andthen (resolve_format f (''geometry'' \<in> set (fr_columns df0))) (\<lambda>fmt.
       (let df1 = (if fmt = JSON \<and> ''geometry'' \<in> set (fr_columns df0) then drop_column ''geometry'' df0 else df0);
            df2 = prepared pd (Some (datetimes df1 @ [''created_at'', ''updated_at''])) df1
        in if fmt = JSON
           then Inr (CrRecords (create_ogc_records_response (to_records df2) url None (Some collection_id) limit offset))
           else andthen (to_features df2) (\<lambda>fs.
                  Inr (CrGeo (create_ogc_geojson_response fs url None (Some collection_id) limit offset)))))"

definition items_after_schema ::
  "Config \<Rightarrow> pandas \<Rightarrow> (frame \<Rightarrow> string list) \<Rightarrow> (frame \<Rightarrow> exn + 'g feature list) \<Rightarrow> exec \<Rightarrow> Request \<Rightarrow> string
     \<Rightarrow> string \<Rightarrow> schema \<Rightarrow> (string, string) dict \<Rightarrow> string option \<Rightarrow> page_args \<Rightarrow> exn + 'g collection_response"
where
  "items_after_schema cfg pd datetimes to_features exec rq url table sch params f p =
     (let limit = effective_limit_for_request cfg rq (pa_limit p)
      in andthen (items_query cfg table sch params limit (pa_offset p)) (\<lambda>q.
         andthen (exec q) (\<lambda>df.
           collection_response_of pd datetimes to_features url table f limit (pa_offset p) df)))"

definition get_collection_items ::
  "Config \<Rightarrow> pandas \<Rightarrow> (frame \<Rightarrow> string list) \<Rightarrow> (frame \<Rightarrow> exn + 'g feature list) \<Rightarrow> fetch \<Rightarrow> exec \<Rightarrow> rat \<Rightarrow> rat
     \<Rightarrow> Request \<Rightarrow> string \<Rightarrow> string \<Rightarrow> (string, string) dict \<Rightarrow> string option \<Rightarrow> page_args \<Rightarrow> schema_cache
     \<Rightarrow> (exn + 'g collection_response) \<times> schema_cache"
where
  "get_collection_items cfg pd datetimes to_features fetch exec now later rq url collection_id params f p cache =
     (let failing = failing_as_unless_http (''Failed to load collection '' @ quoted collection_id @ '': '')
      in case sanitize_string (Some collection_id) of
           Inl e \<Rightarrow> (failing (Inl e), cache)
         | Inr table \<Rightarrow>
             (case get_collection_schema fetch table now later cache of
                (Inl e, cache1) \<Rightarrow> (failing (Inl e), cache1)
              | (Inr sch, cache1) \<Rightarrow>
                  (failing (items_after_schema cfg pd datetimes to_features exec rq url table sch params f p), cache1)))"

section \<open>The cache as an instance of the cache interface\<close>

interpretation schemas: memo_cache
  "cached_schema table"
  "store_schema table"
  "\<lambda>_. True"
  SCHEMA_CACHE_TTL_SECONDS
  "\<lambda>r t. read_through r table t t"
  for table :: string
  by unfold_locales (auto simp: cached_schema_def store_schema_def read_through_def)

section \<open>Schemas over time\<close>

text \<open>
  The caches a process can reach: it reads schemas of any table at any time, in any order, the
  metadata being what \<open>fetch_at\<close> says at the time of the read; a fetch takes at most \<open>d\<close> seconds.
\<close>

inductive schema_run :: "(rat \<Rightarrow> fetch) \<Rightarrow> rat \<Rightarrow> schema_cache \<Rightarrow> bool"
  for fetch_at :: "rat \<Rightarrow> fetch" and d :: rat
where
  start: "schema_run fetch_at d []"
| read: "schema_run fetch_at d cache \<Longrightarrow> now \<le> later \<Longrightarrow> later \<le> now + d \<Longrightarrow>
    get_collection_schema (fetch_at now) table now later cache = (r, cache') \<Longrightarrow>
    schema_run fetch_at d cache'"

text \<open>Every entry is an answer the source gave, stored within \<open>d\<close> seconds of it.\<close>

definition entries_true :: "(rat \<Rightarrow> fetch) \<Rightarrow> rat \<Rightarrow> schema_cache \<Rightarrow> bool" where
  "entries_true fetch_at d cache \<longleftrightarrow>
     (\<forall>table stored sch. dict_get cache table = Some (stored, sch) \<longrightarrow>
        (\<exists>asked. get_metrics_table_queryables (fetch_at asked) table = Inr sch \<and>
           asked \<le> stored \<and> stored \<le> asked + d))"

lemma get_collection_schema_cases:
  assumes "get_collection_schema fetch table now later cache = (r, cache')"
  obtains (hit) stored sch where "dict_get cache table = Some (stored, sch)"
      "now - stored < SCHEMA_CACHE_TTL_SECONDS" "r = Inr sch" "cache' = cache"
  | (failed) e where "r = Inl e" "cache' = cache" "get_metrics_table_queryables fetch table = Inl e"
  | (filled) sch where "r = Inr sch" "get_metrics_table_queryables fetch table = Inr sch"
      "cache' = dict_set cache table (later, sch)"
proof (cases "cached_schema table cache now")
  case None
  show thesis
  proof (cases "get_metrics_table_queryables fetch table")
    case (Inl e)
    with None assms have "r = Inl e" "cache' = cache" by (simp_all add: get_collection_schema_def read_through_def)
    then show ?thesis using Inl by (rule that(2))
  next
    case (Inr sch)
    with None assms have "r = Inr sch" "cache' = dict_set cache table (later, sch)"
      by (simp_all add: get_collection_schema_def read_through_def store_schema_def)
    then show ?thesis using Inr that(3) by blast
  qed
next
  case (Some sch)
  then obtain stored where "dict_get cache table = Some (stored, sch)" "now - stored < SCHEMA_CACHE_TTL_SECONDS"
    by (auto simp: cached_schema_def split: option.split_asm if_split_asm)
  moreover have "r = Inr sch" "cache' = cache"
    using Some assms by (simp_all add: get_collection_schema_def read_through_def)
  ultimately show thesis by (rule that(1))
qed

lemma schema_run_entries: "schema_run fetch_at d cache \<Longrightarrow> entries_true fetch_at d cache"
proof (induction rule: schema_run.induct)
  case start
  then show ?case by (simp add: entries_true_def)
next
  case (read cache now later table r cache')
  from read.hyps(4) show ?case
  proof (cases rule: get_collection_schema_cases)
    case (filled sch)
    have "\<exists>asked. get_metrics_table_queryables (fetch_at asked) table = Inr sch \<and> asked \<le> later \<and> later \<le> asked + d"
      using filled(2) read.hyps(2,3) by blast
    with read.IH filled(3) show ?thesis by (simp add: entries_true_def)
  qed (use read.IH in simp_all)
qed

text \<open>A change of a table's properties is seen by every request within the lifetime of a cache entry:
  whatever the process has read before, the schema a request works with is one its table had less
  than sixty seconds plus the duration of a fetch earlier, and an error is the current one.\<close>

theorem schema_staleness_bounded:
  assumes "schema_run fetch_at d cache" "0 \<le> d"
    and "get_collection_schema (fetch_at now) table now later cache = (r, cache')"
  shows "case r of
      Inr sch \<Rightarrow> \<exists>asked. get_metrics_table_queryables (fetch_at asked) table = Inr sch \<and> now - asked < 60 + d
    | Inl e \<Rightarrow> get_metrics_table_queryables (fetch_at now) table = Inl e"
  using assms(3)
proof (cases rule: get_collection_schema_cases)
  case (hit stored sch)
  then obtain asked where "get_metrics_table_queryables (fetch_at asked) table = Inr sch" "stored \<le> asked + d"
    using schema_run_entries [OF assms(1)] unfolding entries_true_def by blast
  moreover have "now - asked < 60 + d"
    using hit(2) \<open>stored \<le> asked + d\<close> by (simp add: SCHEMA_CACHE_TTL_SECONDS_def)
  ultimately show ?thesis using hit(3) by auto
next
  case (filled sch)
  have "now - now < 60 + d" using assms(2) by simp
  with filled show ?thesis by auto
qed auto

lemma schema_staleness_bounded_witness:
  "case fst (get_collection_schema (\<lambda>_. Inl OSError) ''t'' 5 5
       (snd (get_collection_schema (\<lambda>_. Inr []) ''t'' 0 1 []))) of
     Inr sch \<Rightarrow> \<exists>asked :: rat. get_metrics_table_queryables ((\<lambda>t _. if t < 2 then Inr [] else Inl OSError) asked) ''t'' = Inr sch \<and>
       5 - asked < 60 + 1
   | Inl e \<Rightarrow> False"
proof -
  let ?at = "\<lambda>(t :: rat) _. if t < 2 then Inr [] else Inl OSError"
  define c where "c = snd (get_collection_schema (\<lambda>_. Inr []) ''t'' 0 1 [])"
  have one: "get_collection_schema (?at 0) ''t'' 0 1 [] = (Inr (metrics_schema ''t'' []), c)"
    by (simp add: c_def get_collection_schema_def read_through_def cached_schema_def
        get_metrics_table_queryables_def failing_as_def)
  have run: "schema_run ?at 1 c"
    by (rule schema_run.read [where now = 0 and later = 1 and table = "''t''" and cache = "[]" and
          r = "Inr (metrics_schema ''t'' [])"]) (use one in \<open>simp_all add: schema_run.start\<close>)
  have two: "get_collection_schema (?at 5) ''t'' 5 5 c = (Inr (metrics_schema ''t'' []), c)"
    by (simp add: c_def get_collection_schema_def read_through_def cached_schema_def store_schema_def
        get_metrics_table_queryables_def failing_as_def SCHEMA_CACHE_TTL_SECONDS_def)
  have "case Inr (metrics_schema ''t'' []) of
      Inr sch \<Rightarrow> \<exists>asked. get_metrics_table_queryables (?at asked) ''t'' = Inr sch \<and> 5 - asked < 60 + 1
    | Inl e \<Rightarrow> get_metrics_table_queryables (?at 5) ''t'' = Inl e"
    by (rule schema_staleness_bounded [OF run _ two]) simp
  moreover have "fst (get_collection_schema (\<lambda>_. Inl OSError) ''t'' 5 5 c) = Inr (metrics_schema ''t'' [])"
    using two by simp
  ultimately show ?thesis by (simp add: c_def)
qed

section \<open>What a request asks the database\<close>

definition id_tokens :: "string list \<Rightarrow> (string, string) dict \<Rightarrow> token list list" where
  "id_tokens gs params =
     (case get_id_column gs of
        None \<Rightarrow> []
      | Some c \<Rightarrow>
          [Word c # (case dict_get params ''location_id'' of
             Some v \<Rightarrow> [Sym (CHR ''=''), Lit v] | None \<Rightarrow> [Word ''LIKE'', Lit ''usgs-%''])])"

lemma get_id_column_Some: "get_id_column gs = Some c \<Longrightarrow> c \<in> set gs \<and> c \<in> set ID_COLUMNS"
  by (auto simp: get_id_column_def find_Some_iff)

lemma scan_id_condition:
  assumes "sc_group_by sch = Some gs" "id_condition sch params = Inr ids" "list_all plain_word gs"
  shows "map scan ids = map Some (id_tokens gs params)"
proof (cases "get_id_column gs")
  case None
  with assms show ?thesis by (simp add: id_condition_def group_by_of_def id_tokens_def)
next
  case (Some c)
  have c: "plain_word c" using get_id_column_Some [OF Some] assms(3) by (simp add: list_all_iff)
  show ?thesis
  proof (cases "dict_get params ''location_id''")
    case None
    with Some assms have "ids = [like_clause c ''usgs'']"
      by (simp add: id_condition_def group_by_of_def like_clause_def quoted_def)
    with None Some show ?thesis
      using scan_like_clause [OF c, of "''usgs''" "[]"] by (simp add: id_tokens_def scan.simps(1))
  next
    case (Some v)
    with \<open>get_id_column gs = Some c\<close> assms have "ids = [c @ '' = '' @ quoted v]" "safe_text v"
      by (auto simp: id_condition_def group_by_of_def andthen_Inr_iff sanitize_Inr)
    with Some \<open>get_id_column gs = Some c\<close> show ?thesis
      using scan_equality [OF c, of None v] safe_text_no_quote [of v]
      by (simp add: id_tokens_def qualified_column_def column_tokens_def)
  qed
qed

lemma items_query_confined:
  assumes "items_query cfg table sch params limit offset = Inr q"
    and "sc_group_by sch = Some gs" "list_all plain_word gs"
  shows "sq_from q = table_name cfg table \<and> sq_limit q = limit \<and> sq_offset q = offset \<and>
    fst ` set (filters_of params) \<subseteq> set gs \<and>
    map scan (sq_where q) =
      map Some (id_tokens gs params @ map (\<lambda>kv. equality_tokens (fst kv) (snd kv)) (filters_of params))"
proof -
  obtain ids conds ob where v: "verify_filtered_columns (columns_of sch) (map fst (filters_of params)) False = Inr ()"
    and ids: "id_condition sch params = Inr ids"
    and conds: "build_equality_filter_conditions (filters_of params) = Inr conds"
    and q: "q = \<lparr>sq_select = ''*'', sq_from = table_name cfg table, sq_where = ids @ conds, sq_order_by = ob,
        sq_offset = offset, sq_limit = limit\<rparr>"
    using assms(1) by (auto simp: items_query_def andthen_Inr_iff)
  have sub: "fst ` set (filters_of params) \<subseteq> set gs"
    using v assms(2)
    by (auto simp: verify_filtered_columns_def get_filterable_columns_def columns_of_def Let_def
        filter_empty_conv split: if_split_asm)
  have "scan (equality_condition (fst kv) (snd kv)) = Some (equality_tokens (fst kv) (snd kv))"
    if "kv \<in> set (filters_of params)" for kv
    using that sub assms(3) conds
    by (intro scan_equality_condition) (auto simp: list_all_iff build_equality_Inr)
  then have "map scan conds = map (\<lambda>kv. Some (equality_tokens (fst kv) (snd kv))) (filters_of params)"
    using conds by (simp add: build_equality_Inr)
  with q sub scan_id_condition [OF assms(2) ids assms(3)] show ?thesis by simp
qed

fun collection_count :: "'g collection_response \<Rightarrow> nat" where
  "collection_count (CrRecords r) = length (rr_items r)"
| "collection_count (CrGeo r) = length (gj_features r)"

lemma collection_response_count:
  assumes "\<And>df fs. to_features df = Inr fs \<Longrightarrow> length fs = length (fr_rows df)"
    and "collection_response_of pd dts to_features url c f limit offset df = Inr r"
  shows "collection_count r = length (fr_rows df)"
  using assms
  by (auto simp: collection_response_of_def andthen_Inr_iff Let_def create_ogc_records_response_def
      create_ogc_geojson_response_def drop_column_def split: if_split_asm)

text \<open>C22 A page of a collection is confined to what the table declares and to the caller's cap: when the
  endpoint answers, the name is a plain one, every filter names a declared dimension, and the
  query that was run selects from that table under exactly the id restriction (the location asked
  for, or gages only) and one predicate per filter with its value as a literal; no more rows are
  served than the role's cap allows.\<close>

theorem collection_items_confined:
  assumes "get_collection_items cfg pd dts to_features fetch exec now later rq url c params f p cache = (Inr r, cache')"
    and "\<And>sch gs. fst (get_collection_schema fetch c now later cache) = Inr sch \<Longrightarrow> sc_group_by sch = Some gs \<Longrightarrow>
      list_all plain_word gs"
    and "respects_limit exec" "page_args_valid p" "0 \<le> cap"
    and "record_limit_for_identity cfg (request_identity rq) = Some cap"
    and "\<And>df fs. to_features df = Inr fs \<Longrightarrow> length fs = length (fr_rows df)"
  shows "safe_text c \<and> int (collection_count r) \<le> cap \<and>
    (\<exists>sch gs q df. fst (get_collection_schema fetch c now later cache) = Inr sch \<and> sc_group_by sch = Some gs \<and>
       exec q = Inr df \<and> sq_from q = table_name cfg c \<and> fst ` set (filters_of params) \<subseteq> set gs \<and>
       map scan (sq_where q) =
         map Some (id_tokens gs params @ map (\<lambda>kv. equality_tokens (fst kv) (snd kv)) (filters_of params)))"
proof -
  obtain sch where c: "safe_text c" and sch: "get_collection_schema fetch c now later cache = (Inr sch, cache')"
    and after: "items_after_schema cfg pd dts to_features exec rq url c sch params f p = Inr r"
    using assms(1)
    by (auto simp: get_collection_items_def Let_def sanitize_Inr split: sum.split_asm prod.split_asm)
  let ?limit = "effective_limit_for_request cfg rq (pa_limit p)"
  obtain q df where q: "items_query cfg c sch params ?limit (pa_offset p) = Inr q" and df: "exec q = Inr df"
    and resp: "collection_response_of pd dts to_features url c f ?limit (pa_offset p) df = Inr r"
    using after by (auto simp: items_after_schema_def Let_def andthen_Inr_iff)
  obtain gs where gs: "sc_group_by sch = Some gs"
    using q by (auto simp: items_query_def id_condition_def group_by_of_def andthen_Inr_iff split: option.split_asm)
  have plain: "list_all plain_word gs" using assms(2) sch gs by simp
  note conf = items_query_confined [OF q gs plain]
  have lim: "\<And>x. pa_limit p = Some x \<Longrightarrow> 1 \<le> x"
    using assms(4) by (simp add: page_args_valid_def)
  have "int (length (fr_rows df)) \<le> cap"
    using exec_capped [OF assms(3) df _ assms(6,5) lim] conf by simp
  then have "int (collection_count r) \<le> cap"
    using collection_response_count [OF assms(7) resp] by simp
  with c sch gs df conf show ?thesis by auto
qed

definition one_feature_each :: "frame \<Rightarrow> exn + unit feature list" where
  "one_feature_each df = Inr (map (\<lambda>_. \<lparr>ft_id = None, ft_properties = [], ft_geometry = ()\<rparr>) (fr_rows df))"

definition sample_fetch :: fetch where
  "sample_fetch q = Inr [(''group_by'', ''location_id,member''), (''metrics'', ''kge'')]"

lemma sample_schema:
  "get_collection_schema sample_fetch c now later [] =
     (Inr (metrics_schema c [(''group_by'', ''location_id,member''), (''metrics'', ''kge'')]),
      [(c, later, metrics_schema c [(''group_by'', ''location_id,member''), (''metrics'', ''kge'')])])"
  "sc_group_by (metrics_schema c [(''group_by'', ''location_id,member''), (''metrics'', ''kge'')]) =
     Some [''location_id'', ''member'']"
  by (simp_all add: get_collection_schema_def read_through_def cached_schema_def store_schema_def failing_as_def
      get_metrics_table_queryables_def sample_fetch_def metrics_schema_def sc_group_by_def meta_list_def meta_of_def
      strip_def lstrip_with_def rstrip_with_def is_space_def Let_def)

lemma collection_items_confined_witness:
  "\<forall>cfg :: Config. \<exists>r. fst (get_collection_items (cfg\<lparr>ROW_LIMIT_ANON := 2\<rparr>) sample_pandas (\<lambda>_. []) one_feature_each
       sample_fetch (sample_exec [[CNone], [CNaN], [CNone]]) 0 0 anonymous_request ''u'' ''fcst''
       [(''member'', ''1'')] None \<lparr>pa_limit = None, pa_offset = None\<rparr> []) = Inr r \<and>
     int (collection_count r) \<le> 2"
proof
  fix cfg :: Config
  let ?cfg = "cfg\<lparr>ROW_LIMIT_ANON := 2\<rparr>"
  let ?p = "\<lparr>pa_limit = None, pa_offset = None\<rparr>"
  let ?exec = "sample_exec [[CNone], [CNaN], [CNone]]"
  let ?sch = "metrics_schema ''fcst'' [(''group_by'', ''location_id,member''), (''metrics'', ''kge'')]"
  let ?get = "get_collection_items ?cfg sample_pandas (\<lambda>_. []) one_feature_each sample_fetch ?exec 0 0
    anonymous_request ''u'' ''fcst'' [(''member'', ''1'')] None ?p []"
  have p: "page_args_valid ?p" by (simp add: page_args_valid_def)
  have cap: "record_limit_for_identity ?cfg (request_identity anonymous_request) = Some 2"
    by (simp add: record_limit_for_identity_def request_identity_def anonymous_request_def
        anonymous_identity_def is_authenticated_def)
  have safe: "safe_text ''fcst''" "safe_text ''member''" "safe_text ''1''" "safe_text ''location_id''"
    by (simp_all add: safe_text_def safe_char_def)
  have id: "get_id_column [''location_id'', ''member''] = Some ''location_id''"
    by (simp add: get_id_column_def ID_COLUMNS_def)
  have "\<exists>q. items_query ?cfg ''fcst'' ?sch [(''member'', ''1'')] l None = Inr q" for l
    using safe
    by (simp add: items_query_def filters_of_def RESERVED_PARAMS_def verify_filtered_columns_def columns_of_def
        get_filterable_columns_def sample_schema id_condition_def group_by_of_def id
        build_equality_filter_conditions_def equality_filter_def sanitize_Inr order_by_clause_def sanitize_all_def
        sanitize_string_def)
  then obtain q where q: "items_query ?cfg ''fcst'' ?sch [(''member'', ''1'')]
      (effective_limit_for_request ?cfg anonymous_request None) None = Inr q" by blast
  have "\<exists>r c. ?get = (Inr r, c)"
    using q safe(1)
    by (simp add: get_collection_items_def Let_def sanitize_string_def sample_schema items_after_schema_def
        sample_exec_def collection_response_of_def resolve_format_def JSON_def)
  then obtain r c where r: "?get = (Inr r, c)" by blast
  have "int (collection_count r) \<le> 2"
    by (rule collection_items_confined [OF r _ sample_exec_limit p _ cap, THEN conjunct2, THEN conjunct1])
      (auto simp: sample_schema one_feature_each_def plain_word_def word_char_def)
  with r show "\<exists>r. fst ?get = Inr r \<and> int (collection_count r) \<le> 2" by auto
qed

end
