(* ===== verification/Locations_Route.thy ===== *)
theory Locations_Route
  imports Record_Routes
begin

text \<open>
  The locations collection (\<open>routes/locations.py\<close>): filters, the bounding box, the three queries, the
  pivot of attribute rows into columns with paging after it, and the two responses.  Parsing
  and printing of floats are parameters, as are the features of a frame, which \<open>Geojson\<close> decodes.
\<close>

section \<open>The bounding box\<close>

record 'f floatlib =
  fl_parse :: "string \<Rightarrow> exn + 'f"
  fl_show :: "'f \<Rightarrow> string"

definition within_box :: "'f floatlib \<Rightarrow> 'f \<Rightarrow> 'f \<Rightarrow> 'f \<Rightarrow> 'f \<Rightarrow> string" where
  "within_box fl min_lon min_lat max_lon max_lat =
     ''ST_Within( ST_GeomFromBinary(geometry), ST_Envelope( ST_GeometryFromText( '' @
     quoted (''LINESTRING( '' @ fl_show fl min_lon @ '' '' @ fl_show fl min_lat @ '', '' @
             fl_show fl max_lon @ '' '' @ fl_show fl max_lat @ '' )'') @ '' ) ) )''"

text \<open>Four numbers give the filter, any other count none; what is no number is a 400.\<close>

definition bbox_filters :: "'f floatlib \<Rightarrow> string option \<Rightarrow> exn + string list" where
  "bbox_filters fl bbox =
     (case bbox of
        None \<Rightarrow> Inr []
      | Some s \<Rightarrow>
          if s = [] then Inr []
          else (case map_result (fl_parse fl) (split_on (CHR '','') s) of
                  Inr xs \<Rightarrow> (case xs of [a, b, c, d] \<Rightarrow> Inr [within_box fl a b c d] | _ \<Rightarrow> Inr [])
                | Inl (ValueError m) \<Rightarrow>
                    Inl (HTTPException 400 (DText ''Invalid bbox format. Use: minLon,minLat,maxLon,maxLat''))
                | Inl e \<Rightarrow> Inl e))"

section \<open>The query\<close>

record location_args =
  lo_bbox :: "string option"
  lo_id :: "string list option"
  lo_prefix :: "string option"
  lo_include_attributes :: bool
  lo_include_geometry :: bool

definition location_conditions :: "location_args \<Rightarrow> exn + string list" where
  "location_conditions a =
     andthen (in_condition ''l.id'' (lo_id a)) (\<lambda>x.
     andthen (single_prefix_condition ''l.id'' (lo_prefix a)) (\<lambda>y.
       Inr (if x @ y = [] then [''1=1''] else x @ y)))"

text \<open>The limit and offset are in the query only where attributes are not pivoted.\<close>

definition locations_query ::
  "Config \<Rightarrow> location_args \<Rightarrow> string list \<Rightarrow> int option \<Rightarrow> int option \<Rightarrow> sql_query"
where
  "locations_query cfg a conditions limit offset =
     \<lparr>sq_select =
        (if lo_include_attributes a then ''l.*, la.attribute_name, la.value as attribute_value''
         else if \<not> lo_include_geometry a then ''l.id, l.name'' else ''l.*''),
      sq_from =
        table_name cfg ''locations'' @ '' l'' @
        (if lo_include_attributes a
         then '' LEFT JOIN '' @ table_name cfg ''location_attributes'' @ '' la ON l.id = la.location_id'' else []),
      sq_where = conditions, sq_order_by = ''l.id'',
      sq_offset = (if lo_include_attributes a then None else offset),
      sq_limit = (if lo_include_attributes a then None else limit)\<rparr>"

section \<open>The pivot\<close>

definition cell_at :: "string list \<Rightarrow> string \<Rightarrow> cell list \<Rightarrow> cell" where
  "cell_at columns c row = (case map_of (zip columns row) c of None \<Rightarrow> CNaN | Some x \<Rightarrow> x)"

text \<open>The first of the elements with each key: \<open>drop_duplicates\<close>.\<close>

fun first_by :: "('a \<Rightarrow> 'k) \<Rightarrow> 'a list \<Rightarrow> 'a list" where
  "first_by key [] = []"
| "first_by key (x # xs) = x # first_by key (filter (\<lambda>y. key y \<noteq> key x) xs)"

definition ATTRIBUTE_COLUMNS :: "string list" where
  "ATTRIBUTE_COLUMNS = [''attribute_name'', ''attribute_value'']"

text \<open>\<open>df.columns.difference\<close> sorts.\<close>

definition location_cols :: "frame \<Rightarrow> string list" where
  "location_cols df = sorted_set (filter (\<lambda>c. c \<notin> set ATTRIBUTE_COLUMNS) (fr_columns df))"

definition locations_frame :: "frame \<Rightarrow> frame" where
  "locations_frame df =
     \<lparr>fr_columns = location_cols df,
      fr_rows = map (\<lambda>row. map (\<lambda>c. cell_at (fr_columns df) c row) (location_cols df))
                  (first_by (cell_at (fr_columns df) ''id'') (fr_rows df))\<rparr>"

text \<open>The attribute rows: id, name, value; the name is a varchar, missing where the left join found none.\<close>

definition attribute_of :: "string list \<Rightarrow> cell list \<Rightarrow> (cell \<times> string \<times> cell) option" where
  "attribute_of columns row =
     (case cell_at columns ''attribute_name'' row of
        CJson (JStr n) \<Rightarrow> Some (cell_at columns ''id'' row, n, cell_at columns ''attribute_value'' row)
      | _ \<Rightarrow> None)"

definition attribute_rows :: "frame \<Rightarrow> (cell \<times> string \<times> cell) list" where
  "attribute_rows df = List.map_filter (attribute_of (fr_columns df)) (fr_rows df)"

definition attribute_names :: "frame \<Rightarrow> string list" where
  "attribute_names df = sorted_set (map (\<lambda>(i, n, v). n) (attribute_rows df))"

definition attribute_value :: "frame \<Rightarrow> cell \<Rightarrow> string \<Rightarrow> cell" where
  "attribute_value df i n =
     (case find (\<lambda>(j, m, v). j = i \<and> m = n) (attribute_rows df) of None \<Rightarrow> CNaN | Some (j, m, v) \<Rightarrow> v)"

text \<open>
  \<open>pivot\<close> refuses a repeated (id, name), \<open>reset_index\<close> an attribute called \<open>id\<close>; \<open>merge\<close> renames the
  columns both sides have.
\<close>

definition merge_attributes :: "frame \<Rightarrow> frame \<Rightarrow> frame" where
  "merge_attributes df locs =
     (let names = attribute_names df; cols = fr_columns locs
      in \<lparr>fr_columns = map (\<lambda>c. if c \<in> set names then c @ ''_x'' else c) cols @
            map (\<lambda>n. if n \<in> set cols then n @ ''_y'' else n) names,
          fr_rows = map (\<lambda>row. row @ map (attribute_value df (cell_at cols ''id'' row)) names) (fr_rows locs)\<rparr>)"

definition pivot_attributes :: "frame \<Rightarrow> exn + frame" where
  "pivot_attributes df =
     (case find (\<lambda>c. c \<notin> set (fr_columns df)) [''id'', ''attribute_name'', ''attribute_value''] of
        Some c \<Rightarrow> Inl (KeyError c)
      | None \<Rightarrow>
          if attribute_rows df = [] then Inr (locations_frame df)
          else if \<not> distinct (map (\<lambda>(i, n, v). (i, n)) (attribute_rows df))
          then Inl (ValueError ''Index contains duplicate entries, cannot reshape'')
          else if ''id'' \<in> set (attribute_names df) then Inl (ValueError ''cannot insert id, already exists'')
          else Inr (merge_attributes df (locations_frame df)))"

text \<open>\<open>df.iloc[start:end]\<close> with \<open>start = offset or 0\<close>.\<close>

definition slice_rows :: "int option \<Rightarrow> int option \<Rightarrow> frame \<Rightarrow> frame" where
  "slice_rows offset limit df =
     (let rows = drop (nat (offset_or_zero offset)) (fr_rows df)
      in df\<lparr>fr_rows := (case limit of None \<Rightarrow> rows | Some l \<Rightarrow> take (nat l) rows)\<rparr>)"

section \<open>The endpoint\<close>

datatype 'g location_response = LoItems items_response | LoGeo "'g geojson_response"

definition location_response_of ::
  "pandas \<Rightarrow> (frame \<Rightarrow> exn + 'g feature list) \<Rightarrow> string \<Rightarrow> location_args \<Rightarrow> int option \<Rightarrow> int option
     \<Rightarrow> frame \<Rightarrow> exn + 'g location_response"
where
  "location_response_of pd to_features url a limit offset df =
     (let df1 = prepared pd None df
      in if \<not> lo_include_geometry a \<and> \<not> lo_include_attributes a
         then Inr (LoItems (items_response_of (to_records df1) [plain_link url ''self'']))
         else andthen (if frame_empty df1 then Inr [] else to_features df1) (\<lambda>fs.
                Inr (LoGeo (create_ogc_geojson_response fs url None (Some ''locations'') limit offset))))"

definition get_locations_items ::
  "Config \<Rightarrow> 'f floatlib \<Rightarrow> pandas \<Rightarrow> (frame \<Rightarrow> exn + 'g feature list) \<Rightarrow> exec \<Rightarrow> Request \<Rightarrow> string
     \<Rightarrow> location_args \<Rightarrow> page_args \<Rightarrow> exn + 'g location_response"
where
  "get_locations_items cfg fl pd to_features exec rq url a p =
     failing_as ''Database error: ''
       (let limit = effective_limit_for_request cfg rq (pa_limit p); offset = pa_offset p
        in andthen (location_conditions a) (\<lambda>cs.
           andthen (bbox_filters fl (lo_bbox a)) (\<lambda>bs.
           andthen (exec (locations_query cfg a (cs @ bs) limit offset)) (\<lambda>df.
           andthen (if lo_include_attributes a
                    then andthen (pivot_attributes df) (\<lambda>d. Inr (slice_rows offset limit d)) else Inr df) (\<lambda>d.
             location_response_of pd to_features url a limit offset d)))))"

section \<open>Facts\<close>

lemma cell_at_map [simp]: "c \<in> set cols \<Longrightarrow> cell_at cols c (map f cols) = f c"
  by (simp add: cell_at_def map_of_zip_map)

lemma cell_at_append:
  assumes "length cols = length row"
  shows "cell_at (cols @ names) c (row @ map f names) =
    (if c \<in> set cols then cell_at cols c row else if c \<in> set names then f c else CNaN)"
proof (cases "c \<in> set cols")
  case True
  then obtain x where "map_of (zip cols row) c = Some x"
    using assms by (metis map_of_zip_is_None not_None_eq)
  with True assms show ?thesis by (simp add: cell_at_def map_add_def)
next
  case False
  then have none: "map_of (zip cols row) c = None" using assms by (simp add: map_of_zip_is_None)
  have tail: "map_of (zip (cols @ names) (row @ map f names)) c = map_of (zip names (map f names)) c"
    by (simp only: zip_append [OF assms] map_of_append map_add_def none option.case)
  show ?thesis unfolding cell_at_def tail by (simp add: map_of_zip_map False)
qed

lemma first_by_keys: "distinct (map key (first_by key xs)) \<and> key ` set (first_by key xs) = key ` set xs"
proof (induction key xs rule: first_by.induct)
  case (2 key x xs)
  have "insert (key x) (key ` set (filter (\<lambda>y. key y \<noteq> key x) xs)) = insert (key x) (key ` set xs)" by auto
  with 2 show ?case by auto
qed simp

lemma first_by_sub: "set (first_by key xs) \<subseteq> set xs"
  by (induction key xs rule: first_by.induct) auto

lemma length_filter_first_by: "length (first_by key xs) \<le> length xs"
proof (induction key xs rule: first_by.induct)
  case (2 key x xs)
  note 2
  also have "length (filter (\<lambda>y. key y \<noteq> key x) xs) \<le> length xs" by (rule length_filter_le)
  finally show ?case by simp
qed simp

lemma find_unique:
  assumes "distinct (map (\<lambda>(i, n, v). (i, n)) xs)" "(i, n, v) \<in> set xs"
  shows "find (\<lambda>(j, m, w). j = i \<and> m = n) xs = Some (i, n, v)"
  using assms
proof (induction xs)
  case Nil
  then show ?case by simp
next
  case (Cons x xs)
  then show ?case by (cases x) force
qed

lemma attribute_value_of:
  "distinct (map (\<lambda>(i, n, v). (i, n)) (attribute_rows df)) \<Longrightarrow> (i, n, v) \<in> set (attribute_rows df) \<Longrightarrow>
   attribute_value df i n = v"
  unfolding attribute_value_def by (simp only: find_unique option.case prod.case)

text \<open>The two frames a pivot can give, by their columns and rows.\<close>

lemma pivot_attributes_Inr:
  assumes "{''id'', ''attribute_name'', ''attribute_value''} \<subseteq> set (fr_columns df)"
    and "distinct (map (\<lambda>(i, n, v). (i, n)) (attribute_rows df))"
    and "set (attribute_names df) \<inter> set (fr_columns df) = {}"
  shows "pivot_attributes df = Inr \<lparr>fr_columns = location_cols df @ attribute_names df,
    fr_rows = map (\<lambda>row. row @ map (attribute_value df (cell_at (location_cols df) ''id'' row)) (attribute_names df))
                (fr_rows (locations_frame df))\<rparr>"
proof (cases "attribute_rows df = []")
  case True
  then have "attribute_names df = []" by (simp add: attribute_names_def)
  with True assms(1) show ?thesis by (simp add: pivot_attributes_def locations_frame_def)
next
  case False
  have "c \<notin> set (attribute_names df)" if "c \<in> set (location_cols df)" for c
    using that assms(3) by (auto simp: location_cols_def disjoint_iff)
  then have "map (\<lambda>c. if c \<in> set (attribute_names df) then c @ ''_x'' else c) (location_cols df) = location_cols df"
    "map (\<lambda>n. if n \<in> set (location_cols df) then n @ ''_y'' else n) (attribute_names df) = attribute_names df"
    by (auto intro!: map_idI)
  moreover have "''id'' \<notin> set (attribute_names df)" using assms(1,3) by auto
  ultimately show ?thesis
    using False assms(1,2)
    by (simp add: pivot_attributes_def merge_attributes_def locations_frame_def Let_def)
qed

section \<open>Properties\<close>

text \<open>C34 Asking for attributes turns one row per (location, attribute) into one row per location: every
  location the query returned appears exactly once, its own columns are those of one of its rows,
  and each attribute row of a location is the value of that location under the attribute's name.\<close>

theorem attributes_pivoted:
  assumes "{''id'', ''attribute_name'', ''attribute_value''} \<subseteq> set (fr_columns df)"
    and "distinct (map (\<lambda>(i, n, v). (i, n)) (attribute_rows df))"
    and "set (attribute_names df) \<inter> set (fr_columns df) = {}"
  shows "\<exists>out. pivot_attributes df = Inr out \<and>
    distinct (map (cell_at (fr_columns out) ''id'') (fr_rows out)) \<and>
    cell_at (fr_columns out) ''id'' ` set (fr_rows out) = cell_at (fr_columns df) ''id'' ` set (fr_rows df) \<and>
    (\<forall>row \<in> set (fr_rows out).
       (\<exists>r \<in> set (fr_rows df). \<forall>c \<in> set (location_cols df).
          cell_at (fr_columns out) c row = cell_at (fr_columns df) c r) \<and>
       (\<forall>(i, n, v) \<in> set (attribute_rows df).
          cell_at (fr_columns out) ''id'' row = i \<longrightarrow> cell_at (fr_columns out) n row = v))"
proof -
  let ?cols = "location_cols df" and ?names = "attribute_names df" and ?old = "fr_columns df"
  let ?firsts = "first_by (cell_at ?old ''id'') (fr_rows df)"
  let ?loc = "\<lambda>r. map (\<lambda>c. cell_at ?old c r) ?cols"
  let ?row = "\<lambda>r. ?loc r @ map (attribute_value df (cell_at ?old ''id'' r)) ?names"
  let ?out = "\<lparr>fr_columns = ?cols @ ?names, fr_rows = map ?row ?firsts\<rparr>"
  have id: "''id'' \<in> set ?cols" using assms(1) by (auto simp: location_cols_def ATTRIBUTE_COLUMNS_def)
  have out: "pivot_attributes df = Inr ?out"
    using pivot_attributes_Inr [OF assms] id by (simp add: locations_frame_def comp_def)
  have cell: "cell_at (?cols @ ?names) c (?row r) =
      (if c \<in> set ?cols then cell_at ?old c r else if c \<in> set ?names then attribute_value df (cell_at ?old ''id'' r) c
       else CNaN)" for c r
    by (simp add: cell_at_append)
  have disj: "n \<notin> set ?cols" if "n \<in> set ?names" for n
    using that assms(3) by (auto simp: location_cols_def)
  have names: "n \<in> set ?names" if "(i, n, v) \<in> set (attribute_rows df)" for i n v
    using that by (force simp: attribute_names_def)
  have ids: "map (cell_at (?cols @ ?names) ''id'') (map ?row ?firsts) = map (cell_at ?old ''id'') ?firsts"
    using id by (simp add: cell)
  have "cell_at (?cols @ ?names) n (?row r) = v"
    if "(i, n, v) \<in> set (attribute_rows df)" "cell_at (?cols @ ?names) ''id'' (?row r) = i" for i n v r
  proof -
    have "cell_at ?old ''id'' r = i" using that(2) id cell [of "''id''" r] by (simp only: if_True)
    moreover have "cell_at (?cols @ ?names) n (?row r) = attribute_value df (cell_at ?old ''id'' r) n"
      using cell [of n r] disj [OF names [OF that(1)]] names [OF that(1)] by (simp only: if_False if_True)
    ultimately show ?thesis using attribute_value_of [OF assms(2) that(1)] by (simp only:)
  qed
  moreover have "set ?firsts \<subseteq> set (fr_rows df)" by (rule first_by_sub)
  moreover have "cell_at (?cols @ ?names) c (?row r) = cell_at ?old c r" if "c \<in> set ?cols" for c r
    using that by (simp add: cell)
  ultimately have "\<forall>row \<in> set (map ?row ?firsts).
       (\<exists>r \<in> set (fr_rows df). \<forall>c \<in> set ?cols. cell_at (?cols @ ?names) c row = cell_at ?old c r) \<and>
       (\<forall>(i, n, v) \<in> set (attribute_rows df).
          cell_at (?cols @ ?names) ''id'' row = i \<longrightarrow> cell_at (?cols @ ?names) n row = v)"
    by fastforce
  moreover have "distinct (map (cell_at (?cols @ ?names) ''id'') (map ?row ?firsts))"
    "cell_at (?cols @ ?names) ''id'' ` set (map ?row ?firsts) = cell_at ?old ''id'' ` set (fr_rows df)"
    using ids first_by_keys [of "cell_at ?old ''id''" "fr_rows df"] by (simp_all only: flip: set_map)
  ultimately show ?thesis using out by (intro exI [of _ ?out]) simp
qed

definition sample_attributes :: frame where
  "sample_attributes =
     \<lparr>fr_columns = [''id'', ''attribute_name'', ''attribute_value''],
      fr_rows = [[CJson (JStr ''usgs-1''), CJson (JStr ''area''), CFloat ''3.5''],
                 [CJson (JStr ''usgs-1''), CJson (JStr ''slope''), CFloat ''0.1''],
                 [CJson (JStr ''usgs-2''), CNone, CNone]]\<rparr>"

lemma attributes_pivoted_witness:
  "\<exists>out. pivot_attributes sample_attributes = Inr out \<and>
     cell_at (fr_columns out) ''id'' ` set (fr_rows out) = {CJson (JStr ''usgs-1''), CJson (JStr ''usgs-2'')}"
proof -
  have rows: "attribute_rows sample_attributes =
      [(CJson (JStr ''usgs-1''), ''area'', CFloat ''3.5''), (CJson (JStr ''usgs-1''), ''slope'', CFloat ''0.1'')]"
    by code_simp
  have names: "attribute_names sample_attributes = [''area'', ''slope'']" by code_simp
  have ids: "cell_at (fr_columns sample_attributes) ''id'' ` set (fr_rows sample_attributes) =
      {CJson (JStr ''usgs-1''), CJson (JStr ''usgs-2'')}"
    by (simp add: sample_attributes_def cell_at_def)
  have "{''id'', ''attribute_name'', ''attribute_value''} \<subseteq> set (fr_columns sample_attributes)"
    "distinct (map (\<lambda>(i, n, v). (i, n)) (attribute_rows sample_attributes))"
    "set (attribute_names sample_attributes) \<inter> set (fr_columns sample_attributes) = {}"
    unfolding rows names by (simp_all add: sample_attributes_def)
  from attributes_pivoted [OF this] ids show ?thesis by auto
qed

fun location_count :: "'g location_response \<Rightarrow> nat" where
  "location_count (LoItems r) = length (ir_items r)"
| "location_count (LoGeo r) = length (gj_features r)"

lemma location_response_count:
  assumes "\<And>df fs. to_features df = Inr fs \<Longrightarrow> length fs = length (fr_rows df)"
    and "location_response_of pd to_features url a limit offset df = Inr r"
  shows "location_count r = length (fr_rows df)"
  using assms
  by (auto simp: location_response_of_def andthen_Inr_iff Let_def items_response_of_def frame_empty_def
      create_ogc_geojson_response_def split: if_split_asm)

text \<open>The locations collection respects the cap of the caller's role on both of its paths: in the query
  where locations are served as they are, and after the pivot where the query fetches every
  attribute row and the page is cut from the pivoted frame.\<close>

theorem locations_capped:
  assumes "respects_limit exec" "page_args_valid p" "0 \<le> cap"
    and "record_limit_for_identity cfg (request_identity rq) = Some cap"
    and "\<And>df fs. to_features df = Inr fs \<Longrightarrow> length fs = length (fr_rows df)"
    and "get_locations_items cfg fl pd to_features exec rq url a p = Inr r"
  shows "int (location_count r) \<le> cap"
proof -
  let ?limit = "effective_limit_for_request cfg rq (pa_limit p)"
  have lim: "\<And>x. pa_limit p = Some x \<Longrightarrow> 1 \<le> x"
    using assms(2) by (simp add: page_args_valid_def)
  obtain n where n: "?limit = Some n" "0 \<le> n" "n \<le> cap"
    using effective_limit_nonneg [OF assms(4,3), of "pa_limit p"] lim by force
  obtain cs bs df d where df: "exec (locations_query cfg a (cs @ bs) ?limit (pa_offset p)) = Inr df"
    and d: "(if lo_include_attributes a then andthen (pivot_attributes df) (\<lambda>d. Inr (slice_rows (pa_offset p) ?limit d))
       else Inr df) = Inr d"
    and r: "location_response_of pd to_features url a ?limit (pa_offset p) d = Inr r"
    using assms(6) by (auto simp: get_locations_items_def Let_def andthen_Inr_iff)
  have "int (length (fr_rows d)) \<le> cap"
  proof (cases "lo_include_attributes a")
    case True
    with d obtain d0 where "d = slice_rows (pa_offset p) ?limit d0" by (auto simp: andthen_Inr_iff)
    then have "length (fr_rows d) \<le> nat n" by (simp add: n(1) slice_rows_def Let_def)
    with n show ?thesis by linarith
  next
    case False
    then have "sq_limit (locations_query cfg a (cs @ bs) ?limit (pa_offset p)) = ?limit"
      by (simp add: locations_query_def)
    from exec_capped [OF assms(1) df this assms(4,3) lim] False d show ?thesis by simp
  qed
  with location_response_count [OF assms(5) r] show ?thesis by simp
qed

definition sample_locations :: location_args where
  "sample_locations =
     \<lparr>lo_bbox = None, lo_id = None, lo_prefix = Some ''usgs'', lo_include_attributes = True, lo_include_geometry = True\<rparr>"

definition sample_location_exec :: exec where
  "sample_location_exec q = (if sq_limit q = None then Inr sample_attributes else Inl OSError)"

lemma locations_capped_witness:
  "\<forall>cfg :: Config. \<exists>r. get_locations_items (cfg\<lparr>ROW_LIMIT_ANON := 1\<rparr>) \<lparr>fl_parse = Inr, fl_show = id\<rparr> sample_pandas
       (\<lambda>df. Inr (map (\<lambda>_. \<lparr>ft_id = None, ft_properties = [], ft_geometry = ()\<rparr>) (fr_rows df)))
       sample_location_exec anonymous_request ''u'' sample_locations \<lparr>pa_limit = None, pa_offset = None\<rparr> = Inr r \<and>
     int (location_count r) \<le> 1"
proof
  fix cfg :: Config
  let ?cfg = "cfg\<lparr>ROW_LIMIT_ANON := 1\<rparr>"
  let ?p = "\<lparr>pa_limit = None, pa_offset = None\<rparr>"
  let ?feat = "\<lambda>df. Inr (map (\<lambda>_. \<lparr>ft_id = None, ft_properties = [], ft_geometry = ()\<rparr>) (fr_rows df))"
  let ?get = "get_locations_items ?cfg \<lparr>fl_parse = Inr, fl_show = id\<rparr> sample_pandas ?feat sample_location_exec
    anonymous_request ''u'' sample_locations ?p"
  have lim: "respects_limit sample_location_exec"
    by (auto simp: respects_limit_def sample_location_exec_def)
  have p: "page_args_valid ?p" by (simp add: page_args_valid_def)
  have cap: "record_limit_for_identity ?cfg (request_identity anonymous_request) = Some 1"
    by (simp add: record_limit_for_identity_def request_identity_def anonymous_request_def
        anonymous_identity_def is_authenticated_def)
  have "case pivot_attributes sample_attributes of Inr _ \<Rightarrow> True | Inl _ \<Rightarrow> False" by code_simp
  then have "\<exists>d. pivot_attributes sample_attributes = Inr d"
    by (cases "pivot_attributes sample_attributes") simp_all
  moreover have "case location_conditions sample_locations of Inr _ \<Rightarrow> True | Inl _ \<Rightarrow> False" by code_simp
  then have "\<exists>cs. location_conditions sample_locations = Inr cs"
    by (cases "location_conditions sample_locations") simp_all
  moreover have "lo_include_attributes sample_locations" "lo_bbox sample_locations = None"
    by (simp_all add: sample_locations_def)
  ultimately have "\<exists>r. ?get = Inr r"
    by (auto simp: get_locations_items_def Let_def bbox_filters_def sample_location_exec_def locations_query_def
        location_response_of_def)
  then obtain r where r: "?get = Inr r" by blast
  have "int (location_count r) \<le> 1"
    by (rule locations_capped [OF lim p _ cap _ r]) auto
  with r show "\<exists>r. ?get = Inr r \<and> int (location_count r) \<le> 1" by blast
qed

end
