(* ===== verification/Ogc_Foundation.thy ===== *)
theory Ogc_Foundation
  imports Queryables
begin

text \<open>
  The foundation endpoints (\<open>routes/ogc_foundation.py\<close>, \<open>models.py\<close>): landing page, conformance, the
  list of collections with the extents read from the database, and one collection by its id.
  \<open>run\<close> is \<open>execute_query\<close> with one row at most; reading a cell as a float and printing an
  instant are parameters.  The constant reference systems of an extent are left out.
\<close>

section \<open>Responses\<close>

definition REL_QUERYABLES :: string where
  "REL_QUERYABLES = ''http://www.opengis.net/def/rel/ogc/1.0/queryables''"

definition CRS84 :: string where
  "CRS84 = ''http://www.opengis.net/def/crs/OGC/1.3/CRS84''"

text \<open>An extent is what \<open>float\<close> gives for the four bounds, and the two instants as printed.\<close>

record Extent =
  ex_spatial :: "(string \<times> string \<times> string \<times> string) option"
  ex_temporal :: "(string \<times> string) option"

record Collection =
  co_id :: string
  co_title :: string
  co_description :: string
  co_links :: "link list"
  co_extent :: "Extent option"
  co_item_type :: "string option"
  co_crs :: "string list option"

record CollectionsResponse =
  cr_links :: "link list"
  cr_collections :: "Collection list"

record LandingPage =
  lp_title :: string
  lp_description :: string
  lp_links :: "link list"

definition root :: LandingPage where
  "root =
     \<lparr>lp_title = ''TEEHR Dashboard API'',
      lp_description = ''OGC-compliant API for hydrological timeseries and metrics data'',
      lp_links =
       [\<lparr>ln_href = ''/'', ln_rel = ''self'', ln_type = ''application/json'', ln_title = Some ''This document''\<rparr>,
        \<lparr>ln_href = ''/api'', ln_rel = ''service-desc'', ln_type = ''application/vnd.oai.openapi+json;version=3.0'', ln_title = Some ''API definition''\<rparr>,
        \<lparr>ln_href = ''/docs'', ln_rel = ''service-doc'', ln_type = ''text/html'', ln_title = Some ''API documentation''\<rparr>,
        \<lparr>ln_href = ''/conformance'', ln_rel = ''conformance'', ln_type = ''application/json'', ln_title = Some ''OGC API conformance classes''\<rparr>,
        \<lparr>ln_href = ''/collections'', ln_rel = ''data'', ln_type = ''application/json'', ln_title = Some ''Collections''\<rparr>]\<rparr>"

definition conformance :: "string list" where
  "conformance =
     [''http://www.opengis.net/spec/ogcapi-common-1/1.0/conf/core'',
      ''http://www.opengis.net/spec/ogcapi-common-1/1.0/conf/landing-page'',
      ''http://www.opengis.net/spec/ogcapi-common-1/1.0/conf/json'',
      ''http://www.opengis.net/spec/ogcapi-features-1/1.0/conf/core'',
      ''http://www.opengis.net/spec/ogcapi-features-1/1.0/conf/geojson'',
      ''http://www.opengis.net/spec/ogcapi-features-3/1.0/conf/queryables'']"

section \<open>Extents\<close>

definition spatial_query :: "Config \<Rightarrow> string" where
  "spatial_query cfg =
     ''SELECT MIN(ST_X(ST_GeomFromBinary(geometry))) as min_lon, MAX(ST_X(ST_GeomFromBinary(geometry))) as max_lon, MIN(ST_Y(ST_GeomFromBinary(geometry))) as min_lat, MAX(ST_Y(ST_GeomFromBinary(geometry))) as max_lat FROM '' @
     table_name cfg ''locations'' @ '' WHERE id LIKE '' @ quoted ''usgs-%''"

definition temporal_query :: "Config \<Rightarrow> string" where
  "temporal_query cfg =
     ''SELECT MIN(value_time) as min_time, MAX(value_time) as max_time FROM ( SELECT value_time FROM '' @
     table_name cfg ''primary_timeseries'' @ '' UNION ALL SELECT value_time FROM '' @
     table_name cfg ''secondary_timeseries'' @ '' )''"

text \<open>\<open>df[name].iloc[0]\<close>.\<close>

definition first_cell :: "string \<Rightarrow> frame \<Rightarrow> exn + cell" where
  "first_cell name df =
     andthen (column_values name df) (\<lambda>cs. case cs of [] \<Rightarrow> Inl (KeyError ''0'') | c # _ \<Rightarrow> Inr c)"

record extents =
  xt_bbox :: "string \<times> string \<times> string \<times> string"
  xt_interval :: "string \<times> string"

definition read_extents ::
  "(string \<Rightarrow> exn + frame) \<Rightarrow> (cell \<Rightarrow> exn + string) \<Rightarrow> (cell \<Rightarrow> exn + string) \<Rightarrow> Config \<Rightarrow> exn + extents"
where
  "read_extents run to_float isoformat cfg =
     andthen (run (spatial_query cfg)) (\<lambda>sp.
     andthen (run (temporal_query cfg)) (\<lambda>tm.
     andthen (andthen (first_cell ''min_lon'' sp) to_float) (\<lambda>a.
     andthen (andthen (first_cell ''min_lat'' sp) to_float) (\<lambda>b.
     andthen (andthen (first_cell ''max_lon'' sp) to_float) (\<lambda>c.
     andthen (andthen (first_cell ''max_lat'' sp) to_float) (\<lambda>d.
     andthen (andthen (first_cell ''min_time'' tm) isoformat) (\<lambda>s.
     andthen (andthen (first_cell ''max_time'' tm) isoformat) (\<lambda>e.
       Inr \<lparr>xt_bbox = (a, b, c, d), xt_interval = (s @ ''Z'', e @ ''Z'')\<rparr>))))))))"

definition extents_or_none :: "exn + extents \<Rightarrow> extents option" where
  "extents_or_none r = (case r of Inl e \<Rightarrow> None | Inr x \<Rightarrow> Some x)"

definition spatial_only :: "extents option \<Rightarrow> Extent option" where
  "spatial_only ex = map_option (\<lambda>x. \<lparr>ex_spatial = Some (xt_bbox x), ex_temporal = None\<rparr>) ex"

definition spatial_temporal :: "extents option \<Rightarrow> Extent option" where
  "spatial_temporal ex = map_option (\<lambda>x. \<lparr>ex_spatial = Some (xt_bbox x), ex_temporal = Some (xt_interval x)\<rparr>) ex"

section \<open>The collections\<close>

definition locations_collection :: "extents option \<Rightarrow> Collection" where
  "locations_collection ex =
     \<lparr>co_id = ''locations'',
      co_title = ''Observation Locations'',
      co_description = ''Geographic locations where observations are collected'',
      co_links =
       [\<lparr>ln_href = ''/collections/locations'', ln_rel = ''self'', ln_type = ''application/json'', ln_title = None\<rparr>,
        \<lparr>ln_href = ''/collections/locations/items'', ln_rel = ''items'', ln_type = ''application/geo+json'', ln_title = None\<rparr>,
        \<lparr>ln_href = ''/collections/locations/queryables'', ln_rel = REL_QUERYABLES, ln_type = ''application/schema+json'', ln_title = None\<rparr>],
      co_extent = spatial_only ex, co_item_type = Some ''feature'', co_crs = Some [CRS84]\<rparr>"

definition location_crosswalks_collection :: "extents option \<Rightarrow> Collection" where
  "location_crosswalks_collection ex =
     \<lparr>co_id = ''location_crosswalks'',
      co_title = ''Location Crosswalks'',
      co_description = ''Mappings between primary (e.g., USGS) and secondary (e.g., NWM) location identifiers'',
      co_links =
       [\<lparr>ln_href = ''/collections/location_crosswalks'', ln_rel = ''self'', ln_type = ''application/json'', ln_title = None\<rparr>,
        \<lparr>ln_href = ''/collections/location_crosswalks/items'', ln_rel = ''items'', ln_type = ''application/json'', ln_title = None\<rparr>],
      co_extent = None, co_item_type = Some ''record'', co_crs = None\<rparr>"

definition location_id_aliases_collection :: "extents option \<Rightarrow> Collection" where
  "location_id_aliases_collection ex =
     \<lparr>co_id = ''location_id_aliases'',
      co_title = ''Location ID Aliases'',
      co_description = ''Alternate IDs that map to a location ID; primary timeseries may be stored under either'',
      co_links =
       [\<lparr>ln_href = ''/collections/location_id_aliases'', ln_rel = ''self'', ln_type = ''application/json'', ln_title = None\<rparr>,
        \<lparr>ln_href = ''/collections/location_id_aliases/items'', ln_rel = ''items'', ln_type = ''application/json'', ln_title = None\<rparr>],
      co_extent = None, co_item_type = Some ''record'', co_crs = None\<rparr>"

definition configuration_pairs_collection :: "extents option \<Rightarrow> Collection" where
  "configuration_pairs_collection ex =
     \<lparr>co_id = ''configuration_pairs'',
      co_title = ''Configuration Pairs'',
      co_description = ''Primary configurations each secondary configuration is evaluated against'',
      co_links =
       [\<lparr>ln_href = ''/collections/configuration_pairs'', ln_rel = ''self'', ln_type = ''application/json'', ln_title = None\<rparr>,
        \<lparr>ln_href = ''/collections/configuration_pairs/items'', ln_rel = ''items'', ln_type = ''application/json'', ln_title = None\<rparr>],
      co_extent = None, co_item_type = Some ''record'', co_crs = None\<rparr>"

definition primary_timeseries_collection :: "extents option \<Rightarrow> Collection" where
  "primary_timeseries_collection ex =
     \<lparr>co_id = ''primary_timeseries'',
      co_title = ''Primary Timeseries'',
      co_description = ''Observed timeseries data at monitoring locations'',
      co_links =
       [\<lparr>ln_href = ''/collections/primary_timeseries'', ln_rel = ''self'', ln_type = ''application/json'', ln_title = None\<rparr>,
        \<lparr>ln_href = ''/collections/primary_timeseries/items'', ln_rel = ''items'', ln_type = ''application/json'', ln_title = None\<rparr>,
        \<lparr>ln_href = ''/collections/primary_timeseries/queryables'', ln_rel = REL_QUERYABLES, ln_type = ''application/schema+json'', ln_title = None\<rparr>],
      co_extent = spatial_temporal ex, co_item_type = None, co_crs = Some [CRS84]\<rparr>"

definition secondary_timeseries_collection :: "extents option \<Rightarrow> Collection" where
  "secondary_timeseries_collection ex =
     \<lparr>co_id = ''secondary_timeseries'',
      co_title = ''Secondary Timeseries'',
      co_description = ''Forecast/simulated timeseries data'',
      co_links =
       [\<lparr>ln_href = ''/collections/secondary_timeseries'', ln_rel = ''self'', ln_type = ''application/json'', ln_title = None\<rparr>,
        \<lparr>ln_href = ''/collections/secondary_timeseries/items'', ln_rel = ''items'', ln_type = ''application/json'', ln_title = None\<rparr>,
        \<lparr>ln_href = ''/collections/secondary_timeseries/queryables'', ln_rel = REL_QUERYABLES, ln_type = ''application/schema+json'', ln_title = None\<rparr>],
      co_extent = spatial_temporal ex, co_item_type = None, co_crs = Some [CRS84]\<rparr>"

definition sim_metrics_by_location_collection :: "extents option \<Rightarrow> Collection" where
  "sim_metrics_by_location_collection ex =
     \<lparr>co_id = ''sim_metrics_by_location'',
      co_title = ''Simulation Metrics by Location'',
      co_description = ''Performance metrics for simulations by location'',
      co_links =
       [\<lparr>ln_href = ''/collections/sim_metrics_by_location'', ln_rel = ''self'', ln_type = ''application/json'', ln_title = None\<rparr>,
        \<lparr>ln_href = ''/collections/sim_metrics_by_location/items'', ln_rel = ''items'', ln_type = ''application/geo+json'', ln_title = None\<rparr>,
        \<lparr>ln_href = ''/collections/sim_metrics_by_location/queryables'', ln_rel = REL_QUERYABLES, ln_type = ''application/schema+json'', ln_title = None\<rparr>],
      co_extent = spatial_only ex, co_item_type = Some ''feature'', co_crs = Some [CRS84]\<rparr>"

definition fcst_metrics_by_location_collection :: "extents option \<Rightarrow> Collection" where
  "fcst_metrics_by_location_collection ex =
     \<lparr>co_id = ''fcst_metrics_by_location'',
      co_title = ''Forecast Metrics by Location'',
      co_description = ''Performance metrics for forecasts by location'',
      co_links =
       [\<lparr>ln_href = ''/collections/fcst_metrics_by_location'', ln_rel = ''self'', ln_type = ''application/json'', ln_title = None\<rparr>,
        \<lparr>ln_href = ''/collections/fcst_metrics_by_location/items'', ln_rel = ''items'', ln_type = ''application/geo+json'', ln_title = None\<rparr>,
        \<lparr>ln_href = ''/collections/fcst_metrics_by_location/queryables'', ln_rel = REL_QUERYABLES, ln_type = ''application/schema+json'', ln_title = None\<rparr>],
      co_extent = spatial_only ex, co_item_type = Some ''feature'', co_crs = Some [CRS84]\<rparr>"

definition fcst_metrics_by_lead_time_bins_collection :: "extents option \<Rightarrow> Collection" where
  "fcst_metrics_by_lead_time_bins_collection ex =
     \<lparr>co_id = ''fcst_metrics_by_lead_time_bins'',
      co_title = ''Forecast Metrics by Lead Time'',
      co_description = ''Performance metrics for forecasts by lead time bins'',
      co_links =
       [\<lparr>ln_href = ''/collections/fcst_metrics_by_lead_time_bins'', ln_rel = ''self'', ln_type = ''application/json'', ln_title = None\<rparr>,
        \<lparr>ln_href = ''/collections/fcst_metrics_by_lead_time_bins/items'', ln_rel = ''items'', ln_type = ''application/geo+json'', ln_title = None\<rparr>,
        \<lparr>ln_href = ''/collections/fcst_metrics_by_lead_time_bins/queryables'', ln_rel = REL_QUERYABLES, ln_type = ''application/schema+json'', ln_title = None\<rparr>],
      co_extent = spatial_only ex, co_item_type = Some ''feature'', co_crs = Some [CRS84]\<rparr>"

definition configurations_by_location_collection :: "extents option \<Rightarrow> Collection" where
  "configurations_by_location_collection ex =
     \<lparr>co_id = ''configurations_by_location'',
      co_title = ''Configurations by Location'',
      co_description = ''Configurations, variables and units available at each primary location, with timeseries time ranges and ensemble member counts'',
      co_links =
       [\<lparr>ln_href = ''/collections/configurations_by_location'', ln_rel = ''self'', ln_type = ''application/json'', ln_title = None\<rparr>,
        \<lparr>ln_href = ''/collections/configurations_by_location/items'', ln_rel = ''items'', ln_type = ''application/geo+json'', ln_title = None\<rparr>,
        \<lparr>ln_href = ''/collections/configurations_by_location/queryables'', ln_rel = REL_QUERYABLES, ln_type = ''application/schema+json'', ln_title = None\<rparr>],
      co_extent = spatial_only ex, co_item_type = Some ''feature'', co_crs = Some [CRS84]\<rparr>"

definition configurations_summary_collection :: "extents option \<Rightarrow> Collection" where
  "configurations_summary_collection ex =
     \<lparr>co_id = ''configurations_summary'',
      co_title = ''Configurations Summary'',
      co_description = ''Per-configuration summary of available timeseries: variables, units, time ranges and location counts'',
      co_links =
       [\<lparr>ln_href = ''/collections/configurations_summary'', ln_rel = ''self'', ln_type = ''application/json'', ln_title = None\<rparr>,
        \<lparr>ln_href = ''/collections/configurations_summary/items'', ln_rel = ''items'', ln_type = ''application/json'', ln_title = None\<rparr>,
        \<lparr>ln_href = ''/collections/configurations_summary/queryables'', ln_rel = REL_QUERYABLES, ln_type = ''application/schema+json'', ln_title = None\<rparr>],
      co_extent = None, co_item_type = Some ''record'', co_crs = None\<rparr>"

definition configurations_collection :: "extents option \<Rightarrow> Collection" where
  "configurations_collection ex =
     \<lparr>co_id = ''configurations'',
      co_title = ''Configurations'',
      co_description = ''Data source configurations (e.g., nwm30_retrospective, usgs_observations)'',
      co_links =
       [\<lparr>ln_href = ''/collections/configurations'', ln_rel = ''self'', ln_type = ''application/json'', ln_title = None\<rparr>,
        \<lparr>ln_href = ''/collections/configurations/items'', ln_rel = ''items'', ln_type = ''application/json'', ln_title = None\<rparr>],
      co_extent = None, co_item_type = Some ''record'', co_crs = None\<rparr>"

definition units_collection :: "extents option \<Rightarrow> Collection" where
  "units_collection ex =
     \<lparr>co_id = ''units'',
      co_title = ''Units'',
      co_description = ''Measurement unit definitions (e.g., m^3/s, ft^3/s)'',
      co_links =
       [\<lparr>ln_href = ''/collections/units'', ln_rel = ''self'', ln_type = ''application/json'', ln_title = None\<rparr>,
        \<lparr>ln_href = ''/collections/units/items'', ln_rel = ''items'', ln_type = ''application/json'', ln_title = None\<rparr>],
      co_extent = None, co_item_type = Some ''record'', co_crs = None\<rparr>"

definition variables_collection :: "extents option \<Rightarrow> Collection" where
  "variables_collection ex =
     \<lparr>co_id = ''variables'',
      co_title = ''Variables'',
      co_description = ''Variable/parameter definitions (e.g., streamflow_hourly_inst)'',
      co_links =
       [\<lparr>ln_href = ''/collections/variables'', ln_rel = ''self'', ln_type = ''application/json'', ln_title = None\<rparr>,
        \<lparr>ln_href = ''/collections/variables/items'', ln_rel = ''items'', ln_type = ''application/json'', ln_title = None\<rparr>],
      co_extent = None, co_item_type = Some ''record'', co_crs = None\<rparr>"

definition attributes_collection :: "extents option \<Rightarrow> Collection" where
  "attributes_collection ex =
     \<lparr>co_id = ''attributes'',
      co_title = ''Attributes'',
      co_description = ''Location attribute definitions (e.g., drainage_area_km2, state, huc8)'',
      co_links =
       [\<lparr>ln_href = ''/collections/attributes'', ln_rel = ''self'', ln_type = ''application/json'', ln_title = None\<rparr>,
        \<lparr>ln_href = ''/collections/attributes/items'', ln_rel = ''items'', ln_type = ''application/json'', ln_title = None\<rparr>],
      co_extent = None, co_item_type = Some ''record'', co_crs = None\<rparr>"

definition location_attributes_collection :: "extents option \<Rightarrow> Collection" where
  "location_attributes_collection ex =
     \<lparr>co_id = ''location_attributes'',
      co_title = ''Location Attributes'',
      co_description = ''Attribute values for each location (location_id, attribute_name, value)'',
      co_links =
       [\<lparr>ln_href = ''/collections/location_attributes'', ln_rel = ''self'', ln_type = ''application/json'', ln_title = None\<rparr>,
        \<lparr>ln_href = ''/collections/location_attributes/items'', ln_rel = ''items'', ln_type = ''application/json'', ln_title = None\<rparr>],
      co_extent = None, co_item_type = Some ''record'', co_crs = None\<rparr>"

definition all_collections :: "extents option \<Rightarrow> Collection list" where
  "all_collections ex =
     [locations_collection ex,
      location_crosswalks_collection ex,
      location_id_aliases_collection ex,
      configuration_pairs_collection ex,
      primary_timeseries_collection ex,
      secondary_timeseries_collection ex,
      sim_metrics_by_location_collection ex,
      fcst_metrics_by_location_collection ex,
      fcst_metrics_by_lead_time_bins_collection ex,
      configurations_by_location_collection ex,
      configurations_summary_collection ex,
      configurations_collection ex,
      units_collection ex,
      variables_collection ex,
      attributes_collection ex,
      location_attributes_collection ex]"

definition get_collections ::
  "(string \<Rightarrow> exn + frame) \<Rightarrow> (cell \<Rightarrow> exn + string) \<Rightarrow> (cell \<Rightarrow> exn + string) \<Rightarrow> Config \<Rightarrow> CollectionsResponse"
where
  "get_collections run to_float isoformat cfg =
     \<lparr>cr_links = [\<lparr>ln_href = ''/collections'', ln_rel = ''self'', ln_type = ''application/json'', ln_title = None\<rparr>, \<lparr>ln_href = ''/'', ln_rel = ''root'', ln_type = ''application/json'', ln_title = None\<rparr>],
      cr_collections = all_collections (extents_or_none (read_extents run to_float isoformat cfg))\<rparr>"

definition get_collection ::
  "(string \<Rightarrow> exn + frame) \<Rightarrow> (cell \<Rightarrow> exn + string) \<Rightarrow> (cell \<Rightarrow> exn + string) \<Rightarrow> Config \<Rightarrow> string \<Rightarrow> exn + Collection"
where
  "get_collection run to_float isoformat cfg collection_id =
     (case find (\<lambda>c. co_id c = collection_id) (cr_collections (get_collections run to_float isoformat cfg)) of
        Some c \<Rightarrow> Inr c
      | None \<Rightarrow> Inl (HTTPException 404 (DText (''Collection '' @ quoted collection_id @ '' not found''))))"

section \<open>Properties\<close>

lemmas collection_defs =
  locations_collection_def
  location_crosswalks_collection_def
  location_id_aliases_collection_def
  configuration_pairs_collection_def
  primary_timeseries_collection_def
  secondary_timeseries_collection_def
  sim_metrics_by_location_collection_def
  fcst_metrics_by_location_collection_def
  fcst_metrics_by_lead_time_bins_collection_def
  configurations_by_location_collection_def
  configurations_summary_collection_def
  configurations_collection_def
  units_collection_def
  variables_collection_def
  attributes_collection_def
  location_attributes_collection_def

lemma all_ids:
  "map co_id (all_collections ex) = map co_id (all_collections None)"
  by (simp add: all_collections_def collection_defs)

text \<open>The catalogue is complete and unambiguous whatever the database does: its ids are distinct, an id
  is answered exactly when it is listed (otherwise with a 404) and with the entry that carries it,
  every collection with declared queryables is listed, and every entry links to itself and to its
  items under its own id, and to queryables under no other.\<close>

theorem collections_consistent:
  "(case get_collection run to_float isoformat cfg i of
      Inr c \<Rightarrow> co_id c = i \<and> c \<in> set (cr_collections (get_collections run to_float isoformat cfg))
    | Inl e \<Rightarrow> exn_status e = Some 404 \<and> i \<notin> co_id ` set (cr_collections (get_collections run to_float isoformat cfg))) \<and>
   distinct (map co_id (cr_collections (get_collections run to_float isoformat cfg))) \<and>
   fst ` set COLLECTION_CONFIGS \<subseteq> co_id ` set (cr_collections (get_collections run to_float isoformat cfg)) \<and>
   list_all (\<lambda>c. map ln_href (co_links c) =
       [''/collections/'' @ co_id c, ''/collections/'' @ co_id c @ ''/items''] @
       (if length (co_links c) = 3 then [''/collections/'' @ co_id c @ ''/queryables''] else []) \<and>
     map ln_rel (co_links c) = [''self'', ''items''] @ (if length (co_links c) = 3 then [REL_QUERYABLES] else []))
     (cr_collections (get_collections run to_float isoformat cfg))"
proof (intro conjI)
  let ?cs = "cr_collections (get_collections run to_float isoformat cfg)"
  obtain ex where cs: "?cs = all_collections ex" by (simp add: get_collections_def)
  show "case get_collection run to_float isoformat cfg i of
      Inr c \<Rightarrow> co_id c = i \<and> c \<in> set ?cs | Inl e \<Rightarrow> exn_status e = Some 404 \<and> i \<notin> co_id ` set ?cs"
  proof (cases "find (\<lambda>c. co_id c = i) ?cs")
    case None
    moreover from None have "i \<notin> co_id ` set ?cs" by (auto simp: find_None_iff)
    ultimately show ?thesis by (simp add: get_collection_def)
  next
    case (Some c)
    moreover from Some have "co_id c = i" "c \<in> set ?cs" by (auto simp: find_Some_iff)
    ultimately show ?thesis by (simp add: get_collection_def)
  qed
  show "distinct (map co_id ?cs)"
    unfolding cs all_ids [of ex] by code_simp
  have "fst ` set COLLECTION_CONFIGS \<subseteq> set (map co_id (all_collections None))" by code_simp
  then show "fst ` set COLLECTION_CONFIGS \<subseteq> co_id ` set ?cs"
    unfolding cs all_ids [of ex, symmetric] by simp
  show "list_all (\<lambda>c. map ln_href (co_links c) =
       [''/collections/'' @ co_id c, ''/collections/'' @ co_id c @ ''/items''] @
       (if length (co_links c) = 3 then [''/collections/'' @ co_id c @ ''/queryables''] else []) \<and>
     map ln_rel (co_links c) = [''self'', ''items''] @ (if length (co_links c) = 3 then [REL_QUERYABLES] else [])) ?cs"
    unfolding cs by (simp add: all_collections_def collection_defs)
qed

end
