(* ===== verification/X_Auth.thy ===== *)
theory X_Auth
  imports Keycloak
begin

text \<open>
  Settings and authentication of the xpublish service (\<open>xpublish-api/src/config.py\<close>,
  \<open>xpublish-api/src/auth.py\<close>): the identity made of the claims of a token the \<open>Keycloak\<close> validator
  accepts, and who a request is.  There are no API keys here and no anonymous role.
\<close>

section \<open>Settings\<close>

record XConfig = KeycloakConfig +
  TEEHR_ACCESS_RULES :: string
  ICECHUNK_ACCESS_ROLE_ARN :: string
  ICECHUNK_STS_UNAVAILABLE :: bool

definition x_load_config :: "env \<Rightarrow> XConfig" where
  "x_load_config env =
     \<lparr>KEYCLOAK_ISSUER_URL = env_text env ''KEYCLOAK_ISSUER_URL'' [],
      KEYCLOAK_JWKS_URL = env_text env ''KEYCLOAK_JWKS_URL'' [],
      KEYCLOAK_ALLOWED_AUDIENCES =
        env_text env ''KEYCLOAK_ALLOWED_AUDIENCES'' ''teehr-frontend,teehr-frontend-local-dev'',
      TEEHR_ACCESS_RULES = env_text env ''TEEHR_ACCESS_RULES'' ''{}'',
      ICECHUNK_ACCESS_ROLE_ARN = env_text env ''ICECHUNK_ACCESS_ROLE_ARN'' [],
      ICECHUNK_STS_UNAVAILABLE = (lower (strip (env_text env ''ICECHUNK_STS_UNAVAILABLE'' ''true'')) = ''true'')\<rparr>"

section \<open>From claims to an identity\<close>

text \<open>As in the API service, a \<open>sub\<close> that is no string, which PyJWT refuses, counts as missing.\<close>

definition x_identity_of_claims :: "'c KeycloakConfig_scheme \<Rightarrow> json \<Rightarrow> exn + AuthIdentity" where
  "x_identity_of_claims cfg claims =
     andthen (json_get claims ''aud'') (\<lambda>aud.
     andthen (json_get claims ''azp'') (\<lambda>azp.
     if \<not> audience_ok cfg aud azp then Inl (HTTPException 401 (DText ''Invalid access token''))
     else
       andthen (json_get claims ''sub'') (\<lambda>sub.
       case as_string sub of
         None \<Rightarrow> Inl (HTTPException 401 (DText ''JWT missing subject''))
       | Some s \<Rightarrow>
           if s = [] then Inl (HTTPException 401 (DText ''JWT missing subject''))
           else
             andthen (roles_of_claims claims) (\<lambda>rs.
             andthen (andthen (json_get claims ''scope'') scopes_of) (\<lambda>scs.
             andthen (json_get claims ''preferred_username'') (\<lambda>pu.
             Inr \<lparr>subject = s, auth_type = ''jwt'', roles = rs, scopes = scs,
                  preferred_username = as_string pu\<rparr>))))))"

definition x_validate ::
  "'c KeycloakConfig_scheme \<Rightarrow> jwt_lib \<Rightarrow> http \<Rightarrow> http \<Rightarrow> clock \<Rightarrow> clock \<Rightarrow> string \<Rightarrow> Validator
     \<Rightarrow> (exn + AuthIdentity) \<times> Validator"
where
  "x_validate cfg = validate_with cfg (x_identity_of_claims cfg)"

section \<open>Requests\<close>

record XRequest =
  xr_method :: string
  xr_path :: string
  xr_headers :: "(string, string) dict"
  xr_identity :: "AuthIdentity option"

definition x_anonymous :: AuthIdentity where
  "x_anonymous =
     \<lparr>subject = ''anonymous'', auth_type = ''anonymous'', roles = [], scopes = [], preferred_username = None\<rparr>"

definition x_resolve_identity ::
  "(string \<Rightarrow> 's \<Rightarrow> (exn + AuthIdentity) \<times> 's) \<Rightarrow> XRequest \<Rightarrow> 's \<Rightarrow> (exn + AuthIdentity) \<times> 's"
where
  "x_resolve_identity validate_jwt rq s =
     (case bearer_token (dict_get_default (xr_headers rq) ''authorization'' []) of
        Some token \<Rightarrow> validate_jwt token s
      | None \<Rightarrow> (Inr x_anonymous, s))"

definition x_get_request_identity ::
  "(XRequest \<Rightarrow> 's \<Rightarrow> (exn + AuthIdentity) \<times> 's) \<Rightarrow> XRequest \<Rightarrow> 's \<Rightarrow> (exn + AuthIdentity \<times> XRequest) \<times> 's"
where
  "x_get_request_identity resolve rq s =
     (case xr_identity rq of
        Some u \<Rightarrow> (Inr (u, rq), s)
      | None \<Rightarrow>
          (case resolve rq s of
             (Inl e, s') \<Rightarrow> (Inl e, s')
           | (Inr u, s') \<Rightarrow> (Inr (u, rq\<lparr>xr_identity := Some u\<rparr>), s')))"

definition x_get_authenticated_identity :: "AuthIdentity \<Rightarrow> exn + AuthIdentity" where
  "x_get_authenticated_identity u =
     (if \<not> x_is_authenticated u then Inl (HTTPException 401 (DText ''Authentication required''))
      else Inr u)"

section \<open>Facts\<close>

lemma x_identity_of_claims_Inr:
  assumes "x_identity_of_claims cfg claims = Inr u"
  shows "json_get claims ''sub'' = Inr (JStr (subject u)) \<and> subject u \<noteq> [] \<and> auth_type u = ''jwt'' \<and>
    roles_of_claims claims = Inr (roles u)"
proof -
  from assms obtain aud azp where
    aud: "json_get claims ''aud'' = Inr aud" and azp: "json_get claims ''azp'' = Inr azp"
    unfolding x_identity_of_claims_def andthen_Inr_iff by blast
  with assms have ok: "audience_ok cfg aud azp"
    unfolding x_identity_of_claims_def by (auto split: if_split_asm)
  with assms aud azp obtain sub where sub: "json_get claims ''sub'' = Inr sub"
    using that by (auto simp: x_identity_of_claims_def andthen_Inr_iff)
  with assms aud azp ok obtain s where s: "as_string sub = Some s" "s \<noteq> []"
    by (auto simp: x_identity_of_claims_def split: option.split_asm if_split_asm)
  with assms aud azp ok sub have "subject u = s \<and> auth_type u = ''jwt'' \<and> roles_of_claims claims = Inr (roles u)"
    by (auto simp: x_identity_of_claims_def andthen_Inr_iff)
  with s sub show ?thesis by (cases sub) auto
qed

text \<open>An identity without a bearer token is nobody's; one with a token is a validated one.\<close>

lemma x_resolve_cases:
  assumes "x_resolve_identity (\<lambda>token v. x_validate cfg lib h1 h2 t1 t2 token v) rq v = (Inr u, v')"
  shows "u = x_anonymous \<or>
    (\<exists>token. bearer_token (dict_get_default (xr_headers rq) ''authorization'' []) = Some token \<and>
       x_validate cfg lib h1 h2 t1 t2 token v = (Inr u, v') \<and> auth_type u = ''jwt'')"
proof (cases "bearer_token (dict_get_default (xr_headers rq) ''authorization'' [])")
  case None
  with assms show ?thesis by (simp add: x_resolve_identity_def)
next
  case (Some token)
  with assms have v: "x_validate cfg lib h1 h2 t1 t2 token v = (Inr u, v')"
    by (simp add: x_resolve_identity_def)
  then obtain claims where "x_identity_of_claims cfg claims = Inr u"
    using validate_with_claims [OF v [unfolded x_validate_def]] by blast
  with v Some show ?thesis using x_identity_of_claims_Inr by blast
qed

end
