(* ===== verification/X_Storage.thy ===== *)
theory X_Storage
  imports Keycloak
begin

text \<open>
  Object storage in the xpublish service: the listing helpers and settings of \<open>storage.py\<close> and the
  vector-tile archives of \<open>pmtiles.py\<close>.  The paginator and \<open>get_object\<close> of the S3 client are
  parameters, with what building the client may raise among their results.
\<close>

section \<open>Clients and settings\<close>

datatype s3_client =
    S3Default
  | S3Local string string "string option" "string option"

definition environ_get :: "env \<Rightarrow> string \<Rightarrow> exn + string" where
  "environ_get env key = (case env key of None \<Rightarrow> Inl (KeyError key) | Some v \<Rightarrow> Inr v)"

definition storage_mode :: "env \<Rightarrow> string" where
  "storage_mode env = env_text env ''ICECHUNK_STORAGE_MODE'' ''remote''"

definition new_s3_client :: "env \<Rightarrow> exn + s3_client" where
  "new_s3_client env =
     (if storage_mode env = ''local''
      then andthen (environ_get env ''ICECHUNK_ENDPOINT_URL'') (\<lambda>endpoint.
             Inr (S3Local endpoint (env_text env ''AWS_DEFAULT_REGION'' ''us-east-1'')
                    (env ''AWS_ACCESS_KEY_ID'') (env ''AWS_SECRET_ACCESS_KEY'')))
      else Inr S3Default)"

text \<open>\<open>lru_cache(maxsize=1)\<close>: the first client built is kept, a failure is not.\<close>

definition build_s3_client :: "env \<Rightarrow> s3_client option \<Rightarrow> (exn + s3_client) \<times> s3_client option" where
  "build_s3_client env cached =
     (case cached of
        Some c \<Rightarrow> (Inr c, cached)
      | None \<Rightarrow> (case new_s3_client env of Inl e \<Rightarrow> (Inl e, None) | Inr c \<Rightarrow> (Inr c, Some c)))"

record local_storage =
  ls_region :: string
  ls_endpoint_url :: string
  ls_access_key_id :: "string option"
  ls_secret_access_key :: "string option"

text \<open>\<open>LocalStorage\<close> also stands for the fixed \<open>allow_http\<close> and \<open>force_path_style\<close>.\<close>

datatype storage_kwargs = FromEnv | LocalStorage local_storage

definition nonempty :: "string option \<Rightarrow> string option" where
  "nonempty v = (if v = Some [] then None else v)"

definition build_storage_kwargs :: "env \<Rightarrow> exn + storage_kwargs" where
  "build_storage_kwargs env =
     (if storage_mode env = ''local''
      then andthen (environ_get env ''ICECHUNK_ENDPOINT_URL'') (\<lambda>endpoint.
             Inr (LocalStorage
               \<lparr>ls_region = env_text env ''AWS_DEFAULT_REGION'' ''us-east-1'', ls_endpoint_url = endpoint,
                ls_access_key_id = nonempty (env ''AWS_ACCESS_KEY_ID''),
                ls_secret_access_key = nonempty (env ''AWS_SECRET_ACCESS_KEY'')\<rparr>))
      else Inr FromEnv)"

definition resolve_icechunk_location :: "env \<Rightarrow> exn + string \<times> string" where
  "resolve_icechunk_location env =
     (let bucket = strip (env_text env ''ICECHUNK_BUCKET'' []);
          pfx = rstrip_char (CHR ''/'') (strip (env_text env ''ICECHUNK_PREFIX'' []))
      in if bucket = [] then Inl (RuntimeError ''ICECHUNK_BUCKET is required: S3 bucket name'')
         else if pfx = []
         then Inl (RuntimeError ''ICECHUNK_PREFIX is required: base prefix path for icechunk repos'')
         else Inr (bucket, pfx))"

definition resolve_pmtiles_location :: "env \<Rightarrow> exn + string \<times> string" where
  "resolve_pmtiles_location env =
     (let bucket = strip (env_text env ''PMTILES_BUCKET'' []);
          pfx = strip_char (CHR ''/'') (strip (env_text env ''PMTILES_PREFIX'' []))
      in if bucket = [] then Inl (RuntimeError ''PMTILES_BUCKET is required: S3 bucket holding .pmtiles archives'')
         else Inr (bucket, pfx))"

section \<open>Listings\<close>

definition normalize_storage_prefix :: "string \<Rightarrow> string" where
  "normalize_storage_prefix pfx = (if pfx \<noteq> [] then rstrip_char (CHR ''/'') pfx @ ''/'' else [])"

text \<open>A page of \<open>list_objects_v2\<close>: its common prefixes and its keys.\<close>

record s3_page =
  pg_common_prefixes :: "string list"
  pg_keys :: "string list"

text \<open>Bucket, prefix, and whether the delimiter \<open>/\<close> is given.\<close>

type_synonym paginate = "string \<Rightarrow> string \<Rightarrow> bool \<Rightarrow> exn + s3_page list"

record storage_item =
  si_id :: string
  si_path :: string

definition dir_name :: "string \<Rightarrow> string" where
  "dir_name dir_path = last (split_on (CHR ''/'') (rstrip_char (CHR ''/'') dir_path))"

definition list_storage_prefixes :: "paginate \<Rightarrow> string \<Rightarrow> string \<Rightarrow> exn + storage_item list" where
  "list_storage_prefixes paginate bucket pfx =
     andthen (paginate bucket (normalize_storage_prefix pfx) True) (\<lambda>pages.
       Inr (map (\<lambda>p. \<lparr>si_id = dir_name p, si_path = p\<rparr>)
             (filter (\<lambda>p. dir_name p \<noteq> []) (concat (map pg_common_prefixes pages)))))"

definition basename :: "string \<Rightarrow> string" where
  "basename key = last (split_on (CHR ''/'') key)"

definition PMTILES_EXTENSION :: string where
  "PMTILES_EXTENSION = ''.pmtiles''"

definition list_storage_files :: "paginate \<Rightarrow> string \<Rightarrow> string \<Rightarrow> string \<Rightarrow> exn + storage_item list" where
  "list_storage_files paginate bucket pfx extension =
     andthen (paginate bucket (normalize_storage_prefix pfx) False) (\<lambda>pages.
       Inr (map (\<lambda>key. \<lparr>si_id = (if extension = ''.pmtiles'' then drop_suffix extension (basename key) else basename key),
                       si_path = key\<rparr>)
             (filter (\<lambda>key. ends_with key extension) (concat (map pg_keys pages)))))"

section \<open>Archives\<close>

definition layer_char :: "char \<Rightarrow> bool" where
  "layer_char c \<longleftrightarrow>
     (let n = of_char c :: nat
      in (48 \<le> n \<and> n \<le> 57) \<or> (65 \<le> n \<and> n \<le> 90) \<or> (97 \<le> n \<and> n \<le> 122) \<or> c \<in> {CHR ''.'', CHR ''_'', CHR ''-''})"

text \<open>\<open>$\<close> also matches before a final newline.\<close>

definition layer_word :: "string \<Rightarrow> bool" where
  "layer_word s \<longleftrightarrow>
     s \<noteq> [] \<and> hd s \<notin> {CHR ''.'', CHR ''_'', CHR ''-''} \<and> list_all layer_char s"

definition layer_name :: "string \<Rightarrow> bool" where
  "layer_name s \<longleftrightarrow> layer_word s \<or> (s \<noteq> [] \<and> last s = CHR 0x0A \<and> layer_word (butlast s))"

definition layer_key :: "string \<Rightarrow> string \<Rightarrow> exn + string" where
  "layer_key pfx layer =
     (if contains layer ''..'' \<or> \<not> layer_name layer then Inl (HTTPException 400 (DText ''Invalid layer name''))
      else Inr (normalize_storage_prefix pfx @ layer @ PMTILES_EXTENSION))"

definition list_pmtiles_layers :: "env \<Rightarrow> paginate \<Rightarrow> exn + string list" where
  "list_pmtiles_layers env paginate =
     andthen (resolve_pmtiles_location env) (\<lambda>(bucket, pfx).
     andthen (list_storage_files paginate bucket pfx PMTILES_EXTENSION) (\<lambda>items. Inr (map si_id items)))"

record s3_object =
  so_body :: string
  so_content_range :: "string option"
  so_etag :: "string option"

record archive_response =
  ar_body :: string
  ar_status :: int
  ar_headers :: "(string, string) dict"

text \<open>The codes of a \<open>ClientError\<close> and the statuses they become; another exception passes.\<close>

definition archive_error :: "string \<Rightarrow> exn \<Rightarrow> exn" where
  "archive_error layer e =
     (case e of
        ClientError code status \<Rightarrow>
          if code \<in> {''NoSuchKey'', ''NoSuchBucket''} \<or> status = Some 404
          then HTTPException 404 (DText (''Unknown layer '' @ [CHR 0x27] @ layer @ [CHR 0x27]))
          else if code = ''InvalidRange'' \<or> status = Some 416
          then HTTPException 416 (DText ''Requested range not satisfiable'')
          else HTTPException 502 (DText ''Tile archive read failed'')
      | _ \<Rightarrow> e)"

definition archive_response_of :: "s3_object \<Rightarrow> archive_response" where
  "archive_response_of obj =
     (let content_range = nonempty (so_content_range obj); etag = nonempty (so_etag obj)
      in \<lparr>ar_body = so_body obj, ar_status = (if content_range \<noteq> None then 206 else 200),
          ar_headers =
            [(''Accept-Ranges'', ''bytes''), (''Cache-Control'', ''private, max-age=300'')] @
            (case etag of None \<Rightarrow> [] | Some t \<Rightarrow> [(''ETag'', t)]) @
            (case content_range of None \<Rightarrow> [] | Some r \<Rightarrow> [(''Content-Range'', r)])\<rparr>)"

type_synonym get_object = "string \<Rightarrow> string \<Rightarrow> string option \<Rightarrow> exn + s3_object"

definition read_pmtiles_range ::
  "env \<Rightarrow> get_object \<Rightarrow> string \<Rightarrow> string option \<Rightarrow> exn + archive_response"
where
  "read_pmtiles_range env get_object layer range_header =
     andthen (resolve_pmtiles_location env) (\<lambda>(bucket, pfx).
     andthen (layer_key pfx layer) (\<lambda>key.
       (case get_object bucket key (nonempty range_header) of
          Inl e \<Rightarrow> Inl (archive_error layer e)
        | Inr obj \<Rightarrow> Inr (archive_response_of obj))))"

section \<open>Facts\<close>

lemma layer_char_no_slash: "layer_char c \<Longrightarrow> c \<noteq> CHR ''/''"
  by (auto simp: layer_char_def)

lemma layer_name_no_slash: "layer_name layer \<Longrightarrow> CHR ''/'' \<notin> set layer"
proof -
  have w: "layer_word s \<Longrightarrow> CHR ''/'' \<notin> set s" for s
    using layer_char_no_slash by (auto simp: layer_word_def list_all_iff)
  assume "layer_name layer"
  then consider "layer_word layer" | "layer \<noteq> []" "last layer = CHR 0x0A" "layer_word (butlast layer)"
    by (auto simp: layer_name_def)
  then show ?thesis
  proof cases
    case 2
    then have "set layer = set (butlast layer) \<union> {CHR 0x0A}"
      by (metis append_butlast_last_id set_append list.set(1) list.set(2) sup_commute insert_is_Un)
    with w [OF 2(3)] show ?thesis by auto
  qed (rule w)
qed

lemma layer_key_Inr:
  "layer_key pfx layer = Inr key \<Longrightarrow>
   key = normalize_storage_prefix pfx @ layer @ ''.pmtiles'' \<and> CHR ''/'' \<notin> set layer \<and> layer \<noteq> [] \<and> \<not> contains layer ''..''"
  using layer_name_no_slash [of layer]
  by (auto simp: layer_key_def PMTILES_EXTENSION_def layer_name_def layer_word_def split: if_split_asm)

lemma basename_no_slash: "CHR ''/'' \<notin> set (basename key)"
  unfolding basename_def by (rule split_on_no_sep [OF last_in_set]) simp

lemma listed_layer_no_slash:
  assumes "list_pmtiles_layers env paginate = Inr ids" "i \<in> set ids"
  shows "CHR ''/'' \<notin> set i"
proof -
  from assms obtain key where "i = drop_suffix ''.pmtiles'' (basename key)"
    by (auto simp: list_pmtiles_layers_def andthen_Inr_iff list_storage_files_def PMTILES_EXTENSION_def
        split: prod.split_asm)
  then have "set i \<subseteq> set (basename key)" by (simp add: drop_suffix_def set_take_subset)
  with basename_no_slash show ?thesis by blast
qed

text \<open>
  The listing takes archives in sub-directories too and gives their last path segment, but a
  layer is read at the top of the prefix only.
\<close>

lemma nested_archive_unreadable:
  "list_pmtiles_layers (\<lambda>k. if k = ''PMTILES_BUCKET'' then Some ''b'' else if k = ''PMTILES_PREFIX'' then Some ''t'' else None)
     (\<lambda>_ _ _. Inr [\<lparr>pg_common_prefixes = [], pg_keys = [''t/v2/basins.pmtiles'']\<rparr>]) = Inr [''basins'']"
  "layer_key ''t'' ''basins'' = Inr ''t/basins.pmtiles''"
  by code_simp+

end
