(* ===== verification/X_Dataset.thy ===== *)
theory X_Dataset
  imports Keycloak "HOL-Library.Multiset"
begin

text \<open>
  What the dataset provider (\<open>xpublish-api/src/provider.py\<close>) reads of a repo's store: the root
  attributes and the shape they state, the data group and the overview levels, and the
  coordinate values that hold data.  A dataset is its variables and coordinates, each an
  N-dimensional array in row-major order.  NumPy's scalars, xarray's \<open>open_dataset\<close> and
  \<open>sortby\<close>, and zarr's group access are parameters.
\<close>

section \<open>Arrays\<close>

record 'v array =
  dims :: "string list"
  shape :: "nat list"
  cells :: "'v list"
  attrs :: "(string, json) dict"

text \<open>What the code asks of a NumPy scalar.\<close>

record 'v numpy =
  nonneg :: "'v \<Rightarrow> bool"
  cell_le :: "'v \<Rightarrow> 'v \<Rightarrow> bool"
  is_datetime64 :: "'v \<Rightarrow> bool"
  datetime_as_string :: "'v \<Rightarrow> string"
  str_of :: "'v \<Rightarrow> string"

text \<open>The position along an axis of the cell at a row-major index.\<close>

definition axis_index :: "nat list \<Rightarrow> nat \<Rightarrow> nat \<Rightarrow> nat" where
  "axis_index sh axis j = (j div prod_list (drop (Suc axis) sh)) mod (sh ! axis)"

fun axis_of :: "string \<Rightarrow> string list \<Rightarrow> nat" where
  "axis_of d [] = 0"
| "axis_of d (x # xs) = (if x = d then 0 else Suc (axis_of d xs))"

text \<open>\<open>a.any([d for d in a.dims if d != name])\<close>: one truth value per position along \<open>name\<close>.\<close>

definition any_along :: "('v \<Rightarrow> bool) \<Rightarrow> 'v array \<Rightarrow> string \<Rightarrow> bool list" where
  "any_along p a name =
     (let axis = axis_of name (dims a)
      in map (\<lambda>i. list_ex (\<lambda>j. axis_index (shape a) axis j = i \<and> p (cells a ! j)) [0..<length (cells a)])
           [0..<shape a ! axis])"

text \<open>Selection by a boolean mask; NumPy refuses one of another length.\<close>

definition mask :: "'v list \<Rightarrow> bool list \<Rightarrow> exn + 'v list" where
  "mask vs bs =
     (if length vs = length bs then Inr (map fst (filter snd (zip vs bs)))
      else Inl (ValueError ''boolean index did not match indexed array''))"

section \<open>Datasets\<close>

record 'v dataset =
  data_vars :: "(string, 'v array) dict"
  coords :: "(string, 'v array) dict"

definition ds_dims :: "'v dataset \<Rightarrow> string set" where
  "ds_dims ds = \<Union> (set (map (set \<circ> dims \<circ> snd) (data_vars ds @ coords ds)))"

definition STATUS_COORD :: string where
  "STATUS_COORD = ''status''"

definition REFERENCE_TIME :: string where
  "REFERENCE_TIME = ''reference_time''"

definition VALUE_TIME :: string where
  "VALUE_TIME = ''value_time''"

definition written_coord_values :: "'v numpy \<Rightarrow> 'v dataset \<Rightarrow> string \<Rightarrow> exn + 'v list" where
  "written_coord_values np ds coord_name =
     (case dict_get (coords ds) coord_name of
        None \<Rightarrow> Inl (KeyError coord_name)
      | Some c \<Rightarrow>
          (case dict_get (coords ds) STATUS_COORD of
             None \<Rightarrow> Inr (cells c)
           | Some status \<Rightarrow>
               if coord_name \<in> set (dims status) then mask (cells c) (any_along (nonneg np) status coord_name)
               else Inr (cells c)))"

section \<open>Root attributes\<close>

text \<open>
  Opening a group: there is none (\<open>GroupNotFoundError\<close>, \<open>FileNotFoundError\<close>), another
  exception, or what it holds.
\<close>

datatype 'a group_read = NoGroup | GroupFails exn | Group 'a

definition DATA_GROUP_ATTR :: string where
  "DATA_GROUP_ATTR = ''data_group''"

definition DEFAULT_DATA_GROUP :: string where
  "DEFAULT_DATA_GROUP = ''/data''"

definition OVERVIEW_GROUP :: string where
  "OVERVIEW_GROUP = ''/overviews''"

definition root_attrs :: "(string, json) dict group_read \<Rightarrow> exn + (string, json) dict" where
  "root_attrs g = (case g of NoGroup \<Rightarrow> Inr [] | GroupFails e \<Rightarrow> Inl e | Group kvs \<Rightarrow> Inr kvs)"

text \<open>\<open>version in (1, 2)\<close>; Python's \<open>True\<close> equals \<open>1\<close>.\<close>

definition known_layout_version :: "json \<Rightarrow> bool" where
  "known_layout_version v \<longleftrightarrow> v \<in> {JInt 1, JInt 2, JBool True}"

text \<open>\<open>list(x)\<close> of a JSON value.\<close>

fun py_list :: "json \<Rightarrow> exn + json list" where
  "py_list (JList xs) = Inr xs"
| "py_list (JStr s) = Inr (map (\<lambda>c. JStr [c]) s)"
| "py_list (JObj kvs) = Inr (map (JStr \<circ> fst) kvs)"
| "py_list _ = Inl TypeError"

record grid =
  append_dim :: json
  fixed_dims :: "json list"
  layout_version :: json

definition grid_spec :: "(string, json) dict group_read \<Rightarrow> exn + grid" where
  "grid_spec g =
     andthen (root_attrs g) (\<lambda>kvs.
       let version = dict_get_default kvs ''layout_version'' (JInt 1)
       in if \<not> known_layout_version version then Inl (ValueError ''Unknown layout_version'')
          else andthen (py_list (dict_get_default kvs ''fixed_dims'' (JList []))) (\<lambda>fixed.
            Inr \<lparr>append_dim = dict_get_default kvs ''append_dim'' (JStr ''time''),
                 fixed_dims = fixed, layout_version = version\<rparr>))"

definition data_group :: "(string, json) dict group_read \<Rightarrow> exn + json" where
  "data_group g =
     andthen (root_attrs g) (\<lambda>kvs. Inr (dict_get_default kvs DATA_GROUP_ATTR (JStr DEFAULT_DATA_GROUP)))"

section \<open>Virtual chunks\<close>

datatype credential = HttpAccess | GcsAnonymous | S3Anonymous

text \<open>\<open>s.split(sep, 1)[0]\<close>.\<close>

fun before_text :: "string \<Rightarrow> string \<Rightarrow> string" where
  "before_text sep [] = []"
| "before_text sep (c # cs) = (if starts_with (c # cs) sep then [] else c # before_text sep cs)"

definition url_scheme :: "string \<Rightarrow> string" where
  "url_scheme url = before_text ''://'' url"

definition anonymous_credentials :: "string \<Rightarrow> credential option" where
  "anonymous_credentials url_prefix =
     (let scheme = url_scheme url_prefix
      in if scheme \<in> {''http'', ''https''} then Some HttpAccess
         else if scheme \<in> {''gs'', ''gcs''} then Some GcsAnonymous
         else if scheme = ''s3'' then Some S3Anonymous
         else None)"

section \<open>Groups\<close>

text \<open>Scalars such as the grid mapping are coordinates.\<close>

definition scalars_to_coords :: "'v dataset \<Rightarrow> 'v dataset" where
  "scalars_to_coords ds =
     \<lparr>data_vars = filter (\<lambda>kv. dims (snd kv) \<noteq> []) (data_vars ds),
      coords = coords ds @ filter (\<lambda>kv. dims (snd kv) = []) (data_vars ds)\<rparr>"

definition serve_cycles :: "'v dataset \<Rightarrow> 'v dataset" where
  "serve_cycles ds =
     (if REFERENCE_TIME \<in> ds_dims ds
      then ds\<lparr>coords :=
             map_key VALUE_TIME (\<lambda>a. a\<lparr>attrs := dict_pop (attrs a) ''standard_name''\<rparr>)
               (map_key REFERENCE_TIME (\<lambda>a. a\<lparr>attrs := dict_set (attrs a) ''axis'' (JStr ''T'')\<rparr>) (coords ds))\<rparr>
      else ds)"

definition monotonic_increasing :: "'v numpy \<Rightarrow> 'v array \<Rightarrow> bool" where
  "monotonic_increasing np a \<longleftrightarrow> sorted_wrt (cell_le np) (cells a)"

definition sort_time :: "'v numpy \<Rightarrow> ('v dataset \<Rightarrow> string \<Rightarrow> 'v dataset) \<Rightarrow> 'v dataset \<Rightarrow> exn + 'v dataset" where
  "sort_time np sortby ds =
     (if ''time'' \<notin> ds_dims ds then Inr ds
      else case dict_get (coords ds) ''time'' of
             None \<Rightarrow> Inl (KeyError ''time'')
           | Some t \<Rightarrow> Inr (if monotonic_increasing np t then ds else sortby ds ''time''))"

text \<open>\<open>_open_group\<close>: \<open>opened\<close> is what \<open>xr.open_dataset\<close> answers for the group.\<close>

definition open_group ::
  "'v numpy \<Rightarrow> ('v dataset \<Rightarrow> string \<Rightarrow> 'v dataset) \<Rightarrow> (exn + 'v dataset) \<Rightarrow> exn + 'v dataset"
where
  "open_group np sortby opened =
     andthen opened (\<lambda>ds.
     andthen (sort_time np sortby (scalars_to_coords ds)) (\<lambda>ds'. Inr (serve_cycles ds')))"

text \<open>Group names sorted by their factor, \<open>int(name)\<close>, equal factors as they came.\<close>

definition by_factor :: "string list \<Rightarrow> exn + string list" where
  "by_factor names =
     andthen (map_result py_int names) (\<lambda>factors. Inr (map fst (sort_key snd (zip names factors))))"

definition overview_levels ::
  "(string \<Rightarrow> exn + 'v dataset) \<Rightarrow> string list group_read \<Rightarrow> exn + (string, 'v dataset) dict"
where
  "overview_levels open_level g =
     (case g of
        NoGroup \<Rightarrow> Inr []
      | GroupFails e \<Rightarrow> Inl e
      | Group names \<Rightarrow>
          andthen (by_factor names) (\<lambda>sorted_names.
            map_result (\<lambda>name. andthen (open_level (OVERVIEW_GROUP @ ''/'' @ name)) (\<lambda>ds. Inr (name, ds)))
              sorted_names))"

section \<open>Row-major indexing\<close>

fun ravel :: "nat list \<Rightarrow> nat list \<Rightarrow> nat" where
  "ravel (s # sh) (i # ix) = i * prod_list sh + ravel sh ix"
| "ravel _ _ = 0"

abbreviation in_shape :: "nat list \<Rightarrow> nat list \<Rightarrow> bool" where
  "in_shape sh ix \<equiv> list_all2 (<) ix sh"

lemma ravel_bound: "in_shape sh ix \<Longrightarrow> ravel sh ix < prod_list sh"
proof (induction sh arbitrary: ix)
  case Nil
  then show ?case by simp
next
  case (Cons s sh)
  then obtain i ix' where ix: "ix = i # ix'" "i < s" "in_shape sh ix'"
    by (auto simp: list_all2_Cons2)
  with Cons.IH have "ravel sh ix' < prod_list sh" by blast
  then have "i * prod_list sh + ravel sh ix' < Suc i * prod_list sh" by simp
  also have "\<dots> \<le> s * prod_list sh" using ix(2) by (intro mult_le_mono) auto
  finally show ?case by (simp add: ix)
qed

lemma ravel_onto: "j < prod_list sh \<Longrightarrow> \<exists>ix. in_shape sh ix \<and> ravel sh ix = j"
proof (induction sh arbitrary: j)
  case Nil
  then show ?case by simp
next
  case (Cons s sh)
  let ?p = "prod_list sh"
  have p: "?p \<noteq> 0"
  proof
    assume "?p = 0"
    with Cons.prems show False by simp
  qed
  then have "j mod ?p < ?p" by simp
  with Cons.IH obtain ix where ix: "in_shape sh ix" "ravel sh ix = j mod ?p" by blast
  from Cons.prems have "j div ?p < s" by (simp add: less_mult_imp_div_less)
  with ix have "in_shape (s # sh) (j div ?p # ix) \<and> ravel (s # sh) (j div ?p # ix) = j"
    by simp
  then show ?case by blast
qed

lemma axis_index_ravel:
  "in_shape sh ix \<Longrightarrow> axis < length sh \<Longrightarrow> axis_index sh axis (ravel sh ix) = ix ! axis"
proof (induction sh arbitrary: ix axis)
  case Nil
  then show ?case by simp
next
  case (Cons s sh)
  then obtain i ix' where ix: "ix = i # ix'" "i < s" "in_shape sh ix'"
    by (auto simp: list_all2_Cons2)
  have r: "ravel sh ix' < prod_list sh" using ix(3) by (rule ravel_bound)
  show ?case
  proof (cases axis)
    case 0
    with r ix show ?thesis by (simp add: axis_index_def)
  next
    case (Suc k)
    with Cons.prems have k: "k < length sh" by simp
    let ?q = "prod_list (drop (Suc k) sh)"
    have p: "prod_list sh = prod_list (take k sh) * sh ! k * ?q"
      using id_take_nth_drop [OF k] by (metis prod_list.Cons prod_list.append mult.assoc)
    with r have q: "?q \<noteq> 0" by (metis mult_0_right not_less_zero)
    have "(i * prod_list sh + ravel sh ix') div ?q = i * prod_list (take k sh) * sh ! k + ravel sh ix' div ?q"
      using q by (simp add: p mult.assoc [symmetric])
    then have "axis_index (s # sh) (Suc k) (ravel (s # sh) ix) = axis_index sh k (ravel sh ix')"
      by (simp add: axis_index_def ix)
    with Cons.IH [OF ix(3) k] show ?thesis by (simp add: Suc ix)
  qed
qed

lemma axis_of_less: "d \<in> set xs \<Longrightarrow> axis_of d xs < length xs"
  by (induction xs) auto

text \<open>A well-formed array: one size per dimension, one cell per index.\<close>

definition array_ok :: "'v array \<Rightarrow> bool" where
  "array_ok a \<longleftrightarrow> length (shape a) = length (dims a) \<and> length (cells a) = prod_list (shape a)"

definition entry_at :: "'v array \<Rightarrow> nat list \<Rightarrow> 'v" where
  "entry_at a ix = cells a ! ravel (shape a) ix"

definition holds_data :: "'v numpy \<Rightarrow> 'v array \<Rightarrow> string \<Rightarrow> nat \<Rightarrow> bool" where
  "holds_data np st n i \<longleftrightarrow>
     (\<exists>ix. in_shape (shape st) ix \<and> ix ! axis_of n (dims st) = i \<and> nonneg np (entry_at st ix))"

lemma any_along_iff:
  assumes "array_ok a" "name \<in> set (dims a)" "i < shape a ! axis_of name (dims a)"
  shows "any_along p a name ! i \<longleftrightarrow>
    (\<exists>ix. in_shape (shape a) ix \<and> ix ! axis_of name (dims a) = i \<and> p (entry_at a ix))"
proof -
  let ?k = "axis_of name (dims a)"
  have k: "?k < length (shape a)"
    using assms(1,2) by (simp add: array_ok_def axis_of_less)
  have "any_along p a name ! i \<longleftrightarrow> (\<exists>j < prod_list (shape a). axis_index (shape a) ?k j = i \<and> p (cells a ! j))"
    using assms(1,3) by (auto simp: any_along_def Let_def array_ok_def list_ex_iff)
  also have "\<dots> \<longleftrightarrow> (\<exists>ix. in_shape (shape a) ix \<and> ix ! ?k = i \<and> p (entry_at a ix))"
  proof
    assume "\<exists>j < prod_list (shape a). axis_index (shape a) ?k j = i \<and> p (cells a ! j)"
    then obtain j where j: "j < prod_list (shape a)" "axis_index (shape a) ?k j = i" "p (cells a ! j)"
      by blast
    from ravel_onto [OF j(1)] obtain ix where "in_shape (shape a) ix" "ravel (shape a) ix = j" by blast
    with j axis_index_ravel [OF _ k, of ix] show "\<exists>ix. in_shape (shape a) ix \<and> ix ! ?k = i \<and> p (entry_at a ix)"
      by (intro exI [of _ ix]) (auto simp: entry_at_def)
  next
    assume "\<exists>ix. in_shape (shape a) ix \<and> ix ! ?k = i \<and> p (entry_at a ix)"
    then obtain ix where ix: "in_shape (shape a) ix" "ix ! ?k = i" "p (entry_at a ix)" by blast
    then show "\<exists>j < prod_list (shape a). axis_index (shape a) ?k j = i \<and> p (cells a ! j)"
      using ravel_bound [OF ix(1)] axis_index_ravel [OF ix(1) k]
      by (intro exI [of _ "ravel (shape a) ix"]) (simp add: entry_at_def)
  qed
  finally show ?thesis .
qed

lemma mask_select:
  "length vs = length bs \<Longrightarrow> mask vs bs = Inr (map ((!) vs) (filter ((!) bs) [0..<length vs]))"
proof (induction vs bs rule: list_induct2)
  case Nil
  then show ?case by (simp add: mask_def)
next
  case (Cons v vs b bs)
  have "[0..<length (v # vs)] = 0 # map Suc [0..<length vs]"
    by (simp add: map_Suc_upt upt_conv_Cons del: upt_Suc)
  with Cons show ?case by (simp add: mask_def filter_map comp_def del: upt_Suc)
qed

text \<open>C27 Of a coordinate the status is recorded along, \<open>written_coord_values\<close> keeps, in order, exactly
  the positions at which some status entry is 0 or more, over every cycle, member and lead;
  of any other coordinate it keeps everything.
\<close>

theorem written_slots_served:
  assumes "dict_get (coords ds) n = Some c"
    and "\<And>st. dict_get (coords ds) STATUS_COORD = Some st \<Longrightarrow> n \<in> set (dims st) \<Longrightarrow>
           array_ok st \<and> shape st ! axis_of n (dims st) = length (cells c)"
  shows "written_coord_values np ds n =
    Inr (case dict_get (coords ds) STATUS_COORD of
           None \<Rightarrow> cells c
         | Some st \<Rightarrow>
             if n \<notin> set (dims st) then cells c
             else map ((!) (cells c))
                    (filter (holds_data np st n) [0..<length (cells c)]))"
proof (cases "dict_get (coords ds) STATUS_COORD")
  case None
  with assms(1) show ?thesis by (simp add: written_coord_values_def)
next
  case (Some st)
  show ?thesis
  proof (cases "n \<in> set (dims st)")
    case False
    with assms(1) Some show ?thesis by (simp add: written_coord_values_def)
  next
    case True
    with assms(2) [OF Some] have ok: "array_ok st" and len: "shape st ! axis_of n (dims st) = length (cells c)"
      by simp_all
    have l: "length (cells c) = length (any_along (nonneg np) st n)"
      by (simp add: any_along_def Let_def len)
    have "filter ((!) (any_along (nonneg np) st n)) [0..<length (cells c)] =
        filter (holds_data np st n) [0..<length (cells c)]"
      by (rule filter_cong) (simp_all add: any_along_iff [OF ok True] len holds_data_def)
    with True Some assms(1) show ?thesis
      by (simp add: written_coord_values_def mask_select [OF l])
  qed
qed

definition int_numpy :: "int numpy" where
  "int_numpy = \<lparr>nonneg = (\<lambda>v. 0 \<le> v), cell_le = (\<le>), is_datetime64 = (\<lambda>_. False),
                datetime_as_string = (\<lambda>_. []), str_of = show_int\<rparr>"

definition sample_status :: "int array" where
  "sample_status = \<lparr>dims = [''reference_time'', ''lead''], shape = [2, 3], cells = [- 2, - 2, - 1, - 1, 0, 7], attrs = []\<rparr>"

definition sample_forecast :: "int dataset" where
  "sample_forecast =
     \<lparr>data_vars = [(''streamflow'', \<lparr>dims = [''reference_time'', ''lead''], shape = [2, 3], cells = [1, 2, 3, 4, 5, 6], attrs = []\<rparr>),
                   (''crs'', \<lparr>dims = [], shape = [], cells = [0], attrs = []\<rparr>)],
      coords = [(''reference_time'', \<lparr>dims = [''reference_time''], shape = [2], cells = [10, 20], attrs = []\<rparr>),
                (''lead'', \<lparr>dims = [''lead''], shape = [3], cells = [1, 2, 3], attrs = []\<rparr>),
                (''status'', sample_status)]\<rparr>"

lemma written_slots_served_witness:
  "written_coord_values int_numpy sample_forecast ''lead'' =
     Inr (map ((!) [1, 2, 3]) (filter (holds_data int_numpy sample_status ''lead'') [0..<length [1 :: int, 2, 3]])) \<and>
   written_coord_values int_numpy sample_forecast ''lead'' = Inr [2, 3]"
proof -
  let ?c = "\<lparr>dims = [''lead''], shape = [3], cells = [1 :: int, 2, 3], attrs = []\<rparr>"
  have c: "dict_get (coords sample_forecast) ''lead'' = Some ?c" by (simp add: sample_forecast_def)
  have st: "dict_get (coords sample_forecast) STATUS_COORD = Some sample_status"
    by (simp add: sample_forecast_def STATUS_COORD_def)
  have ok: "array_ok sample_status \<and> shape sample_status ! axis_of ''lead'' (dims sample_status) = 3"
    by (simp add: sample_status_def array_ok_def)
  have m: "''lead'' \<in> set (dims sample_status)" by (simp add: sample_status_def)
  note w = written_slots_served [of sample_forecast "''lead''" ?c int_numpy, OF c]
  have "written_coord_values int_numpy sample_forecast ''lead'' =
      Inr (map ((!) (cells ?c)) (filter (holds_data int_numpy sample_status ''lead'') [0..<length (cells ?c)]))"
    by (subst w) (use ok m in \<open>simp_all add: st del: upt_Suc upt_rec_numeral\<close>)
  moreover have "written_coord_values int_numpy sample_forecast ''lead'' = Inr [2, 3]" by code_simp
  ultimately show ?thesis by simp
qed

section \<open>Opened groups\<close>

text \<open>The overview levels are served in increasing factor order, each group of the store once.\<close>

lemma by_factor_Inr:
  assumes "by_factor names = Inr sorted_names"
  shows "mset sorted_names = mset names \<and>
    sorted_wrt (\<lambda>a b. \<exists>m n. py_int a = Inr m \<and> py_int b = Inr n \<and> m \<le> n) sorted_names"
proof -
  from assms obtain fs where fs: "list_all2 (\<lambda>x y. py_int x = Inr y) names fs"
    and s: "sorted_names = map fst (sort_key snd (zip names fs))"
    by (auto simp: by_factor_def andthen_Inr_iff map_result_Inr_iff)
  let ?z = "sort_key snd (zip names fs)"
  have len: "length names = length fs" using fs by (rule list_all2_lengthD)
  have "mset sorted_names = image_mset fst (mset (zip names fs))"
    by (simp add: s)
  also have "\<dots> = mset names" by (simp add: len flip: mset_map)
  finally have m: "mset sorted_names = mset names" .
  have k: "z \<in> set ?z \<Longrightarrow> py_int (fst z) = Inr (snd z)" for z
    using fs by (cases z) (auto simp: list_all2_iff)
  have "sorted_wrt (\<lambda>a b. snd a \<le> snd b) ?z"
    using sorted_sort_key [of snd "zip names fs"] by (simp add: sorted_wrt_map)
  then have "sorted_wrt (\<lambda>a b. \<exists>m n. py_int (fst a) = Inr m \<and> py_int (fst b) = Inr n \<and> m \<le> n) ?z"
    using k by (rule_tac sorted_wrt_mono_rel) auto
  with m show ?thesis by (simp add: s sorted_wrt_map)
qed

lemma overview_levels_names:
  assumes "overview_levels open_level (Group names) = Inr levels"
  shows "by_factor names = Inr (map fst levels) \<and>
    (\<forall>(name, ds) \<in> set levels. open_level (OVERVIEW_GROUP @ ''/'' @ name) = Inr ds)"
proof -
  from assms obtain sn where sn: "by_factor names = Inr sn"
    and l: "list_all2 (\<lambda>name l. andthen (open_level (OVERVIEW_GROUP @ ''/'' @ name)) (\<lambda>ds. Inr (name, ds)) = Inr l)
              sn levels"
    by (auto simp: overview_levels_def andthen_Inr_iff map_result_Inr_iff)
  have "map fst levels = sn"
    using l by (induction rule: list_all2_induct) (auto simp: andthen_Inr_iff)
  moreover have "\<forall>(name, ds) \<in> set levels. open_level (OVERVIEW_GROUP @ ''/'' @ name) = Inr ds"
    using l by (induction rule: list_all2_induct) (auto simp: andthen_Inr_iff)
  ultimately show ?thesis using sn by simp
qed

text \<open>No scalar is left among the variables to map or query, and no array is lost.\<close>

lemma scalars_to_coords_partition:
  "dims a \<noteq> [] \<Longrightarrow> (n, a) \<in> set (data_vars (scalars_to_coords ds)) \<longleftrightarrow> (n, a) \<in> set (data_vars ds)"
  "(n, a) \<in> set (data_vars (scalars_to_coords ds)) \<Longrightarrow> dims a \<noteq> []"
  "set (data_vars (scalars_to_coords ds) @ coords (scalars_to_coords ds)) = set (data_vars ds @ coords ds)"
  by (auto simp: scalars_to_coords_def)

lemma serve_cycles_data_vars [simp]: "data_vars (serve_cycles ds) = data_vars ds"
  by (simp add: serve_cycles_def)

text \<open>The cycles become the T axis of a forecast, and the valid times give theirs up.\<close>

lemma serve_cycles_axis:
  assumes "REFERENCE_TIME \<in> ds_dims ds"
  shows "dict_get (coords ds) REFERENCE_TIME = Some a \<Longrightarrow>
      \<exists>a'. dict_get (coords (serve_cycles ds)) REFERENCE_TIME = Some a' \<and> dict_get (attrs a') ''axis'' = Some (JStr ''T'')"
    and "dict_get (coords (serve_cycles ds)) VALUE_TIME = Some b \<Longrightarrow> dict_get (attrs b) ''standard_name'' = None"
  using assms by (auto simp: serve_cycles_def map_key_get REFERENCE_TIME_def VALUE_TIME_def)

lemma open_group_vars:
  assumes "open_group np sortby (Inr ds) = Inr ds'"
    and sb: "\<And>d. data_vars (sortby d ''time'') = data_vars d \<or> map fst (data_vars (sortby d ''time'')) = map fst (data_vars d)"
  shows "map fst (data_vars ds') = map fst (filter (\<lambda>kv. dims (snd kv) \<noteq> []) (data_vars ds))"
proof -
  from assms(1) obtain d where d: "sort_time np sortby (scalars_to_coords ds) = Inr d" and ds': "ds' = serve_cycles d"
    by (auto simp: open_group_def andthen_Inr_iff)
  have "map fst (data_vars d) = map fst (data_vars (scalars_to_coords ds))"
    using d sb [of "scalars_to_coords ds"]
    by (auto simp: sort_time_def split: if_split_asm option.split_asm)
  then show ?thesis by (simp add: ds' scalars_to_coords_def)
qed

text \<open>A repo whose layout the service does not know is refused, never guessed at.\<close>

lemma grid_spec_known:
  "grid_spec g = Inr spec \<Longrightarrow> known_layout_version (layout_version spec)"
  by (auto simp: grid_spec_def Let_def andthen_Inr_iff split: if_split_asm)

lemma grid_spec_defaults:
  "grid_spec NoGroup = Inr \<lparr>append_dim = JStr ''time'', fixed_dims = [], layout_version = JInt 1\<rparr>"
  by (simp add: grid_spec_def root_attrs_def dict_get_default_def known_layout_version_def)

end
