(* ===== verification/X_Provider.thy ===== *)
theory X_Provider
  imports X_Storage X_Dataset
begin

text \<open>
  The dataset provider (\<open>xpublish-api/src/provider.py\<close>): discovery of the repos by listing,
  the cache of opened repos and of loaded trees, and the answer for a dataset id.  Icechunk,
  xarray and zarr are the fields of \<open>libs\<close>; \<open>'w\<close> is the state of the object store they act
  on, \<open>'r\<close> an open repository, \<open>'s\<close> a session on one snapshot, \<open>'v\<close> a NumPy scalar.  A call
  reads \<open>time.monotonic()\<close> several times: \<open>now i\<close> is its \<open>i\<close>-th reading.  A
  call is one step here; \<open>X_Provider_Threads\<close> takes it apart into the accesses that the threads
  and the locks interleave, and \<open>X_Provider_Alone\<close> shows that the two agree.  The ids that xpublish-tiles
  gives the leaves of a tree, and the session kept alive with it, are left out.
\<close>

section \<open>State\<close>

record RepoConfig =
  name :: string
  rc_bucket :: string
  rc_prefix :: string

datatype dataset_kind = Tiles | Data

record 'v datatree =
  dt_root :: "'v dataset option"
  dt_levels :: "(string, 'v dataset) dict"
  dt_xpublish_id :: string
  dt_grid_spec :: grid

record 'v cache_entry =
  ce_datatree :: "'v datatree"
  snapshot_id :: string
  checked_at :: rat

type_synonym readings = "nat \<Rightarrow> rat"

text \<open>What is set at construction.\<close>

record settings =
  st_bucket :: string
  st_prefix :: string
  st_storage_kwargs :: storage_kwargs
  st_branch :: string
  cache_ttl_seconds :: rat
  discovery_ttl_seconds :: rat

record ('r, 'v) provider =
  repo_configs :: "RepoConfig list"
  discovered_at :: "rat option"
  repos :: "(string, 'r) dict"
  cache :: "(string, 'v cache_entry) dict"

definition init_provider :: "('r, 'v) provider" where
  "init_provider = \<lparr>repo_configs = [], discovered_at = None, repos = [], cache = []\<rparr>"

text \<open>The calls that build an empty repo, in order.\<close>

datatype build_call =
    CreateRepo
  | WritableSession string
  | WriteEmptyGroup string
  | CommitSession string

record storage =
  sg_bucket :: string
  sg_prefix :: string
  sg_kwargs :: storage_kwargs

record ('w, 'r, 's, 'v) libs =
  lib_exists :: "storage \<Rightarrow> 'w \<Rightarrow> exn + bool"
  lib_build :: "storage \<Rightarrow> build_call \<Rightarrow> 'w \<Rightarrow> (exn + unit) \<times> 'w"
  lib_fetch_containers :: "storage \<Rightarrow> 'w \<Rightarrow> exn + string list option"
  lib_open :: "storage \<Rightarrow> (string \<times> credential option) list \<Rightarrow> 'w \<Rightarrow> exn + 'r"
  lib_lookup_branch :: "'r \<Rightarrow> string \<Rightarrow> 'w \<Rightarrow> exn + string"
  lib_readonly_session :: "'r \<Rightarrow> string \<Rightarrow> 'w \<Rightarrow> exn + 's"
  lib_root_group :: "'s \<Rightarrow> (string, json) dict group_read"
  lib_overview_group :: "'s \<Rightarrow> string list group_read"
  lib_open_dataset :: "'s \<Rightarrow> json \<Rightarrow> exn + 'v dataset"
  lib_sortby :: "'v dataset \<Rightarrow> string \<Rightarrow> 'v dataset"
  lib_numpy :: "'v numpy"

section \<open>Discovery\<close>

definition discover_repo_configs :: "paginate \<Rightarrow> settings \<Rightarrow> exn + RepoConfig list" where
  "discover_repo_configs paginate st =
     andthen (list_storage_prefixes paginate (st_bucket st) (st_prefix st)) (\<lambda>items.
       Inr (map (\<lambda>item. \<lparr>name = si_id item, rc_bucket = st_bucket st,
                        rc_prefix = rstrip_char (CHR ''/'') (si_path item)\<rparr>) items))"

definition ids_of :: "string \<Rightarrow> string list" where
  "ids_of n = [n, n @ DATA_SUFFIX]"

definition evict :: "string list \<Rightarrow> ('r, 'v) provider \<Rightarrow> ('r, 'v) provider" where
  "evict names p =
     p\<lparr>repos := fold (\<lambda>n d. dict_pop d n) names (repos p),
       cache := fold (\<lambda>n d. dict_pop d n) (concat (map ids_of names)) (cache p)\<rparr>"

definition repo_configs_fresh :: "settings \<Rightarrow> rat \<Rightarrow> ('r, 'v) provider \<Rightarrow> bool" where
  "repo_configs_fresh st t p =
     (case discovered_at p of None \<Rightarrow> False | Some t0 \<Rightarrow> t - t0 < discovery_ttl_seconds st)"

definition config_names :: "RepoConfig list \<Rightarrow> string list" where
  "config_names cfgs = map name cfgs"

text \<open>
  A new listing: the names that went are evicted, and the callback is told the names when the
  set changed or is the first one.  The second component is that call, if it was made.
\<close>

definition install_configs :: "RepoConfig list \<Rightarrow> rat \<Rightarrow> ('r, 'v) provider \<Rightarrow> ('r, 'v) provider \<times> string list option" where
  "install_configs cfgs t p =
     (let first_discovery = discovered_at p = None;
          previous = config_names (repo_configs p);
          current = config_names cfgs;
          added = sorted_set (filter (\<lambda>n. n \<notin> set previous) current);
          removed = sorted_set (filter (\<lambda>n. n \<notin> set current) previous);
          p' = p\<lparr>discovered_at := Some t, repo_configs := cfgs\<rparr>;
          p'' = (if removed \<noteq> [] then evict removed p' else p')
      in (p'', if first_discovery \<or> added \<noteq> [] \<or> removed \<noteq> [] then Some (sorted_set current) else None))"

text \<open>Readings: the test, the test under the lock, the stamp.\<close>

definition refresh_repo_configs ::
  "paginate \<Rightarrow> settings \<Rightarrow> readings \<Rightarrow> ('r, 'v) provider \<Rightarrow> ('r, 'v) provider \<times> string list option"
where
  "refresh_repo_configs paginate st now p =
     (if repo_configs_fresh st (now 0) p \<or> repo_configs_fresh st (now 1) p then (p, None)
      else case discover_repo_configs paginate st of
             Inl e \<Rightarrow> (p\<lparr>discovered_at := Some (now 2)\<rparr>, None)
           | Inr cfgs \<Rightarrow> install_configs cfgs (now 2) p)"

definition refreshed :: "paginate \<Rightarrow> settings \<Rightarrow> readings \<Rightarrow> ('r, 'v) provider \<Rightarrow> ('r, 'v) provider" where
  "refreshed paginate st now p = fst (refresh_repo_configs paginate st now p)"

definition repo_names ::
  "paginate \<Rightarrow> settings \<Rightarrow> readings \<Rightarrow> ('r, 'v) provider \<Rightarrow> string list \<times> ('r, 'v) provider"
where
  "repo_names paginate st now p =
     (let p' = refreshed paginate st now p in (config_names (repo_configs p'), p'))"

definition dataset_ids ::
  "paginate \<Rightarrow> settings \<Rightarrow> readings \<Rightarrow> ('r, 'v) provider \<Rightarrow> string list \<times> ('r, 'v) provider"
where
  "dataset_ids paginate st now p =
     (let p' = refreshed paginate st now p
      in (concat (map ids_of (config_names (repo_configs p'))), p'))"

fun find_config :: "string \<Rightarrow> RepoConfig list \<Rightarrow> (RepoConfig \<times> dataset_kind) option" where
  "find_config d [] = None"
| "find_config d (cfg # cfgs) =
     (if d = name cfg then Some (cfg, Tiles)
      else if d = name cfg @ DATA_SUFFIX then Some (cfg, Data)
      else find_config d cfgs)"

definition cfg_for_dataset_id ::
  "paginate \<Rightarrow> settings \<Rightarrow> readings \<Rightarrow> string \<Rightarrow> ('r, 'v) provider
     \<Rightarrow> (RepoConfig \<times> dataset_kind) option \<times> ('r, 'v) provider"
where
  "cfg_for_dataset_id paginate st now d p =
     (let p' = refreshed paginate st now p in (find_config d (repo_configs p'), p'))"

section \<open>Opening a repo\<close>

fun build_all :: "(build_call \<Rightarrow> 'w \<Rightarrow> (exn + unit) \<times> 'w) \<Rightarrow> build_call list \<Rightarrow> 'w \<Rightarrow> (exn + unit) \<times> 'w" where
  "build_all run [] w = (Inr (), w)"
| "build_all run (c # cs) w =
     (case run c w of (Inl e, w') \<Rightarrow> (Inl e, w') | (Inr _, w') \<Rightarrow> build_all run cs w')"

definition ensure_repo_initialized ::
  "('w, 'r, 's, 'v) libs \<Rightarrow> storage \<Rightarrow> string \<Rightarrow> 'w \<Rightarrow> (exn + unit) \<times> 'w"
where
  "ensure_repo_initialized lib sg branch w =
     (case lib_exists lib sg w of
        Inl e \<Rightarrow> (Inl e, w)
      | Inr True \<Rightarrow> (Inr (), w)
      | Inr False \<Rightarrow>
          build_all (lib_build lib sg)
            [CreateRepo, WritableSession branch, WriteEmptyGroup OVERVIEW_GROUP,
             WriteEmptyGroup DEFAULT_DATA_GROUP, CommitSession ''Initialize empty repo placeholder''] w)"

definition open_with_virtual_access :: "('w, 'r, 's, 'v) libs \<Rightarrow> storage \<Rightarrow> 'w \<Rightarrow> exn + 'r" where
  "open_with_virtual_access lib sg w =
     andthen (lib_fetch_containers lib sg w) (\<lambda>found.
       let containers = (case found of None \<Rightarrow> [] | Some cs \<Rightarrow> cs)
       in lib_open lib sg (map (\<lambda>pfx. (pfx, anonymous_credentials pfx)) containers) w)"

definition open_repo ::
  "('w, 'r, 's, 'v) libs \<Rightarrow> settings \<Rightarrow> RepoConfig \<Rightarrow> ('r, 'v) provider \<times> 'w \<Rightarrow> (exn + 'r) \<times> ('r, 'v) provider \<times> 'w"
where
  "open_repo lib st cfg s =
     (case s of (p, w) \<Rightarrow>
        case dict_get (repos p) (name cfg) of
          Some r \<Rightarrow> (Inr r, p, w)
        | None \<Rightarrow>
            (let sg = \<lparr>sg_bucket = rc_bucket cfg, sg_prefix = rc_prefix cfg, sg_kwargs = st_storage_kwargs st\<rparr>
             in case ensure_repo_initialized lib sg (st_branch st) w of
                  (Inl e, w') \<Rightarrow> (Inl e, p, w')
                | (Inr _, w') \<Rightarrow>
                    (case open_with_virtual_access lib sg w' of
                       Inl e \<Rightarrow> (Inl e, p, w')
                     | Inr r \<Rightarrow> (Inr r, p\<lparr>repos := dict_set (repos p) (name cfg) r\<rparr>, w'))))"

section \<open>Loading and serving\<close>

text \<open>The tree of a snapshot: with levels, the data group is level 1; otherwise it is the root.\<close>

definition datatree_of ::
  "string \<Rightarrow> 'v dataset \<Rightarrow> (string, 'v dataset) dict \<Rightarrow> grid \<Rightarrow> 'v datatree"
where
  "datatree_of d ds overviews spec =
     (if overviews \<noteq> []
      then \<lparr>dt_root = None, dt_levels = fold (\<lambda>(k, v) m. dict_set m k v) overviews [(''1'', ds)],
            dt_xpublish_id = d, dt_grid_spec = spec\<rparr>
      else \<lparr>dt_root = Some ds, dt_levels = [], dt_xpublish_id = d, dt_grid_spec = spec\<rparr>)"

definition load_datatree ::
  "('w, 'r, 's, 'v) libs \<Rightarrow> string \<Rightarrow> 'r \<Rightarrow> dataset_kind \<Rightarrow> string \<Rightarrow> 'w \<Rightarrow> exn + 'v datatree"
where
  "load_datatree lib d repo k snapshot w =
     andthen (lib_readonly_session lib repo snapshot w) (\<lambda>session.
       let opened = (\<lambda>group. open_group (lib_numpy lib) (lib_sortby lib) (lib_open_dataset lib session group))
       in andthen (grid_spec (lib_root_group lib session)) (\<lambda>spec.
          andthen (data_group (lib_root_group lib session)) (\<lambda>group.
          andthen (opened group) (\<lambda>ds.
          andthen (if k = Tiles then overview_levels (opened \<circ> JStr) (lib_overview_group lib session) else Inr [])
            (\<lambda>overviews. Inr (datatree_of d ds overviews spec))))))"

definition is_checked :: "settings \<Rightarrow> rat \<Rightarrow> 'v cache_entry \<Rightarrow> bool" where
  "is_checked st t entry \<longleftrightarrow> t - checked_at entry < cache_ttl_seconds st"

text \<open>\<open>entry.checked_at = time.monotonic()\<close>: the entry in the cache is the same object.\<close>

definition restamp :: "string \<Rightarrow> 'v cache_entry \<Rightarrow> rat \<Rightarrow> ('r, 'v) provider \<Rightarrow> ('r, 'v) provider" where
  "restamp d entry t p = p\<lparr>cache := dict_set (cache p) d (entry\<lparr>checked_at := t\<rparr>)\<rparr>"

text \<open>
  Under the dataset's lock, past the freshness tests: the branch tip decides.  A lookup that
  fails is raised only when nothing is cached.
\<close>

definition revalidate ::
  "('w, 'r, 's, 'v) libs \<Rightarrow> settings \<Rightarrow> string \<Rightarrow> dataset_kind \<Rightarrow> 'r \<Rightarrow> rat \<Rightarrow> ('r, 'v) provider \<Rightarrow> 'w
     \<Rightarrow> (exn + 'v datatree) \<times> ('r, 'v) provider"
where
  "revalidate lib st d k repo t p w =
     (let entry = dict_get (cache p) d
      in case lib_lookup_branch lib repo (st_branch st) w of
           Inl e \<Rightarrow>
             (case entry of
                None \<Rightarrow> (Inl e, p)
              | Some en \<Rightarrow> (Inr (ce_datatree en), restamp d en t p))
         | Inr tip \<Rightarrow>
             (case entry of
                Some en \<Rightarrow>
                  if snapshot_id en = tip then (Inr (ce_datatree en), restamp d en t p)
                  else (case load_datatree lib d repo k tip w of
                          Inl e \<Rightarrow> (Inl e, p)
                        | Inr dt \<Rightarrow> (Inr dt, p\<lparr>cache := dict_set (cache p) d
                                               \<lparr>ce_datatree = dt, snapshot_id = tip, checked_at = t\<rparr>\<rparr>))
              | None \<Rightarrow>
                  (case load_datatree lib d repo k tip w of
                     Inl e \<Rightarrow> (Inl e, p)
                   | Inr dt \<Rightarrow> (Inr dt, p\<lparr>cache := dict_set (cache p) d
                                          \<lparr>ce_datatree = dt, snapshot_id = tip, checked_at = t\<rparr>\<rparr>))))"

text \<open>Readings 0 to 2 are the discovery's, 3 and 4 the freshness tests, 5 the stamp.\<close>

definition get_datatree_for_dataset ::
  "('w, 'r, 's, 'v) libs \<Rightarrow> paginate \<Rightarrow> settings \<Rightarrow> readings \<Rightarrow> string \<Rightarrow> ('r, 'v) provider \<times> 'w
     \<Rightarrow> (exn + 'v datatree option) \<times> ('r, 'v) provider \<times> 'w"
where
  "get_datatree_for_dataset lib paginate st now d s =
     (case s of (p, w) \<Rightarrow>
        case cfg_for_dataset_id paginate st now d p of
          (None, p1) \<Rightarrow> (Inr None, p1, w)
        | (Some (cfg, k), p1) \<Rightarrow>
            (if (\<exists>entry \<in> set_option (dict_get (cache p1) d). is_checked st (now 3) entry \<or> is_checked st (now 4) entry)
             then (Inr (map_option ce_datatree (dict_get (cache p1) d)), p1, w)
             else (case open_repo lib st cfg (p1, w) of
                     (Inl e, s') \<Rightarrow> (Inl e, s')
                   | (Inr repo, p2, w') \<Rightarrow>
                       (case revalidate lib st d k repo (now 5) p2 w' of
                          (r, p3) \<Rightarrow> (map_sum id Some r, p3, w')))))"

text \<open>The two plugin hooks; \<open>getitem\<close> is \<open>dt[group]\<close>, \<open>None\<close> its \<open>KeyError\<close>.\<close>

definition get_datatree ::
  "('w, 'r, 's, 'v) libs \<Rightarrow> ('v datatree \<Rightarrow> string \<Rightarrow> 'v datatree option) \<Rightarrow> paginate \<Rightarrow> settings \<Rightarrow> readings
     \<Rightarrow> string \<Rightarrow> string \<Rightarrow> ('r, 'v) provider \<times> 'w \<Rightarrow> (exn + 'v datatree option) \<times> ('r, 'v) provider \<times> 'w"
where
  "get_datatree lib getitem paginate st now d node s =
     (case get_datatree_for_dataset lib paginate st now d s of
        (Inr (Some dt), s') \<Rightarrow> (Inr (if node = [] then Some dt else getitem dt node), s')
      | other \<Rightarrow> other)"

definition provider_metadata ::
  "('w, 'r, 's, 'v) libs \<Rightarrow> paginate \<Rightarrow> settings \<Rightarrow> readings \<Rightarrow> string \<Rightarrow> ('r, 'v) provider \<times> 'w
     \<Rightarrow> (exn + grid option) \<times> ('r, 'v) provider \<times> 'w"
where
  "provider_metadata lib paginate st now d s =
     (case get_datatree_for_dataset lib paginate st now (d @ DATA_SUFFIX) s of
        (r, s') \<Rightarrow> (map_sum id (map_option dt_grid_spec) r, s'))"

section \<open>Where the repos and the trees come from\<close>

text \<open>
  The specifications below speak of a repo \<open>n\<close>: one opened on storage in the service's bucket at
  a prefix whose last segment is \<open>n\<close>, which is all a listing says of it.  \<open>tree_of\<close> is a tree of
  that repo's data at one snapshot, read through one of its two ids.  The object store the two
  were read from is left open: it is the one of an earlier call.
\<close>

definition config_ok :: "settings \<Rightarrow> RepoConfig \<Rightarrow> bool" where
  "config_ok st cfg \<longleftrightarrow>
     rc_bucket cfg = st_bucket st \<and> name cfg \<noteq> [] \<and> name cfg = last (split_on (CHR ''/'') (rc_prefix cfg))"

definition config_storage :: "settings \<Rightarrow> RepoConfig \<Rightarrow> storage" where
  "config_storage st cfg =
     \<lparr>sg_bucket = rc_bucket cfg, sg_prefix = rc_prefix cfg, sg_kwargs = st_storage_kwargs st\<rparr>"

definition repo_of :: "('w, 'r, 's, 'v) libs \<Rightarrow> settings \<Rightarrow> string \<Rightarrow> 'r \<Rightarrow> bool" where
  "repo_of lib st n repo \<longleftrightarrow>
     (\<exists>cfg w. config_ok st cfg \<and> name cfg = n \<and> open_with_virtual_access lib (config_storage st cfg) w = Inr repo)"

definition id_of_repo :: "string \<Rightarrow> dataset_kind \<Rightarrow> string \<Rightarrow> bool" where
  "id_of_repo d k n \<longleftrightarrow> k = Tiles \<and> d = n \<or> k = Data \<and> d = n @ ''_data''"

definition tree_of ::
  "('w, 'r, 's, 'v) libs \<Rightarrow> settings \<Rightarrow> string \<Rightarrow> string \<Rightarrow> string \<Rightarrow> 'v datatree \<Rightarrow> bool"
where
  "tree_of lib st d n snapshot dt \<longleftrightarrow>
     (\<exists>k repo w. id_of_repo d k n \<and> repo_of lib st n repo \<and> load_datatree lib d repo k snapshot w = Inr dt)"

text \<open>The states the provider reaches: calls for datasets and refreshed listings, in any order.\<close>

inductive provider_reached :: "('w, 'r, 's, 'v) libs \<Rightarrow> settings \<Rightarrow> ('r, 'v) provider \<Rightarrow> bool" for lib st where
  reached_init: "provider_reached lib st init_provider"
| reached_get:
    "provider_reached lib st p \<Longrightarrow>
     get_datatree_for_dataset lib paginate st now d (p, w) = (answer, p', w') \<Longrightarrow> provider_reached lib st p'"
| reached_refresh: "provider_reached lib st p \<Longrightarrow> provider_reached lib st (refreshed paginate st now p)"

definition provider_ok :: "('w, 'r, 's, 'v) libs \<Rightarrow> settings \<Rightarrow> ('r, 'v) provider \<Rightarrow> bool" where
  "provider_ok lib st p \<longleftrightarrow>
     list_all (config_ok st) (repo_configs p) \<and>
     (\<forall>n repo. dict_get (repos p) n = Some repo \<longrightarrow> repo_of lib st n repo) \<and>
     (\<forall>d en. dict_get (cache p) d = Some en \<longrightarrow>
        (\<exists>n \<in> set (config_names (repo_configs p)). tree_of lib st d n (snapshot_id en) (ce_datatree en)))"

lemma provider_ok_tree:
  "provider_ok lib st p \<Longrightarrow> dict_get (cache p) d = Some en \<Longrightarrow>
   \<exists>n. n \<in> set (config_names (repo_configs p)) \<and> tree_of lib st d n (snapshot_id en) (ce_datatree en)"
  unfolding provider_ok_def by blast

lemma provider_ok_config: "provider_ok lib st p \<Longrightarrow> cfg \<in> set (repo_configs p) \<Longrightarrow> config_ok st cfg"
  by (simp add: provider_ok_def list_all_iff)

lemma config_name_in: "cfg \<in> set cfgs \<Longrightarrow> name cfg \<in> set (config_names cfgs)"
  by (simp add: config_names_def)

lemma tree_of_id: "tree_of lib st d n snapshot dt \<Longrightarrow> d = n \<or> d = n @ ''_data''"
  by (auto simp: tree_of_def id_of_repo_def)

subsection \<open>Discovery\<close>

definition listed_ids :: "string set \<Rightarrow> string set" where
  "listed_ids ns = (\<Union>n \<in> ns. set (ids_of n))"

lemma listed_ids_iff: "d \<in> listed_ids ns \<longleftrightarrow> (\<exists>n k. n \<in> ns \<and> id_of_repo d k n)"
  by (auto simp: listed_ids_def ids_of_def id_of_repo_def DATA_SUFFIX_def)

lemma fold_dict_pop: "dict_get (fold (\<lambda>n d. dict_pop d n) ks d) k = (if k \<in> set ks then None else dict_get d k)"
  by (induction ks arbitrary: d) auto

lemma evict_configs [simp]: "repo_configs (evict ns p) = repo_configs p" "discovered_at (evict ns p) = discovered_at p"
  by (simp_all add: evict_def)

lemma evict_cache: "dict_get (cache (evict ns p)) d = (if d \<in> listed_ids (set ns) then None else dict_get (cache p) d)"
  by (simp add: evict_def fold_dict_pop listed_ids_def)

lemma evict_if_cache:
  "dict_get (cache (if ns \<noteq> [] then evict ns p else p)) d =
   (if d \<in> listed_ids (set ns) then None else dict_get (cache p) d)"
  by (cases "ns = []") (simp_all add: evict_cache, simp add: listed_ids_def)

lemma evict_if_repos:
  "dict_get (repos (if ns \<noteq> [] then evict ns p else p)) n =
   (if n \<in> set ns then None else dict_get (repos p) n)"
  by (cases "ns = []") (simp_all add: evict_def fold_dict_pop)

lemma discovered_configs_ok: "discover_repo_configs paginate st = Inr cfgs \<Longrightarrow> list_all (config_ok st) cfgs"
  by (auto simp: discover_repo_configs_def list_storage_prefixes_def andthen_Inr_iff config_ok_def
      dir_name_def list_all_iff)

text \<open>What an installed listing leaves: the ids of the repos that went are forgotten.\<close>

lemma install_configs_state:
  assumes "fst (install_configs cfgs t p) = p'"
  shows "repo_configs p' = cfgs" "discovered_at p' = Some t"
    "dict_get (cache p') d =
       (if d \<in> listed_ids (set (config_names (repo_configs p)) - set (config_names cfgs)) then None
        else dict_get (cache p) d)"
    "dict_get (repos p') n =
       (if n \<in> set (config_names (repo_configs p)) - set (config_names cfgs) then None
        else dict_get (repos p) n)"
proof -
  let ?removed = "sorted_set (filter (\<lambda>n. n \<notin> set (config_names cfgs)) (config_names (repo_configs p)))"
  let ?q = "p\<lparr>discovered_at := Some t, repo_configs := cfgs\<rparr>"
  have p': "p' = (if ?removed \<noteq> [] then evict ?removed ?q else ?q)"
    using assms by (simp add: install_configs_def Let_def)
  have removed: "set ?removed = set (config_names (repo_configs p)) - set (config_names cfgs)"
    by auto
  show "repo_configs p' = cfgs" "discovered_at p' = Some t" by (simp_all add: p')
  show "dict_get (cache p') d =
       (if d \<in> listed_ids (set (config_names (repo_configs p)) - set (config_names cfgs)) then None
        else dict_get (cache p) d)"
    unfolding p' evict_if_cache removed by simp
  show "dict_get (repos p') n =
       (if n \<in> set (config_names (repo_configs p)) - set (config_names cfgs) then None
        else dict_get (repos p) n)"
    unfolding p' evict_if_repos removed by simp
qed

lemma refreshed_cases:
  assumes "refreshed paginate st now p = p'"
  shows "(repo_configs_fresh st (now 0) p \<or> repo_configs_fresh st (now 1) p) \<and> p' = p \<or>
    \<not> repo_configs_fresh st (now 0) p \<and> \<not> repo_configs_fresh st (now 1) p \<and>
      ((\<exists>e. discover_repo_configs paginate st = Inl e \<and> p' = p\<lparr>discovered_at := Some (now 2)\<rparr>) \<or>
       (\<exists>cfgs. discover_repo_configs paginate st = Inr cfgs \<and> fst (install_configs cfgs (now 2) p) = p'))"
  using assms by (auto simp: refreshed_def refresh_repo_configs_def split: sum.split_asm if_split_asm)

lemma installed_ok:
  assumes "provider_ok lib st p" "list_all (config_ok st) cfgs" "fst (install_configs cfgs t p) = p'"
  shows "provider_ok lib st p'"
proof -
  note p' = install_configs_state [OF assms(3)]
  have "\<exists>n \<in> set (config_names cfgs). tree_of lib st d n (snapshot_id en) (ce_datatree en)"
    if "dict_get (cache p') d = Some en" for d en
  proof -
    from that have d: "dict_get (cache p) d = Some en"
      and gone: "d \<notin> listed_ids (set (config_names (repo_configs p)) - set (config_names cfgs))"
      unfolding p' by (simp_all split: if_split_asm)
    from d assms(1) obtain n where n: "n \<in> set (config_names (repo_configs p))"
      "tree_of lib st d n (snapshot_id en) (ce_datatree en)"
      using provider_ok_tree by blast
    with gone have "n \<in> set (config_names cfgs)" by (auto simp: listed_ids_iff tree_of_def)
    with n show ?thesis by blast
  qed
  moreover have "repo_of lib st n repo" if "dict_get (repos p') n = Some repo" for n repo
    using that assms(1) by (auto simp: p' provider_ok_def split: if_split_asm)
  ultimately show ?thesis using assms(2) by (simp add: provider_ok_def p'(1))
qed

lemma refreshed_ok:
  assumes "provider_ok lib st p"
  shows "provider_ok lib st (refreshed paginate st now p)"
proof -
  consider "refreshed paginate st now p = p"
    | "refreshed paginate st now p = p\<lparr>discovered_at := Some (now 2)\<rparr>"
    | cfgs where "discover_repo_configs paginate st = Inr cfgs"
        "fst (install_configs cfgs (now 2) p) = refreshed paginate st now p"
    using refreshed_cases [of paginate st now p "refreshed paginate st now p"] by blast
  then show ?thesis
  proof cases
    case 3
    show ?thesis by (rule installed_ok [OF assms discovered_configs_ok [OF 3(1)] 3(2)])
  qed (use assms in \<open>simp_all add: provider_ok_def\<close>)
qed

subsection \<open>Serving\<close>

lemma find_config_name:
  "find_config d cfgs = Some (cfg, k) \<Longrightarrow> cfg \<in> set cfgs \<and> (k = Tiles \<and> d = name cfg \<or> k = Data \<and> d = name cfg @ DATA_SUFFIX)"
  by (induction cfgs) (auto split: if_split_asm)

lemma find_config_id:
  "find_config d cfgs = Some (cfg, k) \<Longrightarrow> cfg \<in> set cfgs \<and> id_of_repo d k (name cfg)"
  using find_config_name [of d cfgs cfg k] by (auto simp: id_of_repo_def DATA_SUFFIX_def)

lemma find_config_None: "find_config d cfgs = None \<longleftrightarrow> d \<notin> listed_ids (set (config_names cfgs))"
  by (induction cfgs) (auto simp: config_names_def listed_ids_def ids_of_def)

lemma open_repo_frame:
  assumes "open_repo lib st cfg (p, w) = (r, p', w')"
  shows "repo_configs p' = repo_configs p \<and> cache p' = cache p \<and> discovered_at p' = discovered_at p \<and>
    (\<forall>repo. r = Inr repo \<longrightarrow> dict_get (repos p') (name cfg) = Some repo)"
  using assms
  by (auto simp: open_repo_def Let_def split: option.split_asm prod.split_asm sum.split_asm)

text \<open>Opening fails while the placeholder is made or on the opening itself.\<close>

definition opening_fails ::
  "('w, 'r, 's, 'v) libs \<Rightarrow> settings \<Rightarrow> string \<Rightarrow> exn \<Rightarrow> 'w \<Rightarrow> bool"
where
  "opening_fails lib st n e w \<longleftrightarrow>
     (\<exists>cfg. config_ok st cfg \<and> name cfg = n \<and>
        ((\<exists>w0. ensure_repo_initialized lib (config_storage st cfg) (st_branch st) w0 = (Inl e, w)) \<or>
         open_with_virtual_access lib (config_storage st cfg) w = Inl e))"

lemma open_repo_ok:
  assumes "open_repo lib st cfg (p, w) = (r, p', w')" "config_ok st cfg" "provider_ok lib st p"
  shows "provider_ok lib st p'" "r = Inr repo \<Longrightarrow> repo_of lib st (name cfg) repo"
    "r = Inl e \<Longrightarrow> p' = p \<and> opening_fails lib st (name cfg) e w'"
proof -
  note sg = config_storage_def [symmetric]
  have opened: "repo_of lib st (name cfg) r1"
    if "open_with_virtual_access lib (config_storage st cfg) w1 = Inr r1" for r1 w1
    using that assms(2) by (auto simp: repo_of_def)
  show "provider_ok lib st p'"
    using assms(1,3) opened unfolding open_repo_def Let_def sg
    by (auto simp: provider_ok_def split: option.split_asm prod.split_asm sum.split_asm if_split_asm)
  show "repo_of lib st (name cfg) repo" if "r = Inr repo"
    using assms(1,3) opened that unfolding open_repo_def Let_def sg
    by (auto simp: provider_ok_def split: option.split_asm prod.split_asm sum.split_asm)
  show "p' = p \<and> opening_fails lib st (name cfg) e w'" if "r = Inl e"
    using assms(1,2) that unfolding open_repo_def Let_def sg opening_fails_def
    by (auto split: option.split_asm prod.split_asm sum.split_asm)
qed

text \<open>
  Under the lock: what is cached is served on and stamped, unless the tip is known and another
  one; then the tip is loaded.  A failure leaves the state as it is.
\<close>

lemma revalidate_cases:
  assumes "revalidate lib st d k repo t p w = (r, p')"
  shows "(\<exists>en. dict_get (cache p) d = Some en \<and>
       (\<forall>tip. lib_lookup_branch lib repo (st_branch st) w = Inr tip \<longrightarrow> tip = snapshot_id en) \<and>
       r = Inr (ce_datatree en) \<and> p' = p\<lparr>cache := dict_set (cache p) d (en\<lparr>checked_at := t\<rparr>)\<rparr>) \<or>
     (\<exists>tip dt. lib_lookup_branch lib repo (st_branch st) w = Inr tip \<and>
       (\<forall>en. dict_get (cache p) d = Some en \<longrightarrow> snapshot_id en \<noteq> tip) \<and>
       load_datatree lib d repo k tip w = Inr dt \<and> r = Inr dt \<and>
       p' = p\<lparr>cache := dict_set (cache p) d \<lparr>ce_datatree = dt, snapshot_id = tip, checked_at = t\<rparr>\<rparr>) \<or>
     (\<exists>e. r = Inl e \<and> p' = p \<and>
       (lib_lookup_branch lib repo (st_branch st) w = Inl e \<and> dict_get (cache p) d = None \<or>
        (\<exists>tip. lib_lookup_branch lib repo (st_branch st) w = Inr tip \<and>
          (\<forall>en. dict_get (cache p) d = Some en \<longrightarrow> snapshot_id en \<noteq> tip) \<and>
          load_datatree lib d repo k tip w = Inl e)))"
  using assms unfolding revalidate_def restamp_def Let_def
  by (auto split: sum.split_asm option.split_asm if_split_asm)

lemma revalidate_Inr:
  assumes "revalidate lib st d k repo t p w = (Inr dt, p')"
  shows "\<exists>en. ce_datatree en = dt \<and> checked_at en = t \<and> p' = p\<lparr>cache := dict_set (cache p) d en\<rparr>"
  using revalidate_cases [OF assms]
proof (elim disjE exE conjE)
  fix en
  assume "Inr dt = (Inr (ce_datatree en) :: exn + 'a datatree)"
    "p' = p\<lparr>cache := dict_set (cache p) d (en\<lparr>checked_at := t\<rparr>)\<rparr>"
  then show ?thesis by (intro exI [of _ "en\<lparr>checked_at := t\<rparr>"]) simp
next
  fix tip dt'
  assume "Inr dt = (Inr dt' :: exn + 'a datatree)"
    "p' = p\<lparr>cache := dict_set (cache p) d \<lparr>ce_datatree = dt', snapshot_id = tip, checked_at = t\<rparr>\<rparr>"
  then show ?thesis
    by (intro exI [of _ "\<lparr>ce_datatree = dt, snapshot_id = tip, checked_at = t\<rparr>"]) simp
qed simp_all

lemma revalidate_ok:
  assumes "revalidate lib st d k repo t p w = (r, p')" "provider_ok lib st p"
    and "repo_of lib st n repo" "id_of_repo d k n" "n \<in> set (config_names (repo_configs p))"
  shows "provider_ok lib st p'"
proof -
  have set_ok: "provider_ok lib st (p\<lparr>cache := dict_set (cache p) d en\<rparr>)"
    if "\<exists>n \<in> set (config_names (repo_configs p)). tree_of lib st d n (snapshot_id en) (ce_datatree en)" for en
    using assms(2) that by (simp add: provider_ok_def)
  from revalidate_cases [OF assms(1)] show ?thesis
  proof (elim disjE exE conjE)
    fix en
    assume "dict_get (cache p) d = Some en"
      and p': "p' = p\<lparr>cache := dict_set (cache p) d (en\<lparr>checked_at := t\<rparr>)\<rparr>"
    with provider_ok_tree [OF assms(2)] show ?thesis unfolding p' by (intro set_ok) auto
  next
    fix tip dt
    assume "load_datatree lib d repo k tip w = Inr dt"
      and p': "p' = p\<lparr>cache := dict_set (cache p) d \<lparr>ce_datatree = dt, snapshot_id = tip, checked_at = t\<rparr>\<rparr>"
    with assms(3,4) have "tree_of lib st d n tip dt" unfolding tree_of_def by blast
    with assms(5) show ?thesis unfolding p' by (intro set_ok) auto
  qed (simp_all add: assms(2))
qed

text \<open>The branches of a call, after its refresh.\<close>

definition served_recently :: "settings \<Rightarrow> readings \<Rightarrow> 'v cache_entry \<Rightarrow> bool" where
  "served_recently st now en \<longleftrightarrow>
     now 3 - checked_at en < cache_ttl_seconds st \<or> now 4 - checked_at en < cache_ttl_seconds st"

lemma get_datatree_cases:
  assumes "get_datatree_for_dataset lib paginate st now d (p, w) = (r, p', w')"
    and "refreshed paginate st now p = p1"
  shows "find_config d (repo_configs p1) = None \<and> r = Inr None \<and> p' = p1 \<or>
    (\<exists>cfg k. find_config d (repo_configs p1) = Some (cfg, k) \<and>
      ((\<exists>en. dict_get (cache p1) d = Some en \<and> served_recently st now en \<and>
          r = Inr (Some (ce_datatree en)) \<and> p' = p1) \<or>
       (\<forall>en. dict_get (cache p1) d = Some en \<longrightarrow> \<not> served_recently st now en) \<and>
         ((\<exists>e. open_repo lib st cfg (p1, w) = (Inl e, p', w') \<and> r = Inl e) \<or>
          (\<exists>repo p2 x. open_repo lib st cfg (p1, w) = (Inr repo, p2, w') \<and>
             revalidate lib st d k repo (now 5) p2 w' = (x, p') \<and> r = map_sum id Some x))))"
proof (cases "find_config d (repo_configs p1)")
  case None
  with assms show ?thesis by (simp add: get_datatree_for_dataset_def cfg_for_dataset_id_def Let_def)
next
  case (Some ck)
  then obtain cfg k where f: "find_config d (repo_configs p1) = Some (cfg, k)" by (cases ck) auto
  obtain x p2 w2 where o: "open_repo lib st cfg (p1, w) = (x, p2, w2)" by (cases "open_repo lib st cfg (p1, w)")
  note run = assms [unfolded get_datatree_for_dataset_def cfg_for_dataset_id_def Let_def]
  show ?thesis
  proof (cases "\<exists>en. dict_get (cache p1) d = Some en \<and> served_recently st now en")
    case True
    with f run show ?thesis by (auto simp: is_checked_def served_recently_def)
  next
    case False
    then have n: "\<not> (\<exists>entry \<in> set_option (dict_get (cache p1) d). is_checked st (now 3) entry \<or> is_checked st (now 4) entry)"
      by (auto simp: is_checked_def served_recently_def)
    show ?thesis
    proof (cases x)
      case (Inl e)
      with f o n run False show ?thesis by auto
    next
      case (Inr repo)
      obtain y p3 where v: "revalidate lib st d k repo (now 5) p2 w2 = (y, p3)"
        by (cases "revalidate lib st d k repo (now 5) p2 w2")
      with f o n run False Inr show ?thesis by auto
    qed
  qed
qed

lemma get_datatree_Some:
  assumes "get_datatree_for_dataset lib paginate st now d (p, w) = (Inr (Some dt), p', w')"
  shows "\<exists>cfg k. find_config d (repo_configs (refreshed paginate st now p)) = Some (cfg, k) \<and>
    ((\<exists>en. dict_get (cache (refreshed paginate st now p)) d = Some en \<and> served_recently st now en \<and>
        p' = refreshed paginate st now p \<and> dt = ce_datatree en) \<or>
     (\<exists>repo p2. open_repo lib st cfg (refreshed paginate st now p, w) = (Inr repo, p2, w') \<and>
        revalidate lib st d k repo (now 5) p2 w' = (Inr dt, p')))"
  using get_datatree_cases [OF assms refl]
proof (elim disjE exE conjE)
  fix cfg k repo p2 x
  assume "Inr (Some dt) = (map_sum id Some x :: exn + 'a datatree option)"
  then have "x = Inr dt" by (cases x) simp_all
  moreover assume "find_config d (repo_configs (refreshed paginate st now p)) = Some (cfg, k)"
    "open_repo lib st cfg (refreshed paginate st now p, w) = (Inr repo, p2, w')"
    "revalidate lib st d k repo (now 5) p2 w' = (x, p')"
  ultimately show ?thesis by blast
qed (simp, blast, simp)

lemma get_datatree_ok:
  assumes "get_datatree_for_dataset lib paginate st now d (p, w) = (r, p', w')" "provider_ok lib st p"
  shows "provider_ok lib st p' \<and> repo_configs p' = repo_configs (refreshed paginate st now p)"
proof -
  let ?p1 = "refreshed paginate st now p"
  have ok1: "provider_ok lib st ?p1" using refreshed_ok [OF assms(2)] .
  from get_datatree_cases [OF assms(1) refl] show ?thesis
  proof (elim disjE exE conjE)
    fix cfg k e
    assume f: "find_config d (repo_configs ?p1) = Some (cfg, k)"
      and o: "open_repo lib st cfg (?p1, w) = (Inl e, p', w')"
    from find_config_id [OF f] ok1 have "config_ok st cfg" by (blast intro: provider_ok_config)
    from open_repo_ok(1) [OF o this ok1] open_repo_frame [OF o] show ?thesis by simp
  next
    fix cfg k repo p2 x
    assume f: "find_config d (repo_configs ?p1) = Some (cfg, k)"
      and o: "open_repo lib st cfg (?p1, w) = (Inr repo, p2, w')"
      and v: "revalidate lib st d k repo (now 5) p2 w' = (x, p')"
    from find_config_id [OF f] have c: "cfg \<in> set (repo_configs ?p1)" "id_of_repo d k (name cfg)" by simp_all
    note c_ok = provider_ok_config [OF ok1 c(1)]
    have n: "name cfg \<in> set (config_names (repo_configs p2))"
      using open_repo_frame [OF o] config_name_in [OF c(1)] by simp
    have "provider_ok lib st p'"
      by (rule revalidate_ok [OF v open_repo_ok(1) [OF o c_ok ok1] open_repo_ok(2) [OF o c_ok ok1 refl] c(2) n])
    moreover have "repo_configs p' = repo_configs p2"
      using revalidate_cases [OF v] by auto
    ultimately show ?thesis using open_repo_frame [OF o] by simp
  qed (simp_all add: ok1)
qed

lemma reached_ok: "provider_reached lib st p \<Longrightarrow> provider_ok lib st p"
proof (induction rule: provider_reached.induct)
  case reached_init
  show ?case by (simp add: provider_ok_def init_provider_def)
next
  case (reached_get p paginate now d w answer p' w')
  with get_datatree_ok [OF reached_get(2)] show ?case by blast
next
  case (reached_refresh p paginate now)
  show ?case by (rule refreshed_ok [OF reached_refresh(2)])
qed

text \<open>What every served tree is: a tree of a listed repo, read through one of its ids.\<close>

lemma served_tree_of:
  assumes "get_datatree_for_dataset lib paginate st now d (p, w) = (Inr (Some dt), p', w')" "provider_ok lib st p"
  shows "\<exists>en n. dict_get (cache p') d = Some en \<and> ce_datatree en = dt \<and>
    n \<in> set (config_names (repo_configs p')) \<and> tree_of lib st d n (snapshot_id en) dt"
proof -
  from get_datatree_Some [OF assms(1)] obtain en where "dict_get (cache p') d = Some en" "ce_datatree en = dt"
    by (auto dest!: revalidate_Inr)
  with provider_ok_tree [OF conjunct1 [OF get_datatree_ok [OF assms]]] show ?thesis by metis
qed

section \<open>The registry the provider implements\<close>

text \<open>
  Abstractly a provider is the set of listed repos, the time of the last listing, and what is
  served for some of their ids.  It knows no open repos, no configurations and no order, and
  answers by two rules: a listing that is due is made first, then the id is answered.
\<close>

record 'v registry =
  listed :: "string set"
  listed_at :: "rat option"
  served :: "string \<Rightarrow> 'v cache_entry option"

definition registry_of :: "('r, 'v) provider \<Rightarrow> 'v registry" where
  "registry_of p =
     \<lparr>listed = set (config_names (repo_configs p)), listed_at = discovered_at p,
      served = dict_get (cache p)\<rparr>"

text \<open>The names a listing gives: the last segments of the folders directly under the prefix.\<close>

definition listed_names :: "paginate \<Rightarrow> settings \<Rightarrow> exn + string set" where
  "listed_names paginate st =
     map_sum id (\<lambda>items. set (map si_id items)) (list_storage_prefixes paginate (st_bucket st) (st_prefix st))"

definition listing_due :: "settings \<Rightarrow> readings \<Rightarrow> 'v registry \<Rightarrow> bool" where
  "listing_due st now r \<longleftrightarrow>
     (\<forall>t0. listed_at r = Some t0 \<longrightarrow>
        now 0 - t0 \<ge> discovery_ttl_seconds st \<and> now 1 - t0 \<ge> discovery_ttl_seconds st)"

definition reg_refresh :: "settings \<Rightarrow> readings \<Rightarrow> exn + string set \<Rightarrow> 'v registry \<Rightarrow> 'v registry" where
  "reg_refresh st now names r =
     (if \<not> listing_due st now r then r
      else case names of
             Inl e \<Rightarrow> r\<lparr>listed_at := Some (now 2)\<rparr>
           | Inr ns \<Rightarrow> \<lparr>listed = ns, listed_at = Some (now 2),
                        served = served r |` (- listed_ids (listed r - ns))\<rparr>)"

text \<open>
  The answer for an id, in a state of the object store, with the state after it.  Where an id is
  one of two listed repos' (\<open>foo\<close> and \<open>foo_data\<close>), the registry leaves open which one is read.
\<close>

inductive reg_answer ::
  "('w, 'r, 's, 'v) libs \<Rightarrow> settings \<Rightarrow> readings \<Rightarrow> 'w \<Rightarrow> string \<Rightarrow> 'v registry
     \<Rightarrow> exn + 'v datatree option \<Rightarrow> 'v registry \<Rightarrow> bool"
  for lib st now w d r
where
  unknown: "d \<notin> listed_ids (listed r) \<Longrightarrow> reg_answer lib st now w d r (Inr None) r"
| recent:
    "d \<in> listed_ids (listed r) \<Longrightarrow> served r d = Some en \<Longrightarrow> served_recently st now en \<Longrightarrow>
     reg_answer lib st now w d r (Inr (Some (ce_datatree en))) r"
| confirmed:
    "served r d = Some en \<Longrightarrow> \<not> served_recently st now en \<Longrightarrow>
     n \<in> listed r \<Longrightarrow> id_of_repo d k n \<Longrightarrow> repo_of lib st n repo \<Longrightarrow>
     lib_lookup_branch lib repo (st_branch st) w = Inr (snapshot_id en) \<or>
       (\<exists>e. lib_lookup_branch lib repo (st_branch st) w = Inl e) \<Longrightarrow>
     reg_answer lib st now w d r (Inr (Some (ce_datatree en)))
       (r\<lparr>served := (served r)(d \<mapsto> en\<lparr>checked_at := now 5\<rparr>)\<rparr>)"
| loaded:
    "(\<And>en. served r d = Some en \<Longrightarrow> \<not> served_recently st now en \<and> snapshot_id en \<noteq> tip) \<Longrightarrow>
     n \<in> listed r \<Longrightarrow> id_of_repo d k n \<Longrightarrow> repo_of lib st n repo \<Longrightarrow>
     lib_lookup_branch lib repo (st_branch st) w = Inr tip \<Longrightarrow>
     load_datatree lib d repo k tip w = Inr dt \<Longrightarrow>
     reg_answer lib st now w d r (Inr (Some dt))
       (r\<lparr>served := (served r)(d \<mapsto> \<lparr>ce_datatree = dt, snapshot_id = tip, checked_at = now 5\<rparr>)\<rparr>)"
| unopened:
    "(\<And>en. served r d = Some en \<Longrightarrow> \<not> served_recently st now en) \<Longrightarrow>
     n \<in> listed r \<Longrightarrow> id_of_repo d k n \<Longrightarrow> opening_fails lib st n e w \<Longrightarrow>
     reg_answer lib st now w d r (Inl e) r"
| no_tip:
    "served r d = None \<Longrightarrow> n \<in> listed r \<Longrightarrow> id_of_repo d k n \<Longrightarrow> repo_of lib st n repo \<Longrightarrow>
     lib_lookup_branch lib repo (st_branch st) w = Inl e \<Longrightarrow> reg_answer lib st now w d r (Inl e) r"
| unloadable:
    "(\<And>en. served r d = Some en \<Longrightarrow> \<not> served_recently st now en \<and> snapshot_id en \<noteq> tip) \<Longrightarrow>
     n \<in> listed r \<Longrightarrow> id_of_repo d k n \<Longrightarrow> repo_of lib st n repo \<Longrightarrow>
     lib_lookup_branch lib repo (st_branch st) w = Inr tip \<Longrightarrow>
     load_datatree lib d repo k tip w = Inl e \<Longrightarrow> reg_answer lib st now w d r (Inl e) r"

lemma registry_of_simps [simp]:
  "listed (registry_of p) = set (config_names (repo_configs p))"
  "listed_at (registry_of p) = discovered_at p"
  "served (registry_of p) = dict_get (cache p)"
  by (simp_all add: registry_of_def)

lemma registry_of_cache:
  "registry_of (p\<lparr>cache := dict_set (cache p) d en\<rparr>) =
   (registry_of p)\<lparr>served := (served (registry_of p))(d \<mapsto> en)\<rparr>"
  by (auto simp: registry_of_def)

lemma listing_due_iff:
  "listing_due st now (registry_of p) \<longleftrightarrow>
     \<not> repo_configs_fresh st (now 0) p \<and> \<not> repo_configs_fresh st (now 1) p"
  by (auto simp: listing_due_def repo_configs_fresh_def not_less split: option.split)

lemma listed_names_discovered:
  "listed_names paginate st =
     (case discover_repo_configs paginate st of Inl e \<Rightarrow> Inl e | Inr cfgs \<Rightarrow> Inr (set (config_names cfgs)))"
  by (cases "list_storage_prefixes paginate (st_bucket st) (st_prefix st)")
    (simp_all add: listed_names_def discover_repo_configs_def config_names_def)

lemma refreshed_refines:
  "registry_of (refreshed paginate st now p) = reg_refresh st now (listed_names paginate st) (registry_of p)"
proof -
  let ?p1 = "refreshed paginate st now p"
  from refreshed_cases [of paginate st now p ?p1, OF refl] show ?thesis
  proof (elim disjE exE conjE)
    fix cfgs
    assume due: "\<not> repo_configs_fresh st (now 0) p" "\<not> repo_configs_fresh st (now 1) p"
      and c: "discover_repo_configs paginate st = Inr cfgs" "fst (install_configs cfgs (now 2) p) = ?p1"
    note s = install_configs_state [OF c(2)]
    have "dict_get (cache ?p1) =
        dict_get (cache p) |` (- listed_ids (set (config_names (repo_configs p)) - set (config_names cfgs)))"
      by (rule ext) (simp add: s(3) restrict_map_def)
    with s(1,2) have "registry_of ?p1 =
        \<lparr>listed = set (config_names cfgs), listed_at = Some (now 2),
         served = served (registry_of p) |` (- listed_ids (listed (registry_of p) - set (config_names cfgs)))\<rparr>"
      by (simp add: registry_of_def)
    with due c show ?thesis
      by (simp add: reg_refresh_def listing_due_iff listed_names_discovered)
  next
    fix e
    assume "?p1 = p\<lparr>discovered_at := Some (now 2)\<rparr>"
    then have "registry_of ?p1 = (registry_of p)\<lparr>listed_at := Some (now 2)\<rparr>" by (simp add: registry_of_def)
    moreover assume "\<not> repo_configs_fresh st (now 0) p" "\<not> repo_configs_fresh st (now 1) p"
      "discover_repo_configs paginate st = Inl e"
    ultimately show ?thesis
      by (simp add: reg_refresh_def listing_due_iff listed_names_discovered)
  qed (simp_all add: reg_refresh_def listing_due_iff)
qed

text \<open>C8 The provider refines the registry, for every state it reaches: a call makes the listing that
  is due, which forgets what was served for the repos that went, and then answers by the
  registry's rules.  An id of no listed repo is unknown; a tree checked recently is served on;
  otherwise it is served on only where the tip of a repo of that name is its snapshot or cannot
  be looked up, and else is the tree loaded now from that repo at the tip.  An error is the one
  of opening, looking up or loading such a repo, and changes nothing more.
\<close>

theorem provider_refines_registry:
  assumes "provider_reached lib st p" "get_datatree_for_dataset lib paginate st now d (p, w) = (answer, p', w')"
  shows "reg_answer lib st now w' d (reg_refresh st now (listed_names paginate st) (registry_of p))
    answer (registry_of p')"
proof -
  let ?p1 = "refreshed paginate st now p"
  have ok1: "provider_ok lib st ?p1" using refreshed_ok [OF reached_ok [OF assms(1)]] .
  have "reg_answer lib st now w' d (registry_of ?p1) answer (registry_of p')"
    using get_datatree_cases [OF assms(2) refl]
  proof (elim disjE exE conjE)
    fix cfg k en
    assume f: "find_config d (repo_configs ?p1) = Some (cfg, k)" "dict_get (cache ?p1) d = Some en"
      "served_recently st now en" "answer = Inr (Some (ce_datatree en))" "p' = ?p1"
    with find_config_None [of d "repo_configs ?p1"] show ?thesis by (auto intro: reg_answer.recent)
  next
    fix cfg k e
    assume f: "find_config d (repo_configs ?p1) = Some (cfg, k)" and o: "open_repo lib st cfg (?p1, w) = (Inl e, p', w')"
      and a: "answer = Inl e" and old: "\<forall>en. dict_get (cache ?p1) d = Some en \<longrightarrow> \<not> served_recently st now en"
    from find_config_id [OF f] have c: "cfg \<in> set (repo_configs ?p1)" "id_of_repo d k (name cfg)" by simp_all
    from open_repo_ok(3) [OF o provider_ok_config [OF ok1 c(1)] ok1 refl]
    have "p' = ?p1" "opening_fails lib st (name cfg) e w'" by simp_all
    with c old a config_name_in [OF c(1)] show ?thesis by (auto intro!: reg_answer.unopened [where n = "name cfg"])
  next
    fix cfg k repo p2 x
    assume f: "find_config d (repo_configs ?p1) = Some (cfg, k)"
      and old: "\<forall>en. dict_get (cache ?p1) d = Some en \<longrightarrow> \<not> served_recently st now en"
      and o: "open_repo lib st cfg (?p1, w) = (Inr repo, p2, w')"
      and v: "revalidate lib st d k repo (now 5) p2 w' = (x, p')" and a: "answer = map_sum id Some x"
    from find_config_id [OF f] have c: "cfg \<in> set (repo_configs ?p1)" and id_d: "id_of_repo d k (name cfg)" by simp_all
    note repo = open_repo_ok(2) [OF o provider_ok_config [OF ok1 c] ok1 refl]
    from open_repo_frame [OF o] have same: "registry_of p2 = registry_of ?p1" "dict_get (cache p2) d = served (registry_of ?p1) d"
      by (simp_all add: registry_of_def)
    have nm: "name cfg \<in> listed (registry_of ?p1)" using config_name_in [OF c] by simp
    have late: "\<not> served_recently st now en" if "served (registry_of ?p1) d = Some en" for en
      using old that by simp
    note stored = registry_of_cache [where p = p2, unfolded same(1)]
    from revalidate_cases [OF v, unfolded same(2)] show ?thesis
    proof (elim disjE exE conjE)
      fix en
      assume en: "served (registry_of ?p1) d = Some en" "x = Inr (ce_datatree en)"
        "\<forall>tip. lib_lookup_branch lib repo (st_branch st) w' = Inr tip \<longrightarrow> tip = snapshot_id en"
        "p' = p2\<lparr>cache := dict_set (cache p2) d (en\<lparr>checked_at := now 5\<rparr>)\<rparr>"
      have "lib_lookup_branch lib repo (st_branch st) w' = Inr (snapshot_id en) \<or>
          (\<exists>e. lib_lookup_branch lib repo (st_branch st) w' = Inl e)"
        using en(3) by (cases "lib_lookup_branch lib repo (st_branch st) w'") auto
      from reg_answer.confirmed [OF en(1) late [OF en(1)] nm id_d repo this] show ?thesis
        by (simp add: a en(2,4) stored)
    next
      fix tip dt
      assume l: "lib_lookup_branch lib repo (st_branch st) w' = Inr tip" "load_datatree lib d repo k tip w' = Inr dt"
        "x = Inr dt" "p' = p2\<lparr>cache := dict_set (cache p2) d \<lparr>ce_datatree = dt, snapshot_id = tip, checked_at = now 5\<rparr>\<rparr>"
        and other: "\<forall>en. served (registry_of ?p1) d = Some en \<longrightarrow> snapshot_id en \<noteq> tip"
      from reg_answer.loaded [OF _ nm id_d repo l(1,2)] late other show ?thesis
        by (simp add: a l(3,4) stored)
    next
      fix e
      assume "x = Inl e" "p' = p2" "lib_lookup_branch lib repo (st_branch st) w' = Inl e" "served (registry_of ?p1) d = None"
      with reg_answer.no_tip [OF _ nm id_d repo] show ?thesis by (simp add: a same(1))
    next
      fix e tip
      assume l: "lib_lookup_branch lib repo (st_branch st) w' = Inr tip" "load_datatree lib d repo k tip w' = Inl e"
        "x = Inl e" "p' = p2" and other: "\<forall>en. served (registry_of ?p1) d = Some en \<longrightarrow> snapshot_id en \<noteq> tip"
      from reg_answer.unloadable [OF _ nm id_d repo l(1,2)] late other show ?thesis
        by (simp add: a l(3,4) same(1))
    qed
  qed (simp add: find_config_None reg_answer.unknown)
  then show ?thesis unfolding refreshed_refines .
qed

section \<open>A concrete service\<close>

definition sample_settings :: settings where
  "sample_settings =
     \<lparr>st_bucket = ''b'', st_prefix = ''icechunk'', st_storage_kwargs = FromEnv, st_branch = ''main'',
      cache_ttl_seconds = 60, discovery_ttl_seconds = 60\<rparr>"

definition sample_listing :: "string list \<Rightarrow> paginate" where
  "sample_listing ns bucket pfx delimited =
     Inr [\<lparr>pg_common_prefixes = map (\<lambda>n. pfx @ n @ ''/'') ns, pg_keys = []\<rparr>]"

text \<open>A store whose branch tips are its state.\<close>

definition sample_libs :: "(exn + string, unit, unit, int) libs" where
  "sample_libs =
     \<lparr>lib_exists = (\<lambda>_ _. Inr True), lib_build = (\<lambda>_ _ w. (Inr (), w)),
      lib_fetch_containers = (\<lambda>_ _. Inr (Some [''gs://nwm/''])), lib_open = (\<lambda>_ _ _. Inr ()),
      lib_lookup_branch = (\<lambda>_ _ w. w), lib_readonly_session = (\<lambda>_ _ _. Inr ()),
      lib_root_group = (\<lambda>_. Group []), lib_overview_group = (\<lambda>_. NoGroup),
      lib_open_dataset = (\<lambda>_ _. Inr sample_forecast), lib_sortby = (\<lambda>ds _. ds), lib_numpy = int_numpy\<rparr>"

definition sample_get :: "rat \<Rightarrow> string \<Rightarrow> (unit, int) provider \<times> (exn + string)
    \<Rightarrow> (exn + int datatree option) \<times> (unit, int) provider \<times> (exn + string)" where
  "sample_get t d s = get_datatree_for_dataset sample_libs (sample_listing [''foo'']) sample_settings (\<lambda>_. t) d s"

lemma provider_refines_registry_witness:
  "\<exists>dt p' w'. sample_get 0 ''foo_data'' (init_provider, Inr ''s1'') = (Inr (Some dt), p', w') \<and>
     reg_answer sample_libs sample_settings (\<lambda>_. 0) w' ''foo_data''
       \<lparr>listed = {''foo''}, listed_at = Some 0, served = (\<lambda>_. None)\<rparr> (Inr (Some dt)) (registry_of p')"
proof -
  have "case sample_get 0 ''foo_data'' (init_provider, Inr ''s1'') of (Inr (Some _), _) \<Rightarrow> True | _ \<Rightarrow> False"
    by code_simp
  then obtain dt p' w' where g: "sample_get 0 ''foo_data'' (init_provider, Inr ''s1'') = (Inr (Some dt), p', w')"
    by (auto split: prod.split_asm sum.split_asm option.split_asm)
  have "listed_names (sample_listing [''foo'']) sample_settings = Inr {''foo''}" by code_simp
  then have "reg_refresh sample_settings (\<lambda>_. 0) (listed_names (sample_listing [''foo'']) sample_settings)
      (registry_of (init_provider :: (unit, int) provider)) =
      \<lparr>listed = {''foo''}, listed_at = Some 0, served = (\<lambda>_. None)\<rparr>"
    by (simp add: reg_refresh_def listing_due_def registry_of_def init_provider_def restrict_map_def fun_eq_iff)
  with provider_refines_registry [OF reached_init g [unfolded sample_get_def]] g show ?thesis by auto
qed

section \<open>Freshness and outages\<close>

lemma refreshed_cache:
  assumes "dict_get (cache (refreshed paginate st now p)) d = Some en"
  shows "dict_get (cache p) d = Some en"
  using refreshed_cases [of paginate st now p "refreshed paginate st now p", OF refl] assms
  by (auto simp: install_configs_state(3) split: if_split_asm)


definition sample_x_state :: "(unit, int) provider" where
  "sample_x_state = fst (snd (sample_get 0 ''foo'' (init_provider, Inr ''s1'')))"

lemma sample_x_reached: "provider_reached sample_libs sample_settings sample_x_state"
  unfolding sample_x_state_def sample_get_def
  by (rule reached_get [OF reached_init]) (simp add: prod_eq_iff)


text \<open>A failed listing changes neither the listed repos nor what is cached, and is retried once per
  lifetime; once the lifetime is over, a good listing replaces the repos by exactly what it names.
\<close>

theorem discovery_follows_listing:
  "(discover_repo_configs paginate st = Inl e \<longrightarrow>
      (let p' = refreshed paginate st now p
       in repo_configs p' = repo_configs p \<and> repos p' = repos p \<and> cache p' = cache p \<and>
          (\<not> repo_configs_fresh st (now 0) p \<and> \<not> repo_configs_fresh st (now 1) p \<longrightarrow>
            (\<forall>paginate' now'. now' 0 - now 2 < discovery_ttl_seconds st \<longrightarrow> refreshed paginate' st now' p' = p')))) \<and>
   (discover_repo_configs paginate st = Inr cfgs \<longrightarrow>
      \<not> repo_configs_fresh st (now 0) p \<and> \<not> repo_configs_fresh st (now 1) p \<longrightarrow>
      fst (repo_names paginate st now p) = config_names cfgs \<and>
      fst (dataset_ids paginate st now p) = concat (map ids_of (config_names cfgs)) \<and>
      (\<forall>d. fst (cfg_for_dataset_id paginate st now d p) = find_config d cfgs))"
proof -
  have "repo_configs (refreshed paginate st now p) = cfgs"
    if "discover_repo_configs paginate st = Inr cfgs" "\<not> repo_configs_fresh st (now 0) p" "\<not> repo_configs_fresh st (now 1) p"
    using that by (simp add: refreshed_def refresh_repo_configs_def install_configs_def Let_def)
  moreover have "refreshed paginate' st now' (p\<lparr>discovered_at := Some t\<rparr>) = p\<lparr>discovered_at := Some t\<rparr>"
    if "now' 0 - t < discovery_ttl_seconds st" for paginate' now' t
    using that by (simp add: refreshed_def refresh_repo_configs_def repo_configs_fresh_def)
  ultimately show ?thesis
    by (auto simp: repo_names_def dataset_ids_def cfg_for_dataset_id_def Let_def)
      (simp_all add: refreshed_def refresh_repo_configs_def)
qed

lemma discovery_follows_listing_witness:
  "fst (repo_names (sample_listing [''foo'', ''bar'']) sample_settings (\<lambda>_. 90) sample_x_state) = [''foo'', ''bar'']"
proof -
  have "discover_repo_configs (sample_listing [''foo'', ''bar'']) sample_settings =
      Inr (map (\<lambda>n. \<lparr>name = n, rc_bucket = ''b'', rc_prefix = ''icechunk/'' @ n\<rparr>) [''foo'', ''bar''])"
    by code_simp
  moreover have "\<not> repo_configs_fresh sample_settings 90 sample_x_state" by code_simp
  ultimately show ?thesis
    using discovery_follows_listing [of "sample_listing [''foo'', ''bar'']" sample_settings "HTTPXError" "\<lambda>_. 90" sample_x_state]
    by (simp add: config_names_def)
qed

section \<open>Names\<close>

text \<open>Every discovered repo has a name, so no id is just the data suffix.\<close>

definition names_ok :: "('r, 'v) provider \<Rightarrow> bool" where
  "names_ok p \<longleftrightarrow> [] \<notin> set (config_names (repo_configs p))"

lemma discovered_names: "discover_repo_configs paginate st = Inr cfgs \<Longrightarrow> [] \<notin> set (config_names cfgs)"
  by (auto simp: discover_repo_configs_def list_storage_prefixes_def andthen_Inr_iff config_names_def)

lemma refreshed_names: "names_ok p \<Longrightarrow> names_ok (refreshed paginate st now p)"
  using discovered_names [of paginate st]
  by (cases "discover_repo_configs paginate st")
    (auto simp: names_ok_def refreshed_def refresh_repo_configs_def install_configs_def Let_def)

lemma get_datatree_config:
  assumes "get_datatree_for_dataset lib paginate st now d (p, w) = (Inr (Some dt), p', w')"
  shows "\<exists>cfg k. find_config d (repo_configs p') = Some (cfg, k) \<and> repo_configs p' = repo_configs (refreshed paginate st now p)"
proof -
  from get_datatree_Some [OF assms] obtain cfg k where
    f: "find_config d (repo_configs (refreshed paginate st now p)) = Some (cfg, k)" and
    "p' = refreshed paginate st now p \<or> (\<exists>repo p2. open_repo lib st cfg (refreshed paginate st now p, w) = (Inr repo, p2, w') \<and>
        revalidate lib st d k repo (now 5) p2 w' = (Inr dt, p'))" by blast
  then have "repo_configs p' = repo_configs (refreshed paginate st now p)"
    by (auto dest!: revalidate_Inr open_repo_frame)
  with f show ?thesis by auto
qed

end
