(* ===== verification/X_Main.thy ===== *)
theory X_Main
  imports X_Auth X_Credentials X_Provider
begin

text \<open>
  The xpublish application (\<open>xpublish-api/src/main.py\<close>): start-up, the authentication gate, the
  credential route, the discovery routes and the vector-tile routes.  What the xpublish, tiles
  and EDR plugins answer is the parameter \<open>call_next\<close> of the gate.  The vector-tile archive is
  registered before the mount of the inner application, and the gate runs around both.
\<close>

section \<open>Start-up\<close>

record x_app =
  ap_access_rules :: AccessRules
  ap_settings :: settings
  ap_cors_origins :: "string list"
  ap_pmtiles :: "string \<times> string"

definition warn_unmatched_repo_rules :: "AccessRules \<Rightarrow> string list \<Rightarrow> string list option" where
  "warn_unmatched_repo_rules rules names =
     (let missing = unmatched rules Repos names in if missing \<noteq> [] then Some missing else None)"

definition cors_list :: "env \<Rightarrow> string list" where
  "cors_list env = map strip (split_on (CHR '','') (env_text env ''CORS_ORIGINS'' ''*''))"

text \<open>\<open>raw or "{}"\<close>: no rules at all are the empty rules map.\<close>

definition rules_text :: "XConfig \<Rightarrow> string" where
  "rules_text cfg = (if TEEHR_ACCESS_RULES cfg = [] then ''{}'' else TEEHR_ACCESS_RULES cfg)"

text \<open>\<open>py_float\<close> is \<open>float\<close> of a text, \<open>loads\<close> is \<open>json.loads\<close>; an unset discovery lifetime is the other one.\<close>

definition build_app ::
  "env \<Rightarrow> XConfig \<Rightarrow> (string \<Rightarrow> exn + rat) \<Rightarrow> (string \<Rightarrow> json option) \<Rightarrow> exn + x_app"
where
  "build_app env cfg py_float loads =
     andthen (py_float (env_text env ''DATASET_CACHE_TTL'' ''60'')) (\<lambda>cache_ttl.
     andthen (case env ''REPO_DISCOVERY_TTL'' of None \<Rightarrow> Inr cache_ttl | Some v \<Rightarrow> py_float v) (\<lambda>discovery_ttl.
     andthen (parse_access_rules (loads (rules_text cfg))) (\<lambda>access_rules.
     if \<not> ICECHUNK_STS_UNAVAILABLE cfg \<and> ICECHUNK_ACCESS_ROLE_ARN cfg = []
     then Inl (RuntimeError ''ICECHUNK_ACCESS_ROLE_ARN is required when ICECHUNK_STS_UNAVAILABLE is false'')
     else
     andthen (resolve_icechunk_location env) (\<lambda>(bucket, pfx).
     andthen (resolve_pmtiles_location env) (\<lambda>pmtiles.
     andthen (build_storage_kwargs env) (\<lambda>kwargs.
     Inr \<lparr>ap_access_rules = access_rules,
          ap_settings = \<lparr>st_bucket = bucket, st_prefix = pfx, st_storage_kwargs = kwargs,
                         st_branch = env_text env ''ICECHUNK_BRANCH'' ''main'',
                         cache_ttl_seconds = cache_ttl, discovery_ttl_seconds = discovery_ttl\<rparr>,
          ap_cors_origins = cors_list env, ap_pmtiles = pmtiles\<rparr>))))))"

text \<open>The origins and the credentials flag given to the CORS middleware.\<close>

definition x_cors_settings :: "string list \<Rightarrow> string list \<times> bool" where
  "x_cors_settings origins = (if ''*'' \<in> set origins then ([''*''], False) else (origins, True))"

section \<open>The gate\<close>

datatype 'b gate_reply = JSONReply int detail | Answer 'b

definition auth_middleware ::
  "AccessRules \<Rightarrow> (XRequest \<Rightarrow> 's \<Rightarrow> (exn + AuthIdentity) \<times> 's) \<Rightarrow> (XRequest \<Rightarrow> 's \<Rightarrow> (exn + 'b gate_reply) \<times> 's)
     \<Rightarrow> XRequest \<Rightarrow> 's \<Rightarrow> (exn + 'b gate_reply) \<times> 's"
where
  "auth_middleware rules resolve call_next rq s =
     (if xr_method rq = ''OPTIONS'' then call_next rq s
      else if xr_path rq = ''/health'' then call_next rq s
      else case resolve rq s of
             (Inl (HTTPException status dt), s') \<Rightarrow> (Inr (JSONReply status dt), s')
           | (Inl e, s') \<Rightarrow> (Inl e, s')
           | (Inr u, s') \<Rightarrow>
               if \<not> x_is_authenticated u then (Inr (JSONReply 401 (DText ''Authentication required'')), s')
               else if \<not> is_request_permitted rules u (xr_path rq) then (Inr (JSONReply 403 (DText ''Forbidden'')), s')
               else call_next (rq\<lparr>xr_identity := Some u\<rparr>) s')"

text \<open>
  A tile URL pins dataset, date and style: its good answers may be reused briefly.  Header names
  are compared without case.
\<close>

definition tile_cache_headers :: "string \<Rightarrow> int \<Rightarrow> (string, string) dict \<Rightarrow> (string, string) dict" where
  "tile_cache_headers path status headers =
     (if status = 200 \<and> contains path ''/tiles/'' \<and> \<not> list_ex (\<lambda>h. lower (fst h) = ''cache-control'') headers
      then headers @ [(''cache-control'', ''private, max-age=300'')] else headers)"

definition health :: json where
  "health = JObj [(''status'', JStr ''ok'')]"

section \<open>Notebook credentials\<close>

text \<open>The detail of a policy that is too large is the exception's text and the trace id.\<close>

record sts_credentials =
  AccessKeyId :: string
  SecretAccessKey :: string
  SessionToken :: string
  Expiration :: int

record S3SessionCredentials =
  access_key_id :: string
  secret_access_key :: string
  session_token :: string

record IcechunkCredentialsResponse =
  ir_credentials :: "S3SessionCredentials option"
  ir_expires_at :: "int option"
  ir_expires_in :: "int option"
  ir_bucket :: string
  ir_prefix :: string
  ir_repos :: "string list"
  ir_trace_id :: string

definition no_credentials :: "settings \<Rightarrow> string list \<Rightarrow> string \<Rightarrow> IcechunkCredentialsResponse" where
  "no_credentials st names trace_id =
     \<lparr>ir_credentials = None, ir_expires_at = None, ir_expires_in = None,
      ir_bucket = st_bucket st, ir_prefix = st_prefix st, ir_repos = names, ir_trace_id = trace_id\<rparr>"

definition credentials_error :: "string \<Rightarrow> exn \<Rightarrow> exn" where
  "credentials_error trace_id e =
     (case e of
        PolicyTooLargeError n \<Rightarrow> HTTPException 500 (DCause (''trace_id '' @ trace_id) e)
      | BotoCoreError \<Rightarrow> HTTPException 502 (DText (''Could not create credentials (trace_id '' @ trace_id @ '')''))
      | ClientError c n \<Rightarrow> HTTPException 502 (DText (''Could not create credentials (trace_id '' @ trace_id @ '')''))
      | _ \<Rightarrow> e)"

definition readable_repos :: "AccessRules \<Rightarrow> 'a AuthIdentity_scheme \<Rightarrow> string list \<Rightarrow> string list" where
  "readable_repos rules u names = filter (is_permitted rules u Repos) names"

definition icechunk_credentials ::
  "x_app \<Rightarrow> XConfig \<Rightarrow> (string \<Rightarrow> string \<Rightarrow> string \<Rightarrow> int \<Rightarrow> exn + sts_credentials) \<Rightarrow> paginate \<Rightarrow> readings
     \<Rightarrow> int \<Rightarrow> string \<Rightarrow> AuthIdentity \<Rightarrow> ('r, 'v) provider
     \<Rightarrow> (exn + IcechunkCredentialsResponse) \<times> ('r, 'v) provider"
where
  "icechunk_credentials app cfg assume_role paginate now now_epoch trace_id u p =
     (case repo_names paginate (ap_settings app) now p of
        (names, p') \<Rightarrow>
          (let st = ap_settings app;
               readable = readable_repos (ap_access_rules app) u names
           in if ICECHUNK_STS_UNAVAILABLE cfg then (Inr (no_credentials st readable trace_id), p')
              else case policy_for (ap_access_rules app) u of
                     (deny_mode, policy_repos) \<Rightarrow>
                       if \<not> deny_mode \<and> policy_repos = [] then (Inr (no_credentials st readable trace_id), p')
                       else
                         (case vend_credentials assume_role (ICECHUNK_ACCESS_ROLE_ARN cfg) u
                                 (build_session_policy (st_bucket st) (st_prefix st) deny_mode policy_repos) of
                            Inl e \<Rightarrow> (Inl (credentials_error trace_id e), p')
                          | Inr sts \<Rightarrow>
                              (Inr \<lparr>ir_credentials = Some \<lparr>access_key_id = AccessKeyId sts,
                                      secret_access_key = SecretAccessKey sts, session_token = SessionToken sts\<rparr>,
                                    ir_expires_at = Some (Expiration sts),
                                    ir_expires_in = Some (max (Expiration sts - now_epoch) 0),
                                    ir_bucket = st_bucket st, ir_prefix = st_prefix st,
                                    ir_repos = readable, ir_trace_id = trace_id\<rparr>, p'))))"

section \<open>Discovery routes\<close>

definition list_dataset_keys ::
  "x_app \<Rightarrow> paginate \<Rightarrow> readings \<Rightarrow> AuthIdentity \<Rightarrow> ('r, 'v) provider \<Rightarrow> string list \<times> ('r, 'v) provider"
where
  "list_dataset_keys app paginate now u p =
     (case repo_names paginate (ap_settings app) now p of
        (names, p') \<Rightarrow> (readable_repos (ap_access_rules app) u names, p'))"

definition unknown_dataset :: "string \<Rightarrow> exn" where
  "unknown_dataset d = HTTPException 404 (DText (''Unknown dataset '' @ [CHR 0x27] @ d @ [CHR 0x27]))"

text \<open>\<open>dt.dataset\<close>: a node with levels and no data of its own is empty.\<close>

definition root_dataset :: "'v datatree \<Rightarrow> 'v dataset" where
  "root_dataset dt = (case dt_root dt of Some ds \<Rightarrow> ds | None \<Rightarrow> \<lparr>data_vars = [], coords = []\<rparr>)"

text \<open>The data group of a dataset, as the four routes below read it.\<close>

definition data_dataset ::
  "('w, 'r, 's, 'v) libs \<Rightarrow> x_app \<Rightarrow> paginate \<Rightarrow> readings \<Rightarrow> string \<Rightarrow> ('r, 'v) provider \<times> 'w
     \<Rightarrow> (exn + 'v dataset) \<times> ('r, 'v) provider \<times> 'w"
where
  "data_dataset lib app paginate now d s =
     (case get_datatree_for_dataset lib paginate (ap_settings app) now (d @ DATA_SUFFIX) s of
        (Inl e, s') \<Rightarrow> (Inl e, s')
      | (Inr None, s') \<Rightarrow> (Inl (unknown_dataset d), s')
      | (Inr (Some dt), s') \<Rightarrow> (Inr (root_dataset dt), s'))"

definition dataset_variables ::
  "('w, 'r, 's, 'v) libs \<Rightarrow> x_app \<Rightarrow> paginate \<Rightarrow> readings \<Rightarrow> string \<Rightarrow> ('r, 'v) provider \<times> 'w
     \<Rightarrow> (exn + string \<times> string list) \<times> ('r, 'v) provider \<times> 'w"
where
  "dataset_variables lib app paginate now d s =
     (case data_dataset lib app paginate now d s of
        (r, s') \<Rightarrow> (andthen r (\<lambda>ds. Inr (d, map fst (data_vars ds))), s'))"

definition serialize_cell :: "'v numpy \<Rightarrow> 'v \<Rightarrow> string" where
  "serialize_cell np v = (if is_datetime64 np v then datetime_as_string np v else str_of np v)"

definition dataset_coord_values ::
  "('w, 'r, 's, 'v) libs \<Rightarrow> x_app \<Rightarrow> paginate \<Rightarrow> readings \<Rightarrow> string \<Rightarrow> string \<Rightarrow> ('r, 'v) provider \<times> 'w
     \<Rightarrow> (exn + string list) \<times> ('r, 'v) provider \<times> 'w"
where
  "dataset_coord_values lib app paginate now d coord_name s =
     (case data_dataset lib app paginate now d s of
        (r, s') \<Rightarrow>
          (andthen r (\<lambda>ds.
             if dict_get (coords ds) coord_name = None
             then Inl (HTTPException 404 (DText (''Coordinate '' @ [CHR 0x27] @ coord_name @ [CHR 0x27] @ '' not found'')))
             else andthen (written_coord_values (lib_numpy lib) ds coord_name) (\<lambda>vs.
                    Inr (map (serialize_cell (lib_numpy lib)) vs))), s'))"

definition dataset_metadata ::
  "('w, 'r, 's, 'v) libs \<Rightarrow> x_app \<Rightarrow> paginate \<Rightarrow> readings \<Rightarrow> string \<Rightarrow> ('r, 'v) provider \<times> 'w
     \<Rightarrow> (exn + string \<times> grid) \<times> ('r, 'v) provider \<times> 'w"
where
  "dataset_metadata lib app paginate now d s =
     (case provider_metadata lib paginate (ap_settings app) now d s of
        (Inl e, s') \<Rightarrow> (Inl e, s')
      | (Inr None, s') \<Rightarrow> (Inl (unknown_dataset d), s')
      | (Inr (Some spec), s') \<Rightarrow> (Inr (d, spec), s'))"

text \<open>Attribute values are JSON here already: \<open>tolist\<close> and \<open>item\<close> unwrap NumPy's.\<close>

definition dataset_variable_attrs ::
  "('w, 'r, 's, 'v) libs \<Rightarrow> x_app \<Rightarrow> paginate \<Rightarrow> readings \<Rightarrow> string \<Rightarrow> ('r, 'v) provider \<times> 'w
     \<Rightarrow> (exn + string \<times> (string, (string, json) dict) dict) \<times> ('r, 'v) provider \<times> 'w"
where
  "dataset_variable_attrs lib app paginate now d s =
     (case data_dataset lib app paginate now d s of
        (r, s') \<Rightarrow> (andthen r (\<lambda>ds. Inr (d, map (\<lambda>(n, a). (n, attrs a)) (data_vars ds))), s'))"

section \<open>Vector tiles\<close>

text \<open>
  The state is the list of rules last found to name no layer; the third component is the
  warning, logged when that list changes and is not empty.
\<close>

definition list_vector_tiles ::
  "AccessRules \<Rightarrow> env \<Rightarrow> paginate \<Rightarrow> AuthIdentity \<Rightarrow> string list
     \<Rightarrow> (exn + string list) \<times> string list \<times> string list option"
where
  "list_vector_tiles rules env paginate u unmatched_layer_rules =
     (case list_pmtiles_layers env paginate of
        Inl e \<Rightarrow> (Inl (HTTPException 500 (DText ''Vector tile listing failed'')), unmatched_layer_rules, None)
      | Inr layer_ids \<Rightarrow>
          (let missing = unmatched rules Layers layer_ids;
               changed = missing \<noteq> unmatched_layer_rules
           in (Inr (filter (is_permitted rules u Layers) layer_ids),
               if changed then missing else unmatched_layer_rules,
               if changed \<and> missing \<noteq> [] then Some missing else None)))"

definition get_vector_tile_archive ::
  "env \<Rightarrow> get_object \<Rightarrow> string \<Rightarrow> XRequest \<Rightarrow> exn + archive_response"
where
  "get_vector_tile_archive env get_object layer rq =
     read_pmtiles_range env get_object layer (dict_get (xr_headers rq) ''range'')"

section \<open>The gate lets through\<close>

text \<open>C3 Outside \<open>OPTIONS\<close> and \<open>/health\<close> a handler runs only for a user whose bearer token the
  validator accepted and whom the rules permit the path; it is handed that identity.  Every
  other request is answered by the gate itself, whatever the handlers do.
\<close>

theorem gate_passes_only_permitted:
  fixes call_next :: "XRequest \<Rightarrow> Validator \<Rightarrow> (exn + 'b gate_reply) \<times> Validator"
  assumes "xr_method rq \<noteq> ''OPTIONS''" "xr_path rq \<noteq> ''/health''"
    and "resolve = x_resolve_identity (\<lambda>token v. x_validate cfg lib h1 h2 t1 t2 token v)"
  shows "(\<exists>u token v'. bearer_token (dict_get_default (xr_headers rq) ''authorization'' []) = Some token \<and>
       x_validate cfg lib h1 h2 t1 t2 token v = (Inr u, v') \<and> auth_type u = ''jwt'' \<and>
       is_request_permitted rules u (xr_path rq) \<and>
       (\<forall>call_next :: XRequest \<Rightarrow> Validator \<Rightarrow> (exn + 'b gate_reply) \<times> Validator.
          auth_middleware rules resolve call_next rq v = call_next (rq\<lparr>xr_identity := Some u\<rparr>) v')) \<or>
     (\<exists>r v'. (\<forall>call_next. auth_middleware rules resolve call_next rq v = (r, v')) \<and>
        ((\<exists>status dt. r = Inr (JSONReply status dt :: 'b gate_reply)) \<or> (\<exists>e. r = Inl e \<and> \<not> is_http_exception e)))"
proof -
  obtain x v' where x: "resolve rq v = (x, v')" by (cases "resolve rq v")
  show ?thesis
  proof (cases x)
    case (Inl e)
    have "\<exists>r. (\<forall>call_next. auth_middleware rules resolve call_next rq v = (r, v')) \<and>
        ((\<exists>status dt. r = Inr (JSONReply status dt :: 'b gate_reply)) \<or> (\<exists>e. r = Inl e \<and> \<not> is_http_exception e))"
      using assms(1,2) x Inl by (cases e) (auto simp: auth_middleware_def is_http_exception_def)
    then show ?thesis by blast
  next
    case (Inr u)
    from assms(3) x Inr have rs: "x_resolve_identity (\<lambda>token v. x_validate cfg lib h1 h2 t1 t2 token v) rq v = (Inr u, v')"
      by simp
    show ?thesis
    proof (cases "x_is_authenticated u \<and> is_request_permitted rules u (xr_path rq)")
      case False
      then have "\<exists>r. (\<forall>call_next. auth_middleware rules resolve call_next rq v = (r, v')) \<and>
          (\<exists>status dt. r = Inr (JSONReply status dt :: 'b gate_reply))"
        using assms(1,2) x Inr by (cases "x_is_authenticated u") (auto simp: auth_middleware_def)
      then show ?thesis by blast
    next
      case True
      then have "auth_type u = ''jwt''" by (simp add: x_is_authenticated_def)
      then have "u \<noteq> x_anonymous" by (auto simp: x_anonymous_def)
      with x_resolve_cases [OF rs] obtain token where
        "bearer_token (dict_get_default (xr_headers rq) ''authorization'' []) = Some token"
        "x_validate cfg lib h1 h2 t1 t2 token v = (Inr u, v')" by blast
      moreover have "auth_middleware rules resolve call_next rq v = call_next (rq\<lparr>xr_identity := Some u\<rparr>) v'"
        for call_next :: "XRequest \<Rightarrow> Validator \<Rightarrow> (exn + 'b gate_reply) \<times> Validator"
        using assms(1,2) x Inr True by (simp add: auth_middleware_def)
      ultimately show ?thesis using True \<open>auth_type u = ''jwt''\<close> by blast
    qed
  qed
qed

definition open_rules :: AccessRules where
  "open_rules = \<lparr>rules_default = None, rules_items = (\<lambda>k. [])\<rparr>"

definition sample_xconfig :: XConfig where
  "sample_xconfig = x_load_config (\<lambda>_. None)"

definition sample_xrequest :: "string \<Rightarrow> XRequest" where
  "sample_xrequest path =
     \<lparr>xr_method = ''GET'', xr_path = path, xr_headers = [(''authorization'', ''Bearer t'')], xr_identity = None\<rparr>"

definition sample_x_resolve :: "XRequest \<Rightarrow> Validator \<Rightarrow> (exn + AuthIdentity) \<times> Validator" where
  "sample_x_resolve =
     x_resolve_identity (\<lambda>token v. x_validate (sample_xconfig\<lparr>KEYCLOAK_ALLOWED_AUDIENCES := ''teehr-api''\<rparr>) sample_lib
       (\<lambda>_. Inl HTTPXError) (\<lambda>_. Inl HTTPXError) (at_time 1) (at_time 1) token v)"

lemma sample_x_resolve_alice:
  "sample_x_resolve (sample_xrequest path) (init_validator\<lparr>jwks_cache := Some sample_jwks\<rparr>) =
   (Inr \<lparr>subject = ''alice'', auth_type = ''jwt'', roles = [''basic-user''], scopes = [], preferred_username = None\<rparr>,
    init_validator\<lparr>jwks_cache := Some sample_jwks\<rparr>)"
proof -
  have "bearer_token ''Bearer t'' = Some ''t''" by code_simp
  then show ?thesis
    by (simp add: sample_x_resolve_def x_resolve_identity_def sample_xrequest_def dict_get_default_def
        x_validate_def validate_with_def validate_body_def sample_lib_def sample_key_def
        sample_claims_def sample_jwks_def signing_key_def get_jwks_def jwks_fresh_def at_time_def init_validator_def
        JWKS_CACHE_TTL_def find_key_def x_identity_of_claims_def audience_ok_def allowed_audiences_def
        strip_def rstrip_with_def lstrip_with_def is_space_def roles_of_claims_def scopes_of_def)
qed

lemma gate_passes_only_permitted_witness:
  "\<exists>u v'. auth_middleware open_rules sample_x_resolve (\<lambda>rq s. (Inr (Answer (xr_identity rq)), s))
     (sample_xrequest ''/api/datasets/foo/metadata'') (init_validator\<lparr>jwks_cache := Some sample_jwks\<rparr>) =
     (Inr (Answer (Some u)), v') \<and> auth_type u = ''jwt'' \<and> is_request_permitted open_rules u ''/api/datasets/foo/metadata''"
proof -
  let ?v = "init_validator\<lparr>jwks_cache := Some sample_jwks\<rparr>"
  let ?rq = "sample_xrequest ''/api/datasets/foo/metadata''"
  let ?echo = "\<lambda>rq s. (Inr (Answer (xr_identity rq)), s)"
  have "is_request_permitted open_rules \<lparr>subject = ''alice'', auth_type = ''jwt'', roles = [''basic-user''], scopes = [],
      preferred_username = None\<rparr> ''/api/datasets/foo/metadata''" by code_simp
  then have run: "\<exists>u v'. auth_middleware open_rules sample_x_resolve ?echo ?rq ?v = (Inr (Answer (Some u)), v')"
    by (simp add: auth_middleware_def sample_x_resolve_alice x_is_authenticated_def, simp add: sample_xrequest_def)
  have "xr_method ?rq \<noteq> ''OPTIONS''" "xr_path ?rq \<noteq> ''/health''" by (simp_all add: sample_xrequest_def)
  from gate_passes_only_permitted [OF this sample_x_resolve_def, where rules = open_rules and v = ?v] show ?thesis
  proof (elim disjE exE conjE)
    fix u token v'
    assume "auth_type u = ''jwt''" "is_request_permitted open_rules u (xr_path ?rq)"
      and all: "\<forall>call_next :: XRequest \<Rightarrow> Validator \<Rightarrow> (exn + AuthIdentity option gate_reply) \<times> Validator.
        auth_middleware open_rules sample_x_resolve call_next ?rq ?v = call_next (?rq\<lparr>xr_identity := Some u\<rparr>) v'"
    moreover from all have "auth_middleware open_rules sample_x_resolve ?echo ?rq ?v = (Inr (Answer (Some u)), v')" by simp
    ultimately show ?thesis by (auto simp: sample_xrequest_def)
  next
    fix r v' status dt
    assume "\<forall>call_next. auth_middleware open_rules sample_x_resolve call_next ?rq ?v = (r, v')"
      and r: "r = Inr (JSONReply status dt :: AuthIdentity option gate_reply)"
    then have "auth_middleware open_rules sample_x_resolve ?echo ?rq ?v = (r, v')" by blast
    with run r show ?thesis by simp
  next
    fix r v' e
    assume "\<forall>call_next. auth_middleware open_rules sample_x_resolve call_next ?rq ?v = (r, v')"
      and r: "r = (Inl e :: exn + AuthIdentity option gate_reply)"
    then have "auth_middleware open_rules sample_x_resolve ?echo ?rq ?v = (r, v')" by blast
    with run r show ?thesis by simp
  qed
qed

section \<open>Reads are of permitted repos\<close>

lemma repo_candidates_of_config:
  assumes "find_config d cfgs = Some (cfg, k)" "[] \<notin> set (config_names cfgs)"
  shows "name cfg \<in> set (repo_candidates d)"
proof -
  from find_config_name [OF assms(1)] assms(2) have "name cfg \<noteq> []" "d = name cfg \<or> d = name cfg @ DATA_SUFFIX"
    by (auto simp: config_names_def image_iff)
  then show ?thesis by (auto simp: repo_candidates_self repo_candidates_data)
qed

lemma permitted_dataset_path:
  assumes "is_request_permitted rules u (''/api/datasets/'' @ d @ ''/'' @ rest)" "CHR ''/'' \<notin> set d"
  shows "list_all (is_permitted rules u Repos) (repo_candidates d)"
  using assms by (auto simp: is_request_permitted_def request_target_def Let_def drop_prefix_def split: if_split_asm)

lemma permitted_variables_path:
  assumes "is_request_permitted rules u (''/api/dataset-variables/'' @ d)"
  shows "list_all (is_permitted rules u Repos) (repo_candidates d)"
  using assms by (auto simp: is_request_permitted_def request_target_def Let_def drop_prefix_def split: if_split_asm)

text \<open>The repo a served tree is of, among the names the gate has permitted.\<close>

lemma provider_ok_names: "provider_ok lib st p \<Longrightarrow> n \<in> set (config_names (repo_configs p)) \<Longrightarrow> n \<noteq> []"
  by (auto simp: provider_ok_def list_all_iff config_ok_def config_names_def)

lemma tree_of_candidate: "tree_of lib st d n snapshot dt \<Longrightarrow> n \<noteq> [] \<Longrightarrow> n \<in> set (repo_candidates d)"
  using tree_of_id [of lib st d n snapshot dt] by (auto simp: repo_candidates_self repo_candidates_data [unfolded DATA_SUFFIX_def])

text \<open>C6 The tile and EDR routes, \<open>/api/datasets/{id}/...\<close>, read the tree of the id in their path: if
  the gate lets the request through and a tree is served, the tree was read at one snapshot
  from a repo opened under a name \<open>n\<close>, the id's own or without \<open>_data\<close>, and the rules permit
  \<open>n\<close> to the user; a node of the tree is a node of that one.  This is so in every state the
  provider reaches, so also for a tree cached before or served on in an outage.
\<close>

theorem dataset_reads_authorised:
  assumes "is_request_permitted rules u (''/api/datasets/'' @ d @ ''/'' @ rest)" "CHR ''/'' \<notin> set d"
    and "provider_reached lib st p"
    and "get_datatree lib getitem paginate st now d node (p, w) = (Inr (Some dt), p', w')"
  shows "\<exists>n snapshot dt0. is_permitted rules u Repos n \<and> tree_of lib st d n snapshot dt0 \<and>
    (if node = [] then dt = dt0 else getitem dt0 node = Some dt)"
proof -
  from assms(4) obtain dt0 where g: "get_datatree_for_dataset lib paginate st now d (p, w) = (Inr (Some dt0), p', w')"
    and dt: "if node = [] then dt = dt0 else getitem dt0 node = Some dt"
    by (auto simp: get_datatree_def split: prod.split_asm sum.split_asm option.split_asm if_split_asm)
  note ok = reached_ok [OF assms(3)]
  from served_tree_of [OF g ok] obtain snapshot n where n: "n \<in> set (config_names (repo_configs p'))"
    "tree_of lib st d n snapshot dt0" by blast
  have "n \<in> set (repo_candidates d)"
    by (rule tree_of_candidate [OF n(2) provider_ok_names [OF conjunct1 [OF get_datatree_ok [OF g ok]] n(1)]])
  with permitted_dataset_path [OF assms(1,2)] have "is_permitted rules u Repos n" by (simp add: list_all_iff)
  with n dt show ?thesis by blast
qed

lemma dataset_reads_authorised_witness:
  "\<exists>dt p' w' n snapshot. get_datatree sample_libs (\<lambda>_ _. None) (sample_listing [''foo'']) sample_settings (\<lambda>_. 0) ''foo_data'' []
       (init_provider, Inr ''s1'') = (Inr (Some dt), p', w') \<and>
     tree_of sample_libs sample_settings ''foo_data'' n snapshot dt \<and> is_permitted open_rules (sample_user []) Repos n"
proof -
  have "case get_datatree sample_libs (\<lambda>_ _. None) (sample_listing [''foo'']) sample_settings (\<lambda>_. 0) ''foo_data'' []
       (init_provider, Inr ''s1'') of (Inr (Some _), _) \<Rightarrow> True | _ \<Rightarrow> False" by code_simp
  then obtain dt p' w' where g: "get_datatree sample_libs (\<lambda>_ _. None) (sample_listing [''foo'']) sample_settings (\<lambda>_. 0)
      ''foo_data'' [] (init_provider, Inr ''s1'') = (Inr (Some dt), p', w')"
    by (auto split: prod.split_asm sum.split_asm option.split_asm)
  have "is_request_permitted open_rules (sample_user []) (''/api/datasets/'' @ ''foo_data'' @ ''/'' @ ''edr/position'')"
    by code_simp
  from dataset_reads_authorised [OF this _ reached_init g] g show ?thesis by auto
qed

text \<open>The variable, coordinate, metadata and attribute routes name a repo \<open>d\<close> and read the id
  \<open>d_data\<close>.  The repo that is read is the permitted \<open>d\<close>, unless a repo is itself called \<open>d_data\<close>.
\<close>

theorem data_routes_authorised:
  assumes "is_request_permitted rules u (''/api/dataset-variables/'' @ d) \<or>
      CHR ''/'' \<notin> set d \<and> is_request_permitted rules u (''/api/datasets/'' @ d @ ''/'' @ rest)"
    and "data_dataset lib app paginate now d (p, w) = (Inr ds, p', w')"
    and "d @ ''_data'' \<notin> set (config_names (repo_configs p'))"
  shows "\<exists>cfg. find_config (d @ ''_data'') (repo_configs p') = Some (cfg, Data) \<and> name cfg = d \<and> is_permitted rules u Repos d"
proof -
  from assms(2) obtain dt where
    "get_datatree_for_dataset lib paginate (ap_settings app) now (d @ DATA_SUFFIX) (p, w) = (Inr (Some dt), p', w')"
    by (auto simp: data_dataset_def split: prod.split_asm sum.split_asm option.split_asm)
  from get_datatree_config [OF this] obtain cfg k where f: "find_config (d @ DATA_SUFFIX) (repo_configs p') = Some (cfg, k)"
    by blast
  from find_config_name [OF f] assms(3) have "name cfg = d" "k = Data"
    by (auto simp: config_names_def DATA_SUFFIX_def)
  moreover have "list_all (is_permitted rules u Repos) (repo_candidates d)"
    using assms(1) permitted_variables_path permitted_dataset_path by blast
  ultimately show ?thesis
    using f repo_candidates_self [of d] by (auto simp: list_all_iff DATA_SUFFIX_def)
qed

definition sample_x_app :: "AccessRules \<Rightarrow> x_app" where
  "sample_x_app rules =
     \<lparr>ap_access_rules = rules, ap_settings = sample_settings, ap_cors_origins = [''*''], ap_pmtiles = (''b'', ''t'')\<rparr>"

lemma data_routes_authorised_witness:
  "\<exists>ds p' w'. data_dataset sample_libs (sample_x_app open_rules) (sample_listing [''foo'']) (\<lambda>_. 0) ''foo'' (init_provider, Inr ''s1'')
      = (Inr ds, p', w') \<and> is_permitted open_rules (sample_user []) Repos ''foo''"
proof -
  have "case data_dataset sample_libs (sample_x_app open_rules) (sample_listing [''foo'']) (\<lambda>_. 0) ''foo'' (init_provider, Inr ''s1'')
      of (Inr _, p', _) \<Rightarrow> ''foo_data'' \<notin> set (config_names (repo_configs p')) | _ \<Rightarrow> False" by code_simp
  then obtain ds p' w' where g: "data_dataset sample_libs (sample_x_app open_rules) (sample_listing [''foo'']) (\<lambda>_. 0) ''foo''
      (init_provider, Inr ''s1'') = (Inr ds, p', w')" and n: "''foo'' @ ''_data'' \<notin> set (config_names (repo_configs p'))"
    by (auto split: prod.split_asm sum.split_asm)
  have "is_request_permitted open_rules (sample_user []) (''/api/dataset-variables/'' @ ''foo'')" by code_simp
  from data_routes_authorised [OF disjI1, OF this g n] g show ?thesis by auto
qed

text \<open>
  A repo closed to everyone: an entry without roles, before any other.
\<close>

definition close_repo :: "string \<Rightarrow> AccessRules \<Rightarrow> AccessRules" where
  "close_repo n rules =
     rules\<lparr>rules_items := (\<lambda>k. if k = Repos then (n, []) # rules_items rules Repos else rules_items rules k)\<rparr>"

lemma close_repo_permitted:
  "is_permitted (close_repo n rules) u Repos m \<longleftrightarrow> m \<noteq> n \<and> is_permitted rules u Repos m"
  by (auto simp: is_permitted_def close_repo_def has_default_def holds_any_def split: option.split)

lemma permitted_variables_iff:
  "is_request_permitted rules u (''/api/dataset-variables/'' @ d) \<longleftrightarrow>
   d \<noteq> [] \<and> CHR ''/'' \<notin> set d \<and> list_all (is_permitted rules u Repos) (repo_candidates d)"
  by (auto simp: is_request_permitted_def request_target_def Let_def drop_prefix_def)

text \<open>C26 A repo whose own name ends in \<open>_data\<close> can be read past the rules: whatever the rules, where
  \<open>d_data\<close> is a listed repo and \<open>d\<close> is none, closing \<open>d_data\<close> to everyone changes nothing about
  who passes the gate of the variables route of \<open>d\<close>, and the variables that route answers, in
  any state the provider reaches, are those of a tree of the closed repo \<open>d_data\<close>.
\<close>

theorem suffix_named_repo_readable:
  assumes "provider_reached lib (ap_settings app) p"
    and "dataset_variables lib app paginate now d (p, w) = (Inr answer, p', w')"
    and "d @ ''_data'' \<in> set (config_names (repo_configs p'))" "d \<notin> set (config_names (repo_configs p'))"
  shows "\<not> is_permitted (close_repo (d @ ''_data'') rules) u Repos (d @ ''_data'') \<and>
    is_request_permitted (close_repo (d @ ''_data'') rules) u (''/api/dataset-variables/'' @ d) =
      is_request_permitted rules u (''/api/dataset-variables/'' @ d) \<and>
    (\<exists>snapshot dt. tree_of lib (ap_settings app) (d @ ''_data'') (d @ ''_data'') snapshot dt \<and>
       answer = (d, map fst (data_vars (root_dataset dt))))"
proof -
  from assms(2) obtain dt where
    g: "get_datatree_for_dataset lib paginate (ap_settings app) now (d @ ''_data'') (p, w) = (Inr (Some dt), p', w')"
    and answer: "answer = (d, map fst (data_vars (root_dataset dt)))"
    by (auto simp: dataset_variables_def data_dataset_def DATA_SUFFIX_def
        split: prod.split_asm sum.split_asm option.split_asm)
  from served_tree_of [OF g reached_ok [OF assms(1)]] obtain snapshot n where
    n: "n \<in> set (config_names (repo_configs p'))" "tree_of lib (ap_settings app) (d @ ''_data'') n snapshot dt"
    by blast
  from tree_of_id [OF n(2)] n(1) assms(4) have "n = d @ ''_data''" by auto
  moreover have "list_all (is_permitted (close_repo (d @ ''_data'') rules) u Repos) (repo_candidates d) \<longleftrightarrow>
      list_all (is_permitted rules u Repos) (repo_candidates d)"
    by (rule list_all_cong) (auto simp: close_repo_permitted repo_candidates_def drop_suffix_def
        dest!: arg_cong [where f = length] split: if_split_asm)
  moreover from this have
    "is_request_permitted (close_repo (d @ ''_data'') rules) u (''/api/dataset-variables/'' @ d) =
     is_request_permitted rules u (''/api/dataset-variables/'' @ d)"
    unfolding permitted_variables_iff by simp
  moreover have "\<not> is_permitted (close_repo (d @ ''_data'') rules) u Repos (d @ ''_data'')"
    by (simp only: close_repo_permitted) simp
  ultimately show ?thesis using n(2) answer by blast
qed

lemma suffix_named_repo_readable_witness:
  "\<exists>p' w'. dataset_variables sample_libs (sample_x_app open_rules) (sample_listing [''foo_data'']) (\<lambda>_. 0) ''foo''
       (init_provider, Inr ''s1'') = (Inr (''foo'', [''streamflow'']), p', w') \<and>
     \<not> is_permitted (close_repo ''foo_data'' open_rules) (sample_user []) Repos ''foo_data'' \<and>
     is_request_permitted (close_repo ''foo_data'' open_rules) (sample_user []) ''/api/dataset-variables/foo'' \<and>
     (\<exists>snapshot dt. tree_of sample_libs sample_settings ''foo_data'' ''foo_data'' snapshot dt)"
proof -
  let ?run = "dataset_variables sample_libs (sample_x_app open_rules) (sample_listing [''foo_data'']) (\<lambda>_. 0) ''foo''
      (init_provider, Inr ''s1'')"
  have "case ?run of (Inr a, p', _) \<Rightarrow> a = (''foo'', [''streamflow'']) \<and>
      ''foo_data'' \<in> set (config_names (repo_configs p')) \<and> ''foo'' \<notin> set (config_names (repo_configs p'))
    | _ \<Rightarrow> False" by code_simp
  then obtain p' w' where g: "?run = (Inr (''foo'', [''streamflow'']), p', w')"
    and n: "''foo'' @ ''_data'' \<in> set (config_names (repo_configs p'))" "''foo'' \<notin> set (config_names (repo_configs p'))"
    by (auto split: prod.split_asm sum.split_asm)
  have "is_request_permitted open_rules (sample_user []) ''/api/dataset-variables/foo''" by code_simp
  moreover have "ap_settings (sample_x_app open_rules) = sample_settings" by (simp add: sample_x_app_def)
  ultimately show ?thesis
    using suffix_named_repo_readable [OF reached_init g n, of open_rules "sample_user []"] g by auto
qed

section \<open>Archives\<close>

lemma permitted_archive_path:
  "is_request_permitted rules u (''/api/vector-tiles/'' @ layer @ ''.pmtiles'') \<longleftrightarrow>
   CHR ''/'' \<notin> set layer \<and> layer \<noteq> [] \<and> is_permitted rules u Layers layer"
proof -
  have "suffix ''.pmtiles'' (layer @ ''.pmtiles'')" by (rule suffixI) simp
  moreover have "drop_suffix ''.pmtiles'' (layer @ ''.pmtiles'') = layer" by simp
  ultimately show ?thesis
    by (auto simp: is_request_permitted_def request_target_def Let_def drop_prefix_def)
qed

text \<open>An archive that is served is one object directly under the configured prefix, named after a
  layer the rules permit; no layer name reaches another key.
\<close>

theorem archive_reads_authorised:
  assumes "is_request_permitted rules u (''/api/vector-tiles/'' @ layer @ ''.pmtiles'')"
    and "get_vector_tile_archive env get_object layer rq = Inr resp"
  shows "is_permitted rules u Layers layer \<and>
    (\<exists>bucket pfx obj. resolve_pmtiles_location env = Inr (bucket, pfx) \<and>
       get_object bucket (normalize_storage_prefix pfx @ layer @ ''.pmtiles'')
         (nonempty (dict_get (xr_headers rq) ''range'')) = Inr obj \<and>
       resp = archive_response_of obj) \<and> CHR ''/'' \<notin> set layer \<and> \<not> contains layer ''..''"
proof -
  from assms(2) obtain bucket pfx key where r: "resolve_pmtiles_location env = Inr (bucket, pfx)"
    and k: "layer_key pfx layer = Inr key"
    by (auto simp: get_vector_tile_archive_def read_pmtiles_range_def andthen_Inr_iff)
  with assms(2) obtain obj where o: "get_object bucket key (nonempty (dict_get (xr_headers rq) ''range'')) = Inr obj"
    "resp = archive_response_of obj"
    by (auto simp: get_vector_tile_archive_def read_pmtiles_range_def split: sum.split_asm)
  from assms(1) have "is_permitted rules u Layers layer" unfolding permitted_archive_path by blast
  with layer_key_Inr [OF k] r o show ?thesis by blast
qed

definition sample_x_env :: env where
  "sample_x_env k = (if k = ''PMTILES_BUCKET'' then Some ''b'' else if k = ''PMTILES_PREFIX'' then Some ''/t/'' else None)"

lemma archive_reads_authorised_witness:
  "\<exists>resp. get_vector_tile_archive sample_x_env
       (\<lambda>b key r. if key = ''t/basins.pmtiles'' then Inr \<lparr>so_body = ''PMTiles'', so_content_range = Some ''bytes 0-6/9'', so_etag = None\<rparr>
                  else Inl (ClientError ''NoSuchKey'' None)) ''basins'' (sample_xrequest ''/api/vector-tiles/basins.pmtiles'') = Inr resp \<and>
     ar_status resp = 206 \<and> is_permitted open_rules (sample_user []) Layers ''basins''"
proof -
  let ?get = "\<lambda>b key r. if key = ''t/basins.pmtiles'' then Inr \<lparr>so_body = ''PMTiles'', so_content_range = Some ''bytes 0-6/9'', so_etag = None\<rparr>
                  else Inl (ClientError ''NoSuchKey'' None)"
  have "case get_vector_tile_archive sample_x_env ?get ''basins'' (sample_xrequest ''/api/vector-tiles/basins.pmtiles'') of
      Inr resp \<Rightarrow> ar_status resp = 206 | Inl _ \<Rightarrow> False" by code_simp
  then obtain resp where g: "get_vector_tile_archive sample_x_env ?get ''basins'' (sample_xrequest ''/api/vector-tiles/basins.pmtiles'') = Inr resp"
    "ar_status resp = 206" by (auto split: sum.split_asm)
  have "is_request_permitted open_rules (sample_user []) (''/api/vector-tiles/'' @ ''basins'' @ ''.pmtiles'')" by code_simp
  from archive_reads_authorised [OF this g(1)] g show ?thesis by blast
qed

text \<open>
  The listing and the gate agree: a layer that was found is listed for a user exactly when the
  gate lets the user fetch its archive.
\<close>

theorem listed_layers_fetchable:
  assumes "list_pmtiles_layers env paginate = Inr found" "layer \<in> set found" "layer \<noteq> []"
  shows "\<exists>ids. fst (list_vector_tiles rules env paginate u unmatched_layer_rules) = Inr ids \<and> set ids \<subseteq> set found \<and>
    (layer \<in> set ids \<longleftrightarrow> is_request_permitted rules u (''/api/vector-tiles/'' @ layer @ ''.pmtiles''))"
  using assms listed_layer_no_slash [OF assms(1,2)] unfolding permitted_archive_path
  by (auto simp: list_vector_tiles_def Let_def)

lemma listed_layers_fetchable_witness:
  "\<exists>ids. fst (list_vector_tiles open_rules sample_x_env
       (\<lambda>_ _ _. Inr [\<lparr>pg_common_prefixes = [], pg_keys = [''t/basins.pmtiles'', ''t/readme.txt'']\<rparr>]) (sample_user []) []) = Inr ids \<and>
     set ids \<subseteq> {''basins''} \<and>
     (''basins'' \<in> set ids \<longleftrightarrow> is_request_permitted open_rules (sample_user []) (''/api/vector-tiles/'' @ ''basins'' @ ''.pmtiles''))"
proof -
  have "list_pmtiles_layers sample_x_env
       (\<lambda>_ _ _. Inr [\<lparr>pg_common_prefixes = [], pg_keys = [''t/basins.pmtiles'', ''t/readme.txt'']\<rparr>]) = Inr [''basins'']"
    by code_simp
  from listed_layers_fetchable [OF this, of "''basins''" open_rules "sample_user []" "[]"] show ?thesis by simp
qed

section \<open>Credentials\<close>

lemma no_policy_no_read:
  assumes "rules_ok rules" "x_is_authenticated u" "policy_for rules u = (False, [])"
  shows "\<not> is_permitted rules u Repos n"
  using assms repo_access.narrow_without_grants [of "(rules, u)" n]
  by (simp add: policy_for_def split: if_split_asm)

text \<open>C25 The credential route names exactly the repos of the listing the rules permit, which is what
  the dataset list shows.  Credentials come only from STS, for the service's role, under the
  policy of the user's rules and for 900 seconds; without STS there are none, and with STS
  none are missing but for a user who may read nothing.
\<close>

theorem credentials_follow_rules:
  assumes "icechunk_credentials app cfg assume_role paginate now now_epoch trace_id u p = (Inr resp, p')"
    and "rules_ok (ap_access_rules app)" "x_is_authenticated u"
  shows "ir_repos resp = filter (is_permitted (ap_access_rules app) u Repos) (config_names (repo_configs p')) \<and>
    list_dataset_keys app paginate now u p = (ir_repos resp, p') \<and>
    (ICECHUNK_STS_UNAVAILABLE cfg \<longrightarrow> ir_credentials resp = None) \<and>
    (\<not> ICECHUNK_STS_UNAVAILABLE cfg \<longrightarrow>
      (case ir_credentials resp of
         None \<Rightarrow> \<forall>n. \<not> is_permitted (ap_access_rules app) u Repos n
       | Some c \<Rightarrow>
           (case policy_for (ap_access_rules app) u of (mode, policy_repos) \<Rightarrow>
              \<exists>sts. assume_role (ICECHUNK_ACCESS_ROLE_ARN cfg) (session_name u)
                   (json_dumps (build_session_policy (st_bucket (ap_settings app)) (st_prefix (ap_settings app)) mode policy_repos)) 900 = Inr sts \<and>
                c = \<lparr>access_key_id = AccessKeyId sts, secret_access_key = SecretAccessKey sts, session_token = SessionToken sts\<rparr> \<and>
                ir_expires_at resp = Some (Expiration sts))))"
proof -
  let ?rules = "ap_access_rules app" and ?st = "ap_settings app"
  obtain names q where n: "repo_names paginate ?st now p = (names, q)" by (cases "repo_names paginate ?st now p")
  then have names: "names = config_names (repo_configs q)" by (auto simp: repo_names_def Let_def)
  obtain mode prs where pol: "policy_for ?rules u = (mode, prs)" by (cases "policy_for ?rules u")
  from assms(1) n have q: "q = p'"
    by (auto simp: icechunk_credentials_def Let_def pol split: if_split_asm sum.split_asm)
  have keys: "list_dataset_keys app paginate now u p = (filter (is_permitted ?rules u Repos) names, p')"
    using n q by (simp add: list_dataset_keys_def readable_repos_def)
  show ?thesis
  proof (cases "ICECHUNK_STS_UNAVAILABLE cfg \<or> \<not> mode \<and> prs = []")
    case True
    with assms(1) n q have "resp = no_credentials ?st (readable_repos ?rules u names) trace_id"
      by (auto simp: icechunk_credentials_def Let_def pol split: if_split_asm)
    moreover have "\<forall>n. \<not> is_permitted ?rules u Repos n" if "\<not> ICECHUNK_STS_UNAVAILABLE cfg"
      using no_policy_no_read [OF assms(2,3)] that True pol by simp
    ultimately show ?thesis
      using keys names q by (auto simp: no_credentials_def readable_repos_def)
  next
    case False
    let ?pol = "build_session_policy (st_bucket ?st) (st_prefix ?st) mode prs"
    from False assms(1) n q obtain sts where v: "vend_credentials assume_role (ICECHUNK_ACCESS_ROLE_ARN cfg) u ?pol = Inr sts"
      and resp: "ir_credentials resp = Some \<lparr>access_key_id = AccessKeyId sts, secret_access_key = SecretAccessKey sts,
          session_token = SessionToken sts\<rparr>" "ir_expires_at resp = Some (Expiration sts)"
        "ir_repos resp = readable_repos ?rules u names"
      by (auto simp: icechunk_credentials_def Let_def pol split: sum.split_asm)
    from v have "assume_role (ICECHUNK_ACCESS_ROLE_ARN cfg) (session_name u) (json_dumps ?pol) 900 = Inr sts"
      by (simp add: vend_credentials_def Let_def CREDENTIALS_TTL_SECONDS_def split: if_split_asm)
    with False resp keys names q pol show ?thesis by (auto simp: readable_repos_def)
  qed
qed

definition sample_sts :: "string \<Rightarrow> string \<Rightarrow> string \<Rightarrow> int \<Rightarrow> exn + sts_credentials" where
  "sample_sts role session policy ttl =
     Inr \<lparr>AccessKeyId = ''A'', SecretAccessKey = ''S'', SessionToken = ''T'', Expiration = 1000 + ttl\<rparr>"

lemma credentials_follow_rules_witness:
  "\<exists>resp p'. icechunk_credentials (sample_x_app sample_access) (sample_xconfig\<lparr>ICECHUNK_STS_UNAVAILABLE := False\<rparr>) sample_sts
       (sample_listing [''open'', ''secret'']) (\<lambda>_. 0) 1000 ''t'' (sample_user [''reader'']) (init_provider :: (unit, int) provider) = (Inr resp, p') \<and>
     ir_repos resp = filter (is_permitted sample_access (sample_user [''reader'']) Repos) (config_names (repo_configs p'))"
proof -
  let ?run = "icechunk_credentials (sample_x_app sample_access) (sample_xconfig\<lparr>ICECHUNK_STS_UNAVAILABLE := False\<rparr>) sample_sts
       (sample_listing [''open'', ''secret'']) (\<lambda>_. 0) 1000 ''t'' (sample_user [''reader'']) (init_provider :: (unit, int) provider)"
  have "case ?run of (Inr _, _) \<Rightarrow> True | _ \<Rightarrow> False" by code_simp
  then obtain resp p' where g: "?run = (Inr resp, p')" by (auto split: prod.split_asm sum.split_asm)
  have "rules_ok (ap_access_rules (sample_x_app sample_access))" "x_is_authenticated (sample_user [''reader''])" by code_simp+
  from credentials_follow_rules [OF g this] g show ?thesis by (auto simp: sample_x_app_def)
qed

section \<open>Start-up and headers\<close>

text \<open>
  The application starts only with rules that parse, buckets and a repo prefix that are set,
  and, where credentials are handed out, a role to assume.
\<close>

theorem startup_validates_settings:
  assumes "build_app env cfg py_float loads = Inr app"
  shows "parse_access_rules (loads (rules_text cfg)) = Inr (ap_access_rules app) \<and>
    (ICECHUNK_STS_UNAVAILABLE cfg \<or> ICECHUNK_ACCESS_ROLE_ARN cfg \<noteq> []) \<and>
    st_bucket (ap_settings app) \<noteq> [] \<and> st_prefix (ap_settings app) \<noteq> [] \<and>
    last (st_prefix (ap_settings app)) \<noteq> CHR ''/'' \<and> fst (ap_pmtiles app) \<noteq> [] \<and>
    (''*'' \<in> set (ap_cors_origins app) \<longrightarrow> snd (x_cors_settings (ap_cors_origins app)) = False)"
proof -
  from assms obtain r b px pm kw where r: "parse_access_rules (loads (rules_text cfg)) = Inr r"
    and sts: "ICECHUNK_STS_UNAVAILABLE cfg \<or> ICECHUNK_ACCESS_ROLE_ARN cfg \<noteq> []"
    and loc: "resolve_icechunk_location env = Inr (b, px)" and pm: "resolve_pmtiles_location env = Inr pm"
    and app: "ap_access_rules app = r" "st_bucket (ap_settings app) = b" "st_prefix (ap_settings app) = px" "ap_pmtiles app = pm"
    by (auto simp: build_app_def andthen_Inr_iff split: if_split_asm)
  from loc have "b \<noteq> []" "px \<noteq> []" "px = rstrip_char (CHR ''/'') (strip (env_text env ''ICECHUNK_PREFIX'' []))"
    by (auto simp: resolve_icechunk_location_def Let_def split: if_split_asm)
  moreover from this(3) this(2) have "last px \<noteq> CHR ''/''" using rstrip_with_last by blast
  moreover from pm have "fst pm \<noteq> []"
    by (auto simp: resolve_pmtiles_location_def Let_def split: if_split_asm)
  ultimately show ?thesis using r sts app by (simp add: x_cors_settings_def)
qed

definition start_env :: env where
  "start_env k =
     (if k \<in> {''PMTILES_BUCKET'', ''ICECHUNK_BUCKET''} then Some ''b''
      else if k = ''ICECHUNK_PREFIX'' then Some ''icechunk/'' else None)"

lemma startup_validates_settings_witness:
  "\<exists>app. build_app start_env (x_load_config start_env) (\<lambda>_. Inr 60) (\<lambda>_. Some (JObj [])) = Inr app \<and>
     last (st_prefix (ap_settings app)) \<noteq> CHR ''/''"
proof -
  have "case build_app start_env (x_load_config start_env) (\<lambda>_. Inr 60) (\<lambda>_. Some (JObj [])) of Inr _ \<Rightarrow> True | Inl _ \<Rightarrow> False"
    by code_simp
  then obtain app where g: "build_app start_env (x_load_config start_env) (\<lambda>_. Inr 60) (\<lambda>_. Some (JObj [])) = Inr app"
    by (auto split: sum.split_asm)
  from startup_validates_settings [OF g] g show ?thesis by blast
qed

end
