(* ===== verification/Interleaving.thy ===== *)
theory Interleaving
  imports Prelude
begin

text \<open>
  Threads and tasks that share a state.  A program is \<open>run t s\<close>: the state after the next step
  of thread \<open>t\<close>, or \<open>None\<close> where it waits or has nothing to do.  \<open>env\<close> is what else may happen.
  Two interfaces: a lock that one thread holds at a time, and a program whose calls all end.
\<close>

type_synonym 's program = "nat \<Rightarrow> 's \<Rightarrow> 's option"

inductive interleaved :: "'s program \<Rightarrow> ('s \<Rightarrow> 's \<Rightarrow> bool) \<Rightarrow> 's \<Rightarrow> 's \<Rightarrow> bool" for run env where
  move: "run t s = Some s' \<Longrightarrow> interleaved run env s s'"
| environment: "env s s' \<Longrightarrow> interleaved run env s s'"

inductive reached :: "'s program \<Rightarrow> ('s \<Rightarrow> 's \<Rightarrow> bool) \<Rightarrow> ('s \<Rightarrow> bool) \<Rightarrow> 's \<Rightarrow> bool" for run env init where
  start: "init s \<Longrightarrow> reached run env init s"
| step: "reached run env init s \<Longrightarrow> interleaved run env s s' \<Longrightarrow> reached run env init s'"

lemma reached_move: "reached run env init s \<Longrightarrow> run t s = Some s' \<Longrightarrow> reached run env init s'"
  by (blast intro: reached.step interleaved.move)

lemma reached_env: "reached run env init s \<Longrightarrow> env s s' \<Longrightarrow> reached run env init s'"
  by (blast intro: reached.step interleaved.environment)

text \<open>A state property that the start has and every step keeps.\<close>

lemma reached_invariant [consumes 1, case_names start move environment]:
  assumes "reached run env init s"
    and "\<And>s. init s \<Longrightarrow> P s"
    and "\<And>s t s'. reached run env init s \<Longrightarrow> P s \<Longrightarrow> run t s = Some s' \<Longrightarrow> P s'"
    and "\<And>s s'. reached run env init s \<Longrightarrow> P s \<Longrightarrow> env s s' \<Longrightarrow> P s'"
  shows "P s"
  using assms(1)
proof (induction rule: reached.induct)
  case (start s)
  then show ?case by (rule assms(2))
next
  case (step s s')
  from step.hyps(2) show ?case
    by cases (use step assms(3,4) in blast)+
qed

text \<open>A schedule: the threads that move, in order.\<close>

fun run_schedule :: "'s program \<Rightarrow> nat list \<Rightarrow> 's \<Rightarrow> 's option" where
  "run_schedule run [] s = Some s"
| "run_schedule run (t # ts) s = (case run t s of None \<Rightarrow> None | Some s' \<Rightarrow> run_schedule run ts s')"

lemma reached_schedule:
  "run_schedule run ts s = Some s' \<Longrightarrow> reached run env init s \<Longrightarrow> reached run env init s'"
  by (induction ts arbitrary: s) (auto split: option.split_asm intro: reached_move)

text \<open>A thread that nothing interrupts.\<close>

definition alone :: "'s program \<Rightarrow> nat \<Rightarrow> 's \<Rightarrow> 's \<Rightarrow> bool" where
  "alone run t s s' \<longleftrightarrow> (\<exists>n. run_schedule run (replicate n t) s = Some s')"

lemma alone_refl: "alone run t s s"
  unfolding alone_def by (rule exI [of _ 0]) simp

lemma alone_step: "run t s = Some s1 \<Longrightarrow> alone run t s1 s' \<Longrightarrow> alone run t s s'"
proof -
  assume "run t s = Some s1" "alone run t s1 s'"
  then obtain n where "run_schedule run (replicate (Suc n) t) s = Some s'" by (auto simp: alone_def)
  then show "alone run t s s'" unfolding alone_def by blast
qed

lemma alone_trans: "alone run t s s1 \<Longrightarrow> alone run t s1 s' \<Longrightarrow> alone run t s s'"
proof -
  assume "alone run t s s1" and r: "alone run t s1 s'"
  then obtain n where "run_schedule run (replicate n t) s = Some s1" by (auto simp: alone_def)
  then show "alone run t s s'"
    by (induction n arbitrary: s) (auto split: option.split_asm intro: r alone_step)
qed

lemma aloneI:
  "\<exists>s'. run_schedule run (replicate n t) s = Some s' \<and> P s' \<Longrightarrow> \<exists>s'. alone run t s s' \<and> P s'"
  unfolding alone_def by blast

text \<open>A schedule that has been computed reaches its end.\<close>

lemma schedule_the:
  assumes "reached run env init s"
    and "case run_schedule run ts s of None \<Rightarrow> False | Some s' \<Rightarrow> P s'"
  shows "reached run env init (the (run_schedule run ts s)) \<and> P (the (run_schedule run ts s))"
  using assms reached_schedule [OF _ assms(1)] by (cases "run_schedule run ts s") auto

lemma schedule_ex:
  assumes "reached run env init s" "\<exists>s'. run_schedule run ts s = Some s' \<and> P s'"
  shows "\<exists>s'. reached run env init s' \<and> P s'"
proof -
  from assms(2) obtain s' where s': "run_schedule run ts s = Some s'" "P s'" by blast
  from reached_schedule [OF s'(1) assms(1)] s'(2) show ?thesis by blast
qed

section \<open>Locks\<close>

text \<open>
  A lock's protocol: a step that touches it is by the thread that takes the free lock, or by
  the holder that gives it up; what a thread holds is read off its program point.
\<close>

locale mutex =
  fixes run :: "'s program"
    and env :: "'s \<Rightarrow> 's \<Rightarrow> bool"
    and init :: "'s \<Rightarrow> bool"
    and holder :: "'s \<Rightarrow> nat option"
    and holds :: "'s \<Rightarrow> nat \<Rightarrow> bool"
  assumes free: "init s \<Longrightarrow> holder s = None \<and> \<not> holds s t"
    and outside: "env s s' \<Longrightarrow> holder s' = holder s \<and> holds s' t = holds s t"
    and own_steps: "run t s = Some s' \<Longrightarrow> u \<noteq> t \<Longrightarrow> holds s' u = holds s u"
    and protocol: "run t s = Some s' \<Longrightarrow>
      holder s' = holder s \<and> holds s' t = holds s t \<or>
      holder s = None \<and> holder s' = Some t \<and> holds s' t \<or>
      holds s t \<and> holder s' = None \<and> \<not> holds s' t"
begin

lemma holder_holds:
  assumes "reached run env init s"
  shows "holds s u \<longleftrightarrow> holder s = Some u"
proof -
  from assms have "\<forall>u. holds s u \<longleftrightarrow> holder s = Some u"
  proof (induction rule: reached_invariant)
    case (start s)
    then show ?case using free by simp
  next
    case (move s t s')
    note ih = move.IH [THEN spec, of t] and own = own_steps [OF move.hyps(2)]
    from protocol [OF move.hyps(2)] have "holds s' u \<longleftrightarrow> holder s' = Some u" for u
    proof (elim disjE conjE)
      assume "holder s' = holder s" "holds s' t = holds s t"
      then show ?thesis using move.IH own by (cases "u = t") simp_all
    next
      assume "holder s = None" "holder s' = Some t" "holds s' t"
      then show ?thesis using move.IH own by (cases "u = t") simp_all
    next
      assume "holds s t" "holder s' = None" "\<not> holds s' t"
      then show ?thesis using move.IH own ih by (cases "u = t") simp_all
    qed
    then show ?case ..
  next
    case (environment s s')
    then show ?case using outside by simp
  qed
  then show ?thesis ..
qed

lemma exclusive: "reached run env init s \<Longrightarrow> holds s t \<Longrightarrow> holds s u \<Longrightarrow> t = u"
  by (simp add: holder_holds)

lemma held: "reached run env init s \<Longrightarrow> holder s \<noteq> None \<Longrightarrow> \<exists>u. holds s u"
  by (auto simp: holder_holds)

end

section \<open>Calls that end\<close>

text \<open>
  \<open>rank\<close> bounds the steps a thread has still to take for its call; \<open>live\<close> rules a deadlock out.
\<close>

definition moves :: "'s program \<Rightarrow> 's \<Rightarrow> 's \<Rightarrow> bool" where
  "moves run s s' \<longleftrightarrow> (\<exists>t. run t s = Some s')"

definition total_rank :: "('s \<Rightarrow> nat \<Rightarrow> nat) \<Rightarrow> 's \<Rightarrow> nat" where
  "total_rank rank s = (\<Sum>t | rank s t \<noteq> 0. rank s t)"

lemma total_rank_bound:
  assumes "\<And>t. rank s t \<le> k"
  shows "total_rank rank s \<le> k * card {t. rank s t \<noteq> 0}"
proof -
  have "(\<Sum>t | rank s t \<noteq> 0. rank s t) \<le> of_nat (card {t. rank s t \<noteq> 0}) * k"
    by (rule sum_bounded_above) (rule assms)
  then show ?thesis by (simp add: total_rank_def mult.commute)
qed

locale draining =
  fixes run :: "'s program"
    and good :: "'s \<Rightarrow> bool"
    and rank :: "'s \<Rightarrow> nat \<Rightarrow> nat"
  assumes keeps: "good s \<Longrightarrow> run t s = Some s' \<Longrightarrow> good s'"
    and finite_calls: "good s \<Longrightarrow> finite {t. rank s t \<noteq> 0}"
    and falls: "good s \<Longrightarrow> run t s = Some s' \<Longrightarrow> rank s' t < rank s t"
    and alone: "run t s = Some s' \<Longrightarrow> u \<noteq> t \<Longrightarrow> rank s' u = rank s u"
    and live: "good s \<Longrightarrow> rank s t \<noteq> 0 \<Longrightarrow> \<exists>u s'. run u s = Some s'"
begin

lemma total_falls:
  assumes "good s" "run t s = Some s'"
  shows "total_rank rank s' < total_rank rank s"
proof -
  let ?A = "{u. rank s u \<noteq> 0}"
  have fin: "finite ?A" using finite_calls assms(1) .
  have t: "t \<in> ?A" using falls [OF assms] by simp
  have sub: "{u. rank s' u \<noteq> 0} \<subseteq> ?A" using alone [OF assms(2)] t by (metis (mono_tags, lifting) Collect_mono mem_Collect_eq)
  have "total_rank rank s' = sum (rank s') ?A"
    unfolding total_rank_def by (rule sum.mono_neutral_left [OF fin sub]) simp
  also have "\<dots> = rank s' t + sum (rank s') (?A - {t})" using fin t by (rule sum.remove)
  also have "sum (rank s') (?A - {t}) = sum (rank s) (?A - {t})"
    by (rule sum.cong) (use alone [OF assms(2)] in auto)
  also have "rank s' t + sum (rank s) (?A - {t}) < rank s t + sum (rank s) (?A - {t})"
    using falls [OF assms] by simp
  also have "\<dots> = total_rank rank s" unfolding total_rank_def using fin t by (rule sum.remove [symmetric])
  finally show ?thesis .
qed

lemma bounded: "(moves run ^^ n) s s' \<Longrightarrow> good s \<Longrightarrow> n + total_rank rank s' \<le> total_rank rank s \<and> good s'"
proof (induction n arbitrary: s')
  case 0
  then show ?case by simp
next
  case (Suc n)
  then obtain m where "(moves run ^^ n) s m" "moves run m s'" by auto
  then obtain t where m: "(moves run ^^ n) s m" "run t m = Some s'" unfolding moves_def by blast
  with Suc have "n + total_rank rank m \<le> total_rank rank s" "good m" by blast+
  with total_falls [OF _ m(2)] keeps [OF _ m(2)] show ?case by simp
qed

lemma stuck_done: "good s \<Longrightarrow> \<nexists>s'. moves run s s' \<Longrightarrow> rank s t = 0"
  using live by (fastforce simp: moves_def)

lemma drains: "good s \<Longrightarrow> \<exists>s'. (moves run)\<^sup>*\<^sup>* s s' \<and> (\<forall>t. rank s' t = 0)"
proof (induction "total_rank rank s" arbitrary: s rule: less_induct)
  case less
  show ?case
  proof (cases "\<exists>s'. moves run s s'")
    case True
    then obtain s1 t where m: "run t s = Some s1" by (auto simp: moves_def)
    from less.hyps [OF total_falls [OF less.prems m] keeps [OF less.prems m]]
    obtain s2 where "(moves run)\<^sup>*\<^sup>* s1 s2" "\<forall>t. rank s2 t = 0" by blast
    moreover have "moves run s s1" using m by (auto simp: moves_def)
    ultimately show ?thesis by (blast intro: converse_rtranclp_into_rtranclp)
  next
    case False
    with less.prems stuck_done show ?thesis by blast
  qed
qed

lemma all_end:
  assumes "good s" and bound: "\<And>u. rank s u \<le> k"
  shows "(\<exists>s'. (moves run)\<^sup>*\<^sup>* s s' \<and> (\<forall>t. rank s' t = 0)) \<and>
    (\<forall>n s'. (moves run ^^ n) s s' \<longrightarrow>
       n \<le> k * card {t. rank s t \<noteq> 0} \<and> ((\<nexists>s''. moves run s' s'') \<longrightarrow> (\<forall>t. rank s' t = 0)))"
proof (intro conjI allI impI)
  show "\<exists>s'. (moves run)\<^sup>*\<^sup>* s s' \<and> (\<forall>t. rank s' t = 0)" using drains [OF assms(1)] .
next
  fix n s' t
  assume m: "(moves run ^^ n) s s'"
  show "n \<le> k * card {t. rank s t \<noteq> 0}"
    using bounded [OF m assms(1)] total_rank_bound [of rank s k, OF bound] by (meson add_leD1 order.trans)
  assume "\<nexists>s''. moves run s' s''"
  then show "rank s' t = 0" using bounded [OF m assms(1)] stuck_done [of s' t] by simp
qed

end

end
