(* ===== verification/X_Provider_Threads.thy ===== *)
theory X_Provider_Threads
  imports X_Provider Interleaving
begin

text \<open>
  The provider under the threads of the web server (\<open>xpublish-api/src/provider.py\<close>): what
  \<open>X_Provider\<close> does in one step is here a program that other threads interleave with, with the
  discovery lock, the repo lock and one lock for each dataset.

  A step is one access to shared state.  Cached entries and dataset locks are objects, named by
  their numbers, since a thread may hold on to one that another thread has dropped.  A section
  under a lock whose accesses no unlocked reader can tell apart is one step that waits for the
  lock: \<open>_cache_lock\<close> is only ever held within such a step, as is \<open>_lock\<close> in \<open>_evict\<close>, where
  each popped key is read by its own dataset only.
\<close>

section \<open>Shared state and program points\<close>

datatype request = RepoNames | DatasetIds | Tree string

datatype 'v reply = Names "string list" | Answer "exn + 'v datatree option"

record job =
  jb_id :: string
  jb_cfg :: RepoConfig
  jb_kind :: dataset_kind

text \<open>
  One program point for each access, after the line it stands before.  The first group is
  \<open>_refresh_repo_configs\<close> with \<open>_evict\<close>; the others are \<open>get_datatree_for_dataset\<close> and \<open>_open_repo\<close>
  within it.  The numbers are the lock object and the cached entry the thread refers to.
\<close>

datatype ('r, 'v) pc =
    Idle
  | Fresh1 request
  | WaitDiscovery request
  | Fresh2 request
  | ListPrefixes request
  | StampFailed request
  | StampListed request "RepoConfig list"
  | InstallConfigs request bool "RepoConfig list"
  | EvictRepos request "string list" "string list option"
  | EvictCache request "string list" "string list option"
  | NotifyRepos request "string list option"
  | ReadLocked request
  | ReadConfigs request
  | Returned request "RepoConfig list"
  | FastRead job
  | FastTest job nat
  | GetLock job
  | WaitDataset job nat
  | SlowRead job nat
  | SlowTest job nat nat
  | OpenTest job nat "nat option"
  | WaitRepos job nat "nat option"
  | OpenRetest job nat "nat option"
  | EnsureRepo job nat "nat option"
  | OpenRepo job nat "nat option"
  | OpenedRead job nat "nat option"
  | LookupTip job nat "nat option" 'r
  | Restamp job nat nat
  | LoadTree job nat 'r string
  | StoreEntry job nat nat
  | Finished request "'v reply"

datatype event =
    ListedAt rat "RepoConfig list option"
  | EvictedNames "string list"
  | Notified "string list"
  | LoadedAt string rat string

record ('w, 'r, 'v) shared =
  sh_configs :: "RepoConfig list"
  sh_discovered :: "rat option"
  sh_repos :: "(string, 'r) dict"
  sh_cache :: "(string, nat) dict"
  sh_entries :: "'v cache_entry list"
  sh_locks :: "(string, nat) dict"
  sh_lock_count :: nat
  discovery_lock :: "nat option"
  repo_lock :: "nat option"
  dataset_lock :: "nat \<Rightarrow> nat option"
  sh_pc :: "nat \<Rightarrow> ('r, 'v) pc"
  sh_world :: 'w
  sh_clock :: rat
  sh_log :: "event list"

record ('w, 'r, 's, 'v) service =
  sv_libs :: "('w, 'r, 's, 'v) libs"
  sv_listing :: "'w \<Rightarrow> paginate"
  sv_settings :: settings

definition start_shared :: "'w \<Rightarrow> rat \<Rightarrow> ('w, 'r, 'v) shared" where
  "start_shared w t =
     \<lparr>sh_configs = [], sh_discovered = None, sh_repos = [], sh_cache = [], sh_entries = [],
      sh_locks = [], sh_lock_count = 0, discovery_lock = None, repo_lock = None,
      dataset_lock = (\<lambda>_. None), sh_pc = (\<lambda>_. Idle), sh_world = w, sh_clock = t, sh_log = []\<rparr>"

definition goto :: "nat \<Rightarrow> ('r, 'v) pc \<Rightarrow> ('w, 'r, 'v) shared \<Rightarrow> ('w, 'r, 'v) shared" where
  "goto t c s = s\<lparr>sh_pc := (sh_pc s)(t := c)\<rparr>"

text \<open>Leaving \<open>with self._dataset_lock(dataset_id)\<close> with an answer.\<close>

definition release_dataset ::
  "nat \<Rightarrow> nat \<Rightarrow> string \<Rightarrow> exn + 'v datatree option \<Rightarrow> ('w, 'r, 'v) shared \<Rightarrow> ('w, 'r, 'v) shared"
where
  "release_dataset t l d r s = goto t (Finished (Tree d) (Answer r)) (s\<lparr>dataset_lock := (dataset_lock s)(l := None)\<rparr>)"

definition shared_fresh :: "settings \<Rightarrow> ('w, 'r, 'v) shared \<Rightarrow> bool" where
  "shared_fresh st s =
     (case sh_discovered s of None \<Rightarrow> False | Some t0 \<Rightarrow> sh_clock s - t0 < discovery_ttl_seconds st)"

definition serves_entry :: "settings \<Rightarrow> nat \<Rightarrow> ('w, 'r, 'v) shared \<Rightarrow> bool" where
  "serves_entry st e s = is_checked st (sh_clock s) (sh_entries s ! e)"

definition entry_tree :: "nat \<Rightarrow> ('w, 'r, 'v) shared \<Rightarrow> exn + 'v datatree option" where
  "entry_tree e s = Inr (Some (ce_datatree (sh_entries s ! e)))"

definition job_storage :: "settings \<Rightarrow> job \<Rightarrow> storage" where
  "job_storage st j =
     \<lparr>sg_bucket = rc_bucket (jb_cfg j), sg_prefix = rc_prefix (jb_cfg j), sg_kwargs = st_storage_kwargs st\<rparr>"

definition answer_configs :: "request \<Rightarrow> RepoConfig list \<Rightarrow> ('r, 'v) pc" where
  "answer_configs q cfgs =
     (case q of
        RepoNames \<Rightarrow> Finished q (Names (config_names cfgs))
      | DatasetIds \<Rightarrow> Finished q (Names (concat (map ids_of (config_names cfgs))))
      | Tree d \<Rightarrow>
          (case find_config d cfgs of
             None \<Rightarrow> Finished q (Answer (Inr None))
           | Some (cfg, k) \<Rightarrow> FastRead \<lparr>jb_id = d, jb_cfg = cfg, jb_kind = k\<rparr>))"

section \<open>The program of a thread\<close>

text \<open>\<open>None\<close>: the thread waits for a lock, or has no call to run.\<close>

fun refresh_step ::
  "('w, 'r, 's, 'v) service \<Rightarrow> nat \<Rightarrow> ('r, 'v) pc \<Rightarrow> ('w, 'r, 'v) shared \<Rightarrow> ('w, 'r, 'v) shared option"
where
  "refresh_step sv t (Fresh1 q) s =
     Some (goto t (if shared_fresh (sv_settings sv) s then ReadConfigs q else WaitDiscovery q) s)"
| "refresh_step sv t (WaitDiscovery q) s =
     (if discovery_lock s = None then Some (goto t (Fresh2 q) (s\<lparr>discovery_lock := Some t\<rparr>)) else None)"
| "refresh_step sv t (Fresh2 q) s =
     Some (goto t (if shared_fresh (sv_settings sv) s then ReadLocked q else ListPrefixes q) s)"
| "refresh_step sv t (ListPrefixes q) s =
     Some (case discover_repo_configs (sv_listing sv (sh_world s)) (sv_settings sv) of
             Inl e \<Rightarrow> goto t (StampFailed q) (s\<lparr>sh_log := ListedAt (sh_clock s) None # sh_log s\<rparr>)
           | Inr cfgs \<Rightarrow> goto t (StampListed q cfgs) (s\<lparr>sh_log := ListedAt (sh_clock s) (Some cfgs) # sh_log s\<rparr>))"
| "refresh_step sv t (StampFailed q) s = Some (goto t (ReadLocked q) (s\<lparr>sh_discovered := Some (sh_clock s)\<rparr>))"
| "refresh_step sv t (StampListed q cfgs) s =
     Some (goto t (InstallConfigs q (sh_discovered s = None) cfgs) (s\<lparr>sh_discovered := Some (sh_clock s)\<rparr>))"
| "refresh_step sv t (InstallConfigs q first cfgs) s =
     (let previous = config_names (sh_configs s);
          current = config_names cfgs;
          added = sorted_set (filter (\<lambda>n. n \<notin> set previous) current);
          removed = sorted_set (filter (\<lambda>n. n \<notin> set current) previous);
          told = (if first \<or> added \<noteq> [] \<or> removed \<noteq> [] then Some (sorted_set current) else None)
      in Some (goto t (if removed \<noteq> [] then EvictRepos q removed told else NotifyRepos q told)
           (s\<lparr>sh_configs := cfgs\<rparr>)))"
| "refresh_step sv t (EvictRepos q names told) s =
     (if repo_lock s = None
      then Some (goto t (EvictCache q names told)
             (s\<lparr>sh_repos := fold (\<lambda>n d. dict_pop d n) names (sh_repos s)\<rparr>))
      else None)"
| "refresh_step sv t (EvictCache q names told) s =
     (let ids = concat (map ids_of names)
      in Some (goto t (NotifyRepos q told)
           (s\<lparr>sh_cache := fold (\<lambda>n d. dict_pop d n) ids (sh_cache s),
              sh_locks := fold (\<lambda>n d. dict_pop d n) ids (sh_locks s),
              sh_log := EvictedNames names # sh_log s\<rparr>)))"
| "refresh_step sv t (NotifyRepos q told) s =
     Some (goto t (ReadConfigs q)
       (s\<lparr>sh_log := (case told of None \<Rightarrow> sh_log s | Some ns \<Rightarrow> Notified ns # sh_log s),
          discovery_lock := None\<rparr>))"
| "refresh_step sv t (ReadLocked q) s = Some (goto t (Returned q (sh_configs s)) (s\<lparr>discovery_lock := None\<rparr>))"
| "refresh_step sv t (ReadConfigs q) s = Some (goto t (Returned q (sh_configs s)) s)"
| "refresh_step sv t (Returned q cfgs) s = Some (goto t (answer_configs q cfgs) s)"
| "refresh_step sv t c s = None"

fun dataset_step ::
  "('w, 'r, 's, 'v) service \<Rightarrow> nat \<Rightarrow> ('r, 'v) pc \<Rightarrow> ('w, 'r, 'v) shared \<Rightarrow> ('w, 'r, 'v) shared option"
where
  "dataset_step sv t (FastRead j) s =
     Some (goto t (case dict_get (sh_cache s) (jb_id j) of None \<Rightarrow> GetLock j | Some e \<Rightarrow> FastTest j e) s)"
| "dataset_step sv t (FastTest j e) s =
     Some (goto t (if serves_entry (sv_settings sv) e s then Finished (Tree (jb_id j)) (Answer (entry_tree e s)) else GetLock j) s)"
| "dataset_step sv t (GetLock j) s =
     (let n = sh_lock_count s;
          s' = s\<lparr>sh_lock_count := Suc n\<rparr>
      in case dict_get (sh_locks s) (jb_id j) of
           Some l \<Rightarrow> Some (goto t (WaitDataset j l) s')
         | None \<Rightarrow> Some (goto t (WaitDataset j n) (s'\<lparr>sh_locks := dict_set (sh_locks s) (jb_id j) n\<rparr>)))"
| "dataset_step sv t (WaitDataset j l) s =
     (if dataset_lock s l = None
      then Some (goto t (SlowRead j l) (s\<lparr>dataset_lock := (dataset_lock s)(l := Some t)\<rparr>))
      else None)"
| "dataset_step sv t (SlowRead j l) s =
     Some (goto t (case dict_get (sh_cache s) (jb_id j) of None \<Rightarrow> OpenTest j l None | Some e \<Rightarrow> SlowTest j l e) s)"
| "dataset_step sv t (SlowTest j l e) s =
     Some (if serves_entry (sv_settings sv) e s then release_dataset t l (jb_id j) (entry_tree e s) s
           else goto t (OpenTest j l (Some e)) s)"
| "dataset_step sv t (OpenTest j l eo) s =
     Some (goto t (if dict_get (sh_repos s) (name (jb_cfg j)) = None then WaitRepos j l eo else OpenedRead j l eo) s)"
| "dataset_step sv t (WaitRepos j l eo) s =
     (if repo_lock s = None then Some (goto t (OpenRetest j l eo) (s\<lparr>repo_lock := Some t\<rparr>)) else None)"
| "dataset_step sv t (OpenRetest j l eo) s =
     Some (if dict_get (sh_repos s) (name (jb_cfg j)) = None then goto t (EnsureRepo j l eo) s
           else goto t (OpenedRead j l eo) (s\<lparr>repo_lock := None\<rparr>))"
| "dataset_step sv t (EnsureRepo j l eo) s =
     Some (case ensure_repo_initialized (sv_libs sv) (job_storage (sv_settings sv) j)
                  (st_branch (sv_settings sv)) (sh_world s) of
             (Inl e, w) \<Rightarrow> release_dataset t l (jb_id j) (Inl e) (s\<lparr>repo_lock := None, sh_world := w\<rparr>)
           | (Inr _, w) \<Rightarrow> goto t (OpenRepo j l eo) (s\<lparr>sh_world := w\<rparr>))"
| "dataset_step sv t (OpenRepo j l eo) s =
     Some (case open_with_virtual_access (sv_libs sv) (job_storage (sv_settings sv) j) (sh_world s) of
             Inl e \<Rightarrow> release_dataset t l (jb_id j) (Inl e) (s\<lparr>repo_lock := None\<rparr>)
           | Inr r \<Rightarrow> goto t (OpenedRead j l eo)
               (s\<lparr>sh_repos := dict_set (sh_repos s) (name (jb_cfg j)) r, repo_lock := None\<rparr>))"
| "dataset_step sv t (OpenedRead j l eo) s =
     Some (case dict_get (sh_repos s) (name (jb_cfg j)) of
             None \<Rightarrow> release_dataset t l (jb_id j) (Inl (KeyError (name (jb_cfg j)))) s
           | Some r \<Rightarrow> goto t (LookupTip j l eo r) s)"
| "dataset_step sv t (LookupTip j l eo r) s =
     Some (case lib_lookup_branch (sv_libs sv) r (st_branch (sv_settings sv)) (sh_world s) of
             Inl e \<Rightarrow> (case eo of None \<Rightarrow> release_dataset t l (jb_id j) (Inl e) s | Some en \<Rightarrow> goto t (Restamp j l en) s)
           | Inr tip \<Rightarrow>
               (case eo of
                  None \<Rightarrow> goto t (LoadTree j l r tip) s
                | Some en \<Rightarrow>
                    if snapshot_id (sh_entries s ! en) = tip then goto t (Restamp j l en) s
                    else goto t (LoadTree j l r tip) s))"
| "dataset_step sv t (Restamp j l e) s =
     Some (release_dataset t l (jb_id j) (entry_tree e s)
       (s\<lparr>sh_entries := (sh_entries s)[e := (sh_entries s ! e)\<lparr>checked_at := sh_clock s\<rparr>]\<rparr>))"
| "dataset_step sv t (LoadTree j l r tip) s =
     Some (case load_datatree (sv_libs sv) (jb_id j) r (jb_kind j) tip (sh_world s) of
             Inl e \<Rightarrow> release_dataset t l (jb_id j) (Inl e) s
           | Inr dt \<Rightarrow> goto t (StoreEntry j l (List.length (sh_entries s)))
               (s\<lparr>sh_entries := sh_entries s @ [\<lparr>ce_datatree = dt, snapshot_id = tip, checked_at = sh_clock s\<rparr>],
                  sh_log := LoadedAt (jb_id j) (sh_clock s) tip # sh_log s\<rparr>))"
| "dataset_step sv t (StoreEntry j l e) s =
     Some (release_dataset t l (jb_id j) (entry_tree e s) (s\<lparr>sh_cache := dict_set (sh_cache s) (jb_id j) e\<rparr>))"
| "dataset_step sv t c s = None"

text \<open>A thread runs its own program; the two groups share no program point.\<close>

definition thread_step ::
  "('w, 'r, 's, 'v) service \<Rightarrow> nat \<Rightarrow> ('w, 'r, 'v) shared \<Rightarrow> ('w, 'r, 'v) shared option"
where
  "thread_step sv t s =
     (case refresh_step sv t (sh_pc s t) s of Some s' \<Rightarrow> Some s' | None \<Rightarrow> dataset_step sv t (sh_pc s t) s)"

text \<open>
  The rest of the world: a thread takes a call when it has none, the clock of
  \<open>time.monotonic()\<close> moves on, and the object store changes.
\<close>

inductive outside_step :: "('w, 'r, 'v) shared \<Rightarrow> ('w, 'r, 'v) shared \<Rightarrow> bool" where
  called: "sh_pc s t = Idle \<or> (\<exists>q r. sh_pc s t = Finished q r) \<Longrightarrow> outside_step s (goto t (Fresh1 q) s)"
| ticked: "sh_clock s \<le> c \<Longrightarrow> outside_step s (s\<lparr>sh_clock := c\<rparr>)"
| stored: "outside_step s (s\<lparr>sh_world := w\<rparr>)"

inductive at_start :: "('w, 'r, 'v) shared \<Rightarrow> bool" where
  "at_start (start_shared w t)"

abbreviation reachable :: "('w, 'r, 's, 'v) service \<Rightarrow> ('w, 'r, 'v) shared \<Rightarrow> bool" where
  "reachable sv \<equiv> reached (thread_step sv) outside_step at_start"

section \<open>The locks\<close>

fun holds_discovery :: "('r, 'v) pc \<Rightarrow> bool" where
  "holds_discovery (Fresh2 _) = True"
| "holds_discovery (ListPrefixes _) = True"
| "holds_discovery (StampFailed _) = True"
| "holds_discovery (StampListed _ _) = True"
| "holds_discovery (InstallConfigs _ _ _) = True"
| "holds_discovery (EvictRepos _ _ _) = True"
| "holds_discovery (EvictCache _ _ _) = True"
| "holds_discovery (NotifyRepos _ _) = True"
| "holds_discovery (ReadLocked _) = True"
| "holds_discovery _ = False"

fun holds_repos :: "('r, 'v) pc \<Rightarrow> bool" where
  "holds_repos (OpenRetest _ _ _) = True"
| "holds_repos (EnsureRepo _ _ _) = True"
| "holds_repos (OpenRepo _ _ _) = True"
| "holds_repos _ = False"

text \<open>The dataset lock a thread has been given, and whether it holds it.\<close>

fun given_lock :: "('r, 'v) pc \<Rightarrow> (job \<times> nat) option" where
  "given_lock (WaitDataset j l) = Some (j, l)"
| "given_lock (SlowRead j l) = Some (j, l)"
| "given_lock (SlowTest j l _) = Some (j, l)"
| "given_lock (OpenTest j l _) = Some (j, l)"
| "given_lock (WaitRepos j l _) = Some (j, l)"
| "given_lock (OpenRetest j l _) = Some (j, l)"
| "given_lock (EnsureRepo j l _) = Some (j, l)"
| "given_lock (OpenRepo j l _) = Some (j, l)"
| "given_lock (OpenedRead j l _) = Some (j, l)"
| "given_lock (LookupTip j l _ _) = Some (j, l)"
| "given_lock (Restamp j l _) = Some (j, l)"
| "given_lock (LoadTree j l _ _) = Some (j, l)"
| "given_lock (StoreEntry j l _) = Some (j, l)"
| "given_lock _ = None"

definition holds_dataset :: "('r, 'v) pc \<Rightarrow> nat \<Rightarrow> bool" where
  "holds_dataset c l \<longleftrightarrow> (\<exists>j. given_lock c = Some (j, l) \<and> c \<noteq> WaitDataset j l)"

lemma holds_dataset_simps [simp]:
  "holds_dataset (SlowRead j l) m \<longleftrightarrow> m = l"
  "holds_dataset (SlowTest j l e) m \<longleftrightarrow> m = l"
  "holds_dataset (OpenTest j l eo) m \<longleftrightarrow> m = l"
  "holds_dataset (WaitRepos j l eo) m \<longleftrightarrow> m = l"
  "holds_dataset (OpenRetest j l eo) m \<longleftrightarrow> m = l"
  "holds_dataset (EnsureRepo j l eo) m \<longleftrightarrow> m = l"
  "holds_dataset (OpenRepo j l eo) m \<longleftrightarrow> m = l"
  "holds_dataset (OpenedRead j l eo) m \<longleftrightarrow> m = l"
  "holds_dataset (LookupTip j l eo r) m \<longleftrightarrow> m = l"
  "holds_dataset (Restamp j l e) m \<longleftrightarrow> m = l"
  "holds_dataset (LoadTree j l r tip) m \<longleftrightarrow> m = l"
  "holds_dataset (StoreEntry j l e) m \<longleftrightarrow> m = l"
  "\<not> holds_dataset (WaitDataset j l) m"
  "given_lock c = None \<Longrightarrow> \<not> holds_dataset c m"
  by (auto simp: holds_dataset_def)

lemma goto_simps [simp]:
  "sh_pc (goto t c s) = (sh_pc s)(t := c)"
  "sh_configs (goto t c s) = sh_configs s"
  "sh_discovered (goto t c s) = sh_discovered s"
  "sh_repos (goto t c s) = sh_repos s"
  "sh_cache (goto t c s) = sh_cache s"
  "sh_entries (goto t c s) = sh_entries s"
  "sh_locks (goto t c s) = sh_locks s"
  "sh_lock_count (goto t c s) = sh_lock_count s"
  "discovery_lock (goto t c s) = discovery_lock s"
  "repo_lock (goto t c s) = repo_lock s"
  "dataset_lock (goto t c s) = dataset_lock s"
  "sh_world (goto t c s) = sh_world s"
  "sh_clock (goto t c s) = sh_clock s"
  "sh_log (goto t c s) = sh_log s"
  by (simp_all add: goto_def)

lemma answer_configs_holds [simp]:
  "\<not> holds_discovery (answer_configs q cfgs)" "\<not> holds_repos (answer_configs q cfgs)"
  "given_lock (answer_configs q cfgs) = None"
  by (auto simp: answer_configs_def split: request.split option.split)

text \<open>One step of \<open>t\<close>: where it goes, and what becomes of each lock.\<close>

lemmas step_split = if_split_asm option.split_asm sum.split_asm prod.split_asm

lemma thread_step_pc:
  assumes "thread_step sv t s = Some s'"
  shows "sh_pc s' = (sh_pc s)(t := sh_pc s' t)"
  using assms
  by (cases "sh_pc s t") (auto simp: thread_step_def release_dataset_def Let_def split: step_split)

lemma thread_step_others:
  assumes "thread_step sv t s = Some s'" "u \<noteq> t"
  shows "sh_pc s' u = sh_pc s u"
  using fun_cong [OF thread_step_pc [OF assms(1)], of u] assms(2) by simp

lemma thread_step_discovery:
  assumes "thread_step sv t s = Some s'"
  shows "discovery_lock s' = discovery_lock s \<and> holds_discovery (sh_pc s' t) = holds_discovery (sh_pc s t) \<or>
    discovery_lock s = None \<and> discovery_lock s' = Some t \<and> holds_discovery (sh_pc s' t) \<or>
    holds_discovery (sh_pc s t) \<and> discovery_lock s' = None \<and> \<not> holds_discovery (sh_pc s' t)"
  using assms
  by (cases "sh_pc s t") (auto simp: thread_step_def release_dataset_def Let_def split: step_split)

lemma thread_step_repos:
  assumes "thread_step sv t s = Some s'"
  shows "repo_lock s' = repo_lock s \<and> holds_repos (sh_pc s' t) = holds_repos (sh_pc s t) \<or>
    repo_lock s = None \<and> repo_lock s' = Some t \<and> holds_repos (sh_pc s' t) \<or>
    holds_repos (sh_pc s t) \<and> repo_lock s' = None \<and> \<not> holds_repos (sh_pc s' t)"
  using assms
  by (cases "sh_pc s t") (auto simp: thread_step_def release_dataset_def Let_def split: step_split)

lemma thread_step_dataset:
  assumes "thread_step sv t s = Some s'"
  shows "dataset_lock s' l = dataset_lock s l \<and> holds_dataset (sh_pc s' t) l = holds_dataset (sh_pc s t) l \<or>
    dataset_lock s l = None \<and> dataset_lock s' l = Some t \<and> holds_dataset (sh_pc s' t) l \<or>
    holds_dataset (sh_pc s t) l \<and> dataset_lock s' l = None \<and> \<not> holds_dataset (sh_pc s' t) l"
  using assms
  by (cases "sh_pc s t") (auto simp: thread_step_def release_dataset_def Let_def split: step_split)

lemma at_start_simps:
  "at_start s \<Longrightarrow> discovery_lock s = None \<and> repo_lock s = None \<and> dataset_lock s l = None \<and> sh_pc s t = Idle \<and>
     sh_log s = [] \<and> sh_cache s = [] \<and> sh_locks s = [] \<and> sh_discovered s = None \<and> sh_entries s = []"
  by (auto simp: start_shared_def elim: at_start.cases)

lemma outside_step_locks:
  assumes "outside_step s s'"
  shows "discovery_lock s' = discovery_lock s \<and> repo_lock s' = repo_lock s \<and> dataset_lock s' = dataset_lock s \<and>
    holds_discovery (sh_pc s' t) = holds_discovery (sh_pc s t) \<and> holds_repos (sh_pc s' t) = holds_repos (sh_pc s t) \<and>
    holds_dataset (sh_pc s' t) l = holds_dataset (sh_pc s t) l"
  using assms by cases auto

interpretation discovery_mutex: mutex "thread_step sv" outside_step at_start discovery_lock
    "\<lambda>s t. holds_discovery (sh_pc s t)"
  by unfold_locales
    (simp add: at_start_simps, simp add: outside_step_locks, simp add: thread_step_others, rule thread_step_discovery)

interpretation repos_mutex: mutex "thread_step sv" outside_step at_start repo_lock
    "\<lambda>s t. holds_repos (sh_pc s t)"
  by unfold_locales
    (simp add: at_start_simps, simp add: outside_step_locks, simp add: thread_step_others, rule thread_step_repos)

interpretation dataset_mutex: mutex "thread_step sv" outside_step at_start "\<lambda>s. dataset_lock s l"
    "\<lambda>s t. holds_dataset (sh_pc s t) l"
  by unfold_locales
    (simp add: at_start_simps, simp add: outside_step_locks, simp add: thread_step_others, rule thread_step_dataset)

text \<open>What the locks are for: one thread discovers, one opens, one works on a dataset lock.\<close>

lemmas one_discovers = discovery_mutex.exclusive
lemmas one_opens = repos_mutex.exclusive
lemmas one_holds = dataset_mutex.exclusive

section \<open>Progress\<close>

fun pc_rank :: "('r, 'v) pc \<Rightarrow> nat" where
  "pc_rank Idle = 0"
| "pc_rank (Finished _ _) = 0"
| "pc_rank (StoreEntry _ _ _) = 1"
| "pc_rank (LoadTree _ _ _ _) = 2"
| "pc_rank (Restamp _ _ _) = 2"
| "pc_rank (LookupTip _ _ _ _) = 3"
| "pc_rank (OpenedRead _ _ _) = 4"
| "pc_rank (OpenRepo _ _ _) = 5"
| "pc_rank (EnsureRepo _ _ _) = 6"
| "pc_rank (OpenRetest _ _ _) = 7"
| "pc_rank (WaitRepos _ _ _) = 8"
| "pc_rank (OpenTest _ _ _) = 9"
| "pc_rank (SlowTest _ _ _) = 10"
| "pc_rank (SlowRead _ _) = 11"
| "pc_rank (WaitDataset _ _) = 12"
| "pc_rank (GetLock _) = 13"
| "pc_rank (FastTest _ _) = 14"
| "pc_rank (FastRead _) = 15"
| "pc_rank (Returned _ _) = 16"
| "pc_rank (ReadConfigs _) = 17"
| "pc_rank (ReadLocked _) = 17"
| "pc_rank (NotifyRepos _ _) = 18"
| "pc_rank (EvictCache _ _ _) = 19"
| "pc_rank (EvictRepos _ _ _) = 20"
| "pc_rank (InstallConfigs _ _ _) = 21"
| "pc_rank (StampListed _ _) = 22"
| "pc_rank (StampFailed _) = 22"
| "pc_rank (ListPrefixes _) = 23"
| "pc_rank (Fresh2 _) = 24"
| "pc_rank (WaitDiscovery _) = 25"
| "pc_rank (Fresh1 _) = 26"

lemma pc_rank_bound: "pc_rank c \<le> 26"
  by (cases c) simp_all

lemma answer_configs_rank: "pc_rank (answer_configs q cfgs) < 16"
  by (auto simp: answer_configs_def split: request.split option.split)

lemma thread_step_rank:
  assumes "thread_step sv t s = Some s'"
  shows "pc_rank (sh_pc s' t) < pc_rank (sh_pc s t)"
  using assms answer_configs_rank
  by (cases "sh_pc s t") (auto simp: thread_step_def release_dataset_def Let_def split: step_split)

text \<open>Only a lock that is held keeps a call waiting.\<close>

lemma thread_waits:
  assumes "thread_step sv t s = None" "pc_rank (sh_pc s t) \<noteq> 0"
  shows "(\<exists>q. sh_pc s t = WaitDiscovery q) \<and> discovery_lock s \<noteq> None \<or>
    ((\<exists>q names told. sh_pc s t = EvictRepos q names told) \<or> (\<exists>j l eo. sh_pc s t = WaitRepos j l eo)) \<and>
      repo_lock s \<noteq> None \<or>
    (\<exists>j l. sh_pc s t = WaitDataset j l \<and> dataset_lock s l \<noteq> None)"
  using assms
  by (cases "sh_pc s t") (auto simp: thread_step_def Let_def split: step_split)

lemma no_deadlock:
  assumes "reachable sv s" "pc_rank (sh_pc s t) \<noteq> 0"
  shows "\<exists>u s'. thread_step sv u s = Some s'"
proof (rule ccontr)
  assume "\<not> ?thesis"
  then have stuck: "thread_step sv u s = None" for u by (meson not_None_eq)
  have free: "repo_lock s = None"
  proof (rule ccontr)
    assume "repo_lock s \<noteq> None"
    then obtain u where "holds_repos (sh_pc s u)" using repos_mutex.held [OF assms(1)] by blast
    then show False using thread_waits [OF stuck, of u] by (cases "sh_pc s u") auto
  qed
  have waits: "(\<exists>q. sh_pc s u = WaitDiscovery q) \<or> (\<exists>j l. sh_pc s u = WaitDataset j l)"
    if "pc_rank (sh_pc s u) \<noteq> 0" for u
    using thread_waits [OF stuck that] free by blast
  have no_holder: "\<not> holds_discovery (sh_pc s u) \<and> \<not> holds_dataset (sh_pc s u) l" for u l
    using waits [of u] by (cases "sh_pc s u") auto
  then have "discovery_lock s = None" using discovery_mutex.held [OF assms(1)] by blast
  moreover have "dataset_lock s l = None" for l using dataset_mutex.held [OF assms(1)] no_holder by blast
  ultimately show False using thread_waits [OF stuck assms(2)] free by simp
qed

lemma reachable_finite: "reachable sv s \<Longrightarrow> finite {t. pc_rank (sh_pc s t) \<noteq> 0}"
proof (induction rule: reached_invariant)
  case (start s)
  then show ?case by (simp add: at_start_simps)
next
  case (move s t s')
  have "{u. pc_rank (sh_pc s' u) \<noteq> 0} \<subseteq> insert t {u. pc_rank (sh_pc s u) \<noteq> 0}"
    using thread_step_others [OF move.hyps(2)] by auto
  then show ?case using move.IH by (meson finite.insertI finite_subset)
next
  case (environment s s')
  have "\<exists>t. {u. pc_rank (sh_pc s' u) \<noteq> 0} \<subseteq> insert t {u. pc_rank (sh_pc s u) \<noteq> 0}"
    using environment.hyps(2)
  proof cases
    case (called t q)
    then have "{u. pc_rank (sh_pc s' u) \<noteq> 0} \<subseteq> insert t {u. pc_rank (sh_pc s u) \<noteq> 0}" by auto
    then show ?thesis by blast
  qed auto
  then show ?case using environment.IH by (meson finite.insertI finite_subset)
qed

interpretation provider_drains: draining "thread_step sv" "reachable sv" "\<lambda>s t. pc_rank (sh_pc s t)"
proof unfold_locales
  fix s t s'
  assume "reachable sv s" "thread_step sv t s = Some s'"
  then show "reachable sv s'" "pc_rank (sh_pc s' t) < pc_rank (sh_pc s t)"
    by (auto intro: reached_move thread_step_rank)
next
  fix s
  assume "reachable sv s"
  then show "finite {t. pc_rank (sh_pc s t) \<noteq> 0}" by (rule reachable_finite)
next
  fix s t s' u
  assume "thread_step sv t s = Some s'" "u \<noteq> t"
  then show "pc_rank (sh_pc s' u) = pc_rank (sh_pc s u)" by (simp add: thread_step_others)
next
  fix s t
  assume "reachable sv s" "pc_rank (sh_pc s t) \<noteq> 0"
  then show "\<exists>u s'. thread_step sv u s = Some s'" by (rule no_deadlock)
qed

end
