(* ===== verification/X_Provider_Races.thy ===== *)
theory X_Provider_Races
  imports X_Provider_Threads
begin

text \<open>
  What the provider promises its threads, over every interleaving of \<open>X_Provider_Threads\<close>: every
  call is answered, the bucket is listed once in a lifetime and a dataset loaded once in one,
  a thread is given a tree of the dataset it asked for; and what an eviction that runs beside a
  load still does.
\<close>

section \<open>Every call is answered\<close>

definition answered :: "('w, 'r, 'v) shared \<Rightarrow> nat \<Rightarrow> bool" where
  "answered s t \<longleftrightarrow> sh_pc s t = Idle \<or> (\<exists>q r. sh_pc s t = Finished q r)"

lemma answered_rank: "answered s t \<longleftrightarrow> pc_rank (sh_pc s t) = 0"
  by (cases "sh_pc s t") (simp_all add: answered_def)

text \<open>C21 The locks of the provider do not deadlock and its calls end: in every state that the
  threads can reach, some schedule of the threads answers every call; whichever way they are
  scheduled, they make at most 26 steps for each open call, and where none can move every call
  has been answered.
\<close>

theorem provider_calls_end:
  assumes "reachable sv s"
  shows "(\<exists>s'. (moves (thread_step sv))\<^sup>*\<^sup>* s s' \<and> (\<forall>t. answered s' t)) \<and>
    (\<forall>n s'. (moves (thread_step sv) ^^ n) s s' \<longrightarrow>
       n \<le> 26 * card {t. \<not> answered s t} \<and> ((\<nexists>s''. moves (thread_step sv) s' s'') \<longrightarrow> (\<forall>t. answered s' t)))"
  using provider_drains.all_end [OF assms pc_rank_bound] unfolding answered_rank .

section \<open>One listing in a lifetime\<close>

fun listing_times :: "event list \<Rightarrow> rat list" where
  "listing_times [] = []"
| "listing_times (ListedAt c _ # es) = c # listing_times es"
| "listing_times (_ # es) = listing_times es"

text \<open>Times, the newest first, each at least \<open>ttl\<close> after the one before.\<close>

fun spaced :: "rat \<Rightarrow> rat list \<Rightarrow> bool" where
  "spaced ttl (a # b # ts) \<longleftrightarrow> b + ttl \<le> a \<and> spaced ttl (b # ts)"
| "spaced ttl ts \<longleftrightarrow> True"

fun stamping :: "('r, 'v) pc \<Rightarrow> bool" where
  "stamping (StampFailed _) = True"
| "stamping (StampListed _ _) = True"
| "stamping _ = False"

fun about_to_list :: "('r, 'v) pc \<Rightarrow> bool" where
  "about_to_list (ListPrefixes _) = True"
| "about_to_list _ = False"

lemma stamping_holds: "stamping c \<or> about_to_list c \<Longrightarrow> holds_discovery c"
  by (cases c) simp_all

lemma answer_configs_quiet [simp]: "\<not> stamping (answer_configs q cfgs)" "\<not> about_to_list (answer_configs q cfgs)"
  by (auto simp: answer_configs_def split: request.split option.split)

text \<open>The steps that matter to the times: the test under the lock, the listing, the stamp.\<close>

lemma thread_step_times:
  assumes "thread_step sv t s = Some s'"
  shows "sh_clock s' = sh_clock s \<and>
   (listing_times (sh_log s') = listing_times (sh_log s) \<and> sh_discovered s' = sh_discovered s \<and>
      \<not> stamping (sh_pc s t) \<and> \<not> stamping (sh_pc s' t) \<and> \<not> about_to_list (sh_pc s' t) \<or>
    listing_times (sh_log s') = listing_times (sh_log s) \<and> sh_discovered s' = sh_discovered s \<and>
      holds_discovery (sh_pc s t) \<and> \<not> stamping (sh_pc s t) \<and> about_to_list (sh_pc s' t) \<and>
      \<not> shared_fresh (sv_settings sv) s \<or>
    listing_times (sh_log s') = sh_clock s # listing_times (sh_log s) \<and> sh_discovered s' = sh_discovered s \<and>
      about_to_list (sh_pc s t) \<and> stamping (sh_pc s' t) \<or>
    listing_times (sh_log s') = listing_times (sh_log s) \<and> sh_discovered s' = Some (sh_clock s) \<and>
      stamping (sh_pc s t) \<and> \<not> stamping (sh_pc s' t) \<and> \<not> about_to_list (sh_pc s' t))"
  using assms
  by (cases "sh_pc s t") (auto simp: thread_step_def release_dataset_def Let_def split: step_split)

definition listing_inv :: "settings \<Rightarrow> ('w, 'r, 'v) shared \<Rightarrow> bool" where
  "listing_inv st s \<longleftrightarrow>
     spaced (discovery_ttl_seconds st) (listing_times (sh_log s)) \<and>
     (\<forall>a ts. listing_times (sh_log s) = a # ts \<longrightarrow>
        a \<le> sh_clock s \<and>
        (\<forall>t. about_to_list (sh_pc s t) \<longrightarrow> a + discovery_ttl_seconds st \<le> sh_clock s) \<and>
        ((\<forall>t. \<not> stamping (sh_pc s t)) \<longrightarrow> (\<exists>d. sh_discovered s = Some d \<and> a \<le> d)))"

lemma listing_inv_move:
  assumes s: "reachable sv s" and inv: "listing_inv (sv_settings sv) s" and m: "thread_step sv t s = Some s'"
  shows "listing_inv (sv_settings sv) s'"
proof -
  let ?ttl = "discovery_ttl_seconds (sv_settings sv)" and ?L = "\<lambda>s. listing_times (sh_log s)"
  have clock: "sh_clock s' = sh_clock s" using thread_step_times [OF m] by simp
  have others: "u \<noteq> t \<Longrightarrow> sh_pc s' u = sh_pc s u" for u using thread_step_others [OF m] .
  have alone: "\<not> stamping (sh_pc s u) \<and> \<not> about_to_list (sh_pc s u)" if "holds_discovery (sh_pc s t)" "u \<noteq> t" for u
    using one_discovers [OF s that(1)] stamping_holds [of "sh_pc s u"] that(2) by blast
  from thread_step_times [OF m, THEN conjunct2] show ?thesis
  proof (elim disjE conjE)
    assume "?L s' = ?L s" "sh_discovered s' = sh_discovered s" "\<not> stamping (sh_pc s t)" "\<not> stamping (sh_pc s' t)"
      "\<not> about_to_list (sh_pc s' t)"
    with inv clock others show ?thesis unfolding listing_inv_def by metis
  next
    assume a: "?L s' = ?L s" "sh_discovered s' = sh_discovered s" "holds_discovery (sh_pc s t)"
      "\<not> stamping (sh_pc s t)" "about_to_list (sh_pc s' t)" "\<not> shared_fresh (sv_settings sv) s"
    from a(3,4) alone have quiet: "\<forall>u. \<not> stamping (sh_pc s u)" by metis
    have "b + ?ttl \<le> sh_clock s" if L: "?L s = b # ts" for b ts
    proof -
      from inv L quiet obtain d where "sh_discovered s = Some d" "b \<le> d" unfolding listing_inv_def by blast
      with a(6) show ?thesis by (simp add: shared_fresh_def)
    qed
    with a inv clock quiet show ?thesis unfolding listing_inv_def by (metis thread_step_others [OF m])
  next
    assume a: "?L s' = sh_clock s # ?L s" "sh_discovered s' = sh_discovered s" "about_to_list (sh_pc s t)"
      "stamping (sh_pc s' t)"
    then have h: "holds_discovery (sh_pc s t)" using stamping_holds by blast
    have "\<not> about_to_list (sh_pc s' t)" using a(4) by (cases "sh_pc s' t") simp_all
    then have none: "\<not> about_to_list (sh_pc s' u)" for u using alone [OF h] others by metis
    have "spaced ?ttl (?L s')"
    proof (cases "?L s")
      case Nil
      with a(1) show ?thesis by simp
    next
      case (Cons b ts)
      with inv a(3) have "b + ?ttl \<le> sh_clock s" "spaced ?ttl (b # ts)" unfolding listing_inv_def by metis+
      with a(1) Cons show ?thesis by simp
    qed
    then show ?thesis unfolding listing_inv_def using a clock none by (metis list.inject order_refl)
  next
    assume a: "?L s' = ?L s" "sh_discovered s' = Some (sh_clock s)" "stamping (sh_pc s t)" "\<not> stamping (sh_pc s' t)"
      "\<not> about_to_list (sh_pc s' t)"
    with inv clock others show ?thesis unfolding listing_inv_def by metis
  qed
qed

lemma listing_inv_outside:
  assumes "listing_inv st s" "outside_step s s'"
  shows "listing_inv st s'"
  using assms(2)
proof cases
  case (called t q)
  then have "stamping (sh_pc s' u) \<longleftrightarrow> stamping (sh_pc s u)" "about_to_list (sh_pc s' u) \<longleftrightarrow> about_to_list (sh_pc s u)" for u
    by auto
  with called assms(1) show ?thesis unfolding listing_inv_def by simp
next
  case (ticked c)
  with assms(1) show ?thesis unfolding listing_inv_def by (auto intro: order_trans)
next
  case (stored w)
  with assms(1) show ?thesis unfolding listing_inv_def by simp
qed

text \<open>C20 Whatever threads run, the bucket is listed at most once in a discovery lifetime: each listing
  begins at least \<open>discovery_ttl_seconds\<close> after the one before it, failed ones included.
\<close>

theorem listings_spaced:
  assumes "reachable sv s"
  shows "spaced (discovery_ttl_seconds (sv_settings sv)) (listing_times (sh_log s))"
proof -
  from assms have "listing_inv (sv_settings sv) s"
  proof (induction rule: reached_invariant)
    case (start s)
    then show ?case by (simp add: listing_inv_def at_start_simps)
  qed (auto intro: listing_inv_move listing_inv_outside)
  then show ?thesis by (simp add: listing_inv_def)
qed

section \<open>A thread is given the tree it asked for\<close>

text \<open>The cached entry and the configurations a thread refers to.\<close>

fun pc_entry :: "('r, 'v) pc \<Rightarrow> (job \<times> nat) option" where
  "pc_entry (FastTest j e) = Some (j, e)"
| "pc_entry (SlowTest j _ e) = Some (j, e)"
| "pc_entry (OpenTest j _ eo) = map_option (Pair j) eo"
| "pc_entry (WaitRepos j _ eo) = map_option (Pair j) eo"
| "pc_entry (OpenRetest j _ eo) = map_option (Pair j) eo"
| "pc_entry (EnsureRepo j _ eo) = map_option (Pair j) eo"
| "pc_entry (OpenRepo j _ eo) = map_option (Pair j) eo"
| "pc_entry (OpenedRead j _ eo) = map_option (Pair j) eo"
| "pc_entry (LookupTip j _ eo _) = map_option (Pair j) eo"
| "pc_entry (Restamp j _ e) = Some (j, e)"
| "pc_entry (StoreEntry j _ e) = Some (j, e)"
| "pc_entry _ = None"

fun pc_job :: "('r, 'v) pc \<Rightarrow> job option" where
  "pc_job (FastRead j) = Some j"
| "pc_job (FastTest j _) = Some j"
| "pc_job (GetLock j) = Some j"
| "pc_job c = map_option fst (given_lock c)"

fun pc_repo :: "('r, 'v) pc \<Rightarrow> (job \<times> 'r) option" where
  "pc_repo (LookupTip j _ _ r) = Some (j, r)"
| "pc_repo (LoadTree j _ r _) = Some (j, r)"
| "pc_repo _ = None"

fun pc_configs :: "('r, 'v) pc \<Rightarrow> RepoConfig list option" where
  "pc_configs (StampListed _ cfgs) = Some cfgs"
| "pc_configs (InstallConfigs _ _ cfgs) = Some cfgs"
| "pc_configs (Returned _ cfgs) = Some cfgs"
| "pc_configs _ = None"

text \<open>A listing that was answered, or the empty one before the first.\<close>

definition known_configs :: "event list \<Rightarrow> RepoConfig list \<Rightarrow> bool" where
  "known_configs es cfgs \<longleftrightarrow> cfgs = [] \<or> (\<exists>c. ListedAt c (Some cfgs) \<in> set es)"

definition known_job :: "event list \<Rightarrow> job \<Rightarrow> bool" where
  "known_job es j \<longleftrightarrow>
     (\<exists>c cfgs. ListedAt c (Some cfgs) \<in> set es \<and> find_config (jb_id j) cfgs = Some (jb_cfg j, jb_kind j))"

text \<open>A repo that was opened from the storage of a listed repo of that name.\<close>

definition opened_for :: "('w, 'r, 's, 'v) service \<Rightarrow> event list \<Rightarrow> string \<Rightarrow> 'r \<Rightarrow> bool" where
  "opened_for sv es n r \<longleftrightarrow>
     (\<exists>j w. known_job es j \<and> name (jb_cfg j) = n \<and>
        open_with_virtual_access (sv_libs sv) (job_storage (sv_settings sv) j) w = Inr r)"

text \<open>A tree that was loaded for dataset \<open>d\<close> from a snapshot of such a repo.\<close>

definition tree_for ::
  "('w, 'r, 's, 'v) service \<Rightarrow> event list \<Rightarrow> string \<Rightarrow> 'v datatree \<Rightarrow> bool"
where
  "tree_for sv es d dt \<longleftrightarrow>
     (\<exists>n r k tip w c. d \<in> set (ids_of n) \<and> opened_for sv es n r \<and> LoadedAt d c tip \<in> set es \<and>
        load_datatree (sv_libs sv) d r k tip w = Inr dt)"

definition valid_ref :: "('w, 'r, 's, 'v) service \<Rightarrow> ('w, 'r, 'v) shared \<Rightarrow> string \<Rightarrow> nat \<Rightarrow> bool" where
  "valid_ref sv s d e \<longleftrightarrow>
     e < List.length (sh_entries s) \<and> tree_for sv (sh_log s) d (ce_datatree (sh_entries s ! e))"

lemma answer_configs_refs [simp]:
  "pc_entry (answer_configs q cfgs) = None" "pc_repo (answer_configs q cfgs) = None" "pc_configs (answer_configs q cfgs) = None"
  "answer_configs q cfgs \<noteq> Finished q' (Answer (Inr (Some dt)))"
  by (auto simp: answer_configs_def split: request.split option.split)

lemma thread_step_log:
  assumes "thread_step sv t s = Some s'"
  shows "\<exists>es. sh_log s' = es @ sh_log s"
  using assms
  by (cases "sh_pc s t") (auto simp: thread_step_def release_dataset_def Let_def split: step_split)

lemma nth_update: "e < List.length xs \<Longrightarrow> xs[i := x] ! e = (if i = e then x else xs ! e)"
  by (cases "i = e") simp_all

lemma thread_step_entries:
  assumes "thread_step sv t s = Some s'" "e < List.length (sh_entries s)"
  shows "e < List.length (sh_entries s') \<and>
    (sh_entries s' ! e = sh_entries s ! e \<or> sh_entries s' ! e = (sh_entries s ! e)\<lparr>checked_at := sh_clock s\<rparr>)"
  using assms
  by (cases "sh_pc s t")
    (auto simp: thread_step_def release_dataset_def Let_def nth_append nth_update split: step_split)

lemma fold_pop_Some: "dict_get (fold (\<lambda>n d. dict_pop d n) ks d) k = Some x \<Longrightarrow> dict_get d k = Some x"
  by (simp add: fold_dict_pop split: if_split_asm)

lemma thread_step_cache:
  assumes "thread_step sv t s = Some s'" "dict_get (sh_cache s') d = Some e"
  shows "dict_get (sh_cache s) d = Some e \<or> (\<exists>j l. sh_pc s t = StoreEntry j l e \<and> jb_id j = d)"
  using assms
  by (cases "sh_pc s t")
    (auto simp: thread_step_def release_dataset_def Let_def dest: fold_pop_Some split: step_split)

lemma thread_step_entry:
  assumes "thread_step sv t s = Some s'" "pc_entry (sh_pc s' t) = Some (j, e)"
  shows "pc_entry (sh_pc s t) = Some (j, e) \<or> dict_get (sh_cache s) (jb_id j) = Some e \<or>
    (\<exists>l r tip c w. sh_pc s t = LoadTree j l r tip \<and> e < List.length (sh_entries s') \<and>
       LoadedAt (jb_id j) c tip \<in> set (sh_log s') \<and>
       load_datatree (sv_libs sv) (jb_id j) r (jb_kind j) tip w = Inr (ce_datatree (sh_entries s' ! e)))"
  using assms
  by (cases "sh_pc s t")
    (auto simp: thread_step_def release_dataset_def Let_def split: step_split, blast+)

lemma thread_step_repo:
  assumes "thread_step sv t s = Some s'" "dict_get (sh_repos s') n = Some r"
  shows "dict_get (sh_repos s) n = Some r \<or>
    (\<exists>j l eo w. sh_pc s t = OpenRepo j l eo \<and> name (jb_cfg j) = n \<and>
       open_with_virtual_access (sv_libs sv) (job_storage (sv_settings sv) j) w = Inr r)"
  using assms
  by (cases "sh_pc s t")
    (auto simp: thread_step_def release_dataset_def Let_def dest: fold_pop_Some split: step_split)

lemma thread_step_pc_repo:
  assumes "thread_step sv t s = Some s'" "pc_repo (sh_pc s' t) = Some (j, r)"
  shows "pc_repo (sh_pc s t) = Some (j, r) \<or> dict_get (sh_repos s) (name (jb_cfg j)) = Some r"
  using assms
  by (cases "sh_pc s t") (auto simp: thread_step_def release_dataset_def Let_def split: step_split)

lemma thread_step_tree:
  assumes "thread_step sv t s = Some s'" "sh_pc s' t = Finished (Tree d) (Answer (Inr (Some dt)))"
  shows "\<exists>j e. pc_entry (sh_pc s t) = Some (j, e) \<and> jb_id j = d \<and> ce_datatree (sh_entries s ! e) = dt"
  using assms
  by (cases "sh_pc s t")
    (auto simp: thread_step_def release_dataset_def Let_def entry_tree_def split: step_split)

lemma thread_step_configs:
  assumes "thread_step sv t s = Some s'"
  shows "sh_configs s' = sh_configs s \<or> pc_configs (sh_pc s t) = Some (sh_configs s')"
  using assms
  by (cases "sh_pc s t") (auto simp: thread_step_def release_dataset_def Let_def split: step_split)

lemma thread_step_pc_configs:
  assumes "thread_step sv t s = Some s'" "pc_configs (sh_pc s' t) = Some cfgs"
  shows "pc_configs (sh_pc s t) = Some cfgs \<or> cfgs = sh_configs s \<or> (\<exists>c. ListedAt c (Some cfgs) \<in> set (sh_log s'))"
  using assms
  by (cases "sh_pc s t") (auto simp: thread_step_def release_dataset_def Let_def split: step_split)

lemma answer_configs_job:
  "pc_job (answer_configs q cfgs) = Some j \<Longrightarrow> find_config (jb_id j) cfgs = Some (jb_cfg j, jb_kind j)"
  "answer_configs q cfgs = Finished (Tree d) (Answer (Inr None)) \<Longrightarrow> find_config d cfgs = None"
  by (auto simp: answer_configs_def split: request.split_asm option.split_asm)

lemma thread_step_job:
  assumes "thread_step sv t s = Some s'" "pc_job (sh_pc s' t) = Some j"
  shows "pc_job (sh_pc s t) = Some j \<or>
    (\<exists>cfgs. pc_configs (sh_pc s t) = Some cfgs \<and> find_config (jb_id j) cfgs = Some (jb_cfg j, jb_kind j))"
  using assms answer_configs_job(1)
  by (cases "sh_pc s t") (auto simp: thread_step_def release_dataset_def Let_def split: step_split)

lemma pc_entry_job: "pc_entry c = Some (j, e) \<Longrightarrow> pc_job c = Some j"
  by (cases c) auto

lemma pc_repo_job: "pc_repo c = Some (j, r) \<Longrightarrow> pc_job c = Some j"
  by (cases c) auto

lemma known_mono:
  "set es \<subseteq> set es' \<Longrightarrow> known_configs es cfgs \<Longrightarrow> known_configs es' cfgs"
  "set es \<subseteq> set es' \<Longrightarrow> known_job es j \<Longrightarrow> known_job es' j"
  "set es \<subseteq> set es' \<Longrightarrow> opened_for sv es n r \<Longrightarrow> opened_for sv es' n r"
  "set es \<subseteq> set es' \<Longrightarrow> tree_for sv es d dt \<Longrightarrow> tree_for sv es' d dt"
proof -
  assume sub: "set es \<subseteq> set es'"
  show "known_configs es cfgs \<Longrightarrow> known_configs es' cfgs" using sub by (auto simp: known_configs_def)
  show job: "known_job es j \<Longrightarrow> known_job es' j" for j using sub by (auto simp: known_job_def)
  show repo: "opened_for sv es n r \<Longrightarrow> opened_for sv es' n r" for n r
    using job unfolding opened_for_def by blast
  show "tree_for sv es d dt \<Longrightarrow> tree_for sv es' d dt"
    using sub repo unfolding tree_for_def by blast
qed

definition refs_ok :: "('w, 'r, 's, 'v) service \<Rightarrow> ('w, 'r, 'v) shared \<Rightarrow> bool" where
  "refs_ok sv s \<longleftrightarrow>
     known_configs (sh_log s) (sh_configs s) \<and>
     (\<forall>t cfgs. pc_configs (sh_pc s t) = Some cfgs \<longrightarrow> known_configs (sh_log s) cfgs) \<and>
     (\<forall>t j. pc_job (sh_pc s t) = Some j \<longrightarrow> known_job (sh_log s) j) \<and>
     (\<forall>n r. dict_get (sh_repos s) n = Some r \<longrightarrow> opened_for sv (sh_log s) n r) \<and>
     (\<forall>t j r. pc_repo (sh_pc s t) = Some (j, r) \<longrightarrow> opened_for sv (sh_log s) (name (jb_cfg j)) r) \<and>
     (\<forall>d e. dict_get (sh_cache s) d = Some e \<longrightarrow> valid_ref sv s d e) \<and>
     (\<forall>t j e. pc_entry (sh_pc s t) = Some (j, e) \<longrightarrow> valid_ref sv s (jb_id j) e) \<and>
     (\<forall>t d dt. sh_pc s t = Finished (Tree d) (Answer (Inr (Some dt))) \<longrightarrow> tree_for sv (sh_log s) d dt)"

lemma refs_okD:
  assumes "refs_ok sv s"
  shows "known_configs (sh_log s) (sh_configs s)"
    and "pc_configs (sh_pc s t) = Some cfgs \<Longrightarrow> known_configs (sh_log s) cfgs"
    and "pc_job (sh_pc s t) = Some j \<Longrightarrow> known_job (sh_log s) j"
    and "dict_get (sh_repos s) n = Some r \<Longrightarrow> opened_for sv (sh_log s) n r"
    and "pc_repo (sh_pc s t) = Some (j, r) \<Longrightarrow> opened_for sv (sh_log s) (name (jb_cfg j)) r"
    and "dict_get (sh_cache s) d = Some e \<Longrightarrow> valid_ref sv s d e"
    and "pc_entry (sh_pc s t) = Some (j, e) \<Longrightarrow> valid_ref sv s (jb_id j) e"
    and "sh_pc s t = Finished (Tree d) (Answer (Inr (Some dt))) \<Longrightarrow> tree_for sv (sh_log s) d dt"
  using assms unfolding refs_ok_def by blast+

lemma known_jobI:
  "known_configs es cfgs \<Longrightarrow> find_config (jb_id j) cfgs = Some (jb_cfg j, jb_kind j) \<Longrightarrow> known_job es j"
  by (auto simp: known_configs_def known_job_def)

lemma known_job_ids: "known_job es j \<Longrightarrow> jb_id j \<in> set (ids_of (name (jb_cfg j)))"
  by (auto simp: known_job_def ids_of_def dest: find_config_name)

lemma refs_ok_move:
  assumes ok: "refs_ok sv s" and m: "thread_step sv t s = Some s'"
  shows "refs_ok sv s'"
proof -
  have sub: "set (sh_log s) \<subseteq> set (sh_log s')" using thread_step_log [OF m] by auto
  note mono = known_mono [OF sub]
  have others: "u \<noteq> t \<Longrightarrow> sh_pc s' u = sh_pc s u" for u using thread_step_others [OF m] .
  have ref: "valid_ref sv s d e \<Longrightarrow> valid_ref sv s' d e" for d e
    using thread_step_entries [OF m, of e] mono(4) by (auto simp: valid_ref_def)
  have "known_configs (sh_log s') (sh_configs s')"
    using thread_step_configs [OF m] refs_okD(1,2) [OF ok] mono(1) by metis
  moreover have "known_configs (sh_log s') cfgs" if "pc_configs (sh_pc s' u) = Some cfgs" for u cfgs
  proof (cases "u = t")
    case True
    with that thread_step_pc_configs [OF m] refs_okD(1,2) [OF ok] mono(1) show ?thesis
      unfolding known_configs_def by metis
  next
    case False
    with that others refs_okD(2) [OF ok] mono(1) show ?thesis by metis
  qed
  moreover have "known_job (sh_log s') j" if "pc_job (sh_pc s' u) = Some j" for u j
  proof (cases "u = t")
    case True
    with that thread_step_job [OF m] refs_okD(2,3) [OF ok] known_jobI mono(2) show ?thesis by metis
  next
    case False
    with that others refs_okD(3) [OF ok] mono(2) show ?thesis by metis
  qed
  moreover have "opened_for sv (sh_log s') n r" if "dict_get (sh_repos s') n = Some r" for n r
    using thread_step_repo [OF m that]
  proof
    assume "dict_get (sh_repos s) n = Some r"
    then show ?thesis by (rule mono(3) [OF refs_okD(4) [OF ok]])
  next
    assume "\<exists>j l eo w. sh_pc s t = OpenRepo j l eo \<and> name (jb_cfg j) = n \<and>
       open_with_virtual_access (sv_libs sv) (job_storage (sv_settings sv) j) w = Inr r"
    then obtain j l eo w where o: "sh_pc s t = OpenRepo j l eo" "name (jb_cfg j) = n"
      "open_with_virtual_access (sv_libs sv) (job_storage (sv_settings sv) j) w = Inr r" by blast
    then have "known_job (sh_log s') j" using refs_okD(3) [OF ok, of t j] mono(2) by simp
    with o(2,3) show ?thesis unfolding opened_for_def by blast
  qed
  moreover have "opened_for sv (sh_log s') (name (jb_cfg j)) r" if "pc_repo (sh_pc s' u) = Some (j, r)" for u j r
  proof (cases "u = t")
    case True
    with that thread_step_pc_repo [OF m] refs_okD(4,5) [OF ok] mono(3) show ?thesis by metis
  next
    case False
    with that others refs_okD(5) [OF ok] mono(3) show ?thesis by metis
  qed
  moreover have "valid_ref sv s' d e" if "dict_get (sh_cache s') d = Some e" for d e
    using thread_step_cache [OF m that] refs_okD(6) [OF ok, of d e] refs_okD(7) [OF ok, of t _ e] ref by auto
  moreover have "valid_ref sv s' (jb_id j) e" if e: "pc_entry (sh_pc s' u) = Some (j, e)" for u j e
  proof (cases "u = t")
    case True
    with thread_step_entry [OF m] e consider "pc_entry (sh_pc s t) = Some (j, e)" | "dict_get (sh_cache s) (jb_id j) = Some e"
      | l r tip c w where "sh_pc s t = LoadTree j l r tip" "e < List.length (sh_entries s')"
        "LoadedAt (jb_id j) c tip \<in> set (sh_log s')"
        "load_datatree (sv_libs sv) (jb_id j) r (jb_kind j) tip w = Inr (ce_datatree (sh_entries s' ! e))"
      by blast
    then show ?thesis
    proof cases
      case 3
      have "known_job (sh_log s) j" "opened_for sv (sh_log s) (name (jb_cfg j)) r"
        using 3(1) refs_okD(3,5) [OF ok, of t j] by simp_all
      then have "jb_id j \<in> set (ids_of (name (jb_cfg j)))" "opened_for sv (sh_log s') (name (jb_cfg j)) r"
        by (simp_all add: known_job_ids mono(3))
      with 3(3,4) have "tree_for sv (sh_log s') (jb_id j) (ce_datatree (sh_entries s' ! e))"
        unfolding tree_for_def by blast
      with 3(2) show ?thesis by (simp add: valid_ref_def)
    qed (simp_all add: ref refs_okD(6) [OF ok] refs_okD(7) [OF ok])
  next
    case False
    with e others refs_okD(7) [OF ok] ref show ?thesis by metis
  qed
  moreover have "tree_for sv (sh_log s') d dt" if f: "sh_pc s' u = Finished (Tree d) (Answer (Inr (Some dt)))" for u d dt
  proof (cases "u = t")
    case True
    with thread_step_tree [OF m] f obtain j e where "pc_entry (sh_pc s t) = Some (j, e)" "jb_id j = d"
      "ce_datatree (sh_entries s ! e) = dt" by blast
    with refs_okD(7) [OF ok, of t j e] have "tree_for sv (sh_log s) d dt" by (simp add: valid_ref_def)
    then show ?thesis by (rule mono(4))
  next
    case False
    with f others refs_okD(8) [OF ok] mono(4) show ?thesis by metis
  qed
  ultimately show ?thesis unfolding refs_ok_def by blast
qed

lemma refs_ok_outside:
  assumes "refs_ok sv s" "outside_step s s'"
  shows "refs_ok sv s'"
  using assms(2)
proof cases
  case (called t q)
  with assms(1) show ?thesis unfolding refs_ok_def by (simp add: valid_ref_def)
next
  case (ticked c)
  with assms(1) show ?thesis unfolding refs_ok_def by (simp add: valid_ref_def)
next
  case (stored w)
  with assms(1) show ?thesis unfolding refs_ok_def by (simp add: valid_ref_def)
qed

lemma reachable_refs_ok: "reachable sv s \<Longrightarrow> refs_ok sv s"
proof (induction rule: reached_invariant)
  case (start s)
  then show ?case
    by (auto simp: refs_ok_def known_configs_def start_shared_def elim!: at_start.cases)
qed (auto intro: refs_ok_move refs_ok_outside)

lemma load_datatree_id: "load_datatree lib d r k tip w = Inr dt \<Longrightarrow> dt_xpublish_id dt = d"
  by (auto simp: load_datatree_def datatree_of_def andthen_def Let_def split: sum.split_asm if_split_asm)

text \<open>
  A call that goes on: others move, the world changes, the thread's own call takes steps, but
  the thread takes no new call.
\<close>

definition call_step :: "('w, 'r, 's, 'v) service \<Rightarrow> nat \<Rightarrow> ('w, 'r, 'v) shared \<Rightarrow> ('w, 'r, 'v) shared \<Rightarrow> bool" where
  "call_step sv t = interleaved (thread_step sv) (\<lambda>s s'. outside_step s s' \<and> sh_pc s' t = sh_pc s t)"

text \<open>
  The thread's call for \<open>d\<close> read the installed listing at \<open>s1\<close>, and the call is still the one
  that runs, or has just ended, at \<open>s\<close>.
\<close>

definition read_listing ::
  "('w, 'r, 's, 'v) service \<Rightarrow> nat \<Rightarrow> string \<Rightarrow> ('w, 'r, 'v) shared \<Rightarrow> ('w, 'r, 'v) shared \<Rightarrow> bool"
where
  "read_listing sv t d s1 s \<longleftrightarrow>
     reachable sv s1 \<and> (call_step sv t)\<^sup>*\<^sup>* s1 s \<and> sh_pc s1 t \<in> {ReadLocked (Tree d), ReadConfigs (Tree d)}"

lemma read_listing_next: "read_listing sv t d s1 s \<Longrightarrow> call_step sv t s s' \<Longrightarrow> read_listing sv t d s1 s'"
  unfolding read_listing_def by (meson rtranclp.rtrancl_into_rtrancl)

lemma thread_step_returned:
  assumes "thread_step sv t s = Some s'" "sh_pc s' t = Returned q cfgs"
  shows "sh_pc s t \<in> {ReadLocked q, ReadConfigs q} \<and> cfgs = sh_configs s"
  using assms
  by (cases "sh_pc s t")
    (auto simp: thread_step_def release_dataset_def Let_def answer_configs_def split: step_split request.split_asm)

lemma thread_step_none:
  assumes "thread_step sv t s = Some s'" "sh_pc s' t = Finished (Tree d) (Answer (Inr None))"
  shows "\<exists>cfgs. sh_pc s t = Returned (Tree d) cfgs \<and> find_config d cfgs = None"
  using assms
  by (cases "sh_pc s t")
    (auto simp: thread_step_def release_dataset_def Let_def entry_tree_def answer_configs_def
      split: step_split request.split_asm)

definition reads_ok :: "('w, 'r, 's, 'v) service \<Rightarrow> ('w, 'r, 'v) shared \<Rightarrow> nat \<Rightarrow> bool" where
  "reads_ok sv s t \<longleftrightarrow>
     (\<forall>d cfgs. sh_pc s t = Returned (Tree d) cfgs \<longrightarrow> (\<exists>s1. read_listing sv t d s1 s \<and> sh_configs s1 = cfgs)) \<and>
     (\<forall>d. sh_pc s t = Finished (Tree d) (Answer (Inr None)) \<longrightarrow>
        (\<exists>s1. read_listing sv t d s1 s \<and> find_config d (sh_configs s1) = None))"

text \<open>A step that leaves the thread where it is keeps what the thread has read.\<close>

lemma reads_ok_still:
  assumes "reads_ok sv s t" "call_step sv t s s'" "sh_pc s' t = sh_pc s t"
  shows "reads_ok sv s' t"
  using assms read_listing_next [OF _ assms(2)] unfolding reads_ok_def by metis

lemma reads_ok_move:
  assumes "reachable sv s" "reads_ok sv s t" "thread_step sv u s = Some s'"
  shows "reads_ok sv s' t"
proof -
  have c: "call_step sv t s s'" unfolding call_step_def using assms(3) by (rule interleaved.move)
  show ?thesis
  proof (cases "u = t")
    case False
    with thread_step_others [OF assms(3)] c assms(2) show ?thesis by (metis reads_ok_still)
  next
    case True
    with assms(3) have m: "thread_step sv t s = Some s'" by simp
    have "\<exists>s1. read_listing sv t d s1 s' \<and> sh_configs s1 = cfgs" if "sh_pc s' t = Returned (Tree d) cfgs" for d cfgs
    proof -
      from thread_step_returned [OF m that] assms(1) c have "read_listing sv t d s s'" "cfgs = sh_configs s"
        by (simp_all add: read_listing_def)
      then show ?thesis by blast
    qed
    moreover have "\<exists>s1. read_listing sv t d s1 s' \<and> find_config d (sh_configs s1) = None"
      if "sh_pc s' t = Finished (Tree d) (Answer (Inr None))" for d
      using thread_step_none [OF m that] assms(2) read_listing_next [OF _ c] unfolding reads_ok_def by metis
    ultimately show ?thesis unfolding reads_ok_def by blast
  qed
qed

lemma outside_called:
  "outside_step s s' \<Longrightarrow> sh_pc s' t = sh_pc s t \<or> (\<exists>q. sh_pc s' t = Fresh1 q)"
  by (cases rule: outside_step.cases) auto

lemma reads_ok_outside:
  assumes "reads_ok sv s t" "outside_step s s'"
  shows "reads_ok sv s' t"
proof (cases "sh_pc s' t = sh_pc s t")
  case True
  with assms(2) have "call_step sv t s s'" unfolding call_step_def by (blast intro: interleaved.environment)
  then show ?thesis using assms(1) True by (blast intro: reads_ok_still)
next
  case False
  with outside_called [OF assms(2), of t] show ?thesis by (auto simp: reads_ok_def)
qed

lemma reachable_reads_ok: "reachable sv s \<Longrightarrow> reads_ok sv s t"
proof (induction rule: reached_invariant)
  case (start s)
  then show ?case by (auto simp: reads_ok_def start_shared_def elim!: at_start.cases)
qed (auto intro: reads_ok_move reads_ok_outside)

text \<open>C19 Whatever threads run and whatever is evicted, a thread that asked for a dataset is given a
  tree of that dataset: it carries its id, and it was loaded for it, from a snapshot of a repo that
  was opened from the storage of a listed repo of its name.  It is told that the dataset does
  not exist only where, in that very call, it read the installed listing and that listing, the
  one the provider held at the moment of the read, had no repo with the id; it is a listing
  the bucket gave, or the empty one before the first is installed.
\<close>

theorem answers_own_tree:
  assumes "reachable sv s" "sh_pc s t = Finished (Tree d) (Answer (Inr answer))"
  shows "case answer of
      Some dt \<Rightarrow> dt_xpublish_id dt = d \<and> tree_for sv (sh_log s) d dt
    | None \<Rightarrow> \<exists>s1. read_listing sv t d s1 s \<and> d \<notin> listed_ids (set (config_names (sh_configs s1))) \<and>
        (sh_configs s1 = [] \<or> (\<exists>c. ListedAt c (Some (sh_configs s1)) \<in> set (sh_log s1)))"
proof (cases answer)
  case (Some dt)
  with refs_okD(8) [OF reachable_refs_ok [OF assms(1)], of t d dt] assms(2) have "tree_for sv (sh_log s) d dt" by simp
  then show ?thesis using Some load_datatree_id by (auto simp: tree_for_def)
next
  case None
  with reachable_reads_ok [OF assms(1), of t] assms(2) obtain s1 where
    s1: "read_listing sv t d s1 s" "find_config d (sh_configs s1) = None" by (auto simp: reads_ok_def)
  from s1(1) have "known_configs (sh_log s1) (sh_configs s1)"
    using refs_okD(1) [OF reachable_refs_ok, of sv s1] by (simp add: read_listing_def)
  with s1 None show ?thesis by (auto simp: find_config_None known_configs_def)
qed

section \<open>One load in a lifetime\<close>

definition evicted :: "event list \<Rightarrow> string \<Rightarrow> bool" where
  "evicted es d \<longleftrightarrow> (\<exists>names. EvictedNames names \<in> set es \<and> d \<in> set (concat (map ids_of names)))"

lemma evicted_mono: "set es \<subseteq> set es' \<Longrightarrow> evicted es d \<Longrightarrow> evicted es' d"
  by (auto simp: evicted_def)

definition works_on :: "string \<Rightarrow> ('r, 'v) pc \<Rightarrow> bool" where
  "works_on d c \<longleftrightarrow> (\<exists>j l. given_lock c = Some (j, l) \<and> jb_id j = d \<and> holds_dataset c l)"

lemma thread_step_given:
  assumes "thread_step sv t s = Some s'" "given_lock (sh_pc s' t) = Some (j, l)"
  shows "given_lock (sh_pc s t) = Some (j, l) \<or> dict_get (sh_locks s') (jb_id j) = Some l"
  using assms
  by (cases "sh_pc s t") (auto simp: thread_step_def release_dataset_def Let_def split: step_split)

lemma thread_step_sh_locks:
  assumes "thread_step sv t s = Some s'" "\<not> evicted (sh_log s') d" "dict_get (sh_locks s) d = Some l"
  shows "dict_get (sh_locks s') d = Some l"
  using assms
  by (cases "sh_pc s t")
    (auto simp: thread_step_def release_dataset_def Let_def evicted_def fold_dict_pop split: step_split)

text \<open>Until a dataset is evicted, every thread that was given a lock for it was given the same.\<close>

lemma reachable_lock:
  assumes "reachable sv s" "\<not> evicted (sh_log s) d" "given_lock (sh_pc s t) = Some (j, l)" "jb_id j = d"
  shows "dict_get (sh_locks s) d = Some l"
proof -
  from assms(1) have "\<not> evicted (sh_log s) d \<longrightarrow>
    (\<forall>t j l. given_lock (sh_pc s t) = Some (j, l) \<and> jb_id j = d \<longrightarrow> dict_get (sh_locks s) d = Some l)"
  proof (induction rule: reached_invariant)
    case (start s)
    then show ?case by (simp add: at_start_simps)
  next
    case (move s t s')
    note m = move.hyps(2)
    show ?case
    proof (intro impI allI)
      fix u j l
      assume ne: "\<not> evicted (sh_log s') d" and g: "given_lock (sh_pc s' u) = Some (j, l) \<and> jb_id j = d"
      have "set (sh_log s) \<subseteq> set (sh_log s')" using thread_step_log [OF m] by auto
      with ne evicted_mono have "\<not> evicted (sh_log s) d" by blast
      then have old: "given_lock (sh_pc s u) = Some (j, l) \<Longrightarrow> dict_get (sh_locks s') d = Some l"
        using move.IH g thread_step_sh_locks [OF m ne] by blast
      show "dict_get (sh_locks s') d = Some l"
      proof (cases "u = t")
        case True
        with thread_step_given [OF m] g old show ?thesis by metis
      next
        case False
        with g old thread_step_others [OF m] show ?thesis by metis
      qed
    qed
  next
    case (environment s s')
    from environment.hyps(2) environment.IH show ?case by cases auto
  qed
  with assms(2-4) show ?thesis by blast
qed

lemma one_works:
  assumes s: "reachable sv s" and ne: "\<not> evicted (sh_log s) d"
    and w: "works_on d (sh_pc s t)" "works_on d (sh_pc s u)"
  shows "t = u"
proof -
  from w obtain j l j' l' where
    "given_lock (sh_pc s t) = Some (j, l)" "jb_id j = d" "holds_dataset (sh_pc s t) l"
    "given_lock (sh_pc s u) = Some (j', l')" "jb_id j' = d" "holds_dataset (sh_pc s u) l'"
    unfolding works_on_def by blast
  moreover from this have "l = l'" using reachable_lock [OF s ne] by (metis option.inject)
  ultimately show ?thesis using one_holds [OF s] by blast
qed

text \<open>Past the freshness test under the lock, before it, and about to store what was loaded.\<close>

fun tested :: "('r, 'v) pc \<Rightarrow> job option" where
  "tested (OpenTest j _ _) = Some j"
| "tested (WaitRepos j _ _) = Some j"
| "tested (OpenRetest j _ _) = Some j"
| "tested (EnsureRepo j _ _) = Some j"
| "tested (OpenRepo j _ _) = Some j"
| "tested (OpenedRead j _ _) = Some j"
| "tested (LookupTip j _ _ _) = Some j"
| "tested (LoadTree j _ _ _) = Some j"
| "tested _ = None"

fun testing :: "('r, 'v) pc \<Rightarrow> (job \<times> nat) option" where
  "testing (SlowTest j _ e) = Some (j, e)"
| "testing _ = None"

fun storing :: "('r, 'v) pc \<Rightarrow> (job \<times> nat) option" where
  "storing (StoreEntry j _ e) = Some (j, e)"
| "storing _ = None"

lemma phases_work:
  "tested c = Some j \<Longrightarrow> works_on (jb_id j) c"
  "testing c = Some (j, e) \<Longrightarrow> works_on (jb_id j) c"
  "storing c = Some (j, e) \<Longrightarrow> works_on (jb_id j) c"
  by (cases c; auto simp: works_on_def)+

fun load_times :: "string \<Rightarrow> event list \<Rightarrow> rat list" where
  "load_times d [] = []"
| "load_times d (LoadedAt d' c _ # es) = (if d' = d then c # load_times d es else load_times d es)"
| "load_times d (_ # es) = load_times d es"

text \<open>The steps that matter to the loads of a dataset.\<close>

lemma thread_step_load:
  assumes "thread_step sv t s = Some s'"
  shows "load_times d (sh_log s') = load_times d (sh_log s) \<and>
      (\<forall>j e. storing (sh_pc s' t) = Some (j, e) \<longrightarrow> jb_id j \<noteq> d) \<or>
    (\<exists>j. tested (sh_pc s t) = Some j \<and> jb_id j = d \<and>
       load_times d (sh_log s') = sh_clock s # load_times d (sh_log s) \<and>
       storing (sh_pc s' t) = Some (j, List.length (sh_entries s)) \<and>
       checked_at (sh_entries s' ! List.length (sh_entries s)) = sh_clock s)"
  using assms
  by (cases "sh_pc s t")
    (auto simp: thread_step_def release_dataset_def Let_def answer_configs_def
      split: step_split request.split_asm option.split)

lemma thread_step_tested:
  assumes "thread_step sv t s = Some s'" "tested (sh_pc s' t) = Some j"
  shows "tested (sh_pc s t) = Some j \<or>
    dict_get (sh_cache s) (jb_id j) = None \<and> works_on (jb_id j) (sh_pc s t) \<and> storing (sh_pc s t) = None \<or>
    (\<exists>e. testing (sh_pc s t) = Some (j, e) \<and> \<not> serves_entry (sv_settings sv) e s)"
  using assms
  by (cases "sh_pc s t")
    (auto simp: thread_step_def release_dataset_def Let_def answer_configs_def works_on_def
      split: step_split request.split_asm)

lemma thread_step_testing:
  assumes "thread_step sv t s = Some s'" "testing (sh_pc s' t) = Some (j, e)"
  shows "dict_get (sh_cache s') (jb_id j) = Some e"
  using assms
  by (cases "sh_pc s t")
    (auto simp: thread_step_def release_dataset_def Let_def answer_configs_def
      split: step_split request.split_asm)

lemma thread_step_stored:
  assumes "thread_step sv t s = Some s'" "\<not> evicted (sh_log s') d"
  shows "sh_clock s' = sh_clock s \<and>
   (dict_get (sh_cache s') d = dict_get (sh_cache s) d \<and>
      (\<forall>j e. storing (sh_pc s t) = Some (j, e) \<longrightarrow> jb_id j \<noteq> d) \<or>
    (\<exists>j e. storing (sh_pc s t) = Some (j, e) \<and> jb_id j = d \<and> dict_get (sh_cache s') d = Some e))"
  using assms
  by (cases "sh_pc s t")
    (auto simp: thread_step_def release_dataset_def Let_def evicted_def fold_dict_pop split: step_split)

definition load_inv :: "rat \<Rightarrow> string \<Rightarrow> ('w, 'r, 'v) shared \<Rightarrow> bool" where
  "load_inv ttl d s \<longleftrightarrow>
     spaced ttl (load_times d (sh_log s)) \<and>
     (\<forall>t j e. testing (sh_pc s t) = Some (j, e) \<and> jb_id j = d \<longrightarrow> dict_get (sh_cache s) d = Some e) \<and>
     (\<forall>a ts. load_times d (sh_log s) = a # ts \<longrightarrow>
        a \<le> sh_clock s \<and>
        (\<forall>t j. tested (sh_pc s t) = Some j \<and> jb_id j = d \<longrightarrow> a + ttl \<le> sh_clock s) \<and>
        (\<forall>t j e. storing (sh_pc s t) = Some (j, e) \<and> jb_id j = d \<longrightarrow> a \<le> checked_at (sh_entries s ! e)) \<and>
        ((\<forall>t j e. storing (sh_pc s t) = Some (j, e) \<longrightarrow> jb_id j \<noteq> d) \<longrightarrow>
           (\<exists>e. dict_get (sh_cache s) d = Some e \<and> a \<le> checked_at (sh_entries s ! e))))"

lemma load_invD:
  assumes "load_inv ttl d s"
  shows "spaced ttl (load_times d (sh_log s))"
    and "testing (sh_pc s t) = Some (j, e) \<Longrightarrow> jb_id j = d \<Longrightarrow> dict_get (sh_cache s) d = Some e"
    and "load_times d (sh_log s) = a # ts \<Longrightarrow> a \<le> sh_clock s"
    and "load_times d (sh_log s) = a # ts \<Longrightarrow> tested (sh_pc s t) = Some j \<Longrightarrow> jb_id j = d \<Longrightarrow> a + ttl \<le> sh_clock s"
    and "load_times d (sh_log s) = a # ts \<Longrightarrow> storing (sh_pc s t) = Some (j, e) \<Longrightarrow> jb_id j = d \<Longrightarrow>
       a \<le> checked_at (sh_entries s ! e)"
    and "load_times d (sh_log s) = a # ts \<Longrightarrow> \<forall>t j e. storing (sh_pc s t) = Some (j, e) \<longrightarrow> jb_id j \<noteq> d \<Longrightarrow>
       \<exists>e. dict_get (sh_cache s) d = Some e \<and> a \<le> checked_at (sh_entries s ! e)"
  using assms unfolding load_inv_def by blast+

lemma load_invI:
  assumes "spaced ttl (load_times d (sh_log s))"
    and "\<And>t j e. testing (sh_pc s t) = Some (j, e) \<Longrightarrow> jb_id j = d \<Longrightarrow> dict_get (sh_cache s) d = Some e"
    and "\<And>a ts. load_times d (sh_log s) = a # ts \<Longrightarrow> a \<le> sh_clock s"
    and "\<And>a ts t j. load_times d (sh_log s) = a # ts \<Longrightarrow> tested (sh_pc s t) = Some j \<Longrightarrow> jb_id j = d \<Longrightarrow>
       a + ttl \<le> sh_clock s"
    and "\<And>a ts t j e. load_times d (sh_log s) = a # ts \<Longrightarrow> storing (sh_pc s t) = Some (j, e) \<Longrightarrow> jb_id j = d \<Longrightarrow>
       a \<le> checked_at (sh_entries s ! e)"
    and "\<And>a ts. load_times d (sh_log s) = a # ts \<Longrightarrow> \<forall>t j e. storing (sh_pc s t) = Some (j, e) \<longrightarrow> jb_id j \<noteq> d \<Longrightarrow>
       \<exists>e. dict_get (sh_cache s) d = Some e \<and> a \<le> checked_at (sh_entries s ! e)"
  shows "load_inv ttl d s"
  unfolding load_inv_def using assms by (intro conjI allI impI) auto

lemma phase_clash:
  "storing c = Some x \<Longrightarrow> tested c = None \<and> testing c = None"
  by (cases c) simp_all

lemma thread_step_left: "thread_step sv t s = Some s' \<Longrightarrow> storing (sh_pc s t) = Some x \<Longrightarrow> storing (sh_pc s' t) = None"
  by (cases "sh_pc s t") (auto simp: thread_step_def release_dataset_def)

text \<open>While a thread works on a dataset that is not evicted, no other stores an entry of it.\<close>

lemma alone_store:
  assumes "reachable sv s" "\<not> evicted (sh_log s) d" "works_on d (sh_pc s t)" "u \<noteq> t"
    "storing (sh_pc s u) = Some (j, e)"
  shows "jb_id j \<noteq> d"
  using one_works [OF assms(1-3), of u] phases_work(3) [OF assms(5)] assms(4) by blast

lemma entry_later:
  assumes s: "reachable sv s" and m: "thread_step sv t s = Some s'"
    and e: "dict_get (sh_cache s) d = Some e \<or> storing (sh_pc s u) = Some (j, e)"
    and a: "a \<le> checked_at (sh_entries s ! e)" "a \<le> sh_clock s"
  shows "a \<le> checked_at (sh_entries s' ! e)"
proof -
  have "storing (sh_pc s u) = Some (j, e) \<Longrightarrow> pc_entry (sh_pc s u) = Some (j, e)" by (cases "sh_pc s u") simp_all
  then have "\<exists>d. valid_ref sv s d e" using e refs_okD(6,7) [OF reachable_refs_ok [OF s]] by blast
  then have "e < List.length (sh_entries s)" by (auto simp: valid_ref_def)
  from thread_step_entries [OF m this] a show ?thesis by auto
qed

lemma move_testing:
  assumes s: "reachable sv s" and m: "thread_step sv t s = Some s'"
    and ne: "\<not> evicted (sh_log s) d" "\<not> evicted (sh_log s') d" and inv: "load_inv ttl d s"
    and a: "testing (sh_pc s' u) = Some (j, e)" "jb_id j = d"
  shows "dict_get (sh_cache s') d = Some e"
proof (cases "u = t")
  case True
  with thread_step_testing [OF m] a show ?thesis by blast
next
  case False
  then have u: "testing (sh_pc s u) = Some (j, e)" using a(1) thread_step_others [OF m] by simp
  then have w: "works_on d (sh_pc s u)" using phases_work(2) a(2) by blast
  have "storing (sh_pc s t) = Some (j', e') \<Longrightarrow> jb_id j' \<noteq> d" for j' e'
    using alone_store [OF s ne(1) w, of t j' e'] False by simp
  then have "dict_get (sh_cache s') d = dict_get (sh_cache s) d" using thread_step_stored [OF m ne(2)] by blast
  with load_invD(2) [OF inv u a(2)] show ?thesis by simp
qed

text \<open>A thread past the test found no entry, or one whose lifetime is over.\<close>

lemma move_tested:
  assumes s: "reachable sv s" and m: "thread_step sv t s = Some s'" and ne: "\<not> evicted (sh_log s) d"
    and inv: "load_inv (cache_ttl_seconds (sv_settings sv)) d s"
    and L: "load_times d (sh_log s) = a # ts" and tj: "tested (sh_pc s' u) = Some j" "jb_id j = d"
  shows "a + cache_ttl_seconds (sv_settings sv) \<le> sh_clock s"
proof (cases "u = t")
  case False
  with tj thread_step_others [OF m] load_invD(4) [OF inv L] show ?thesis by metis
next
  case True
  note store = alone_store [OF s ne]
  have "tested (sh_pc s t) = Some j \<or>
      dict_get (sh_cache s) d = None \<and> works_on d (sh_pc s t) \<and> storing (sh_pc s t) = None \<or>
      (\<exists>e. testing (sh_pc s t) = Some (j, e) \<and> \<not> serves_entry (sv_settings sv) e s)"
    using thread_step_tested [OF m, of j] tj True by simp
  then consider "tested (sh_pc s t) = Some j"
    | "dict_get (sh_cache s) d = None" "works_on d (sh_pc s t)" "storing (sh_pc s t) = None"
    | e where "testing (sh_pc s t) = Some (j, e)" "\<not> serves_entry (sv_settings sv) e s"
    by (elim disjE exE conjE) simp_all
  then show ?thesis
  proof cases
    case 1
    with load_invD(4) [OF inv L] tj(2) show ?thesis by blast
  next
    case 2
    then have "storing (sh_pc s v) = Some (j', e') \<Longrightarrow> jb_id j' \<noteq> d" for v j' e'
      using store [of t v j' e'] by (cases "v = t") auto
    with load_invD(6) [OF inv L] 2(1) show ?thesis by auto
  next
    case 3
    then have w: "works_on d (sh_pc s t)" using phases_work(2) tj(2) by blast
    have "storing (sh_pc s v) = Some (j', e') \<Longrightarrow> jb_id j' \<noteq> d" for v j' e'
      using store [OF w, of v j' e'] phase_clash [of "sh_pc s v"] 3(1) by (cases "v = t") auto
    with load_invD(6) [OF inv L] load_invD(2) [OF inv 3(1) tj(2)] have "a \<le> checked_at (sh_entries s ! e)" by auto
    with 3(2) show ?thesis by (simp add: serves_entry_def is_checked_def)
  qed
qed

lemma move_storing:
  assumes s: "reachable sv s" and m: "thread_step sv t s = Some s'" and ne': "\<not> evicted (sh_log s') d"
    and inv: "load_inv ttl d s" and L: "load_times d (sh_log s) = a # ts"
    and none: "\<forall>u j e. storing (sh_pc s' u) = Some (j, e) \<longrightarrow> jb_id j \<noteq> d"
  shows "\<exists>e. dict_get (sh_cache s') d = Some e \<and> a \<le> checked_at (sh_entries s' ! e)"
  using thread_step_stored [OF m ne', THEN conjunct2]
proof (elim disjE exE conjE)
  fix j e
  assume sj: "storing (sh_pc s t) = Some (j, e)" "jb_id j = d" "dict_get (sh_cache s') d = Some e"
  with entry_later [OF s m _ load_invD(5) [OF inv L sj(1,2)] load_invD(3) [OF inv L]] show ?thesis by blast
next
  assume c: "dict_get (sh_cache s') d = dict_get (sh_cache s) d"
    "\<forall>j e. storing (sh_pc s t) = Some (j, e) \<longrightarrow> jb_id j \<noteq> d"
  have "\<forall>u j e. storing (sh_pc s u) = Some (j, e) \<longrightarrow> jb_id j \<noteq> d"
    using none c(2) thread_step_others [OF m] by metis
  from load_invD(6) [OF inv L this] c(1) show ?thesis
    using entry_later [OF s m _ _ load_invD(3) [OF inv L]] by metis
qed

lemma load_inv_move:
  assumes s: "reachable sv s" and m: "thread_step sv t s = Some s'"
    and ne': "\<not> evicted (sh_log s') d" and inv: "load_inv (cache_ttl_seconds (sv_settings sv)) d s"
  shows "load_inv (cache_ttl_seconds (sv_settings sv)) d s'"
proof -
  let ?ttl = "cache_ttl_seconds (sv_settings sv)"
  note old = load_invD [OF inv]
  have "set (sh_log s) \<subseteq> set (sh_log s')" using thread_step_log [OF m] by auto
  with ne' evicted_mono have ne: "\<not> evicted (sh_log s) d" by blast
  have clock: "sh_clock s' = sh_clock s" using thread_step_stored [OF m ne'] by simp
  note others = thread_step_others [OF m] and tests = move_testing [OF s m ne ne' inv]
  from thread_step_load [OF m, of d] show ?thesis
  proof (elim disjE exE conjE)
    fix j
    assume j: "tested (sh_pc s t) = Some j" "jb_id j = d"
      "load_times d (sh_log s') = sh_clock s # load_times d (sh_log s)"
      "storing (sh_pc s' t) = Some (j, List.length (sh_entries s))"
      "checked_at (sh_entries s' ! List.length (sh_entries s)) = sh_clock s"
    have w: "works_on d (sh_pc s t)" using phases_work(1) [OF j(1)] j(2) by simp
    have "spaced ?ttl (load_times d (sh_log s'))"
      using old(1) old(4) [OF _ j(1,2)] j(3) by (cases "load_times d (sh_log s)") simp_all
    moreover have "tested (sh_pc s' u) = Some j' \<Longrightarrow> jb_id j' \<noteq> d" for u j'
      using one_works [OF s ne w] phases_work(1) [of "sh_pc s u" j'] others [of u] phase_clash [OF j(4)]
      by (cases "u = t") auto
    moreover have "sh_clock s \<le> checked_at (sh_entries s' ! e)"
      if "storing (sh_pc s' u) = Some (j', e)" "jb_id j' = d" for u j' e
      using alone_store [OF s ne w, of u j' e] others [of u] that j(4,5) by (cases "u = t") auto
    moreover have "\<not> (\<forall>u j' e. storing (sh_pc s' u) = Some (j', e) \<longrightarrow> jb_id j' \<noteq> d)" using j(2,4) by blast
    ultimately show ?thesis by (intro load_invI) (use tests j(3) clock in auto)
  next
    assume q: "load_times d (sh_log s') = load_times d (sh_log s)"
      "\<forall>j e. storing (sh_pc s' t) = Some (j, e) \<longrightarrow> jb_id j \<noteq> d"
    have store: "a \<le> checked_at (sh_entries s' ! e)"
      if L: "load_times d (sh_log s) = a # ts" and sj: "storing (sh_pc s' u) = Some (j, e)" "jb_id j = d" for a ts u j e
    proof -
      have "u \<noteq> t" using q sj by blast
      then have u: "storing (sh_pc s u) = Some (j, e)" using sj(1) others by simp
      from entry_later [OF s m _ old(5) [OF L u sj(2)] old(3) [OF L]] u show ?thesis by blast
    qed
    show ?thesis
      by (rule load_invI)
        (use q(1) clock old(1,3) tests store move_tested [OF s m ne inv] move_storing [OF s m ne' inv] in simp_all)
  qed
qed

lemma load_inv_outside:
  assumes "load_inv ttl d s" "outside_step s s'"
  shows "load_inv ttl d s'"
  using assms(2)
proof cases
  case (called t q)
  then have "testing (sh_pc s' u) = testing (sh_pc s u)" "tested (sh_pc s' u) = tested (sh_pc s u)"
    "storing (sh_pc s' u) = storing (sh_pc s u)" for u
    by auto
  with called assms(1) show ?thesis unfolding load_inv_def by simp
next
  case (ticked c)
  note old = load_invD [OF assms(1)]
  show ?thesis
  proof (rule load_invI)
    fix a ts
    assume "load_times d (sh_log s') = a # ts"
    with ticked have L: "load_times d (sh_log s) = a # ts" by simp
    show "a \<le> sh_clock s'" using old(3) [OF L] ticked by simp
    show "tested (sh_pc s' t) = Some j \<Longrightarrow> jb_id j = d \<Longrightarrow> a + ttl \<le> sh_clock s'" for t j
      using old(4) [OF L, of t j] ticked by simp
    show "storing (sh_pc s' t) = Some (j, e) \<Longrightarrow> jb_id j = d \<Longrightarrow> a \<le> checked_at (sh_entries s' ! e)" for t j e
      using old(5) [OF L, of t j e] ticked by simp
    show "\<forall>t j e. storing (sh_pc s' t) = Some (j, e) \<longrightarrow> jb_id j \<noteq> d \<Longrightarrow>
        \<exists>e. dict_get (sh_cache s') d = Some e \<and> a \<le> checked_at (sh_entries s' ! e)"
      using old(6) [OF L] ticked by simp
  qed (use old(1,2) ticked in simp_all)
next
  case (stored w)
  with assms(1) show ?thesis unfolding load_inv_def by simp
qed

text \<open>C9 Whatever threads run, a dataset is loaded by one thread at a time and at most once in a cache
  lifetime, as long as its repo is not evicted: the loads of a dataset begin at least
  \<open>cache_ttl_seconds\<close> apart.
\<close>

theorem loads_spaced:
  assumes "reachable sv s" "\<not> evicted (sh_log s) d"
  shows "spaced (cache_ttl_seconds (sv_settings sv)) (load_times d (sh_log s)) \<and>
    (\<forall>t u. works_on d (sh_pc s t) \<longrightarrow> works_on d (sh_pc s u) \<longrightarrow> t = u)"
proof -
  from assms(1) have "\<not> evicted (sh_log s) d \<longrightarrow> load_inv (cache_ttl_seconds (sv_settings sv)) d s"
  proof (induction rule: reached_invariant)
    case (start s)
    then show ?case by (simp add: load_inv_def at_start_simps)
  next
    case (move s t s')
    have "set (sh_log s) \<subseteq> set (sh_log s')" using thread_step_log [OF move.hyps(2)] by auto
    then show ?case using load_inv_move [OF move.hyps] move.IH evicted_mono by blast
  next
    case (environment s s')
    have "sh_log s' = sh_log s" using environment.hyps(2) by cases simp_all
    then show ?case using load_inv_outside environment by metis
  qed
  with assms one_works load_invD(1) show ?thesis by blast
qed

section \<open>Concrete runs\<close>

datatype 'w action = Call nat request | Go nat nat | Tick rat | Store 'w

text \<open>\<open>Go t n\<close>: thread \<open>t\<close> makes its next \<open>n\<close> steps.\<close>

fun act :: "('w, 'r, 's, 'v) service \<Rightarrow> 'w action \<Rightarrow> ('w, 'r, 'v) shared \<Rightarrow> ('w, 'r, 'v) shared option" where
  "act sv (Call t q) s = (if pc_rank (sh_pc s t) = 0 then Some (goto t (Fresh1 q) s) else None)"
| "act sv (Go t n) s = run_schedule (thread_step sv) (replicate n t) s"
| "act sv (Tick c) s = (if sh_clock s \<le> c then Some (s\<lparr>sh_clock := c\<rparr>) else None)"
| "act sv (Store w) s = Some (s\<lparr>sh_world := w\<rparr>)"

fun play :: "('w, 'r, 's, 'v) service \<Rightarrow> 'w action list \<Rightarrow> ('w, 'r, 'v) shared \<Rightarrow> ('w, 'r, 'v) shared option" where
  "play sv [] s = Some s"
| "play sv (a # acts) s = (case act sv a s of None \<Rightarrow> None | Some s' \<Rightarrow> play sv acts s')"

lemma act_reachable: "act sv a s = Some s' \<Longrightarrow> reachable sv s \<Longrightarrow> reachable sv s'"
proof (cases a)
  case (Call t q)
  assume "act sv a s = Some s'" and r: "reachable sv s"
  with Call have z: "pc_rank (sh_pc s t) = 0" "s' = goto t (Fresh1 q) s" by (simp_all split: if_split_asm)
  then have "outside_step s s'" using answered_rank [of s t] by (auto simp: answered_def intro: outside_step.called)
  with r show ?thesis by (rule reached_env)
qed (auto intro: reached_schedule reached_env outside_step.intros split: if_split_asm)

lemma play_reachable: "play sv acts s = Some s' \<Longrightarrow> reachable sv s \<Longrightarrow> reachable sv s'"
  by (induction acts arbitrary: s) (auto split: option.split_asm intro: act_reachable)

lemma start_reachable: "reachable sv (start_shared w t)"
  by (blast intro: reached.start at_start.intros)

text \<open>The bucket holds the repo \<open>foo\<close> except while its state is \<open>gone\<close>.\<close>

definition sample_service :: "(exn + string, unit, unit, int) service" where
  "sample_service =
     \<lparr>sv_libs = sample_libs,
      sv_listing = (\<lambda>w. sample_listing (if w = Inr ''gone'' then [] else [''foo''])),
      sv_settings = sample_settings\<rparr>"

abbreviation sample_play :: "(exn + string) action list \<Rightarrow> (exn + string, unit, int) shared option" where
  "sample_play acts \<equiv> play sample_service acts (start_shared (Inr ''s1'') 0)"

lemma sample_reachable: "sample_play acts = Some s \<Longrightarrow> reachable sample_service s"
  by (blast intro: play_reachable start_reachable)


text \<open>
  An eviction beside a call: thread 0 is about to read the repo it found open, is loading the
  tree, or is about to store it, when thread 1 finds that \<open>foo\<close> has gone.
\<close>

definition evict_beside :: "nat \<Rightarrow> (exn + string) action list" where
  "evict_beside n =
     [Call 0 (Tree ''foo''), Go 0 n, Tick 120, Store (Inr ''gone''), Call 1 RepoNames, Go 1 11]"

definition evict_before_read :: "(exn + string) action list" where
  "evict_before_read = [Call 0 (Tree ''foo''), Go 0 22, Tick 60] @ evict_beside 16 @ [Go 0 1]"

definition load_twice :: "(exn + string) action list" where
  "load_twice = evict_beside 20 @ [Tick 240, Store (Inr ''s1''), Call 1 (Tree ''foo''), Go 1 20]"

definition store_evicted :: "(exn + string) action list" where
  "store_evicted = evict_beside 21 @ [Go 0 1]"

lemma played:
  assumes "case sample_play acts of None \<Rightarrow> False | Some s \<Rightarrow> P s"
  shows "\<exists>s. reachable sample_service s \<and> P s"
  using assms sample_reachable by (cases "sample_play acts") auto

fun failed_with :: "('r, 'v) pc \<Rightarrow> exn \<Rightarrow> bool" where
  "failed_with (Finished _ (Answer (Inl e))) e' \<longleftrightarrow> e = e'"
| "failed_with _ _ \<longleftrightarrow> False"

lemma failed_with_iff: "failed_with c e \<longleftrightarrow> (\<exists>q. c = Finished q (Answer (Inl e)))"
  by (cases "(c, e)" rule: failed_with.cases) auto

fun loads :: "('r, 'v) pc \<Rightarrow> string option" where
  "loads (LoadTree j _ _ _) = Some (jb_id j)"
| "loads _ = None"

lemma loads_works: "loads c = Some d \<Longrightarrow> works_on d c"
  by (cases c) (simp_all add: works_on_def)

text \<open>C30 What an eviction beside a call can still do: the call fails with a \<open>KeyError\<close> although the
  repo is only being dropped from a dictionary; two threads load the same dataset at once, the second under a new
  lock; and a tree of a repo that is no longer listed stays in the cache.
\<close>

theorem eviction_races:
  "(\<exists>s q. reachable sample_service s \<and> sh_pc s 0 = Finished q (Answer (Inl (KeyError ''foo'')))) \<and>
   (\<exists>s. reachable sample_service s \<and> loads (sh_pc s 0) = Some ''foo'' \<and> loads (sh_pc s 1) = Some ''foo'') \<and>
   (\<exists>s. reachable sample_service s \<and> answered s 0 \<and> answered s 1 \<and> sh_configs s = [] \<and>
      dict_get (sh_cache s) ''foo'' \<noteq> None)"
proof (intro conjI)
  have "\<exists>s. reachable sample_service s \<and> failed_with (sh_pc s 0) (KeyError ''foo'')"
    by (rule played [where acts = evict_before_read]) code_simp
  then show "\<exists>s q. reachable sample_service s \<and> sh_pc s 0 = Finished q (Answer (Inl (KeyError ''foo'')))"
    by (simp add: failed_with_iff)
  show "\<exists>s. reachable sample_service s \<and> loads (sh_pc s 0) = Some ''foo'' \<and> loads (sh_pc s 1) = Some ''foo''"
    by (rule played [where acts = load_twice]) code_simp
  have "\<exists>s. reachable sample_service s \<and> (pc_rank (sh_pc s 0) = 0 \<and> pc_rank (sh_pc s 1) = 0 \<and> sh_configs s = [] \<and>
      dict_get (sh_cache s) ''foo'' \<noteq> None)"
    by (rule played [where acts = store_evicted]) code_simp
  then show "\<exists>s. reachable sample_service s \<and> answered s 0 \<and> answered s 1 \<and> sh_configs s = [] \<and>
      dict_get (sh_cache s) ''foo'' \<noteq> None"
    by (simp add: answered_rank)
qed

text \<open>Two calls at once, then a third when both lifetimes are over and the branch has moved.\<close>

definition busy :: "(exn + string) action list" where
  "busy =
     [Call 0 (Tree ''foo''), Call 1 (Tree ''foo''), Go 0 1, Go 1 1, Go 0 14, Go 1 6]"

definition reload :: "(exn + string) action list" where
  "reload = [Call 0 (Tree ''foo''), Go 0 22, Tick 60, Store (Inr ''s2''), Call 1 (Tree ''foo''), Go 1 20]"

lemma provider_calls_end_witness:
  "\<exists>s. reachable sample_service s \<and> \<not> answered s 0 \<and> \<not> answered s 1 \<and>
     (\<exists>s'. (moves (thread_step sample_service))\<^sup>*\<^sup>* s s' \<and> answered s' 0 \<and> answered s' 1)"
proof -
  have "\<exists>s. reachable sample_service s \<and> (pc_rank (sh_pc s 0) \<noteq> 0 \<and> pc_rank (sh_pc s 1) \<noteq> 0)"
    by (rule played [where acts = busy]) code_simp
  then obtain s where s: "reachable sample_service s" "\<not> answered s 0" "\<not> answered s 1"
    by (auto simp: answered_rank)
  from provider_calls_end [OF s(1)] s show ?thesis by blast
qed

lemma listings_spaced_witness:
  "\<exists>s. reachable sample_service s \<and> listing_times (sh_log s) = [60, 0] \<and>
     spaced (discovery_ttl_seconds sample_settings) (listing_times (sh_log s))"
proof -
  have "\<exists>s. reachable sample_service s \<and> listing_times (sh_log s) = [60, 0]"
    by (rule played [where acts = reload]) code_simp
  then obtain s where "reachable sample_service s" "listing_times (sh_log s) = [60, 0]" by blast
  with listings_spaced [OF this(1)] show ?thesis by (auto simp: sample_service_def)
qed

lemma loads_spaced_witness:
  "\<exists>s. reachable sample_service s \<and> load_times ''foo'' (sh_log s) = [60, 0] \<and>
     spaced (cache_ttl_seconds sample_settings) (load_times ''foo'' (sh_log s))"
proof -
  have "\<exists>s. reachable sample_service s \<and> (load_times ''foo'' (sh_log s) = [60, 0] \<and>
      filter (\<lambda>e. case e of EvictedNames _ \<Rightarrow> True | _ \<Rightarrow> False) (sh_log s) = [])"
    by (rule played [where acts = reload]) code_simp
  then obtain s where s: "reachable sample_service s" "load_times ''foo'' (sh_log s) = [60, 0]"
    "filter (\<lambda>e. case e of EvictedNames _ \<Rightarrow> True | _ \<Rightarrow> False) (sh_log s) = []" by blast
  from s(3) have "\<not> evicted (sh_log s) ''foo''" by (auto simp: evicted_def filter_empty_conv)
  with s(2) loads_spaced [OF s(1)] show ?thesis using s(1) by (auto simp: sample_service_def)
qed

text \<open>
  The first listing is stamped before it is installed.  A call beside it finds the listing fresh
  and reads the empty one: it is told that \<open>foo\<close> does not exist although the bucket has just
  been found to hold it.
\<close>

definition beside_first_listing :: "(exn + string) action list" where
  "beside_first_listing = [Call 0 (Tree ''foo''), Go 0 5, Call 1 (Tree ''foo''), Go 1 3]"

fun told_unknown :: "('r, 'v) pc \<Rightarrow> string option" where
  "told_unknown (Finished (Tree d) (Answer (Inr None))) = Some d"
| "told_unknown _ = None"

lemma told_unknown_iff: "told_unknown c = Some d \<longleftrightarrow> c = Finished (Tree d) (Answer (Inr None))"
  by (cases c rule: told_unknown.cases) auto

fun listing_of :: "event \<Rightarrow> RepoConfig list option" where
  "listing_of (ListedAt c l) = l"
| "listing_of _ = None"

lemma listing_of_Some: "listing_of e = Some cfgs \<Longrightarrow> \<exists>c. e = ListedAt c (Some cfgs)"
  by (cases e) auto

lemma first_listing_race:
  "\<exists>s c. reachable sample_service s \<and> sh_pc s 1 = Finished (Tree ''foo'') (Answer (Inr None)) \<and>
     ListedAt c (Some [\<lparr>name = ''foo'', rc_bucket = ''b'', rc_prefix = ''icechunk/foo''\<rparr>]) \<in> set (sh_log s)"
proof -
  have "\<exists>s. reachable sample_service s \<and> (told_unknown (sh_pc s 1) = Some ''foo'' \<and>
      map listing_of (sh_log s) = [Some [\<lparr>name = ''foo'', rc_bucket = ''b'', rc_prefix = ''icechunk/foo''\<rparr>]])"
    by (rule played [where acts = beside_first_listing]) code_simp
  then obtain s e where s: "reachable sample_service s" "told_unknown (sh_pc s 1) = Some ''foo''" "sh_log s = [e]"
    "listing_of e = Some [\<lparr>name = ''foo'', rc_bucket = ''b'', rc_prefix = ''icechunk/foo''\<rparr>]" by auto
  from listing_of_Some [OF s(4)] s(1-3) show ?thesis by (auto simp: told_unknown_iff)
qed

fun tree_id :: "('r, 'v) pc \<Rightarrow> string option" where
  "tree_id (Finished (Tree _) (Answer (Inr (Some dt)))) = Some (dt_xpublish_id dt)"
| "tree_id _ = None"

lemma answers_own_tree_witness:
  "(\<exists>s d dt. reachable sample_service s \<and> sh_pc s 1 = Finished (Tree d) (Answer (Inr (Some dt))) \<and>
      dt_xpublish_id dt = d \<and> tree_for sample_service (sh_log s) d dt) \<and>
   (\<exists>s s1. reachable sample_service s \<and> sh_pc s 1 = Finished (Tree ''foo'') (Answer (Inr None)) \<and>
      read_listing sample_service 1 ''foo'' s1 s \<and> ''foo'' \<notin> set (config_names (sh_configs s1)))"
proof -
  have "\<exists>s. reachable sample_service s \<and> tree_id (sh_pc s 1) \<noteq> None"
    by (rule played [where acts = reload]) code_simp
  then obtain s d dt where s: "reachable sample_service s" "sh_pc s 1 = Finished (Tree d) (Answer (Inr (Some dt)))"
    by (auto elim!: tree_id.elims)
  from first_listing_race obtain s' where
    s': "reachable sample_service s'" "sh_pc s' 1 = Finished (Tree ''foo'') (Answer (Inr None))" by blast
  from answers_own_tree [OF s'] obtain s1 where
    "read_listing sample_service 1 ''foo'' s1 s'" "''foo'' \<notin> set (config_names (sh_configs s1))"
    by (auto simp: listed_ids_def ids_of_def)
  with answers_own_tree [OF s] s s' show ?thesis by auto
qed

end
