(* ===== verification/X_Provider_Alone.thy ===== *)
theory X_Provider_Alone
  imports X_Provider_Races
begin

text \<open>
  The program of \<open>X_Provider_Threads\<close> against the one-step operations of \<open>X_Provider\<close>: a call that
  nothing interrupts does in its steps what \<open>get_datatree_for_dataset\<close> does at once.
  \<open>provider_of\<close> reads the provider of \<open>X_Provider\<close> off the shared state.
\<close>

text \<open>What the list of entries is for the ids that refer to it.\<close>

definition cache_of :: "'v cache_entry list \<Rightarrow> (string, nat) dict \<Rightarrow> (string, 'v cache_entry) dict" where
  "cache_of es c = map (\<lambda>(d, e). (d, es ! e)) c"

definition provider_of :: "('w, 'r, 'v) shared \<Rightarrow> ('r, 'v) provider" where
  "provider_of s =
     \<lparr>repo_configs = sh_configs s, discovered_at = sh_discovered s, repos = sh_repos s,
      cache = cache_of (sh_entries s) (sh_cache s)\<rparr>"

lemma cache_of_get [simp]: "dict_get (cache_of es c) d = map_option (\<lambda>e. es ! e) (dict_get c d)"
  by (induction c) (auto simp: cache_of_def)

lemma cache_of_pops [simp]:
  "cache_of es (fold (\<lambda>n d. dict_pop d n) ks c) = fold (\<lambda>n d. dict_pop d n) ks (cache_of es c)"
proof (induction ks arbitrary: c)
  case (Cons k ks)
  have "cache_of es (dict_pop c k) = dict_pop (cache_of es c) k"
    by (induction c) (auto simp: cache_of_def)
  with Cons show ?case by simp
qed simp

lemma provider_of_goto [simp]:
  "provider_of (goto t c s) = provider_of s"
  "serves_entry st e (goto t c s) = serves_entry st e s"
  "entry_tree e (goto t c s) = entry_tree e s"
  by (simp_all add: provider_of_def serves_entry_def entry_tree_def)

abbreviation runs :: "('w, 'r, 's, 'v) service \<Rightarrow> nat \<Rightarrow> ('w, 'r, 'v) shared \<Rightarrow> ('w, 'r, 'v) shared \<Rightarrow> bool" where
  "runs sv \<equiv> alone (thread_step sv)"

lemma runs_step: "thread_step sv t s = Some s1 \<Longrightarrow> runs sv t s1 s' \<Longrightarrow> runs sv t s s'"
  by (rule alone_step)

lemma shared_fresh_of: "shared_fresh st s = repo_configs_fresh st (sh_clock s) (provider_of s)"
  by (simp add: shared_fresh_def repo_configs_fresh_def provider_of_def)

section \<open>Runs of one thread\<close>

lemmas run_simps = thread_step_def numeral_eq_Suc Let_def

lemma refresh_alone:
  fixes s :: "('w, 'r, 'v) shared"
  assumes c: "sh_pc s t = Fresh1 q" "discovery_lock s = None" "repo_lock s = None"
  shows "\<exists>s'. runs sv t s s' \<and> (sh_pc s' t = Returned q (sh_configs s') \<and>
    provider_of s' = refreshed (sv_listing sv (sh_world s)) (sv_settings sv) (\<lambda>_. sh_clock s) (provider_of s) \<and>
    sh_world s' = sh_world s \<and> sh_clock s' = sh_clock s \<and> repo_lock s' = None \<and>
    dataset_lock s' = dataset_lock s \<and> sh_entries s' = sh_entries s)"
proof (cases "shared_fresh (sv_settings sv) s")
  case True
  show ?thesis
    by (rule aloneI [where n = 2])
      (use True c in \<open>simp add: run_simps refreshed_def refresh_repo_configs_def shared_fresh_of\<close>)
next
  case stale: False
  then have stale': "\<not> shared_fresh (sv_settings sv) s'" if "sh_clock s' = sh_clock s" "sh_discovered s' = sh_discovered s" for s' :: "('w, 'r, 'v) shared"
    using stale unfolding shared_fresh_def that by simp
  have nf: "\<not> repo_configs_fresh (sv_settings sv) (sh_clock s) (provider_of s)" using stale by (simp add: shared_fresh_of)
  show ?thesis
  proof (cases "discover_repo_configs (sv_listing sv (sh_world s)) (sv_settings sv)")
    case (Inl e)
    show ?thesis
      by (rule aloneI [where n = 6])
        (use stale stale' nf c Inl in \<open>simp add: run_simps refreshed_def refresh_repo_configs_def provider_of_def\<close>)
  next
    case (Inr cfgs)
    show ?thesis
    proof (cases "sorted_set (filter (\<lambda>n. n \<notin> set (config_names cfgs)) (config_names (sh_configs s))) = []")
      case True
      show ?thesis
        by (rule aloneI [where n = 8])
          (use stale stale' nf c Inr True in \<open>simp add: run_simps refreshed_def refresh_repo_configs_def
              install_configs_def evict_def provider_of_def\<close>)
    next
      case False
      show ?thesis
        by (rule aloneI [where n = 10])
          (use stale stale' nf c Inr False in \<open>simp add: run_simps refreshed_def refresh_repo_configs_def
              install_configs_def evict_def provider_of_def\<close>)
    qed
  qed
qed

lemma cache_of_append: "\<forall>e \<in> snd ` set c. e < List.length es \<Longrightarrow> cache_of (es @ [x]) c = cache_of es c"
  by (induction c) (auto simp: cache_of_def nth_append)

lemma cache_of_set: "cache_of es (dict_set c d e) = dict_set (cache_of es c) d (es ! e)"
  by (induction c) (auto simp: cache_of_def)

lemma cache_of_other: "e \<notin> snd ` set c \<Longrightarrow> cache_of (es[e := x]) c = cache_of es c"
  by (induction c) (auto simp: cache_of_def)

lemma cache_of_update:
  assumes "distinct (map fst c)" "dict_get c d = Some e" "\<And>d'. dict_get c d' = Some e \<Longrightarrow> d' = d"
    "e < List.length es"
  shows "cache_of (es[e := x]) c = dict_set (cache_of es c) d x"
  using assms
proof (induction c)
  case (Cons a c)
  obtain d0 e0 where a: "a = (d0, e0)" by (cases a)
  have other: "d' \<noteq> d0" if "dict_get c d' = Some y" for d' y
    using map_of_SomeD [OF that] Cons.prems(1) a by force
  show ?case
  proof (cases "d0 = d")
    case True
    have "e \<notin> snd ` set c"
    proof
      assume "e \<in> snd ` set c"
      then obtain d' where "(d', e) \<in> set c" by force
      then have g: "dict_get c d' = Some e" using Cons.prems(1) by simp
      then have "dict_get (a # c) d' = Some e" using other [OF g] a by simp
      then have "d' = d" by (rule Cons.prems(3))
      with other [OF g] True show False by simp
    qed
    then have "cache_of (es[e := x]) c = cache_of es c" by (rule cache_of_other)
    moreover have "e0 = e" using Cons.prems(2) a True by simp
    ultimately show ?thesis using Cons.prems(4) a True by (simp add: cache_of_def)
  next
    case False
    have "cache_of (es[e := x]) c = dict_set (cache_of es c) d x"
    proof (rule Cons.IH)
      show "distinct (map fst c)" "e < List.length es" using Cons.prems(1,4) by simp_all
      show "dict_get c d = Some e" using Cons.prems(2) a False by (simp split: if_split_asm)
      show "d' = d" if g: "dict_get c d' = Some e" for d'
        by (rule Cons.prems(3)) (use other [OF g] g a in \<open>simp split: if_split\<close>)
    qed
    moreover have "e0 \<noteq> e" using Cons.prems(3) [of d0] a False by auto
    ultimately show ?thesis using a False by (simp add: cache_of_def)
  qed
qed simp

lemma reachable_distinct: "reachable sv s \<Longrightarrow> distinct (map fst (sh_cache s))"
proof (induction rule: reached_invariant)
  case (start s)
  then show ?case by (simp add: at_start_simps)
next
  case (move s t s')
  have "distinct (map fst (fold (\<lambda>n d. dict_pop d n) ks d))" if "distinct (map fst d)" for ks and d :: "(string, nat) dict"
    using that by (induction ks arbitrary: d) (simp_all add: distinct_delete)
  with move show ?case
    by (cases "sh_pc s t")
      (auto simp: thread_step_def release_dataset_def Let_def distinct_update split: step_split)
next
  case (environment s s')
  from environment.hyps(2) environment.IH show ?case by cases auto
qed

text \<open>No entry is shared by two ids, since a tree carries the id it was loaded for.\<close>

lemma refs_unshared:
  assumes "refs_ok sv s" "dict_get (sh_cache s) d = Some e" "dict_get (sh_cache s) d' = Some e"
  shows "d' = d"
proof -
  have "dt_xpublish_id (ce_datatree (sh_entries s ! e)) = x" if "dict_get (sh_cache s) x = Some e" for x
    using refs_okD(6) [OF assms(1) that] load_datatree_id by (auto simp: valid_ref_def tree_for_def)
  with assms(2,3) show ?thesis by metis
qed

lemma enter_alone:
  assumes "sh_pc s t = FastRead j" "dataset_lock s = (\<lambda>_. None)"
    "\<forall>e. dict_get (sh_cache s) (jb_id j) = Some e \<longrightarrow> \<not> serves_entry (sv_settings sv) e s"
  shows "\<exists>s'. runs sv t s s' \<and> (\<exists>l. sh_pc s' t = OpenTest j l (dict_get (sh_cache s) (jb_id j)) \<and>
    provider_of s' = provider_of s \<and> sh_entries s' = sh_entries s \<and> sh_cache s' = sh_cache s \<and>
    sh_clock s' = sh_clock s \<and> sh_world s' = sh_world s \<and> repo_lock s' = repo_lock s)"
proof (cases "dict_get (sh_cache s) (jb_id j)")
  case None
  show ?thesis
    by (rule aloneI [where n = 4], cases "dict_get (sh_locks s) (jb_id j)")
      (use None assms in \<open>simp_all add: run_simps provider_of_def\<close>)
next
  case (Some e)
  show ?thesis
    by (rule aloneI [where n = 6], cases "dict_get (sh_locks s) (jb_id j)")
      (use Some assms in \<open>simp_all add: run_simps serves_entry_def provider_of_def\<close>)
qed

lemma open_alone:
  assumes c: "sh_pc s t = OpenTest j l eo" "repo_lock s = None"
    and o: "open_repo (sv_libs sv) (sv_settings sv) (jb_cfg j) (provider_of s, sh_world s) = (res, p', w')"
  shows "\<exists>s'. runs sv t s s' \<and> (provider_of s' = p' \<and> sh_world s' = w' \<and> sh_clock s' = sh_clock s \<and>
    sh_cache s' = sh_cache s \<and>
    (case res of
       Inl e \<Rightarrow> sh_pc s' t = Finished (Tree (jb_id j)) (Answer (Inl e))
     | Inr r \<Rightarrow> sh_pc s' t = LookupTip j l eo r))"
proof (cases "dict_get (sh_repos s) (name (jb_cfg j))")
  case (Some r)
  with o have z: "res = Inr r" "p' = provider_of s" "w' = sh_world s" by (simp_all add: open_repo_def provider_of_def)
  show ?thesis by (rule aloneI [where n = 2]) (use Some c z in \<open>simp add: run_simps\<close>)
next
  case none: None
  let ?sg = "job_storage (sv_settings sv) j"
  obtain i w1 where i: "ensure_repo_initialized (sv_libs sv) ?sg (st_branch (sv_settings sv)) (sh_world s) = (i, w1)"
    by (cases "ensure_repo_initialized (sv_libs sv) ?sg (st_branch (sv_settings sv)) (sh_world s)")
  show ?thesis
  proof (cases i)
    case (Inl e)
    with o i none have z: "res = Inl e" "p' = provider_of s" "w' = w1"
      by (simp_all add: open_repo_def provider_of_def job_storage_def)
    show ?thesis
      by (rule aloneI [where n = 4]) (use none i Inl c z in \<open>simp add: run_simps release_dataset_def provider_of_def\<close>)
  next
    case (Inr u)
    show ?thesis
    proof (cases "open_with_virtual_access (sv_libs sv) ?sg w1")
      case (Inl e)
      with o i none Inr have z: "res = Inl e" "p' = provider_of s" "w' = w1"
        by (simp_all add: open_repo_def provider_of_def job_storage_def)
      show ?thesis
        by (rule aloneI [where n = 5])
          (use none i Inr Inl c z in \<open>simp add: run_simps release_dataset_def provider_of_def\<close>)
    next
      case opened: (Inr r)
      with o i none Inr have z: "res = Inr r" "w' = w1"
        "p' = (provider_of s)\<lparr>repos := dict_set (sh_repos s) (name (jb_cfg j)) r\<rparr>"
        by (simp_all add: open_repo_def provider_of_def job_storage_def)
      show ?thesis
        by (rule aloneI [where n = 6]) (use none i Inr opened c z in \<open>simp add: run_simps provider_of_def\<close>)
    qed
  qed
qed

lemma restamp_alone:
  assumes c: "sh_pc s t = Restamp j l e" and e: "dict_get (sh_cache s) (jb_id j) = Some e"
    and ok: "refs_ok sv s" "distinct (map fst (sh_cache s))"
  shows "\<exists>s'. runs sv t s s' \<and> (sh_pc s' t = Finished (Tree (jb_id j)) (Answer (entry_tree e s)) \<and>
    provider_of s' = restamp (jb_id j) (sh_entries s ! e) (sh_clock s) (provider_of s) \<and> sh_world s' = sh_world s)"
proof -
  have "e < List.length (sh_entries s)" using refs_okD(6) [OF ok(1) e] by (simp add: valid_ref_def)
  then have "cache_of ((sh_entries s)[e := x]) (sh_cache s) = dict_set (cache_of (sh_entries s) (sh_cache s)) (jb_id j) x" for x
    using cache_of_update [OF ok(2) e] refs_unshared [OF ok(1) e] by blast
  then show ?thesis
    by (intro aloneI [where n = 1])
      (use c in \<open>simp add: run_simps release_dataset_def restamp_def provider_of_def entry_tree_def\<close>)
qed

lemma load_alone:
  assumes c: "sh_pc s t = LoadTree j l r tip" and ok: "refs_ok sv s" "distinct (map fst (sh_cache s))"
    and ld: "load_datatree (sv_libs sv) (jb_id j) r (jb_kind j) tip (sh_world s) = ld"
  shows "\<exists>s'. runs sv t s s' \<and> (sh_world s' = sh_world s \<and>
    (case ld of
       Inl e \<Rightarrow> sh_pc s' t = Finished (Tree (jb_id j)) (Answer (Inl e)) \<and> provider_of s' = provider_of s
     | Inr dt \<Rightarrow> sh_pc s' t = Finished (Tree (jb_id j)) (Answer (Inr (Some dt))) \<and>
         provider_of s' = (provider_of s)\<lparr>cache := dict_set (cache (provider_of s)) (jb_id j)
            \<lparr>ce_datatree = dt, snapshot_id = tip, checked_at = sh_clock s\<rparr>\<rparr>))"
proof (cases ld)
  case (Inl e)
  show ?thesis by (rule aloneI [where n = 1]) (use c ld Inl in \<open>simp add: run_simps release_dataset_def provider_of_def\<close>)
next
  case (Inr dt)
  have "\<forall>e \<in> snd ` set (sh_cache s). e < List.length (sh_entries s)"
  proof
    fix e
    assume "e \<in> snd ` set (sh_cache s)"
    then obtain d where "dict_get (sh_cache s) d = Some e" using ok(2) by force
    from refs_okD(6) [OF ok(1) this] show "e < List.length (sh_entries s)" by (simp add: valid_ref_def)
  qed
  then show ?thesis
    by (intro aloneI [where n = 2])
      (use c ld Inr in \<open>simp add: run_simps release_dataset_def entry_tree_def provider_of_def cache_of_set cache_of_append\<close>)
qed

lemma revalidate_alone:
  assumes c: "sh_pc s t = LookupTip j l (dict_get (sh_cache s) (jb_id j)) r"
    and ok: "refs_ok sv s" "distinct (map fst (sh_cache s))"
    and v: "revalidate (sv_libs sv) (sv_settings sv) (jb_id j) (jb_kind j) r (sh_clock s) (provider_of s) (sh_world s) =
      (res, p')"
  shows "\<exists>s'. runs sv t s s' \<and> (sh_pc s' t = Finished (Tree (jb_id j)) (Answer (map_sum id Some res)) \<and>
    provider_of s' = p' \<and> sh_world s' = sh_world s)"
proof -
  let ?d = "jb_id j" and ?tip = "lib_lookup_branch (sv_libs sv) r (st_branch (sv_settings sv)) (sh_world s)"
  consider e where "?tip = Inl e" "dict_get (sh_cache s) ?d = None"
    | en where "dict_get (sh_cache s) ?d = Some en" "\<forall>tip. ?tip = Inr tip \<longrightarrow> snapshot_id (sh_entries s ! en) = tip"
    | tip where "?tip = Inr tip" "\<forall>en. dict_get (sh_cache s) ?d = Some en \<longrightarrow> snapshot_id (sh_entries s ! en) \<noteq> tip"
    by (cases ?tip; cases "dict_get (sh_cache s) ?d") auto
  then show ?thesis
  proof cases
    case 1
    with v have "res = Inl e" "p' = provider_of s" by (simp_all add: revalidate_def provider_of_def)
    with 1 c show ?thesis
      by (intro aloneI [where n = 1]) (simp add: run_simps release_dataset_def provider_of_def)
  next
    case 2
    let ?s = "goto t (Restamp j l en) s"
    have st: "thread_step sv t s = Some ?s" using c 2 by (cases ?tip) (simp_all add: thread_step_def)
    have "\<exists>s'. runs sv t ?s s' \<and> (sh_pc s' t = Finished (Tree ?d) (Answer (entry_tree en ?s)) \<and>
        provider_of s' = restamp ?d (sh_entries ?s ! en) (sh_clock ?s) (provider_of ?s) \<and> sh_world s' = sh_world ?s)"
      by (rule restamp_alone) (use 2(1) ok(2) refs_ok_move [OF ok(1) st] in simp_all)
    moreover have "res = Inr (ce_datatree (sh_entries s ! en))"
      "p' = restamp ?d (sh_entries s ! en) (sh_clock s) (provider_of s)"
      using v 2 by (cases ?tip; simp add: revalidate_def provider_of_def)+
    ultimately show ?thesis using runs_step [OF st] by (auto simp: entry_tree_def)
  next
    case 3
    let ?s = "goto t (LoadTree j l r tip) s"
    let ?ld = "load_datatree (sv_libs sv) ?d r (jb_kind j) tip (sh_world s)"
    have st: "thread_step sv t s = Some ?s" using c 3 by (cases "dict_get (sh_cache s) ?d") (simp_all add: thread_step_def)
    obtain s' where s': "runs sv t ?s s'" "sh_world s' = sh_world ?s"
      "case ?ld of
         Inl e \<Rightarrow> sh_pc s' t = Finished (Tree ?d) (Answer (Inl e)) \<and> provider_of s' = provider_of ?s
       | Inr dt \<Rightarrow> sh_pc s' t = Finished (Tree ?d) (Answer (Inr (Some dt))) \<and>
           provider_of s' = (provider_of ?s)\<lparr>cache := dict_set (cache (provider_of ?s)) ?d
              \<lparr>ce_datatree = dt, snapshot_id = tip, checked_at = sh_clock ?s\<rparr>\<rparr>"
      using load_alone [of ?s t j l r tip sv ?ld] ok(2) refs_ok_move [OF ok(1) st] by auto
    have "(res, p') = (case ?ld of
        Inl e \<Rightarrow> (Inl e, provider_of s)
      | Inr dt \<Rightarrow> (Inr dt, (provider_of s)\<lparr>cache := dict_set (cache (provider_of s)) ?d
          \<lparr>ce_datatree = dt, snapshot_id = tip, checked_at = sh_clock s\<rparr>\<rparr>))"
      unfolding v [symmetric] using 3
      by (cases "dict_get (sh_cache s) ?d"; cases ?ld) (simp_all add: revalidate_def provider_of_def)
    then have "sh_pc s' t = Finished (Tree ?d) (Answer (map_sum id Some res)) \<and> provider_of s' = p' \<and> sh_world s' = sh_world s"
      using s'(2,3) by (cases ?ld) simp_all
    with runs_step [OF st s'(1)] show ?thesis by blast
  qed
qed


lemma runs_reachable: "runs sv t s s' \<Longrightarrow> reachable sv s \<Longrightarrow> reachable sv s'"
  by (auto simp: alone_def intro: reached_schedule)

lemma idle_locks:
  assumes s: "reachable sv s" and a: "\<forall>u. answered s u"
  shows "discovery_lock s = None" "repo_lock s = None" "dataset_lock s = (\<lambda>_. None)"
proof -
  have "\<not> holds_discovery (sh_pc s u) \<and> \<not> holds_repos (sh_pc s u) \<and> \<not> holds_dataset (sh_pc s u) l" for u l
    using a [THEN spec, of u] by (auto simp: answered_def)
  then show "discovery_lock s = None" "repo_lock s = None" "dataset_lock s = (\<lambda>_. None)"
    using discovery_mutex.held [OF s] repos_mutex.held [OF s] dataset_mutex.held [OF s] by blast+
qed

lemma cfg_alone:
  assumes "refreshed listing st now p = provider_of s"
  shows "cfg_for_dataset_id listing st now d p = (find_config d (sh_configs s), provider_of s)"
  by (simp add: cfg_for_dataset_id_def assms Let_def) (simp add: provider_of_def)

text \<open>From the freshness test on, past discovery.\<close>

lemma serve_alone:
  assumes s: "reachable sv s" and c: "sh_pc s t = FastRead j" "repo_lock s = None" "dataset_lock s = (\<lambda>_. None)"
    and p: "refreshed (sv_listing sv wd) (sv_settings sv) (\<lambda>_. sh_clock s) p = provider_of s"
    and f: "find_config (jb_id j) (sh_configs s) = Some (jb_cfg j, jb_kind j)"
    and g: "get_datatree_for_dataset (sv_libs sv) (sv_listing sv wd) (sv_settings sv) (\<lambda>_. sh_clock s) (jb_id j)
      (p, sh_world s) = (r, p', w')"
  shows "\<exists>s'. runs sv t s s' \<and> (sh_pc s' t = Finished (Tree (jb_id j)) (Answer r) \<and> provider_of s' = p' \<and> sh_world s' = w')"
proof -
  let ?d = "jb_id j" and ?st = "sv_settings sv"
  have find: "cfg_for_dataset_id (sv_listing sv wd) ?st (\<lambda>_. sh_clock s) ?d p = (Some (jb_cfg j, jb_kind j), provider_of s)"
    using f cfg_alone [OF p] by simp
  show ?thesis
  proof (cases "\<exists>e. dict_get (sh_cache s) ?d = Some e \<and> serves_entry ?st e s")
    case True
    then obtain e where e: "dict_get (sh_cache s) ?d = Some e" "serves_entry ?st e s" by blast
    with g find have "r = entry_tree e s" "p' = provider_of s" "w' = sh_world s"
      by (simp_all add: get_datatree_for_dataset_def provider_of_def serves_entry_def entry_tree_def)
    then show ?thesis
      by (intro aloneI [where n = 2]) (use c e in \<open>simp add: run_simps\<close>)
  next
    case False
    then obtain s1 l where s1: "runs sv t s s1" "sh_pc s1 t = OpenTest j l (dict_get (sh_cache s) ?d)"
      "provider_of s1 = provider_of s" "sh_cache s1 = sh_cache s" "sh_clock s1 = sh_clock s"
      "sh_world s1 = sh_world s" "repo_lock s1 = None"
      using enter_alone [OF c(1,3), of sv] c(2) by auto
    obtain res p2 w2 where o: "open_repo (sv_libs sv) ?st (jb_cfg j) (provider_of s1, sh_world s1) = (res, p2, w2)"
      by (cases "open_repo (sv_libs sv) ?st (jb_cfg j) (provider_of s1, sh_world s1)")
    from open_alone [OF s1(2,7) o] obtain s2 where s2: "runs sv t s1 s2" "provider_of s2 = p2" "sh_world s2 = w2"
      "sh_clock s2 = sh_clock s" "sh_cache s2 = sh_cache s"
      "case res of Inl e \<Rightarrow> sh_pc s2 t = Finished (Tree ?d) (Answer (Inl e))
        | Inr r \<Rightarrow> sh_pc s2 t = LookupTip j l (dict_get (sh_cache s) ?d) r"
      using s1 by auto
    have to2: "runs sv t s s2" using s1(1) s2(1) by (rule alone_trans)
    have slow: "get_datatree_for_dataset (sv_libs sv) (sv_listing sv wd) ?st (\<lambda>_. sh_clock s) ?d (p, sh_world s) =
        (case res of Inl e \<Rightarrow> (Inl e, p2, w2)
         | Inr repo \<Rightarrow> (case revalidate (sv_libs sv) ?st ?d (jb_kind j) repo (sh_clock s) p2 w2 of
             (r, p3) \<Rightarrow> (map_sum id Some r, p3, w2)))"
      using False find o s1(3,6)
      by (auto simp: get_datatree_for_dataset_def provider_of_def serves_entry_def split: sum.split)
    show ?thesis
    proof (cases res)
      case (Inl e)
      with g slow s2 to2 show ?thesis by auto
    next
      case (Inr repo)
      obtain x p3 where v: "revalidate (sv_libs sv) ?st ?d (jb_kind j) repo (sh_clock s2) (provider_of s2) (sh_world s2) = (x, p3)"
        by (cases "revalidate (sv_libs sv) ?st ?d (jb_kind j) repo (sh_clock s2) (provider_of s2) (sh_world s2)")
      have r2: "reachable sv s2" using to2 s by (rule runs_reachable)
      have "sh_pc s2 t = LookupTip j l (dict_get (sh_cache s2) ?d) repo" using s2(5,6) Inr by simp
      from revalidate_alone [OF this reachable_refs_ok [OF r2] reachable_distinct [OF r2] v]
      obtain s3 where s3: "runs sv t s2 s3" "sh_pc s3 t = Finished (Tree ?d) (Answer (map_sum id Some x))"
        "provider_of s3 = p3" "sh_world s3 = sh_world s2" by blast
      have "r = map_sum id Some x" "p' = p3" "w' = w2" using g slow Inr v s2(2-4) by simp_all
      with s3 s2(3) alone_trans [OF to2 s3(1)] show ?thesis by blast
    qed
  qed
qed

text \<open>C29 The interleaved program is the sequential one run in steps: where no call is open, a thread that
  asks for a dataset and is not interrupted ends with exactly the answer, the provider and the
  store that \<open>get_datatree_for_dataset\<close> gives in one step.
\<close>

theorem alone_is_sequential:
  assumes s: "reachable sv s" and idle: "\<forall>u. answered s u"
    and g: "get_datatree_for_dataset (sv_libs sv) (sv_listing sv (sh_world s)) (sv_settings sv) (\<lambda>_. sh_clock s) d
      (provider_of s, sh_world s) = (r, p', w')"
  shows "\<exists>s'. runs sv t (goto t (Fresh1 (Tree d)) s) s' \<and>
    (sh_pc s' t = Finished (Tree d) (Answer r) \<and> provider_of s' = p' \<and> sh_world s' = w')"
proof -
  let ?s0 = "goto t (Fresh1 (Tree d)) s"
  note locks = idle_locks [OF s idle]
  have r0: "reachable sv ?s0"
    by (rule reached_env [OF s outside_step.called]) (use idle in \<open>simp add: answered_def\<close>)
  from refresh_alone [of ?s0 t "Tree d" sv] locks obtain s1 where s1: "runs sv t ?s0 s1"
    "sh_pc s1 t = Returned (Tree d) (sh_configs s1)"
    "refreshed (sv_listing sv (sh_world s)) (sv_settings sv) (\<lambda>_. sh_clock s1) (provider_of s) = provider_of s1"
    "sh_world s1 = sh_world s" "sh_clock s1 = sh_clock s" "repo_lock s1 = None" "dataset_lock s1 = (\<lambda>_. None)"
    by auto
  have r1: "reachable sv s1" using s1(1) r0 by (rule runs_reachable)
  show ?thesis
  proof (cases "find_config d (sh_configs s1)")
    case None
    with g s1(5) cfg_alone [OF s1(3), of d] have "r = Inr None" "p' = provider_of s1" "w' = sh_world s"
      by (simp_all add: get_datatree_for_dataset_def)
    moreover have "\<exists>s'. runs sv t s1 s' \<and> (sh_pc s' t = Finished (Tree d) (Answer (Inr None)) \<and>
        provider_of s' = provider_of s1 \<and> sh_world s' = sh_world s1)"
      by (rule aloneI [where n = 1]) (use s1(2) None in \<open>simp add: run_simps answer_configs_def\<close>)
    ultimately show ?thesis using alone_trans [OF s1(1)] s1(4) by auto
  next
    case (Some ck)
    then obtain cfg k where f: "find_config d (sh_configs s1) = Some (cfg, k)" by (cases ck) auto
    let ?j = "\<lparr>jb_id = d, jb_cfg = cfg, jb_kind = k\<rparr>" and ?s2 = "goto t (FastRead \<lparr>jb_id = d, jb_cfg = cfg, jb_kind = k\<rparr>) s1"
    have st: "thread_step sv t s1 = Some ?s2" using s1(2) f by (simp add: thread_step_def answer_configs_def)
    have "\<exists>s'. runs sv t ?s2 s' \<and> (sh_pc s' t = Finished (Tree (jb_id ?j)) (Answer r) \<and>
        provider_of s' = p' \<and> sh_world s' = w')"
      by (rule serve_alone [where wd = "sh_world s" and p = "provider_of s"])
        (use reached_move [OF r1 st] s1 f g in simp_all)
    then show ?thesis using alone_trans [OF s1(1) runs_step [OF st]] by auto
  qed
qed

lemma alone_is_sequential_witness:
  "\<exists>s' dt p'. sample_get 0 ''foo'' (init_provider, Inr ''s1'') = (Inr (Some dt), p', Inr ''s1'') \<and>
     runs sample_service 0 (goto 0 (Fresh1 (Tree ''foo'')) (start_shared (Inr ''s1'') 0)) s' \<and>
     sh_pc s' 0 = Finished (Tree ''foo'') (Answer (Inr (Some dt))) \<and> provider_of s' = p'"
proof -
  have "case sample_get 0 ''foo'' (init_provider, Inr ''s1'') of (Inr (Some _), _, Inr s) \<Rightarrow> s = ''s1'' | _ \<Rightarrow> False"
    by code_simp
  then obtain dt p' where g: "sample_get 0 ''foo'' (init_provider, Inr ''s1'') = (Inr (Some dt), p', Inr ''s1'')"
    by (auto split: prod.split_asm sum.split_asm option.split_asm)
  let ?s = "start_shared (Inr ''s1'') 0 :: (exn + string, unit, int) shared"
  have "\<forall>u. answered ?s u" by (simp add: answered_def start_shared_def)
  moreover have "provider_of ?s = init_provider" by (simp add: provider_of_def start_shared_def init_provider_def cache_of_def)
  ultimately show ?thesis
    using alone_is_sequential [OF start_reachable, of "Inr ''s1''" 0 sample_service "''foo''" "Inr (Some dt)" p' "Inr ''s1''" 0] g
    by (auto simp: sample_get_def sample_service_def start_shared_def)
qed

end
