(* ===== verification/Icechunk_Access.thy ===== *)
theory Icechunk_Access
  imports X_Main
begin

text \<open>
  The notebook client (\<open>jupyterhub-docker/icechunk_access/icechunk_access.py\<close>): what a user's notebook asks of
  the xpublish service, the credential callback Icechunk renews with, and the opening of a
  repo and of its written data.  The HTTP client, the token refresh, Icechunk and zarr are
  parameters; a response body is the record the credential route answers with.
\<close>

section \<open>Errors\<close>

datatype access_error =
    SessionExpiredError
  | PermissionError string
  | RequestsHTTPError int
  | Raised exn

text \<open>The token refresh: a token, a \<open>RuntimeError\<close>, a \<open>RequestException\<close>, or something else.\<close>

datatype refresh = FreshToken string | RefreshRuntimeError | RefreshRequestException | RefreshRaised exn

section \<open>Settings\<close>

text \<open>What the module reads of the environment when it is imported.\<close>

definition XPUBLISH_API_URL :: "env \<Rightarrow> string" where
  "XPUBLISH_API_URL env = rstrip_char (CHR ''/'') (env_text env ''XPUBLISH_API_URL'' ''http://xpublish-api:8000'')"

definition USE_STS :: "env \<Rightarrow> bool" where
  "USE_STS env \<longleftrightarrow> lower (strip (env_text env ''ICECHUNK_USE_STS'' ''false'')) = ''true''"

section \<open>Requests\<close>

definition EXPIRY_MARGIN :: rat where
  "EXPIRY_MARGIN = 60"

definition notebook_token :: "refresh \<Rightarrow> access_error + string" where
  "notebook_token r =
     (case r of
        FreshToken t \<Rightarrow> Inr t
      | RefreshRuntimeError \<Rightarrow> Inl SessionExpiredError
      | RefreshRequestException \<Rightarrow> Inl SessionExpiredError
      | RefreshRaised e \<Rightarrow> Inl (Raised e))"

text \<open>A request by method, path and bearer token; its answer has a status and a decoded body.\<close>

type_synonym 'b requests = "string \<Rightarrow> string \<Rightarrow> string \<Rightarrow> exn + int \<times> 'b"

text \<open>\<open>requests.request\<close> by method, address and headers, under the module's address and a token.\<close>

definition service_requests ::
  "env \<Rightarrow> (string \<Rightarrow> string \<Rightarrow> (string \<times> string) list \<Rightarrow> exn + int \<times> 'b) \<Rightarrow> 'b requests"
where
  "service_requests env request meth path token =
     request meth (XPUBLISH_API_URL env @ path) [(''Authorization'', ''Bearer '' @ token)]"

definition xpublish :: "refresh \<Rightarrow> 'b requests \<Rightarrow> string \<Rightarrow> string \<Rightarrow> access_error + 'b" where
  "xpublish r request meth path =
     andthen (notebook_token r) (\<lambda>token.
       case request meth path token of
         Inl e \<Rightarrow> Inl (Raised e)
       | Inr (status, body) \<Rightarrow>
           if status = 401 then Inl SessionExpiredError
           else if 400 \<le> status \<and> status < 600 then Inl (RequestsHTTPError status)
           else Inr body)"

definition request_credentials ::
  "refresh \<Rightarrow> IcechunkCredentialsResponse requests \<Rightarrow> access_error + IcechunkCredentialsResponse"
where
  "request_credentials r request = xpublish r request ''POST'' ''/api/auth/icechunk-credentials''"

definition list_icechunk_repos :: "refresh \<Rightarrow> string list requests \<Rightarrow> access_error + string list" where
  "list_icechunk_repos r request = xpublish r request ''GET'' ''/api/dataset-keys''"

section \<open>The credential callback\<close>

record S3StaticCredentials =
  sc_access_key_id :: string
  sc_secret_access_key :: string
  sc_session_token :: string
  expires_after :: rat

text \<open>A body with credentials and no expiry makes \<open>fromtimestamp\<close> raise \<open>TypeError\<close>.\<close>

definition static_credentials :: "IcechunkCredentialsResponse \<Rightarrow> access_error + S3StaticCredentials" where
  "static_credentials body =
     (case ir_credentials body of
        None \<Rightarrow> Inl (PermissionError ''xpublish-api issued no credentials: you may not read any Icechunk repo'')
      | Some c \<Rightarrow>
          (case ir_expires_at body of
             None \<Rightarrow> Inl (Raised TypeError)
           | Some expires_at \<Rightarrow>
               Inr \<lparr>sc_access_key_id = access_key_id c, sc_secret_access_key = secret_access_key c,
                    sc_session_token = session_token c, expires_after = of_int expires_at - EXPIRY_MARGIN\<rparr>))"

definition about_to_expire :: "IcechunkCredentialsResponse \<Rightarrow> rat \<Rightarrow> bool" where
  "about_to_expire body now =
     (case ir_expires_at body of None \<Rightarrow> True | Some t \<Rightarrow> of_int t - now \<le> EXPIRY_MARGIN)"

definition call_credentials ::
  "IcechunkCredentialsResponse \<Rightarrow> rat \<Rightarrow> refresh \<Rightarrow> IcechunkCredentialsResponse requests
     \<Rightarrow> access_error + S3StaticCredentials"
where
  "call_credentials initial now r request =
     andthen (if about_to_expire initial now then request_credentials r request else Inr initial) static_credentials"

section \<open>Opening\<close>

text \<open>The storage a repo is opened on: renewing credentials, or the notebook's own keys.\<close>

datatype notebook_storage =
    RenewedStorage string string "string option" IcechunkCredentialsResponse
  | OwnKeysStorage string string "string option" "string option"

definition notebook_region :: "env \<Rightarrow> string option" where
  "notebook_region env =
     (case nonempty (env ''AWS_REGION'') of Some v \<Rightarrow> Some v | None \<Rightarrow> env ''AWS_DEFAULT_REGION'')"

definition notebook_storage_of ::
  "env \<Rightarrow> bool \<Rightarrow> IcechunkCredentialsResponse \<Rightarrow> string \<Rightarrow> notebook_storage"
where
  "notebook_storage_of env use_sts body pfx =
     (if use_sts then RenewedStorage (ir_bucket body) pfx (notebook_region env) body
      else OwnKeysStorage (ir_bucket body) pfx (notebook_region env) (nonempty (env ''REMOTE_CATALOG_S3_ENDPOINT'')))"

text \<open>The module's own copy of the provider's function, scheme by scheme.\<close>

definition client_anonymous_credentials :: "string \<Rightarrow> credential option" where
  "client_anonymous_credentials url_prefix =
     (let scheme = before_text ''://'' url_prefix
      in if scheme = ''http'' \<or> scheme = ''https'' then Some HttpAccess
         else if scheme = ''gs'' \<or> scheme = ''gcs'' then Some GcsAnonymous
         else if scheme = ''s3'' then Some S3Anonymous
         else None)"

lemma client_anonymous_same: "client_anonymous_credentials = anonymous_credentials"
  by (simp add: fun_eq_iff client_anonymous_credentials_def anonymous_credentials_def url_scheme_def Let_def)

record 'r repo_lib =
  rl_fetch_containers :: "notebook_storage \<Rightarrow> exn + string list option"
  rl_open :: "notebook_storage \<Rightarrow> (string \<times> credential option) list \<Rightarrow> exn + 'r"

definition lift_exn :: "exn + 'a \<Rightarrow> access_error + 'a" where
  "lift_exn m = map_sum Raised id m"

definition open_icechunk_repo ::
  "env \<Rightarrow> bool \<Rightarrow> 'r repo_lib \<Rightarrow> refresh \<Rightarrow> IcechunkCredentialsResponse requests \<Rightarrow> string \<Rightarrow> access_error + 'r"
where
  "open_icechunk_repo env use_sts lib r request n =
     andthen (request_credentials r request) (\<lambda>body.
       if n \<notin> set (ir_repos body)
       then Inl (PermissionError (''You may not read Icechunk repo '' @ [CHR 0x27] @ n @ [CHR 0x27]))
       else
         (let sg = notebook_storage_of env use_sts body (ir_prefix body @ ''/'' @ n)
          in andthen (lift_exn (rl_fetch_containers lib sg)) (\<lambda>found.
               lift_exn (rl_open lib sg
                 (map (\<lambda>pfx. (pfx, client_anonymous_credentials pfx)) (case found of None \<Rightarrow> [] | Some cs \<Rightarrow> cs))))))"

section \<open>Written data\<close>

text \<open>Selection along one dimension by a mask: every array that has the dimension is cut.\<close>

definition isel_array :: "string \<Rightarrow> bool list \<Rightarrow> 'v array \<Rightarrow> 'v array" where
  "isel_array d bs a =
     (if d \<notin> set (dims a) then a
      else let axis = axis_of d (dims a)
           in a\<lparr>shape := (shape a)[axis := length (filter id bs)],
                cells := map ((!) (cells a)) (filter (\<lambda>j. bs ! axis_index (shape a) axis j) [0..<length (cells a)])\<rparr>)"

definition isel :: "string \<Rightarrow> bool list \<Rightarrow> 'v dataset \<Rightarrow> exn + 'v dataset" where
  "isel d bs ds =
     (if d \<notin> ds_dims ds then Inl (ValueError ''Dimensions do not exist'')
      else Inr \<lparr>data_vars = map (\<lambda>(n, a). (n, isel_array d bs a)) (data_vars ds),
                coords = map (\<lambda>(n, a). (n, isel_array d bs a)) (coords ds)\<rparr>)"

text \<open>
  \<open>open_icechunk_dataset\<close> from an opened group on.  A status that is not recorded along the
  append dimension gives one truth value for the whole grid; \<open>isel_scalar\<close> is what xarray makes
  of that.
\<close>

definition append_dim_of :: "(string, json) dict \<Rightarrow> json" where
  "append_dim_of kvs = dict_get_default kvs ''append_dim'' (JStr ''time'')"

definition written_dataset ::
  "'v numpy \<Rightarrow> ('v dataset \<Rightarrow> json \<Rightarrow> bool \<Rightarrow> exn + 'v dataset) \<Rightarrow> json \<Rightarrow> bool \<Rightarrow> 'v dataset \<Rightarrow> exn + 'v dataset"
where
  "written_dataset np isel_scalar d written_only ds =
     (case dict_get (coords ds) STATUS_COORD of
        None \<Rightarrow> Inr ds
      | Some st \<Rightarrow>
          if \<not> written_only then Inr ds
          else (case as_string d of
                  Some n \<Rightarrow>
                    if n \<in> set (dims st) then isel n (any_along (nonneg np) st n) ds
                    else isel_scalar ds d (list_ex (nonneg np) (cells st))
                | None \<Rightarrow> isel_scalar ds d (list_ex (nonneg np) (cells st))))"

record ('r, 's, 'v) zarr_lib =
  zl_readonly_session :: "'r \<Rightarrow> string \<Rightarrow> exn + 's"
  zl_attrs :: "'s \<Rightarrow> exn + (string, json) dict"
  zl_open_zarr :: "'s \<Rightarrow> json \<Rightarrow> exn + 'v dataset"
  zl_isel_scalar :: "'v dataset \<Rightarrow> json \<Rightarrow> bool \<Rightarrow> exn + 'v dataset"
  zl_numpy :: "'v numpy"

definition open_icechunk_dataset ::
  "env \<Rightarrow> bool \<Rightarrow> 'r repo_lib \<Rightarrow> ('r, 's, 'v) zarr_lib \<Rightarrow> refresh \<Rightarrow> IcechunkCredentialsResponse requests
     \<Rightarrow> string \<Rightarrow> string \<Rightarrow> bool \<Rightarrow> access_error + 'v dataset"
where
  "open_icechunk_dataset env use_sts lib zl r request n branch written_only =
     andthen (open_icechunk_repo env use_sts lib r request n) (\<lambda>repo.
     andthen (lift_exn (zl_readonly_session zl repo branch)) (\<lambda>session.
     andthen (lift_exn (zl_attrs zl session)) (\<lambda>kvs.
     andthen (lift_exn (zl_open_zarr zl session (dict_get_default kvs DATA_GROUP_ATTR (JStr DEFAULT_DATA_GROUP)))) (\<lambda>ds.
     lift_exn (written_dataset (zl_numpy zl) (zl_isel_scalar zl) (append_dim_of kvs) written_only ds)))))"

section \<open>What the notebook may open\<close>

text \<open>The service as the notebook's HTTP server: what is not an error answer comes from the credential route.\<close>

definition serves_credentials ::
  "x_app \<Rightarrow> XConfig \<Rightarrow> (string \<Rightarrow> string \<Rightarrow> string \<Rightarrow> int \<Rightarrow> exn + sts_credentials) \<Rightarrow> AuthIdentity
     \<Rightarrow> IcechunkCredentialsResponse requests \<Rightarrow> bool"
where
  "serves_credentials app cfg assume_role u request \<longleftrightarrow>
     (\<forall>token status body. request ''POST'' ''/api/auth/icechunk-credentials'' token = Inr (status, body) \<longrightarrow>
        400 \<le> status \<and> status < 600 \<or>
        (\<exists>paginate now now_epoch trace_id (p :: (unit, unit) provider) p'.
           icechunk_credentials app cfg assume_role paginate now now_epoch trace_id u p = (Inr body, p')))"

lemma xpublish_Inr:
  "xpublish r request meth path = Inr body \<longleftrightarrow>
   (\<exists>token status. r = FreshToken token \<and> request meth path token = Inr (status, body) \<and> status \<noteq> 401 \<and> \<not> (400 \<le> status \<and> status < 600))"
  by (cases r) (auto simp: xpublish_def notebook_token_def split: sum.split)

lemma xpublish_session_expired:
  "xpublish r request meth path = Inl SessionExpiredError \<longleftrightarrow>
   r \<in> {RefreshRuntimeError, RefreshRequestException} \<or>
   (\<exists>token body. r = FreshToken token \<and> request meth path token = Inr (401, body))"
  by (cases r) (auto simp: xpublish_def notebook_token_def split: sum.split)

lemma lift_exn_Inr [simp]: "lift_exn m = Inr x \<longleftrightarrow> m = Inr x"
  by (cases m) (simp_all add: lift_exn_def)

lemma open_icechunk_repo_Inr:
  assumes "open_icechunk_repo env use_sts lib r request n = Inr repo"
  shows "\<exists>body cs. request_credentials r request = Inr body \<and> n \<in> set (ir_repos body) \<and>
    rl_open lib (notebook_storage_of env use_sts body (ir_prefix body @ ''/'' @ n))
      (map (\<lambda>pfx. (pfx, client_anonymous_credentials pfx)) cs) = Inr repo"
  using assms
  by (auto simp: open_icechunk_repo_def andthen_Inr_iff Let_def split: if_split_asm)

lemma served_repos_permitted:
  assumes "icechunk_credentials app cfg assume_role paginate now now_epoch trace_id u p = (Inr body, p')"
  shows "n \<in> set (ir_repos body) \<Longrightarrow> is_permitted (ap_access_rules app) u Repos n"
    and "ir_prefix body = st_prefix (ap_settings app)" "ir_bucket body = st_bucket (ap_settings app)"
  using assms
  by (auto simp: icechunk_credentials_def Let_def readable_repos_def no_credentials_def
      split: prod.split_asm if_split_asm sum.split_asm)

lemma open_icechunk_repo_refused:
  "request_credentials r request = Inr body \<Longrightarrow> n \<notin> set (ir_repos body) \<Longrightarrow>
   open_icechunk_repo env use_sts lib r request n =
     Inl (PermissionError (''You may not read Icechunk repo '' @ [CHR 0x27] @ n @ [CHR 0x27]))"
  by (simp add: open_icechunk_repo_def)

text \<open>Where the service reads the repo \<open>n\<close>: in its bucket, under its prefix.\<close>

definition storage_of_repo :: "settings \<Rightarrow> string \<Rightarrow> notebook_storage \<Rightarrow> bool" where
  "storage_of_repo st n sg \<longleftrightarrow>
     (case sg of
        RenewedStorage bucket pfx _ _ \<Rightarrow> bucket = st_bucket st \<and> pfx = st_prefix st @ ''/'' @ n
      | OwnKeysStorage bucket pfx _ _ \<Rightarrow> bucket = st_bucket st \<and> pfx = st_prefix st @ ''/'' @ n)"

text \<open>C12 A notebook opens a repo only where the service's rules permit it, with STS or without.  A
  repo they do not permit is refused before any storage is touched: the error is the same
  whatever the object store, Icechunk and zarr would have answered, and once the service has
  answered with a list that lacks the repo it is the \<open>PermissionError\<close> that names it.  What is
  opened is the written part of a group of that very repo, opened under the service's bucket
  and prefix.\<close>

theorem notebook_opens_permitted_only:
  assumes "serves_credentials app cfg assume_role u request"
  shows "(\<not> is_permitted (ap_access_rules app) u Repos n \<longrightarrow>
      (\<exists>err. \<forall>lib zl branch written_only.
         open_icechunk_dataset env use_sts (lib :: 'r repo_lib) (zl :: ('r, 's, 'v) zarr_lib) r request n branch written_only = Inl err))
    \<and> (\<forall>body lib zl. request_credentials r request = Inr body \<and> n \<notin> set (ir_repos body) \<longrightarrow>
      open_icechunk_dataset env use_sts (lib :: 'r repo_lib) (zl :: ('r, 's, 'v) zarr_lib) r request n branch written_only =
        Inl (PermissionError (''You may not read Icechunk repo '' @ [CHR 0x27] @ n @ [CHR 0x27])))
    \<and> (\<forall>lib zl ds. open_icechunk_dataset env use_sts (lib :: 'r repo_lib) (zl :: ('r, 's, 'v) zarr_lib) r request n branch written_only = Inr ds \<longrightarrow>
      is_permitted (ap_access_rules app) u Repos n \<and>
      (\<exists>sg cs repo session kvs group.
         storage_of_repo (ap_settings app) n sg \<and> rl_open lib sg cs = Inr repo \<and>
         zl_readonly_session zl repo branch = Inr session \<and> zl_attrs zl session = Inr kvs \<and>
         zl_open_zarr zl session (dict_get_default kvs ''data_group'' (JStr ''/data'')) = Inr group \<and>
         written_dataset (zl_numpy zl) (zl_isel_scalar zl) (append_dim_of kvs) written_only group = Inr ds))"
proof -
  have listed: "n \<in> set (ir_repos body) \<Longrightarrow> is_permitted (ap_access_rules app) u Repos n"
    and place: "storage_of_repo (ap_settings app) n (notebook_storage_of env use_sts body (ir_prefix body @ ''/'' @ n))"
    if b: "request_credentials r request = Inr body" for body
  proof -
    from b obtain token status where "request ''POST'' ''/api/auth/icechunk-credentials'' token = Inr (status, body)"
      and "\<not> (400 \<le> status \<and> status < 600)"
      by (auto simp: request_credentials_def xpublish_Inr)
    with assms(1) obtain paginate now now_epoch trace_id and p :: "(unit, unit) provider" and p' where
      s: "icechunk_credentials app cfg assume_role paginate now now_epoch trace_id u p = (Inr body, p')"
      unfolding serves_credentials_def by blast
    show "n \<in> set (ir_repos body) \<Longrightarrow> is_permitted (ap_access_rules app) u Repos n"
      by (rule served_repos_permitted(1) [OF s])
    show "storage_of_repo (ap_settings app) n (notebook_storage_of env use_sts body (ir_prefix body @ ''/'' @ n))"
      using served_repos_permitted(2,3) [OF s] by (simp add: storage_of_repo_def notebook_storage_of_def)
  qed
  have "\<exists>err. \<forall>(lib :: 'r repo_lib) (zl :: ('r, 's, 'v) zarr_lib) branch written_only.
      open_icechunk_dataset env use_sts lib zl r request n branch written_only = Inl err"
    if "\<not> is_permitted (ap_access_rules app) u Repos n"
  proof (cases "request_credentials r request")
    case (Inl e)
    then show ?thesis by (simp add: open_icechunk_dataset_def open_icechunk_repo_def)
  next
    case (Inr body)
    with listed that have "n \<notin> set (ir_repos body)" by blast
    with Inr show ?thesis by (simp add: open_icechunk_dataset_def open_icechunk_repo_refused)
  qed
  moreover have "\<exists>sg cs repo session kvs group.
         storage_of_repo (ap_settings app) n sg \<and> rl_open lib sg cs = Inr repo \<and>
         zl_readonly_session zl repo branch = Inr session \<and> zl_attrs zl session = Inr kvs \<and>
         zl_open_zarr zl session (dict_get_default kvs ''data_group'' (JStr ''/data'')) = Inr group \<and>
         written_dataset (zl_numpy zl) (zl_isel_scalar zl) (append_dim_of kvs) written_only group = Inr ds"
    and "is_permitted (ap_access_rules app) u Repos n"
    if op: "open_icechunk_dataset env use_sts lib zl r request n branch written_only = Inr ds"
    for lib :: "'r repo_lib" and zl :: "('r, 's, 'v) zarr_lib" and ds
  proof -
    from op obtain repo session kvs group where o: "open_icechunk_repo env use_sts lib r request n = Inr repo"
      and z: "zl_readonly_session zl repo branch = Inr session" "zl_attrs zl session = Inr kvs"
        "zl_open_zarr zl session (dict_get_default kvs ''data_group'' (JStr ''/data'')) = Inr group"
        "written_dataset (zl_numpy zl) (zl_isel_scalar zl) (append_dim_of kvs) written_only group = Inr ds"
      by (auto simp: open_icechunk_dataset_def andthen_Inr_iff DATA_GROUP_ATTR_def DEFAULT_DATA_GROUP_def)
    from open_icechunk_repo_Inr [OF o] obtain body cs where b: "request_credentials r request = Inr body"
      "n \<in> set (ir_repos body)" "rl_open lib (notebook_storage_of env use_sts body (ir_prefix body @ ''/'' @ n))
        (map (\<lambda>pfx. (pfx, client_anonymous_credentials pfx)) cs) = Inr repo" by blast
    from listed [OF b(1,2)] show "is_permitted (ap_access_rules app) u Repos n" .
    from place [OF b(1)] b(3) z show "\<exists>sg cs repo session kvs group.
         storage_of_repo (ap_settings app) n sg \<and> rl_open lib sg cs = Inr repo \<and>
         zl_readonly_session zl repo branch = Inr session \<and> zl_attrs zl session = Inr kvs \<and>
         zl_open_zarr zl session (dict_get_default kvs ''data_group'' (JStr ''/data'')) = Inr group \<and>
         written_dataset (zl_numpy zl) (zl_isel_scalar zl) (append_dim_of kvs) written_only group = Inr ds"
      by blast
  qed
  moreover have "\<forall>body (lib :: 'r repo_lib) (zl :: ('r, 's, 'v) zarr_lib).
      request_credentials r request = Inr body \<and> n \<notin> set (ir_repos body) \<longrightarrow>
      open_icechunk_dataset env use_sts lib zl r request n branch written_only =
        Inl (PermissionError (''You may not read Icechunk repo '' @ [CHR 0x27] @ n @ [CHR 0x27]))"
    by (simp add: open_icechunk_dataset_def open_icechunk_repo_refused)
  ultimately show ?thesis by blast
qed

text \<open>
  The callback never hands Icechunk credentials that are about to expire: it keeps the ones the
  repo was opened with only while more than a minute is left, and otherwise asks again.
\<close>

lemma call_credentials_fresh:
  assumes "call_credentials initial now r request = Inr c"
  shows "expires_after c > now \<or> (\<exists>body. request_credentials r request = Inr body \<and> static_credentials body = Inr c)"
  using assms
  by (auto simp: call_credentials_def andthen_Inr_iff about_to_expire_def static_credentials_def
      split: if_split_asm option.split_asm)

section \<open>The same slots for the notebook and the dashboard\<close>

lemma isel_coord:
  assumes "dims c = [n]" "shape c = [length (cells c)]" "length bs = length (cells c)"
  shows "cells (isel_array n bs c) = map ((!) (cells c)) (filter ((!) bs) [0..<length (cells c)])"
proof -
  have "filter (\<lambda>j. bs ! axis_index (shape c) 0 j) [0..<length (cells c)] = filter ((!) bs) [0..<length (cells c)]"
    by (rule filter_cong) (simp_all add: assms axis_index_def)
  then show ?thesis by (simp add: isel_array_def assms)
qed

lemma map_of_map_snd: "map_of (map (\<lambda>(n, a). (n, f a)) d) k = map_option f (map_of d k)"
  by (induction d) auto

text \<open>C28 Along the append axis the notebook's dataset has exactly the coordinate values the service
  shows for it.
\<close>

theorem notebook_slots_agree:
  assumes "written_dataset np isel_scalar (JStr n) True ds = Inr ds'"
    and "dict_get (coords ds) n = Some c" "dims c = [n]" "shape c = [length (cells c)]"
    and "dict_get (coords ds) STATUS_COORD = Some st" "n \<in> set (dims st)" "shape st ! axis_of n (dims st) = length (cells c)"
  shows "\<exists>c'. dict_get (coords ds') n = Some c' \<and> written_coord_values np ds n = Inr (cells c')"
proof -
  let ?bs = "any_along (nonneg np) st n"
  have len: "length ?bs = length (cells c)" by (simp add: any_along_def Let_def assms(7))
  from assms(1,5,6) have "isel n ?bs ds = Inr ds'" by (simp add: written_dataset_def)
  then have "dict_get (coords ds') n = Some (isel_array n ?bs c)"
    by (auto simp: isel_def map_of_map_snd assms(2) split: if_split_asm)
  moreover have "written_coord_values np ds n = Inr (cells (isel_array n ?bs c))"
    using isel_coord [OF assms(3,4) len] mask_select [of "cells c" ?bs] len assms(2,5,6)
    by (simp add: written_coord_values_def)
  ultimately show ?thesis by blast
qed

lemma notebook_slots_agree_witness:
  "\<exists>ds' c'. written_dataset int_numpy (\<lambda>ds _ _. Inr ds) (JStr ''lead'') True sample_forecast = Inr ds' \<and>
     dict_get (coords ds') ''lead'' = Some c' \<and> written_coord_values int_numpy sample_forecast ''lead'' = Inr (cells c')"
proof -
  let ?c = "\<lparr>dims = [''lead''], shape = [3], cells = [1 :: int, 2, 3], attrs = []\<rparr>"
  have "case written_dataset int_numpy (\<lambda>ds _ _. Inr ds) (JStr ''lead'') True sample_forecast of Inr _ \<Rightarrow> True | Inl _ \<Rightarrow> False"
    by code_simp
  then obtain ds' where d: "written_dataset int_numpy (\<lambda>ds _ _. Inr ds) (JStr ''lead'') True sample_forecast = Inr ds'"
    by (auto split: sum.split_asm)
  have c: "dict_get (coords sample_forecast) ''lead'' = Some ?c"
    and st: "dict_get (coords sample_forecast) STATUS_COORD = Some sample_status"
    by (simp_all add: sample_forecast_def STATUS_COORD_def)
  from notebook_slots_agree [OF d c _ _ st] d show ?thesis by (auto simp: sample_status_def)
qed

definition sample_server :: "IcechunkCredentialsResponse requests" where
  "sample_server meth path token =
     (if meth = ''POST'' \<and> path = ''/api/auth/icechunk-credentials''
      then (case icechunk_credentials (sample_x_app open_rules) sample_xconfig sample_sts (sample_listing [''foo'']) (\<lambda>_. 0) 0 ''t''
                   (sample_user []) (init_provider :: (unit, unit) provider) of
              (Inr body, _) \<Rightarrow> Inr (200, body) | (Inl e, _) \<Rightarrow> Inl e)
      else Inl HTTPXError)"

definition sample_repo_lib :: "unit repo_lib" where
  "sample_repo_lib = \<lparr>rl_fetch_containers = (\<lambda>_. Inr None), rl_open = (\<lambda>_ _. Inr ())\<rparr>"

definition sample_zarr_lib :: "(unit, unit, int) zarr_lib" where
  "sample_zarr_lib =
     \<lparr>zl_readonly_session = (\<lambda>_ _. Inr ()), zl_attrs = (\<lambda>_. Inr [(''append_dim'', JStr ''lead'')]),
      zl_open_zarr = (\<lambda>_ _. Inr sample_forecast), zl_isel_scalar = (\<lambda>ds _ _. Inr ds), zl_numpy = int_numpy\<rparr>"

lemma sample_serves: "serves_credentials (sample_x_app open_rules) sample_xconfig sample_sts (sample_user []) sample_server"
  unfolding serves_credentials_def sample_server_def
  by (auto split: prod.split_asm sum.split_asm if_split_asm)

definition closed_server :: "IcechunkCredentialsResponse requests" where
  "closed_server meth path token =
     (if meth = ''POST'' \<and> path = ''/api/auth/icechunk-credentials''
      then (case icechunk_credentials (sample_x_app sample_access) sample_xconfig sample_sts (sample_listing [''open'', ''secret''])
                   (\<lambda>_. 0) 0 ''t'' (sample_user [''reader'']) (init_provider :: (unit, unit) provider) of
              (Inr body, _) \<Rightarrow> Inr (200, body) | (Inl e, _) \<Rightarrow> Inl e)
      else Inl HTTPXError)"

lemma closed_serves:
  "serves_credentials (sample_x_app sample_access) sample_xconfig sample_sts (sample_user [''reader'']) closed_server"
  unfolding serves_credentials_def closed_server_def
  by (auto split: prod.split_asm sum.split_asm if_split_asm)

lemma notebook_opens_permitted_only_witness:
  "(case open_icechunk_dataset (\<lambda>_. None) False sample_repo_lib sample_zarr_lib (FreshToken ''t'') sample_server ''foo'' ''main'' True of
      Inr _ \<Rightarrow> True | Inl _ \<Rightarrow> False) \<and>
   is_permitted (ap_access_rules (sample_x_app open_rules)) (sample_user []) Repos ''foo'' \<and>
   (\<exists>err. \<forall>lib zl branch written_only. open_icechunk_dataset (\<lambda>_. None) False (lib :: unit repo_lib) (zl :: (unit, unit, int) zarr_lib)
      (FreshToken ''t'') closed_server ''secret'' branch written_only = Inl err)"
proof -
  have ok: "case open_icechunk_dataset (\<lambda>_. None) False sample_repo_lib sample_zarr_lib (FreshToken ''t'') sample_server ''foo'' ''main'' True of
      Inr _ \<Rightarrow> True | Inl _ \<Rightarrow> False" by code_simp
  then obtain ds where d: "open_icechunk_dataset (\<lambda>_. None) False sample_repo_lib sample_zarr_lib (FreshToken ''t'') sample_server ''foo'' ''main'' True
      = Inr ds" by (auto split: sum.split_asm)
  have "\<not> is_permitted (ap_access_rules (sample_x_app sample_access)) (sample_user [''reader'']) Repos ''secret''"
    by code_simp
  with notebook_opens_permitted_only [OF closed_serves, of "''secret''"]
  have "\<exists>err. \<forall>lib zl branch written_only. open_icechunk_dataset (\<lambda>_. None) False (lib :: unit repo_lib) (zl :: (unit, unit, int) zarr_lib)
      (FreshToken ''t'') closed_server ''secret'' branch written_only = Inl err"
    by blast
  with notebook_opens_permitted_only [OF sample_serves, of "''foo''"] d ok show ?thesis by blast
qed

end
