(* ===== verification/Profiles.thy ===== *)
theory Profiles
  imports X_Credentials
begin

text \<open>
  The JupyterHub profile generators (\<open>jupyterhub-profiles/generate_profile_list.py\<close> and
  \<open>generate_profile_configmap_templates.py\<close>): the profile list made of the project specs, its text as
  \<open>json.dumps(indent=2)\<close> writes it, the ConfigMap template around it, and the choice of the paths.
  Reading and writing the files is left out.
\<close>

section \<open>Documents\<close>

text \<open>JSON with the one decimal number of a CPU limit; a \<open>DTenths n\<close> is the float \<open>n/10\<close>.\<close>

datatype doc =
    DNull
  | DBool bool
  | DInt int
  | DTenths nat
  | DStr string
  | DList "doc list"
  | DObj "(string \<times> doc) list"

fun doc_of_json :: "json \<Rightarrow> doc" where
  "doc_of_json JNull = DNull"
| "doc_of_json (JBool b) = DBool b"
| "doc_of_json (JInt n) = DInt n"
| "doc_of_json (JStr s) = DStr s"
| "doc_of_json (JList xs) = DList (map doc_of_json xs)"
| "doc_of_json (JObj kvs) = DObj (map (\<lambda>kv. (fst kv, doc_of_json (snd kv))) kvs)"

text \<open>\<open>json.dumps(x, indent=2)\<close> as lines, the first and last of which go on the lines around them.\<close>

definition comma_all :: "string list list \<Rightarrow> string list" where
  "comma_all xss =
     concat (map (\<lambda>i. if Suc i < length xss then butlast (xss ! i) @ [last (xss ! i) @ '',''] else xss ! i) [0..<length xss])"

definition shift :: "string list \<Rightarrow> string list" where
  "shift ls = map ((@) ''  '') ls"

fun doc_lines :: "doc \<Rightarrow> string list" where
  "doc_lines DNull = [''null'']"
| "doc_lines (DBool b) = [if b then ''true'' else ''false'']"
| "doc_lines (DInt n) = [show_int n]"
| "doc_lines (DTenths n) = [show_nat (n div 10) @ ''.'' @ show_nat (n mod 10)]"
| "doc_lines (DStr s) = [json_string s]"
| "doc_lines (DList xs) =
     (if xs = [] then [''[]''] else [''[''] @ shift (comma_all (map doc_lines xs)) @ ['']''])"
| "doc_lines (DObj kvs) =
     (if kvs = [] then [''{}'']
      else [''{''] @ shift (comma_all (map (\<lambda>kv. (json_string (fst kv) @ '': '' @ hd (doc_lines (snd kv))) # tl (doc_lines (snd kv))) kvs))
        @ [''}''])"

definition newline :: string where
  "newline = [CHR 0x0A]"

definition dumps_indented :: "doc \<Rightarrow> string" where
  "dumps_indented x = join newline (doc_lines x)"

section \<open>Profiles\<close>

definition STABLE_IMAGE :: string where
  "STABLE_IMAGE = ''${actions.build.teehr-jupyter-driver-image-stable.outputs.deploymentImageId}''"

definition PREVIOUS_IMAGE :: string where
  "PREVIOUS_IMAGE = ''${actions.build.teehr-jupyter-driver-image-previous.outputs.deploymentImageId}''"

definition EDGE_IMAGE :: string where
  "EDGE_IMAGE = ''${actions.build.teehr-jupyter-driver-image-edge.outputs.deploymentImageId}''"

definition HEFS_V031_IMAGE :: string where
  "HEFS_V031_IMAGE = ''935462133478.dkr.ecr.us-east-2.amazonaws.com/hefs-fews-hub:v0.3.1''"

definition HEFS_DEV_IMAGE :: string where
  "HEFS_DEV_IMAGE = ''935462133478.dkr.ecr.us-east-2.amazonaws.com/hefs-fews-hub:dev''"

definition FRACTIONAL_4XL_MEM_LIMIT :: string where
  "FRACTIONAL_4XL_MEM_LIMIT = ''127G''"

definition FRACTIONAL_4XL_CPU_LIMIT :: doc where
  "FRACTIONAL_4XL_CPU_LIMIT = DTenths 155"

definition nodegroup :: "string \<Rightarrow> string \<Rightarrow> string" where
  "nodegroup node_size suf = ''nb-r5-'' @ node_size @ suf"

definition is_xlarge :: "string \<Rightarrow> bool" where
  "is_xlarge ng \<longleftrightarrow> contains ng ''xlarge'' \<and> \<not> contains ng ''4xlarge''"

definition profile_choice :: "string \<Rightarrow> string \<Rightarrow> string \<Rightarrow> string \<Rightarrow> doc \<Rightarrow> bool \<Rightarrow> string option \<Rightarrow> doc" where
  "profile_choice display_name img nodegroup_name mem_limit cpu_limit dflt image_pull_policy =
     (let override =
        [(''image'', DStr img), (''mem_limit'', DStr mem_limit),
         (''mem_guarantee'', DStr (if is_xlarge nodegroup_name then ''19G'' else ''76G'')),
         (''cpu_limit'', cpu_limit),
         (''cpu_guarantee'', DInt (if is_xlarge nodegroup_name then 3 else 12)),
         (''node_selector'', DObj [(''teehr-hub/nodegroup-name'', DStr nodegroup_name)])] @
        (case image_pull_policy of Some (c # cs) \<Rightarrow> [(''image_pull_policy'', DStr (c # cs))] | _ \<Rightarrow> [])
      in DObj ([(''display_name'', DStr display_name), (''kubespawner_override'', DObj override)] @
               (if dflt then [(''default'', DBool True)] else [])))"

definition standard_choices :: "string \<Rightarrow> string \<Rightarrow> string \<Rightarrow> string \<Rightarrow> bool \<Rightarrow> (string, doc) dict" where
  "standard_choices suf stable_version previous_version dev_version current_default =
     (let xlarge = nodegroup ''xlarge'' suf; xl4 = nodegroup ''4xlarge'' suf
      in [(''current-tag-xlarge'',
             profile_choice (''Version '' @ stable_version @ '' - XL (4 cores, 16 GB memory)'') STABLE_IMAGE xlarge ''32G'' (DInt 4)
               current_default None),
          (''current-tag-4xlarge'',
             profile_choice (''Version '' @ stable_version @ '' - 4XL (16 cores, 128 GB memory)'') STABLE_IMAGE xl4
               FRACTIONAL_4XL_MEM_LIMIT FRACTIONAL_4XL_CPU_LIMIT False None),
          (''previous-tag-xlarge'',
             profile_choice (''Version '' @ previous_version @ '' - XL (4 cores, 32 GB memory)'') PREVIOUS_IMAGE xlarge ''32G'' (DInt 4)
               False None),
          (''previous-tag-4xlarge'',
             profile_choice (''Version '' @ previous_version @ '' - 4XL (16 cores, 128 GB memory)'') PREVIOUS_IMAGE xl4 ''128G'' (DInt 16)
               False None),
          (''dev-xlarge'',
             profile_choice (''Bleeding Edge '' @ dev_version @ '' - XL (4 cores, 32 GB memory)'') EDGE_IMAGE xlarge ''32G'' (DInt 4)
               False None),
          (''dev-4xlarge'',
             profile_choice (''Bleeding Edge '' @ dev_version @ '' - 4XL (16 cores, 128 GB memory)'') EDGE_IMAGE xl4
               FRACTIONAL_4XL_MEM_LIMIT FRACTIONAL_4XL_CPU_LIMIT False None)])"

definition hefs_choices :: "string \<Rightarrow> (string, doc) dict" where
  "hefs_choices suf =
     (let xlarge = nodegroup ''xlarge'' suf
      in [(''hefs-v0-3-0'',
             profile_choice ''HEFS-FEWS v0.3.x - XL (4 cores, 16 GB memory)'' HEFS_V031_IMAGE xlarge ''32G'' (DInt 4) True None),
          (''hefs-latest'',
             profile_choice ''HEFS-FEWS Bleeding Edge - XL (4 cores, 16 GB memory)'' HEFS_DEV_IMAGE xlarge ''32G'' (DInt 4) False
               (Some ''Always''))])"

text \<open>A spec is a JSON object; a missing key is a \<open>KeyError\<close>, and an f-string takes \<open>str(suffix)\<close>.\<close>

definition spec_get :: "(string, json) dict \<Rightarrow> string \<Rightarrow> exn + json" where
  "spec_get spec key = (case dict_get spec key of None \<Rightarrow> Inl (KeyError key) | Some v \<Rightarrow> Inr v)"

definition profile_choices :: "string \<Rightarrow> bool \<Rightarrow> (string, doc) dict" where
  "profile_choices suf hefs =
     (let standard = standard_choices suf ''${var.stableTeehrVersion}'' ''${var.previousTeehrVersion}''
                       ''${slice(var.devTeehrVersion, 0, 6)}'' (\<not> hefs)
      in fold (\<lambda>(k, v) d. dict_set d k v) ((if hefs then hefs_choices suf else []) @ standard) [])"

definition build_profile :: "(string, json) dict \<Rightarrow> exn + doc" where
  "build_profile spec =
     andthen (spec_get spec ''nodegroup_suffix'') (\<lambda>suf.
     andthen (spec_get spec ''include_hefs_choices'') (\<lambda>hefs.
     andthen (spec_get spec ''display_name'') (\<lambda>display_name.
     andthen (spec_get spec ''default'') (\<lambda>dflt.
     andthen (spec_get spec ''description'') (\<lambda>description.
     andthen (spec_get spec ''project_id'') (\<lambda>project_id.
     Inr (DObj
       [(''display_name'', doc_of_json display_name), (''default'', doc_of_json dflt),
        (''description'', doc_of_json description),
        (''profile_options'',
          DObj [(''image'', DObj [(''display_name'', DStr ''Image''),
                                 (''choices'', DObj (profile_choices (py_str suf) (truthy hefs)))])]),
        (''kubespawner_override'',
          DObj [(''environment'', DObj [(''TEEHR_PROJECT_ID'', doc_of_json project_id)])])])))))))"

definition generate :: "(string, json) dict list \<Rightarrow> exn + string" where
  "generate specs =
     andthen (map_result build_profile specs) (\<lambda>profiles.
       Inr (dumps_indented (DObj [(''version'', DInt 1), (''profiles'', DList profiles)]) @ newline))"

section \<open>Templates\<close>

definition HEADER :: string where
  "HEADER = concat (map (\<lambda>l. l @ newline)
     [''apiVersion: v1'', ''kind: ConfigMap'', ''metadata:'', ''  name: jupyterhub-profile-list'',
      ''  namespace: ${environment.namespace}'', ''  labels:'', ''    app: jupyterhub'', ''    component: hub'',
      ''data:'', ''  profile-list.json: |''])"

definition text_lines :: "string \<Rightarrow> string list" where
  "text_lines s =
     (let ls = split_on (CHR 0x0A) s in if last ls = [] then butlast ls else ls)"

definition render_template :: "doc \<Rightarrow> string" where
  "render_template payload =
     HEADER @ join newline (map ((@) ''    '') (text_lines (dumps_indented payload))) @ newline"

section \<open>Paths\<close>

record cli_args =
  cli_local :: bool
  cli_remote :: bool
  cli_spec :: "string option"
  cli_out :: "string option"

text \<open>Both programs choose their paths the same way; \<open>Inl\<close> is \<open>parser.error\<close>.\<close>

definition select_paths :: "string \<times> string \<Rightarrow> string \<times> string \<Rightarrow> cli_args \<Rightarrow> string + string \<times> string" where
  "select_paths local_paths remote_paths a =
     (let using_explicit_paths = (cli_spec a \<noteq> None \<or> cli_out a \<noteq> None); using_mode = (cli_local a \<or> cli_remote a)
      in if cli_local a \<and> cli_remote a then Inl ''argument --remote: not allowed with argument --local''
         else if using_explicit_paths \<and> using_mode then Inl ''Use either --local/--remote or --spec/--out, not both.''
         else if using_explicit_paths
         then (case (cli_spec a, cli_out a) of
                 (Some s, Some out) \<Rightarrow> Inr (s, out)
               | _ \<Rightarrow> Inl ''--spec and --out must be provided together.'')
         else if cli_local a then Inr local_paths
         else if cli_remote a then Inr remote_paths
         else Inl ''Provide --local, --remote, or both --spec and --out.'')"

definition list_paths :: "cli_args \<Rightarrow> string + string \<times> string" where
  "list_paths =
     select_paths
       (''jupyterhub-profiles/profile-list.example.projects.json'', ''jupyterhub-profiles/profile-list.local.json'')
       (''jupyterhub-profiles/profile-list.remote.projects.json'', ''jupyterhub-profiles/profile-list.remote.json'')"

definition template_paths :: "cli_args \<Rightarrow> string + string \<times> string" where
  "template_paths =
     select_paths
       (''jupyterhub-profiles/profile-list.local.json'',
        ''jupyterhub-profiles/manifests/jupyterhub-profile-list-local.configmap.yaml.tpl'')
       (''jupyterhub-profiles/profile-list.remote.json'',
        ''jupyterhub-profiles/manifests/jupyterhub-profile-list-remote.configmap.yaml.tpl'')"

section \<open>Limits and defaults\<close>

fun dfield :: "string \<Rightarrow> doc \<Rightarrow> doc option" where
  "dfield key (DObj kvs) = dict_get kvs key"
| "dfield key _ = None"

definition override_field :: "doc \<Rightarrow> string \<Rightarrow> doc option" where
  "override_field c key = Option.bind (dfield ''kubespawner_override'' c) (dfield key)"

text \<open>A quantity in tenths: \<open>19G\<close> is 190, a CPU count of 3 is 30.\<close>

fun tenths :: "doc option \<Rightarrow> nat" where
  "tenths (Some (DStr s)) = 10 * nat_of_digits (takeWhile is_digit s)"
| "tenths (Some (DInt n)) = 10 * nat n"
| "tenths (Some (DTenths n)) = n"
| "tenths _ = 0"

lemma sublist_no_char: "c \<in> set sub \<Longrightarrow> c \<notin> set s \<Longrightarrow> \<not> contains s sub"
  by (auto simp: sublist_def)

lemma is_xlarge_4xl: "\<not> is_xlarge (nodegroup ''4xlarge'' suf)"
  by (auto simp: is_xlarge_def nodegroup_def sublist_Cons_right)

lemma is_xlarge_xl:
  assumes "\<not> contains suf ''4xlarge''"
  shows "is_xlarge (nodegroup ''xlarge'' suf)"
  using assms by (auto simp: is_xlarge_def nodegroup_def sublist_Cons_right)

definition choice_ok :: "string \<Rightarrow> doc \<Rightarrow> bool" where
  "choice_ok suf c \<longleftrightarrow>
     tenths (override_field c ''mem_guarantee'') \<le> tenths (override_field c ''mem_limit'') \<and>
     tenths (override_field c ''cpu_guarantee'') \<le> tenths (override_field c ''cpu_limit'') \<and>
     0 < tenths (override_field c ''cpu_guarantee'') \<and>
     (override_field c ''node_selector'' = Some (DObj [(''teehr-hub/nodegroup-name'', DStr (nodegroup ''xlarge'' suf))]) \<or>
      override_field c ''node_selector'' = Some (DObj [(''teehr-hub/nodegroup-name'', DStr (nodegroup ''4xlarge'' suf))]))"

lemma tenths_values:
  "tenths (Some (DStr ''19G'')) = 190" "tenths (Some (DStr ''76G'')) = 760" "tenths (Some (DStr ''32G'')) = 320"
  "tenths (Some (DStr ''127G'')) = 1270" "tenths (Some (DStr ''128G'')) = 1280"
  by code_simp+

lemma choice_ok_xl:
  "\<not> contains suf ''4xlarge'' \<Longrightarrow>
   choice_ok suf (profile_choice n i (nodegroup ''xlarge'' suf) ''32G'' (DInt 4) b pol)"
  using tenths_values is_xlarge_xl [of suf]
  by (auto simp: choice_ok_def profile_choice_def override_field_def Let_def simp del: tenths.simps(1)
      split: option.splits list.splits)

lemma choice_ok_4xl:
  "mem \<in> {''127G'', ''128G''} \<Longrightarrow> cpu \<in> {DInt 16, DTenths 155} \<Longrightarrow>
   choice_ok suf (profile_choice n i (nodegroup ''4xlarge'' suf) mem cpu b None)"
  using tenths_values is_xlarge_4xl [of suf]
  by (auto simp: choice_ok_def profile_choice_def override_field_def Let_def simp del: tenths.simps(1))

lemma profile_choices_list:
  "profile_choices suf hefs =
     (if hefs then hefs_choices suf else []) @
     standard_choices suf ''${var.stableTeehrVersion}'' ''${var.previousTeehrVersion}''
       ''${slice(var.devTeehrVersion, 0, 6)}'' (\<not> hefs)"
  by (simp add: profile_choices_def hefs_choices_def standard_choices_def Let_def)

definition default_choices :: "(string, doc) dict \<Rightarrow> string list" where
  "default_choices d = map fst (filter (\<lambda>kv. dfield ''default'' (snd kv) = Some (DBool True)) d)"

lemma default_of_choice: "dfield ''default'' (profile_choice n i g m c b pol) = (if b then Some (DBool True) else None)"
  by (simp add: profile_choice_def Let_def)

text \<open>
  Every choice of a generated profile asks for no more than its limits allow and runs on a node
  group of the profile's own suffix; the choices are distinct and exactly one is the default,
  the HEFS image where there are HEFS choices and the stable one otherwise.
\<close>

theorem generated_choices_sound:
  assumes "\<not> contains suf ''4xlarge''"
  shows "dict_ok (profile_choices suf hefs) \<and> (\<forall>(k, c) \<in> set (profile_choices suf hefs). choice_ok suf c) \<and>
    default_choices (profile_choices suf hefs) = [if hefs then ''hefs-v0-3-0'' else ''current-tag-xlarge'']"
proof (intro conjI)
  show "dict_ok (profile_choices suf hefs)"
    by (cases hefs) (simp_all add: profile_choices_list dict_ok_def hefs_choices_def standard_choices_def Let_def)
  show "\<forall>(k, c) \<in> set (profile_choices suf hefs). choice_ok suf c"
    using choice_ok_xl [OF assms] choice_ok_4xl [of _ _ suf]
    by (auto simp: profile_choices_list hefs_choices_def standard_choices_def Let_def FRACTIONAL_4XL_MEM_LIMIT_def
        FRACTIONAL_4XL_CPU_LIMIT_def)
  show "default_choices (profile_choices suf hefs) = [if hefs then ''hefs-v0-3-0'' else ''current-tag-xlarge'']"
    by (cases hefs) (simp_all add: default_choices_def profile_choices_list hefs_choices_def standard_choices_def Let_def default_of_choice)
qed

lemma generated_choices_sound_witness:
  "choice_ok ''-teehr'' (snd (hd (profile_choices ''-teehr'' True)))"
proof -
  have "\<not> contains ''-teehr'' ''4xlarge''" by code_simp
  moreover have "hd (profile_choices ''-teehr'' True) \<in> set (profile_choices ''-teehr'' True)"
    by (rule hd_in_set) (simp add: profile_choices_list hefs_choices_def Let_def)
  ultimately show ?thesis using generated_choices_sound [of "''-teehr''" True] by (cases "hd (profile_choices ''-teehr'' True)") fastforce
qed

section \<open>The block scalar\<close>

text \<open>What YAML reads of the \<open>|\<close> block: the lines after the header without their indentation.\<close>

definition block_text :: "string \<Rightarrow> string" where
  "block_text tpl = join newline (map (drop 4) (text_lines (drop (length HEADER) tpl)))"

lemma text_lines_join:
  assumes "xs \<noteq> []" "\<And>x. x \<in> set xs \<Longrightarrow> CHR 0x0A \<notin> set x"
  shows "text_lines (join newline xs @ newline) = xs"
proof -
  have ne: "xs @ [[]] \<noteq> []" by simp
  have j: "join newline xs @ newline = join newline (xs @ [[]])"
    using assms(1) by (induction xs rule: induct_list012) (auto simp: newline_def)
  have "split_on (CHR 0x0A) (join newline xs @ newline) = xs @ [[]]"
    unfolding j unfolding newline_def by (rule split_on_join) (use assms in auto)
  then show ?thesis by (simp add: text_lines_def)
qed

lemma comma_all_lines:
  assumes "\<And>xs. xs \<in> set xss \<Longrightarrow> xs \<noteq> [] \<and> (\<forall>l \<in> set xs. CHR 0x0A \<notin> set l)" "l \<in> set (comma_all xss)"
  shows "CHR 0x0A \<notin> set l"
proof -
  from assms(2) have "\<exists>i \<in> set [0..<length xss].
      l \<in> set (if Suc i < length xss then butlast (xss ! i) @ [last (xss ! i) @ '',''] else xss ! i)"
    unfolding comma_all_def set_concat set_map by blast
  then obtain i where i: "i < length xss"
    and l: "l \<in> set (if Suc i < length xss then butlast (xss ! i) @ [last (xss ! i) @ '',''] else xss ! i)"
    by (auto simp del: set_append)
  from i have "xss ! i \<in> set xss" by simp
  with assms(1) have "xss ! i \<noteq> []" "\<forall>l \<in> set (xss ! i). CHR 0x0A \<notin> set l" by blast+
  with l show ?thesis by (auto split: if_split_asm dest: in_set_butlastD)
qed

lemma hex_digit_no_newline: "hex_digit d \<noteq> CHR 0x0A" if "d < 16"
proof -
  have "of_char (hex_digit d) \<noteq> (10 :: nat)" using that by (simp add: hex_digit_def)
  then show ?thesis by auto
qed

lemma json_string_no_newline: "CHR 0x0A \<notin> set (json_string s)"
proof -
  have bs: "char_of (92 :: nat) = CHR 0x5C" by code_simp
  have "of_char c div 16 < (16 :: nat)" for c :: char
    by (rule less_mult_imp_div_less) (simp add: nat_of_char_less_256)
  then have "CHR 0x0A \<notin> set (json_escape c)" for c
    using bs hex_digit_no_newline [of "of_char c div 16"] hex_digit_no_newline [of "of_char c mod 16"]
    by (auto simp: json_escape_def Let_def)
  then show ?thesis by (auto simp: json_string_def)
qed

lemma show_nat_no_newline: "CHR 0x0A \<notin> set (show_nat n)"
  by (rule not_digit_in_show_nat) (simp add: is_digit_def)

lemma doc_lines_ok: "doc_lines x \<noteq> [] \<and> last (doc_lines x) \<noteq> [] \<and> (\<forall>l \<in> set (doc_lines x). CHR 0x0A \<notin> set l)"
proof (induction x rule: doc_lines.induct)
  case (3 n)
  then show ?case using show_nat_no_newline by (auto simp: show_int_def)
next
  case (4 n)
  then show ?case using show_nat_no_newline by auto
next
  case (5 s)
  then show ?case using json_string_no_newline by (simp add: json_string_def)
next
  case (6 xs)
  have "CHR 0x0A \<notin> set l" if "l \<in> set (comma_all (map doc_lines xs))" for l
  proof (rule comma_all_lines [OF _ that])
    fix ls assume "ls \<in> set (map doc_lines xs)"
    then obtain x where x: "x \<in> set xs" "ls = doc_lines x" by auto
    then have "xs \<noteq> []" by auto
    from "6.IH" [OF this x(1)] x(2) show "ls \<noteq> [] \<and> (\<forall>l \<in> set ls. CHR 0x0A \<notin> set l)" by simp
  qed
  then show ?case by (auto simp: shift_def)
next
  case (7 kvs)
  let ?f = "\<lambda>kv. (json_string (fst kv) @ '': '' @ hd (doc_lines (snd kv))) # tl (doc_lines (snd kv))"
  have "CHR 0x0A \<notin> set l" if "l \<in> set (comma_all (map ?f kvs))" for l
  proof (rule comma_all_lines [OF _ that])
    fix ls assume "ls \<in> set (map ?f kvs)"
    then obtain kv where kv: "kv \<in> set kvs" "ls = ?f kv" by auto
    then have "kvs \<noteq> []" by auto
    with "7.IH" kv(1) have ne: "doc_lines (snd kv) \<noteq> []" and ok: "\<forall>l \<in> set (doc_lines (snd kv)). CHR 0x0A \<notin> set l"
      by auto
    from ne ok have "CHR 0x0A \<notin> set (hd (doc_lines (snd kv)))" by simp
    moreover have "\<forall>l \<in> set (tl (doc_lines (snd kv))). CHR 0x0A \<notin> set l" using ok ne list.set_sel(2) [OF ne] by blast
    ultimately show "ls \<noteq> [] \<and> (\<forall>l \<in> set ls. CHR 0x0A \<notin> set l)"
      using json_string_no_newline kv by auto
  qed
  then show ?case by (auto simp: shift_def)
qed auto

text \<open>Reading the rendered template back gives the text of the payload, and that its lines.\<close>

theorem rendered_template_reads_back:
  "text_lines (dumps_indented payload) = doc_lines payload \<and>
   block_text (render_template payload) = dumps_indented payload"
proof -
  let ?ls = "doc_lines payload"
  note ok = doc_lines_ok [of payload]
  have sp: "split_on (CHR 0x0A) (dumps_indented payload) = ?ls"
    unfolding dumps_indented_def newline_def by (rule split_on_join) (use ok in auto)
  with ok have tl: "text_lines (dumps_indented payload) = ?ls" by (simp add: text_lines_def)
  have "text_lines (join newline (map ((@) ''    '') ?ls) @ newline) = map ((@) ''    '') ?ls"
    by (rule text_lines_join) (use ok in auto)
  then have "block_text (render_template payload) = join newline ?ls"
    by (simp add: block_text_def render_template_def comp_def tl)
  with tl show ?thesis by (simp add: dumps_indented_def)
qed

text \<open>A program that gets its paths knows which two files it reads and writes; mixed modes are refused.\<close>

lemma select_paths_Inr:
  "select_paths l r a = Inr p \<longleftrightarrow>
   (\<exists>s out. \<not> cli_local a \<and> \<not> cli_remote a \<and> cli_spec a = Some s \<and> cli_out a = Some out \<and> p = (s, out)) \<or>
   (cli_spec a = None \<and> cli_out a = None \<and> (cli_local a \<and> \<not> cli_remote a \<and> p = l \<or> \<not> cli_local a \<and> cli_remote a \<and> p = r))"
  by (auto simp: select_paths_def Let_def split: option.splits)

end
