(* ===== verification/Openapi.thy ===== *)
theory Openapi
  imports Auth_Routes
begin

text \<open>
  The OpenAPI document of the API service (\<open>custom_openapi\<close> in \<open>api/src/main.py\<close>): the security
  schemes it declares and the requirement it writes at every operation.  The document FastAPI
  generates from the routes is a parameter; of an operation only its security is kept.
\<close>

section \<open>The document\<close>

type_synonym requirement = "string \<times> string list"

record operation =
  op_security :: "requirement list option"
  op_rest :: json

record openapi =
  oa_security_schemes :: "(string, json) dict"
  oa_paths :: "(string, (string, operation) dict) dict"

definition scope_names :: json where
  "scope_names = JObj [(''openid'', JStr ''OpenID Connect scope''), (''profile'', JStr ''User profile''), (''email'', JStr ''User email'')]"

definition bearer_scheme :: json where
  "bearer_scheme = JObj [(''type'', JStr ''http''), (''scheme'', JStr ''bearer''), (''bearerFormat'', JStr ''JWT''),
     (''description'', JStr ''Paste Keycloak access token'')]"

definition keycloak_scheme :: "Config \<Rightarrow> json" where
  "keycloak_scheme cfg = JObj [(''type'', JStr ''oauth2''),
     (''description'', JStr ''Login with Keycloak via Authorization Code + PKCE''),
     (''flows'', JObj [(''authorizationCode'',
        JObj [(''authorizationUrl'', JStr (KEYCLOAK_AUTH_URL cfg)), (''tokenUrl'', JStr (KEYCLOAK_TOKEN_URL cfg)),
              (''scopes'', scope_names)])])]"

definition password_scheme :: "Config \<Rightarrow> json" where
  "password_scheme cfg = JObj [(''type'', JStr ''oauth2''),
     (''description'', JStr ''Login with Keycloak username/password using the password grant''),
     (''flows'', JObj [(''password'', JObj [(''tokenUrl'', JStr (KEYCLOAK_TOKEN_URL cfg)), (''scopes'', scope_names)])])]"

definition api_key_scheme :: json where
  "api_key_scheme = JObj [(''type'', JStr ''apiKey''), (''in'', JStr ''header''), (''name'', JStr ''x-api-key''),
     (''description'', JStr ''TEEHR API key'')]"

definition declare_schemes :: "Config \<Rightarrow> (string, json) dict \<Rightarrow> (string, json) dict" where
  "declare_schemes cfg d =
     dict_set (dict_set (dict_set (dict_set d ''BearerAuth'' bearer_scheme)
       ''OAuth2Keycloak'' (keycloak_scheme cfg)) ''OAuth2KeycloakPassword'' (password_scheme cfg))
       ''ApiKeyAuth'' api_key_scheme"

definition PUBLIC_PATHS :: "string list" where
  "PUBLIC_PATHS = [''/health'', ''/openapi.json'', ''/docs'', ''/redoc'']"

definition METHODS :: "string list" where
  "METHODS = [''get'', ''post'', ''put'', ''patch'', ''delete'', ''head'']"

definition jwt_security :: "requirement list" where
  "jwt_security = [(''OAuth2KeycloakPassword'', [''openid'', ''profile'', ''email'']),
     (''OAuth2Keycloak'', [''openid'', ''profile'', ''email'']), (''BearerAuth'', [])]"

definition any_security :: "requirement list" where
  "any_security = jwt_security @ [(''ApiKeyAuth'', [])]"

text \<open>\<open>operation.setdefault("security", ...)\<close> at every method of a path that is not public.\<close>

definition default_operation :: "operation \<Rightarrow> operation" where
  "default_operation op = (case op_security op of None \<Rightarrow> op\<lparr>op_security := Some any_security\<rparr> | Some _ \<Rightarrow> op)"

definition default_item :: "string \<Rightarrow> (string, operation) dict \<Rightarrow> (string, operation) dict" where
  "default_item path item =
     (if path \<in> set PUBLIC_PATHS then item
      else map (\<lambda>(m, op). (m, if lower m \<in> set METHODS then default_operation op else op)) item)"

definition default_paths :: "(string, (string, operation) dict) dict \<Rightarrow> (string, (string, operation) dict) dict" where
  "default_paths = map (\<lambda>(path, item). (path, default_item path item))"

text \<open>An override replaces the security of one operation, where there is that operation.\<close>

definition override_security ::
  "string \<times> string \<times> requirement list \<Rightarrow> (string, (string, operation) dict) dict \<Rightarrow> (string, (string, operation) dict) dict"
where
  "override_security ov paths =
     (case ov of (path, meth, sec) \<Rightarrow>
        map_key path (map_key meth (\<lambda>op. op\<lparr>op_security := Some sec\<rparr>)) paths)"

definition OVERRIDES :: "(string \<times> string \<times> requirement list) list" where
  "OVERRIDES =
     [(''/auth/me'', ''get'', any_security), (''/auth/api-keys'', ''get'', jwt_security), (''/auth/api-keys'', ''post'', jwt_security),
      (''/auth/api-keys/{key_id}'', ''delete'', jwt_security), (''/auth/polaris-token'', ''post'', jwt_security),
      (''/auth/polaris-session'', ''post'', jwt_security), (''/auth/polaris-token/session'', ''post'', [])]"

text \<open>The document is made once; \<open>generated\<close> is what \<open>get_openapi\<close> gives.\<close>

definition custom_openapi :: "Config \<Rightarrow> openapi \<Rightarrow> openapi option \<Rightarrow> openapi \<times> openapi option" where
  "custom_openapi cfg generated cached =
     (case cached of
        Some d \<Rightarrow> (d, cached)
      | None \<Rightarrow>
          (let d = generated\<lparr>oa_security_schemes := declare_schemes cfg (oa_security_schemes generated),
                             oa_paths := fold override_security OVERRIDES (default_paths (oa_paths generated))\<rparr>
           in (d, Some d)))"

section \<open>Facts\<close>

definition security_of :: "(string, (string, operation) dict) dict \<Rightarrow> string \<Rightarrow> string \<Rightarrow> requirement list option option" where
  "security_of paths path meth = Option.bind (dict_get paths path) (\<lambda>item. map_option op_security (dict_get item meth))"

definition last_override :: "(string \<times> string \<times> requirement list) list \<Rightarrow> string \<Rightarrow> string \<Rightarrow> requirement list option \<Rightarrow> requirement list option" where
  "last_override ovs path meth = fold (\<lambda>(p, m, s) acc. if path = p \<and> meth = m then Some s else acc) ovs"

lemma map_of_map_pair: "map_of (map (\<lambda>(k, v). (k, f k v)) d) k = map_option (f k) (map_of d k)"
  by (induction d) auto

lemma security_of_override:
  "security_of (override_security (p, m, s) paths) path meth =
   (if path = p \<and> meth = m then map_option (\<lambda>_. Some s) (security_of paths path meth) else security_of paths path meth)"
  by (cases "dict_get paths path")
    (auto simp: security_of_def override_security_def map_key_get option.map_comp comp_def)

lemma security_of_overrides:
  "security_of (fold override_security ovs paths) path meth = map_option (last_override ovs path meth) (security_of paths path meth)"
proof (induction ovs arbitrary: paths)
  case Nil
  show ?case by (cases "security_of paths path meth") (simp_all add: last_override_def)
next
  case (Cons ov ovs)
  obtain p m s where "ov = (p, m, s)" by (cases ov)
  then show ?case
    by (cases "security_of paths path meth") (auto simp: Cons.IH security_of_override last_override_def)
qed

lemma last_override_absent:
  "(path, meth) \<notin> (\<lambda>(p, m, s). (p, m)) ` set ovs \<Longrightarrow> last_override ovs path meth acc = acc"
  by (induction ovs arbitrary: acc) (auto simp: last_override_def)

text \<open>The security of an operation as the overrides leave it.\<close>

definition documented_security :: "string \<Rightarrow> string \<Rightarrow> requirement list" where
  "documented_security path meth =
     (if (path, meth) \<in> set [(''/auth/api-keys'', ''get''), (''/auth/api-keys'', ''post''), (''/auth/api-keys/{key_id}'', ''delete''),
           (''/auth/polaris-token'', ''post''), (''/auth/polaris-session'', ''post'')] then jwt_security
      else if (path, meth) = (''/auth/polaris-token/session'', ''post'') then [] else any_security)"

lemma overrides_documented: "last_override OVERRIDES path meth (Some any_security) = Some (documented_security path meth)"
proof (cases "(path, meth) \<in> (\<lambda>(p, m, s). (p, m)) ` set OVERRIDES")
  case False
  then have "documented_security path meth = any_security"
    by (auto simp: OVERRIDES_def documented_security_def)
  with last_override_absent [OF False] show ?thesis by simp
next
  case True
  have "list_all (\<lambda>(p, m, s). last_override OVERRIDES p m (Some any_security) = Some (documented_security p m)) OVERRIDES"
    by code_simp
  with True show ?thesis by (auto simp: list_all_iff)
qed

lemma security_of_default:
  assumes "path \<notin> set PUBLIC_PATHS" "lower meth \<in> set METHODS"
  shows "security_of (default_paths paths) path meth =
    map_option (\<lambda>s. Some (case s of None \<Rightarrow> any_security | Some x \<Rightarrow> x)) (security_of paths path meth)"
proof (cases "dict_get paths path")
  case None
  then show ?thesis by (simp add: security_of_def default_paths_def map_of_map_pair)
next
  case (Some item)
  then show ?thesis
    using assms
    by (cases "dict_get item meth")
      (auto simp: security_of_def default_paths_def default_item_def map_of_map_pair default_operation_def split: option.split)
qed

text \<open>The routes documented for a Keycloak token only are those whose guards refuse an API key.\<close>

lemma documented_guards:
  assumes "auth_type u \<noteq> ''jwt''"
  shows "list_api_keys u st = (Inl (HTTPException 403 (DText ''Admin JWT required'')), st) \<or>
      list_api_keys u st = (Inl (HTTPException 401 (DText ''Authentication required'')), st)"
    and "own_user_id u n = Inl (HTTPException 403 (DText ''JWT identity required''))"
    and "(''ApiKeyAuth'', ss) \<notin> set jwt_security"
  using assms by (auto simp: list_api_keys_def get_admin_identity_def get_authenticated_identity_def own_user_id_def jwt_security_def)

text \<open>
  Every documented operation outside the public paths states what it needs, in schemes the
  document declares: any credential by default, a Keycloak token on the routes that administer
  keys or hand out Polaris tokens, and none on the exchange of a broker session.
\<close>

theorem documented_security_complete:
  assumes "path \<notin> set PUBLIC_PATHS" "meth \<in> set METHODS"
    and "security_of (oa_paths generated) path meth = Some None"
    and "custom_openapi cfg generated None = (d, c)"
  shows "security_of (oa_paths d) path meth = Some (Some (documented_security path meth)) \<and>
    (\<forall>r \<in> set (documented_security path meth). dict_get (oa_security_schemes d) (fst r) \<noteq> None) \<and> c = Some d"
proof (intro conjI)
  have lm: "lower meth \<in> set METHODS"
    using assms(2) by (auto simp: METHODS_def lower_def lower_char_def)
  have d: "oa_paths d = fold override_security OVERRIDES (default_paths (oa_paths generated))"
    "oa_security_schemes d = declare_schemes cfg (oa_security_schemes generated)" "c = Some d"
    using assms(4) by (auto simp: custom_openapi_def Let_def)
  show "security_of (oa_paths d) path meth = Some (Some (documented_security path meth))"
    by (simp add: d(1) security_of_overrides security_of_default [OF assms(1) lm] assms(3) overrides_documented)
  show "\<forall>r \<in> set (documented_security path meth). dict_get (oa_security_schemes d) (fst r) \<noteq> None"
    by (simp add: d(2) declare_schemes_def documented_security_def any_security_def jwt_security_def)
  show "c = Some d" by (rule d(3))
qed

definition sample_openapi :: openapi where
  "sample_openapi =
     \<lparr>oa_security_schemes = [],
      oa_paths = [(''/health'', [(''get'', \<lparr>op_security = None, op_rest = JNull\<rparr>)]),
                  (''/collections'', [(''get'', \<lparr>op_security = None, op_rest = JNull\<rparr>)]),
                  (''/auth/polaris-token'', [(''post'', \<lparr>op_security = None, op_rest = JNull\<rparr>)])]\<rparr>"

lemma documented_security_complete_witness:
  "\<forall>cfg. security_of (oa_paths (fst (custom_openapi cfg sample_openapi None))) ''/auth/polaris-token'' ''post'' = Some (Some jwt_security)"
proof
  fix cfg
  obtain d c where "custom_openapi cfg sample_openapi None = (d, c)" by (cases "custom_openapi cfg sample_openapi None")
  moreover have "''/auth/polaris-token'' \<notin> set PUBLIC_PATHS" "''post'' \<in> set METHODS"
    "security_of (oa_paths sample_openapi) ''/auth/polaris-token'' ''post'' = Some None"
    "documented_security ''/auth/polaris-token'' ''post'' = jwt_security" by code_simp+
  ultimately show "security_of (oa_paths (fst (custom_openapi cfg sample_openapi None))) ''/auth/polaris-token'' ''post'' = Some (Some jwt_security)"
    using documented_security_complete [of "''/auth/polaris-token''" "''post''" sample_openapi cfg d c] by simp
qed

end
