(* ===== verification/Routing.thy ===== *)
theory Routing
  imports Py_Strings
begin

text \<open>
  Routers: the templates of paths, the routes in the order they were added, and the choice of a
  route.  What a template matches is Starlette's and stated as an interface: a parameter stands
  for a part of the path that is not empty and holds no slash.
\<close>

datatype part = Lit string | Var string

type_synonym template = "part list"

fun variables :: "template \<Rightarrow> string list" where
  "variables [] = []"
| "variables (Lit _ # ps) = variables ps"
| "variables (Var n # ps) = n # variables ps"

text \<open>The path a template has for the values of its parameters.\<close>

fun render_path :: "template \<Rightarrow> string list \<Rightarrow> string" where
  "render_path (Lit s # ps) vs = s @ render_path ps vs"
| "render_path (Var _ # ps) (v # vs) = v @ render_path ps vs"
| "render_path _ _ = []"

definition path_segment :: "string \<Rightarrow> bool" where
  "path_segment v \<longleftrightarrow> v \<noteq> [] \<and> CHR ''/'' \<notin> set v"

definition fits :: "template \<Rightarrow> string list \<Rightarrow> string \<Rightarrow> bool" where
  "fits ps vs p \<longleftrightarrow> List.length vs = List.length (variables ps) \<and> list_all path_segment vs \<and> p = render_path ps vs"

lemma fits_simps [simp]:
  "fits [] vs p \<longleftrightarrow> vs = [] \<and> p = []"
  "fits (Lit s # ps) vs p \<longleftrightarrow> (\<exists>q. p = s @ q \<and> fits ps vs q)"
  "fits (Var n # ps) vs p \<longleftrightarrow> (\<exists>v vs' q. vs = v # vs' \<and> p = v @ q \<and> path_segment v \<and> fits ps vs' q)"
  by (auto simp: fits_def length_Suc_conv)

section \<open>Routers\<close>

record 'e route =
  rt_method :: string
  rt_template :: template
  rt_endpoint :: 'e

type_synonym matcher = "template \<Rightarrow> string \<Rightarrow> string list option"

datatype 'e outcome = Handle 'e "string list" | MethodNotAllowed | NoRoute

text \<open>
  The first route whose template and method match answers; a path that only routes of another
  method match is a 405, and one that none matches a 404, or a redirect where the path with its last
  slash added or taken away has a route.
\<close>

fun dispatch :: "matcher \<Rightarrow> 'e route list \<Rightarrow> string \<Rightarrow> string \<Rightarrow> 'e outcome" where
  "dispatch m [] meth p = NoRoute"
| "dispatch m (r # rs) meth p =
     (case m (rt_template r) p of
        None \<Rightarrow> dispatch m rs meth p
      | Some vs \<Rightarrow>
          if rt_method r = meth then Handle (rt_endpoint r) vs
          else (case dispatch m rs meth p of NoRoute \<Rightarrow> MethodNotAllowed | out \<Rightarrow> out))"

lemma append_singleton: "[x] @ xs = x # xs"
  by simp

text \<open>\<open>parent.include_router(child)\<close> adds the routes the child has, in their order.\<close>

definition include_router :: "'e route list \<Rightarrow> 'e route list \<Rightarrow> 'e route list" where
  "include_router parent child = parent @ child"

definition with_prefix :: "string \<Rightarrow> 'e route list \<Rightarrow> 'e route list" where
  "with_prefix pfx = map (\<lambda>r. r\<lparr>rt_template := Lit pfx # rt_template r\<rparr>)"

section \<open>The interface of the matcher\<close>

locale path_matcher =
  fixes m :: matcher
  assumes sound: "m ps p = Some vs \<Longrightarrow> fits ps vs p"
    and complete: "fits ps vs p \<Longrightarrow> m ps p \<noteq> None"
begin

lemma match_None: "m ps p = None \<longleftrightarrow> (\<nexists>vs. fits ps vs p)"
  by (metis complete not_Some_eq sound)

text \<open>Where a path determines the values, the match gives them.\<close>

lemma match_unique: "fits ps vs p \<Longrightarrow> (\<And>ws. fits ps ws p \<Longrightarrow> ws = vs) \<Longrightarrow> m ps p = Some vs"
  by (metis complete not_Some_eq sound)

lemma match_literal: "m [Lit s] p = (if p = s then Some [] else None)"
proof (cases "p = s")
  case True
  have "m [Lit s] p = Some []" by (rule match_unique) (simp_all add: True)
  with True show ?thesis by simp
next
  case False
  then have "m [Lit s] p = None" by (simp add: match_None)
  with False show ?thesis by simp
qed

lemma match_segment:
  "m [Lit a, Var n, Lit b] p = Some vs \<longleftrightarrow> (\<exists>v. vs = [v] \<and> path_segment v \<and> p = a @ v @ b)"
proof
  assume "m [Lit a, Var n, Lit b] p = Some vs"
  from sound [OF this] show "\<exists>v. vs = [v] \<and> path_segment v \<and> p = a @ v @ b" by auto
next
  assume "\<exists>v. vs = [v] \<and> path_segment v \<and> p = a @ v @ b"
  then obtain v where v: "vs = [v]" "path_segment v" "p = a @ v @ b" by blast
  then show "m [Lit a, Var n, Lit b] p = Some vs" by (intro match_unique) auto
qed

lemma match_last: "m [Lit a, Var n] p = Some vs \<longleftrightarrow> (\<exists>v. vs = [v] \<and> path_segment v \<and> p = a @ v)"
proof
  assume "m [Lit a, Var n] p = Some vs"
  from sound [OF this] show "\<exists>v. vs = [v] \<and> path_segment v \<and> p = a @ v" by auto
next
  assume "\<exists>v. vs = [v] \<and> path_segment v \<and> p = a @ v"
  then obtain v where v: "vs = [v]" "path_segment v" "p = a @ v" by blast
  then show "m [Lit a, Var n] p = Some vs" by (intro match_unique) auto
qed

text \<open>What a router hands to an endpoint comes from one of its routes.\<close>

lemma dispatch_route:
  "dispatch m rs meth p = Handle e vs \<Longrightarrow>
   \<exists>r \<in> set rs. rt_endpoint r = e \<and> rt_method r = meth \<and> m (rt_template r) p = Some vs"
  by (induction rs) (auto split: option.split_asm if_split_asm outcome.split_asm)

lemma dispatch_fits:
  assumes "dispatch m rs meth p = Handle e vs"
  shows "\<exists>r \<in> set rs. rt_endpoint r = e \<and> rt_method r = meth \<and> fits (rt_template r) vs p"
proof -
  from dispatch_route [OF assms] obtain r where
    r: "r \<in> set rs" "rt_endpoint r = e" "rt_method r = meth" "m (rt_template r) p = Some vs" by blast
  from sound [OF r(4)] r show ?thesis by blast
qed

lemma dispatch_skip:
  "\<forall>r \<in> set rs. m (rt_template r) p = None \<Longrightarrow> dispatch m (rs @ rs') meth p = dispatch m rs' meth p"
  by (induction rs) simp_all

end

section \<open>A matcher\<close>

text \<open>Starlette's greedy search: the longest value that lets the rest match.\<close>

fun first_some :: "('a \<Rightarrow> 'b option) \<Rightarrow> 'a list \<Rightarrow> 'b option" where
  "first_some f [] = None"
| "first_some f (x # xs) = (case f x of None \<Rightarrow> first_some f xs | Some y \<Rightarrow> Some y)"

lemma first_some_None: "first_some f xs = None \<longleftrightarrow> (\<forall>x \<in> set xs. f x = None)"
  by (induction xs) (auto split: option.split)

lemma first_some_Some: "first_some f xs = Some y \<Longrightarrow> \<exists>x \<in> set xs. f x = Some y"
  by (induction xs) (auto split: option.split_asm)

fun template_match :: matcher where
  "template_match [] p = (if p = [] then Some [] else None)"
| "template_match (Lit s # ps) p = (if starts_with p s then template_match ps (drop (List.length s) p) else None)"
| "template_match (Var _ # ps) p =
     first_some (\<lambda>k. map_option (Cons (take k p)) (template_match ps (drop k p)))
       (rev [1..<Suc (List.length (takeWhile (\<lambda>c. c \<noteq> CHR ''/'') p))])"

lemma path_segment_take:
  assumes "1 \<le> k" "k \<le> List.length (takeWhile (\<lambda>c. c \<noteq> CHR ''/'') p)"
  shows "path_segment (take k p)"
proof -
  have "List.length (takeWhile (\<lambda>c. c \<noteq> CHR ''/'') p) \<le> List.length p" by (rule length_takeWhile_le)
  moreover have "take k p = take k (takeWhile (\<lambda>c. c \<noteq> CHR ''/'') p)"
    by (metis assms(2) min.absorb1 take_take takeWhile_eq_take)
  ultimately show ?thesis using assms by (auto simp: path_segment_def dest: in_set_takeD set_takeWhileD)
qed

lemma template_match_sound: "template_match ps p = Some vs \<Longrightarrow> fits ps vs p"
proof (induction ps p arbitrary: vs rule: template_match.induct)
  case (1 p)
  then show ?case by (simp split: if_split_asm)
next
  case (2 s ps p)
  then have "template_match ps (drop (List.length s) p) = Some vs" "starts_with p s" by (simp_all split: if_split_asm)
  moreover from this(2) have "p = s @ drop (List.length s) p" by (auto elim!: prefixE)
  ultimately show ?case using 2 by (auto simp del: fits_simps(1))
next
  case (3 n ps p)
  from first_some_Some [OF 3(2) [unfolded template_match.simps]] obtain k ws where
    k: "1 \<le> k" "k \<le> List.length (takeWhile (\<lambda>c. c \<noteq> CHR ''/'') p)" "template_match ps (drop k p) = Some ws"
    "vs = take k p # ws"
    by auto
  with 3(1) path_segment_take [OF k(1,2)] show ?case by (auto intro!: exI [of _ "drop k p"])
qed

lemma template_match_complete: "fits ps vs p \<Longrightarrow> template_match ps p \<noteq> None"
proof (induction ps arbitrary: vs p)
  case Nil
  then show ?case by simp
next
  case (Cons a ps)
  show ?case
  proof (cases a)
    case (Lit s)
    with Cons show ?thesis by auto
  next
    case (Var n)
    with Cons.prems obtain v vs' q where v: "vs = v # vs'" "p = v @ q" "path_segment v" "fits ps vs' q" by auto
    have "List.length v \<in> set (rev [1..<Suc (List.length (takeWhile (\<lambda>c. c \<noteq> CHR ''/'') p))])"
      using v(2,3) by (auto simp: path_segment_def Suc_le_eq takeWhile_append)
    moreover have "template_match ps (drop (List.length v) p) \<noteq> None" using Cons.IH [OF v(4)] v(2) by simp
    ultimately show ?thesis unfolding Var template_match.simps first_some_None by auto
  qed
qed

interpretation greedy: path_matcher template_match
  by unfold_locales (auto dest: template_match_sound template_match_complete)

end
