(* ===== verification/X_Router.thy ===== *)
theory X_Router
  imports Routing X_Main
begin

text \<open>
  The routes of the xpublish service (\<open>xpublish-api/src/main.py\<close>): its outer application with the
  archive route above the mount, the application mounted at \<open>/api\<close>, and what the gate reads off
  a path against what the routers make of it.  The routes of xpublish and its plugins are the
  argument \<open>plugins\<close>; they are registered before the service's own.  A path is the
  decoded path of a request, which the gate reads as \<open>request.url.path\<close> and the routers as they are
  given it; the two are the same unless it has a decoded \<open>?\<close> or \<open>#\<close>, which no name of a repo has.
\<close>

section \<open>Endpoints and routes\<close>

datatype x_endpoint =
    Icechunk_credentials | List_dataset_keys
  | Dataset_variables | Dataset_coord_values | Dataset_metadata | Dataset_variable_attrs
  | List_vector_tiles | Get_vector_tile_archive
  | Health
  | Plugin string | Dataset_plugin string

definition x_route :: "string \<Rightarrow> template \<Rightarrow> x_endpoint \<Rightarrow> x_endpoint route" where
  "x_route meth tpl e = \<lparr>rt_method = meth, rt_template = tpl, rt_endpoint = e\<rparr>"

lemma x_route_simps [simp]:
  "rt_method (x_route meth tpl e) = meth" "rt_template (x_route meth tpl e) = tpl" "rt_endpoint (x_route meth tpl e) = e"
  by (simp_all add: x_route_def)

definition own_api_routes :: "x_endpoint route list" where
  "own_api_routes =
     [x_route ''POST'' [Lit ''/auth/icechunk-credentials''] Icechunk_credentials,
      x_route ''GET'' [Lit ''/dataset-keys''] List_dataset_keys,
      x_route ''GET'' [Lit ''/dataset-variables/'', Var ''dataset_id''] Dataset_variables,
      x_route ''GET'' [Lit ''/datasets/'', Var ''dataset_id'', Lit ''/coords/'', Var ''coord_name''] Dataset_coord_values,
      x_route ''GET'' [Lit ''/datasets/'', Var ''dataset_id'', Lit ''/metadata''] Dataset_metadata,
      x_route ''GET'' [Lit ''/datasets/'', Var ''dataset_id'', Lit ''/variable-attrs''] Dataset_variable_attrs,
      x_route ''GET'' [Lit ''/vector-tiles''] List_vector_tiles]"

definition api_app_routes :: "x_endpoint route list \<Rightarrow> x_endpoint route list" where
  "api_app_routes plugins = include_router plugins own_api_routes"

text \<open>
  An entry of the outer router: a route of its own, or the mount, which takes every path under
  its prefix, of any method, and hands the rest of the path to its own router.
\<close>

datatype 'e entry = Own "'e route" | Mount string "'e route list"

definition outer_entries :: "x_endpoint route list \<Rightarrow> x_endpoint entry list" where
  "outer_entries plugins =
     [Own (x_route ''GET'' [Lit ''/api/vector-tiles/'', Var ''layer'', Lit ''.pmtiles''] Get_vector_tile_archive),
      Mount ''/api'' (api_app_routes plugins),
      Own (x_route ''GET'' [Lit ''/health''] Health)]"

fun first_full :: "matcher \<Rightarrow> 'e entry list \<Rightarrow> string \<Rightarrow> string \<Rightarrow> 'e outcome option" where
  "first_full m [] meth p = None"
| "first_full m (Own r # es) meth p =
     (case m (rt_template r) p of
        Some vs \<Rightarrow> if rt_method r = meth then Some (Handle (rt_endpoint r) vs) else first_full m es meth p
      | None \<Rightarrow> first_full m es meth p)"
| "first_full m (Mount pfx rs # es) meth p =
     (if starts_with p (pfx @ ''/'') then Some (dispatch m rs meth (drop_prefix pfx p)) else first_full m es meth p)"

fun partial_match :: "matcher \<Rightarrow> 'e entry \<Rightarrow> string \<Rightarrow> bool" where
  "partial_match m (Own r) p \<longleftrightarrow> m (rt_template r) p \<noteq> None"
| "partial_match m (Mount _ _) p \<longleftrightarrow> False"

definition x_dispatch :: "matcher \<Rightarrow> x_endpoint route list \<Rightarrow> string \<Rightarrow> string \<Rightarrow> x_endpoint outcome" where
  "x_dispatch m plugins meth p =
     (case first_full m (outer_entries plugins) meth p of
        Some out \<Rightarrow> out
      | None \<Rightarrow> if list_ex (\<lambda>e. partial_match m e p) (outer_entries plugins) then MethodNotAllowed else NoRoute)"

text \<open>What runs inside the gate.\<close>

definition x_route_handler ::
  "matcher \<Rightarrow> x_endpoint route list
     \<Rightarrow> (x_endpoint \<Rightarrow> string list \<Rightarrow> XRequest \<Rightarrow> 's \<Rightarrow> (exn + 'b gate_reply) \<times> 's)
     \<Rightarrow> XRequest \<Rightarrow> 's \<Rightarrow> (exn + 'b gate_reply) \<times> 's"
where
  "x_route_handler m plugins run rq s =
     (case x_dispatch m plugins (xr_method rq) (xr_path rq) of
        Handle e vs \<Rightarrow> run e vs rq s
      | MethodNotAllowed \<Rightarrow> (Inr (JSONReply 405 (DText ''Method Not Allowed'')), s)
      | NoRoute \<Rightarrow> (Inr (JSONReply 404 (DText ''Not Found'')), s))"

section \<open>The archive route is above the mount\<close>

text \<open>A mount that came first would take the archive's path: \<open>api_app_routes\<close> has no route for it.\<close>

lemma archive_not_mounted:
  assumes "path_matcher m" "path_segment layer"
    and "\<forall>r \<in> set plugins. m (rt_template r) (''/vector-tiles/'' @ layer @ ''.pmtiles'') = None"
  shows "x_dispatch m plugins ''GET'' (''/api/vector-tiles/'' @ layer @ ''.pmtiles'') = Handle Get_vector_tile_archive [layer] \<and>
    dispatch m (api_app_routes plugins) ''GET'' (''/vector-tiles/'' @ layer @ ''.pmtiles'') = NoRoute"
proof
  note pm = assms(1)
  let ?p = "''/api/vector-tiles/'' @ layer @ ''.pmtiles''"
  have "m [Lit ''/api/vector-tiles/'', Var ''layer'', Lit ''.pmtiles''] ?p = Some [layer]"
    unfolding path_matcher.match_segment [OF pm] using assms(2) by blast
  then show "x_dispatch m plugins ''GET'' ?p = Handle Get_vector_tile_archive [layer]"
    unfolding x_dispatch_def outer_entries_def first_full.simps x_route_simps by (simp only: option.case simp_thms if_True)
next
  note pm = assms(1)
  let ?q = "''/vector-tiles/'' @ layer @ ''.pmtiles''"
  have own: "m (rt_template r) ?q = None" if "r \<in> set own_api_routes" for r
    using that assms(2) by (auto simp: own_api_routes_def path_matcher.match_None [OF pm] path_segment_def)
  have "\<forall>r \<in> set (plugins @ own_api_routes). m (rt_template r) ?q = None" using assms(3) own by auto
  from path_matcher.dispatch_skip [OF pm this, of "[]"]
  show "dispatch m (api_app_routes plugins) ''GET'' ?q = NoRoute"
    by (simp only: api_app_routes_def include_router_def append_Nil2 dispatch.simps)
qed

section \<open>The gate and the routers agree\<close>

text \<open>What an endpoint reads, by the values of its path.\<close>

fun reads_of :: "x_endpoint \<Rightarrow> string list \<Rightarrow> (kind \<times> string list) option" where
  "reads_of Get_vector_tile_archive (layer # _) = Some (Layers, [layer])"
| "reads_of Dataset_variables (d # _) = Some (Repos, repo_candidates d)"
| "reads_of Dataset_coord_values (d # _) = Some (Repos, repo_candidates d)"
| "reads_of Dataset_metadata (d # _) = Some (Repos, repo_candidates d)"
| "reads_of Dataset_variable_attrs (d # _) = Some (Repos, repo_candidates d)"
| "reads_of (Dataset_plugin _) (d # _) = Some (Repos, repo_candidates d)"
| "reads_of _ _ = None"

text \<open>A plugin's dataset route has the id as the segment after \<open>/datasets/\<close> and something after it.\<close>

definition plugin_ok :: "x_endpoint route \<Rightarrow> bool" where
  "plugin_ok r \<longleftrightarrow> rt_method r \<noteq> ''OPTIONS'' \<and>
     ((\<exists>n. rt_endpoint r = Plugin n) \<or>
      (\<exists>n s ps. rt_endpoint r = Dataset_plugin n \<and>
         rt_template r = Lit ''/datasets/'' # Var ''dataset_id'' # Lit (CHR ''/'' # s) # ps))"


lemma x_dispatch_cases:
  assumes "path_matcher m" "x_dispatch m plugins meth p = Handle e vs"
  shows "(e = Get_vector_tile_archive \<and> meth = ''GET'' \<and> (\<exists>v. vs = [v] \<and> path_segment v \<and> p = ''/api/vector-tiles/'' @ v @ ''.pmtiles'')) \<or>
    (\<exists>q. p = ''/api'' @ q \<and> (\<exists>r \<in> set (api_app_routes plugins). rt_endpoint r = e \<and> rt_method r = meth \<and> fits (rt_template r) vs q)) \<or>
    e = Health"
proof -
  let ?archive = "m [Lit ''/api/vector-tiles/'', Var ''layer'', Lit ''.pmtiles''] p"
  from assms(2) consider "?archive = Some vs" "e = Get_vector_tile_archive" "meth = ''GET''"
    | "starts_with p (''/api'' @ ''/'')" "dispatch m (api_app_routes plugins) meth (drop_prefix ''/api'' p) = Handle e vs"
    | "e = Health"
    unfolding x_dispatch_def outer_entries_def first_full.simps x_route_simps
    by (cases ?archive) (simp_all split: if_split_asm option.split_asm)
  then show ?thesis
  proof cases
    case 1
    then show ?thesis unfolding path_matcher.match_segment [OF assms(1)] by blast
  next
    case 2
    from path_matcher.dispatch_fits [OF assms(1) 2(2)] have
      "\<exists>r \<in> set (api_app_routes plugins). rt_endpoint r = e \<and> rt_method r = meth \<and> fits (rt_template r) vs (drop_prefix ''/api'' p)" .
    moreover have "p = ''/api'' @ drop_prefix ''/api'' p" using 2(1) by (auto simp: drop_prefix_def elim!: prefixE)
    ultimately show ?thesis by blast
  qed simp
qed

definition served_rest :: "string \<Rightarrow> bool" where
  "served_rest rest \<longleftrightarrow> rest \<in> {''variable-attrs'', ''metadata''} \<or> list_ex (starts_with rest) DATASET_ROUTES"

lemma dataset_target:
  assumes "path_segment d"
  shows "request_target (''/api/datasets/'' @ d @ CHR ''/'' # rest) =
    (if served_rest rest then Reads Repos (repo_candidates d) else Deny)"
proof -
  have "before_first (CHR ''/'') (d @ CHR ''/'' # rest) = d" "after_first (CHR ''/'') (d @ CHR ''/'' # rest) = rest"
    using assms by (simp_all add: path_segment_def)
  with assms show ?thesis
    by (simp add: request_target_def Let_def drop_prefix_def served_rest_def path_segment_def)
qed

lemma variables_target:
  assumes "path_segment d"
  shows "request_target (''/api/dataset-variables/'' @ d) = Reads Repos (repo_candidates d)"
  using assms by (simp add: request_target_def Let_def drop_prefix_def path_segment_def)

lemma reads_are_targets:
  assumes "path_matcher m" "\<forall>r \<in> set plugins. plugin_ok r" "x_dispatch m plugins meth p = Handle e vs"
    and "reads_of e vs = Some (k, names)"
  shows "request_target p \<in> {Deny, Reads k names} \<and> meth \<noteq> ''OPTIONS'' \<and> p \<noteq> ''/health''"
  using x_dispatch_cases [OF assms(1,3)]
proof (elim disjE exE conjE bexE)
  fix v
  assume "e = Get_vector_tile_archive" "meth = ''GET''" "vs = [v]" "path_segment v" "p = ''/api/vector-tiles/'' @ v @ ''.pmtiles''"
  with assms(4) show ?thesis
    using permitted_archive_path
    by (auto simp: request_target_def Let_def drop_prefix_def path_segment_def)
next
  fix q r
  assume p: "p = ''/api'' @ q" and r: "r \<in> set (api_app_routes plugins)" "rt_endpoint r = e" "rt_method r = meth"
    "fits (rt_template r) vs q"
  from r(1) consider "r \<in> set own_api_routes" | "r \<in> set plugins" by (auto simp: api_app_routes_def include_router_def)
  then show ?thesis
  proof cases
    case 1
    with p r assms(4) show ?thesis
      by (auto simp: own_api_routes_def dataset_target [simplified] variables_target [simplified])
  next
    case 2
    with assms(2) have "plugin_ok r" by blast
    with p r assms(4) show ?thesis by (auto simp: plugin_ok_def dataset_target [simplified])
  qed
next
  assume "e = Health"
  with assms(4) show ?thesis by simp
qed

text \<open>C7 What the gate permits is what the routers then read: an endpoint that reads a dataset or an
  archive runs only for an authenticated user whom the rules permit every repo, or the layer,
  that the values the router took from the path name.  For every other request the gate
  answers, whatever the endpoints do; this holds for the routes of the plugins too, as long as
  they have the dataset's id after \<open>/datasets/\<close>.
\<close>

theorem router_and_gate_agree:
  assumes "path_matcher m" "\<forall>r \<in> set plugins. plugin_ok r"
    and "x_dispatch m plugins (xr_method rq) (xr_path rq) = Handle e vs" "reads_of e vs = Some (k, names)"
  shows "(\<exists>answer. \<forall>run. auth_middleware rules resolve (x_route_handler m plugins run) rq s = answer) \<or>
    (\<exists>u s'. resolve rq s = (Inr u, s') \<and> x_is_authenticated u \<and> list_all (is_permitted rules u k) names \<and>
       (\<forall>run. auth_middleware rules resolve (x_route_handler m plugins run) rq s = run e vs (rq\<lparr>xr_identity := Some u\<rparr>) s'))"
proof -
  from reads_are_targets [OF assms] have t: "request_target (xr_path rq) \<in> {Deny, Reads k names}"
    and path: "xr_method rq \<noteq> ''OPTIONS''" "xr_path rq \<noteq> ''/health''" by auto
  obtain x s' where x: "resolve rq s = (x, s')" by (cases "resolve rq s")
  show ?thesis
  proof (cases "\<exists>u. x = Inr u \<and> x_is_authenticated u \<and> is_request_permitted rules u (xr_path rq)")
    case True
    then obtain u where u: "x = Inr u" "x_is_authenticated u" "is_request_permitted rules u (xr_path rq)" by blast
    have "list_all (is_permitted rules u k) names" using t u(3) by (auto simp: is_request_permitted_def)
    moreover have "auth_middleware rules resolve (x_route_handler m plugins run) rq s = run e vs (rq\<lparr>xr_identity := Some u\<rparr>) s'" for run
      using path x u assms(3) by (simp add: auth_middleware_def x_route_handler_def)
    ultimately show ?thesis using x u(1,2) by (intro disjI2 exI conjI allI) simp_all
  next
    case False
    have "auth_middleware rules resolve f rq s = auth_middleware rules resolve g rq s" for f g
    proof (cases x)
      case (Inl err)
      with path x show ?thesis by (cases err) (simp_all add: auth_middleware_def)
    next
      case (Inr u)
      with False path x show ?thesis by (simp add: auth_middleware_def)
    qed
    then show ?thesis by blast
  qed
qed

lemma router_and_gate_agree_witness:
  "\<exists>u s'. list_all (is_permitted open_rules u Repos) (repo_candidates ''foo'') \<and>
    (\<forall>run :: x_endpoint \<Rightarrow> string list \<Rightarrow> XRequest \<Rightarrow> Validator \<Rightarrow> (exn + nat gate_reply) \<times> Validator.
       auth_middleware open_rules sample_x_resolve (x_route_handler template_match [] run)
         (sample_xrequest ''/api/datasets/foo/metadata'') (init_validator\<lparr>jwks_cache := Some sample_jwks\<rparr>) =
       run Dataset_metadata [''foo''] ((sample_xrequest ''/api/datasets/foo/metadata'')\<lparr>xr_identity := Some u\<rparr>) s')"
proof -
  let ?rq = "sample_xrequest ''/api/datasets/foo/metadata''" and ?v = "init_validator\<lparr>jwks_cache := Some sample_jwks\<rparr>"
  let ?gate = "\<lambda>run :: x_endpoint \<Rightarrow> string list \<Rightarrow> XRequest \<Rightarrow> Validator \<Rightarrow> (exn + nat gate_reply) \<times> Validator.
    auth_middleware open_rules sample_x_resolve (x_route_handler template_match [] run) ?rq ?v"
  have d: "x_dispatch template_match [] (xr_method ?rq) (xr_path ?rq) = Handle Dataset_metadata [''foo'']" by code_simp
  have p: "is_request_permitted open_rules \<lparr>subject = ''alice'', auth_type = ''jwt'', roles = [''basic-user''], scopes = [],
      preferred_username = None\<rparr> ''/api/datasets/foo/metadata''" by code_simp
  have fixed: "fst (?gate (\<lambda>_ _ _ s. (Inr (Answer n), s))) = Inr (Answer n)" for n
    using p d by (simp add: auth_middleware_def sample_x_resolve_alice x_is_authenticated_def x_route_handler_def,
        simp add: sample_xrequest_def)
  have agree: "(\<exists>answer. \<forall>run. ?gate run = answer) \<or>
    (\<exists>u s'. sample_x_resolve ?rq ?v = (Inr u, s') \<and> x_is_authenticated u \<and>
       list_all (is_permitted open_rules u Repos) (repo_candidates ''foo'') \<and>
       (\<forall>run. ?gate run = run Dataset_metadata [''foo''] (?rq\<lparr>xr_identity := Some u\<rparr>) s'))"
    by (rule router_and_gate_agree [OF greedy.path_matcher_axioms _ d]) simp_all
  have "\<nexists>answer. \<forall>run. ?gate run = answer"
  proof
    assume "\<exists>answer. \<forall>run. ?gate run = answer"
    then obtain answer where a: "?gate run = answer" for run by blast
    from fixed [of 0] fixed [of 1] show False unfolding a by simp
  qed
  with agree show ?thesis by blast
qed

end
