(* ===== verification/Api_Router.thy ===== *)
theory Api_Router
  imports Routing Api_Main
begin

text \<open>
  The routes of the API service (\<open>routes/__init__.py\<close>, the decorators of the route modules and the
  end of \<open>main.py\<close>): which endpoint answers a path, and who may reach it through the
  middleware.  \<open>builtin\<close> are the routes FastAPI adds for its documents.
\<close>

section \<open>Endpoints and routes\<close>

datatype endpoint =
    Me | List_api_keys | Create_api_key | Revoke_api_key
  | Polaris_token | Polaris_session | Polaris_token_via_session
  | Root | Conformance | Get_collections | Get_collection
  | Get_locations_items
  | Get_crosswalk_items | Get_location_id_alias_items | Get_configuration_pair_items
  | Get_configuration_items | Get_unit_items | Get_variable_items | Get_attribute_items
  | Get_location_attribute_items
  | Get_primary_timeseries_items | Get_secondary_timeseries_items
  | Get_collection_items
  | Get_collection_queryables | Get_queryable_values
  | Health_check
  | Builtin string

definition route :: "string \<Rightarrow> template \<Rightarrow> 'e \<Rightarrow> 'e route" where
  "route meth tpl e = \<lparr>rt_method = meth, rt_template = tpl, rt_endpoint = e\<rparr>"

lemma route_simps [simp]:
  "rt_method (route meth tpl e) = meth" "rt_template (route meth tpl e) = tpl" "rt_endpoint (route meth tpl e) = e"
  by (simp_all add: route_def)

lemma route_hit: "m tpl p = Some vs \<Longrightarrow> dispatch m (route meth tpl e # rs) meth p = Handle e vs"
  by simp

definition auth_router :: "endpoint route list" where
  "auth_router = with_prefix ''/auth''
     [route ''GET'' [Lit ''/me''] Me,
      route ''GET'' [Lit ''/api-keys''] List_api_keys,
      route ''POST'' [Lit ''/api-keys''] Create_api_key,
      route ''DELETE'' [Lit ''/api-keys/'', Var ''key_id''] Revoke_api_key,
      route ''POST'' [Lit ''/polaris-token''] Polaris_token,
      route ''POST'' [Lit ''/polaris-session''] Polaris_session,
      route ''POST'' [Lit ''/polaris-token/session''] Polaris_token_via_session]"

definition ogc_foundation_router :: "endpoint route list" where
  "ogc_foundation_router =
     [route ''GET'' [Lit ''/''] Root,
      route ''GET'' [Lit ''/conformance''] Conformance,
      route ''GET'' [Lit ''/collections''] Get_collections,
      route ''GET'' [Lit ''/collections/'', Var ''collection_id''] Get_collection]"

text \<open>\<open>/collections/<name>/items\<close> of one collection.\<close>

definition items_route :: "string \<Rightarrow> endpoint \<Rightarrow> endpoint route" where
  "items_route n e = route ''GET'' [Lit (''/collections/'' @ n @ ''/items'')] e"

definition locations_router :: "endpoint route list" where
  "locations_router = [items_route ''locations'' Get_locations_items]"

definition crosswalks_router :: "endpoint route list" where
  "crosswalks_router =
     [items_route ''location_crosswalks'' Get_crosswalk_items,
      items_route ''location_id_aliases'' Get_location_id_alias_items,
      items_route ''configuration_pairs'' Get_configuration_pair_items]"

definition reference_data_router :: "endpoint route list" where
  "reference_data_router =
     [items_route ''configurations'' Get_configuration_items,
      items_route ''units'' Get_unit_items,
      items_route ''variables'' Get_variable_items,
      items_route ''attributes'' Get_attribute_items,
      items_route ''location_attributes'' Get_location_attribute_items]"

definition timeseries_router :: "endpoint route list" where
  "timeseries_router =
     [items_route ''primary_timeseries'' Get_primary_timeseries_items,
      items_route ''secondary_timeseries'' Get_secondary_timeseries_items]"

definition metrics_router :: "endpoint route list" where
  "metrics_router =
     [route ''GET'' [Lit ''/collections/'', Var ''collection_id'', Lit ''/items''] Get_collection_items]"

definition queryables_router :: "endpoint route list" where
  "queryables_router =
     [route ''GET'' [Lit ''/collections/'', Var ''collection_id'', Lit ''/queryables''] Get_collection_queryables,
      route ''GET'' [Lit ''/collections/'', Var ''collection_id'', Lit ''/queryables/'', Var ''property_name'', Lit ''/values'']
        Get_queryable_values]"

definition api_router :: "endpoint route list" where
  "api_router = fold (\<lambda>child parent. include_router parent child)
     [auth_router, ogc_foundation_router, locations_router, crosswalks_router, reference_data_router,
      timeseries_router, metrics_router, queryables_router] []"

definition app_routes :: "endpoint route list \<Rightarrow> endpoint route list" where
  "app_routes builtin = include_router builtin api_router @ [route ''GET'' [Lit ''/health''] Health_check]"

text \<open>The innermost handler of the application: the chosen endpoint, a 405 or, with no route, a 404 (or the redirect
  for a slash, which no endpoint runs for either).\<close>

definition route_handler ::
  "matcher \<Rightarrow> endpoint route list \<Rightarrow> (endpoint \<Rightarrow> string list \<Rightarrow> AppState handler) \<Rightarrow> AppState handler"
where
  "route_handler m builtin run rq s =
     (case dispatch m (app_routes builtin) (rq_method rq) (rq_path rq) of
        Handle e vs \<Rightarrow> run e vs rq s
      | MethodNotAllowed \<Rightarrow> (Inr (error_reply 405 (DText ''Method Not Allowed'')), s)
      | NoRoute \<Rightarrow> (Inr (error_reply 404 (DText ''Not Found'')), s))"

section \<open>Which endpoint answers\<close>

text \<open>The collections that have an items route of their own.\<close>

definition own_items :: "(string, endpoint) dict" where
  "own_items =
     [(''locations'', Get_locations_items), (''location_crosswalks'', Get_crosswalk_items),
      (''location_id_aliases'', Get_location_id_alias_items), (''configuration_pairs'', Get_configuration_pair_items),
      (''configurations'', Get_configuration_items), (''units'', Get_unit_items), (''variables'', Get_variable_items),
      (''attributes'', Get_attribute_items), (''location_attributes'', Get_location_attribute_items),
      (''primary_timeseries'', Get_primary_timeseries_items), (''secondary_timeseries'', Get_secondary_timeseries_items)]"

lemma app_routes_eq:
  "app_routes builtin =
     (builtin @ auth_router @ ogc_foundation_router) @ map (\<lambda>(n, e). items_route n e) own_items @
       metrics_router @ queryables_router @ [route ''GET'' [Lit ''/health''] Health_check]"
  by (simp add: app_routes_def api_router_def include_router_def own_items_def locations_router_def
      crosswalks_router_def reference_data_router_def timeseries_router_def)

lemma segment_split:
  "CHR ''/'' \<notin> set v \<Longrightarrow> CHR ''/'' \<notin> set w \<Longrightarrow> v @ CHR ''/'' # x = w @ CHR ''/'' # y \<longleftrightarrow> v = w \<and> x = y"
proof (induction v arbitrary: w)
  case Nil
  then show ?case by (cases w) auto
next
  case (Cons c v)
  then show ?case by (cases w) auto
qed

lemma segment_split_end: "CHR ''/'' \<notin> set v \<Longrightarrow> v \<noteq> w @ CHR ''/'' # x"
  by auto

lemmas segment_simps = path_segment_def segment_split segment_split_end

context path_matcher
begin

lemma dispatch_items:
  "dispatch m (map (\<lambda>(n, e). items_route n e) specs @ rest) ''GET'' (''/collections/'' @ c @ ''/items'') =
   (case dict_get specs c of Some e \<Rightarrow> Handle e [] | None \<Rightarrow> dispatch m rest ''GET'' (''/collections/'' @ c @ ''/items''))"
  by (induction specs) (auto simp: items_route_def match_literal)

lemma skip_before_items:
  assumes "path_segment c"
  shows "\<forall>r \<in> set (auth_router @ ogc_foundation_router). m (rt_template r) (''/collections/'' @ c @ ''/items'') = None"
  using assms
  by (auto simp: auth_router_def ogc_foundation_router_def with_prefix_def match_None segment_simps)

end

text \<open>C23 An items path is answered by the route of its own collection where there is one and by the
  generic metrics route for every other collection: no route that is added before shadows it.
\<close>

theorem collection_items_routed:
  assumes "path_matcher m" "path_segment c"
    and "\<forall>r \<in> set builtin. m (rt_template r) (''/collections/'' @ c @ ''/items'') = None"
  shows "dispatch m (app_routes builtin) ''GET'' (''/collections/'' @ c @ ''/items'') =
    (case dict_get own_items c of Some e \<Rightarrow> Handle e [] | None \<Rightarrow> Handle Get_collection_items [c])"
proof -
  note pm = assms(1)
  let ?p = "''/collections/'' @ c @ ''/items''"
  have "\<forall>r \<in> set (builtin @ auth_router @ ogc_foundation_router). m (rt_template r) ?p = None"
    using assms(3) path_matcher.skip_before_items [OF pm assms(2)] by (simp only: set_append ball_Un)
  then have skip: "dispatch m (app_routes builtin) ''GET'' ?p =
      (case dict_get own_items c of Some e \<Rightarrow> Handle e [] | None \<Rightarrow>
        dispatch m (metrics_router @ queryables_router @ [route ''GET'' [Lit ''/health''] Health_check]) ''GET'' ?p)"
    unfolding app_routes_eq by (simp only: path_matcher.dispatch_skip [OF pm] path_matcher.dispatch_items [OF pm])
  have seg: "m [Lit ''/collections/'', Var ''collection_id'', Lit ''/items''] ?p = Some [c]"
    using assms(2) by (simp add: path_matcher.match_segment [OF pm])
  have generic: "dispatch m (metrics_router @ queryables_router @ [route ''GET'' [Lit ''/health''] Health_check]) ''GET'' ?p =
      Handle Get_collection_items [c]"
    unfolding metrics_router_def append_singleton
    by (rule route_hit [of m, OF seg])
  show ?thesis unfolding skip generic ..
qed


lemma collection_items_routed_witness:
  "dispatch template_match (app_routes []) ''GET'' (''/collections/'' @ ''units'' @ ''/items'') = Handle Get_unit_items [] \<and>
   dispatch template_match (app_routes []) ''GET'' (''/collections/'' @ ''sim_metrics'' @ ''/items'') =
     Handle Get_collection_items [''sim_metrics'']"
  using collection_items_routed [OF greedy.path_matcher_axioms, of "''units''" "[]"]
    collection_items_routed [OF greedy.path_matcher_axioms, of "''sim_metrics''" "[]"]
  by (simp add: path_segment_def own_items_def)

section \<open>Who may reach it\<close>

lemma own_route_guarded:
  assumes "r \<in> set (app_routes [])" "fits (rt_template r) vs p"
    "rt_endpoint r \<noteq> Health_check" "rt_endpoint r \<noteq> Polaris_token_via_session"
  shows "rt_method r \<noteq> ''OPTIONS'' \<and> p \<noteq> SESSION_PATH \<and> \<not> exempt_path p"
proof -
  consider "r \<in> set auth_router" | "r \<in> set ogc_foundation_router"
    | "r \<in> set (map (\<lambda>(n, e). items_route n e) own_items)" | "r \<in> set (metrics_router @ queryables_router)"
    using assms(1,3) unfolding app_routes_eq by auto
  then show ?thesis
  proof cases
    case 1
    with assms(2,4) show ?thesis by (auto simp: auth_router_def with_prefix_def SESSION_PATH_def exempt_path_def)
  next
    case 2
    with assms(2) show ?thesis by (auto simp: ogc_foundation_router_def SESSION_PATH_def exempt_path_def)
  next
    case 3
    with assms(2) show ?thesis by (auto simp: items_route_def SESSION_PATH_def exempt_path_def)
  next
    case 4
    with assms(2) show ?thesis
      by (auto simp: metrics_router_def queryables_router_def SESSION_PATH_def exempt_path_def)
  qed
qed

lemma app_routes_builtin: "set (app_routes builtin) = set builtin \<union> set (app_routes [])"
  unfolding app_routes_eq by auto

text \<open>C17 No endpoint but the health check and the exchange of a broker session runs for a caller that is
  not signed in, whatever its path and method: of the routes of the service, those two alone
  have a path that the middleware lets through without an identity, and no route answers
  \<open>OPTIONS\<close>, which it lets through as well.
\<close>

theorem endpoints_need_authentication:
  assumes "path_matcher m" "\<forall>r \<in> set builtin. \<exists>n. rt_endpoint r = Builtin n"
    and "dispatch m (app_routes builtin) (rq_method rq) (rq_path rq) = Handle e vs"
    and "e \<notin> {Health_check, Polaris_token_via_session}" "\<forall>n. e \<noteq> Builtin n"
  shows "(\<exists>answer. \<forall>run. auth_context_middleware cfg env (route_handler m builtin run) rq s = answer) \<or>
    (\<exists>u s1 c. is_authenticated u \<and> app_resolve_identity cfg env rq s = (Inr u, s1) \<and>
       check cfg u (rq_path rq) (re_now env) (as_counts s1) = (Inr (), c) \<and>
       (\<forall>run. auth_context_middleware cfg env (route_handler m builtin run) rq s =
         run e vs (rq\<lparr>rq_identity := Some u\<rparr>) (s1\<lparr>as_counts := c\<rparr>)))"
proof -
  from path_matcher.dispatch_fits [OF assms(1,3)] obtain r where r: "r \<in> set (app_routes builtin)" "rt_endpoint r = e"
    "rt_method r = rq_method rq" "fits (rt_template r) vs (rq_path rq)" by blast
  have "r \<notin> set builtin" using assms(2,5) r(2) by blast
  with r(1) have "r \<in> set (app_routes [])" unfolding app_routes_builtin [of builtin] by simp
  from own_route_guarded [OF this r(4)] assms(4) r have
    "rq_method rq \<noteq> ''OPTIONS''" "rq_path rq \<noteq> SESSION_PATH" "\<not> exempt_path (rq_path rq)" by auto
  from handlers_need_authentication [OF this, of cfg env s] show ?thesis
  proof (elim disjE exE conjE)
    fix answer
    assume "(\<lambda>next. auth_context_middleware cfg env next rq s) = (\<lambda>next. answer)"
    then have "auth_context_middleware cfg env next rq s = answer" for "next" by (rule fun_cong)
    then show ?thesis by (intro disjI1 exI allI)
  next
    fix u s1 c
    assume u: "is_authenticated u" "app_resolve_identity cfg env rq s = (Inr u, s1)"
      "check cfg u (rq_path rq) (re_now env) (as_counts s1) = (Inr (), c)"
      "(\<lambda>next. auth_context_middleware cfg env next rq s) =
       (\<lambda>next. next (rq\<lparr>rq_identity := Some u\<rparr>) (s1\<lparr>as_counts := c\<rparr>))"
    have "auth_context_middleware cfg env (route_handler m builtin run) rq s =
        run e vs (rq\<lparr>rq_identity := Some u\<rparr>) (s1\<lparr>as_counts := c\<rparr>)" for run
      using fun_cong [OF u(4), of "route_handler m builtin run"] assms(3) by (simp add: route_handler_def)
    with u(1-3) show ?thesis by (intro disjI2 exI conjI allI)
  qed
qed

lemma endpoints_need_authentication_witness:
  "\<forall>cfg s. (\<exists>answer. \<forall>run. auth_context_middleware cfg sample_env (route_handler template_match [] run) sample_request s = answer) \<or>
    (\<exists>u s1 c. is_authenticated u \<and> app_resolve_identity cfg sample_env sample_request s = (Inr u, s1) \<and>
       check cfg u ''/collections'' 5 (as_counts s1) = (Inr (), c) \<and>
       (\<forall>run. auth_context_middleware cfg sample_env (route_handler template_match [] run) sample_request s =
         run Get_collections [] (sample_request\<lparr>rq_identity := Some u\<rparr>) (s1\<lparr>as_counts := c\<rparr>)))"
proof (intro allI)
  fix cfg s
  have "dispatch template_match (app_routes []) (rq_method sample_request) (rq_path sample_request) = Handle Get_collections []"
    by code_simp
  from endpoints_need_authentication [OF greedy.path_matcher_axioms _ this, of cfg sample_env s]
  show "(\<exists>answer. \<forall>run. auth_context_middleware cfg sample_env (route_handler template_match [] run) sample_request s = answer) \<or>
    (\<exists>u s1 c. is_authenticated u \<and> app_resolve_identity cfg sample_env sample_request s = (Inr u, s1) \<and>
       check cfg u ''/collections'' 5 (as_counts s1) = (Inr (), c) \<and>
       (\<forall>run. auth_context_middleware cfg sample_env (route_handler template_match [] run) sample_request s =
         run Get_collections [] (sample_request\<lparr>rq_identity := Some u\<rparr>) (s1\<lparr>as_counts := c\<rparr>)))"
    by (simp add: sample_request_def sample_env_def)
qed

end
