(* ===== verification/Api_Service.thy ===== *)
theory Api_Service
  imports Api_Router
begin

text \<open>
  The API service as a whole: a request goes through the middleware of \<open>Api_Main\<close> to the route
  \<open>Api_Router\<close> chooses and to the handler behind it, and what the handler raises comes back as a
  reply.  The handlers that keep state, those of \<open>routes/auth.py\<close>, are run as they are; the others
  only read the warehouse and are one argument.  A history is any sequence of requests and
  restarts.
\<close>

section \<open>One call\<close>

text \<open>
  What one request finds around it: the libraries and readings of the clock, whether its body
  decodes as JSON and what pydantic makes of it for each model, the fresh random values, and
  the handlers that only read.
\<close>

record call =
  ca_env :: request_env
  ca_elapsed :: rat
  ca_shown :: string
  ca_broker :: broker_lib
  ca_times :: "int \<times> int \<times> int"
  ca_nonce :: string
  ca_uuid :: string
  ca_secret :: string
  ca_sid :: string
  ca_trace :: string
  ca_decoded :: "exn + unit"
  ca_key_body :: "exn + ApiKeyCreateRequest"
  ca_token_body :: "exn + PolarisTokenRequest"
  ca_session_body :: "exn + PolarisSessionRequest"
  ca_isoformat :: "rat \<Rightarrow> string"
  ca_utcnow :: string
  ca_reads :: "endpoint \<Rightarrow> string list \<Rightarrow> Request \<Rightarrow> exn + reply"

definition ok_reply :: "int \<Rightarrow> json \<Rightarrow> reply" where
  "ok_reply status j = \<lparr>rp_status = status, rp_content = Body j, rp_headers = []\<rparr>"

definition created_json :: "created_key \<Rightarrow> json" where
  "created_json k = JObj [(''id'', JStr (ck_id k)), (''name'', JStr (ck_name k)), (''api_key'', JStr (ck_api_key k)),
     (''scopes'', JList (map JStr (ck_scopes k)))]"

definition key_info_json :: "(rat \<Rightarrow> string) \<Rightarrow> key_info \<Rightarrow> json" where
  "key_info_json fmt k = JObj [(''id'', JStr (ki_id k)), (''name'', JStr (ki_name k)),
     (''scopes'', JList (map JStr (ki_scopes k))), (''created_at'', JStr (fmt (ki_created_at k))),
     (''revoked_at'', case ki_revoked_at k of None \<Rightarrow> JNull | Some t \<Rightarrow> JStr (fmt t))]"

definition token_json :: "PolarisTokenResponse \<Rightarrow> json" where
  "token_json r = JObj [(''access_token'', JStr (prs_access_token r)), (''token_type'', JStr (prs_token_type r)),
     (''expires_at_epoch_seconds'', JInt (prs_expires_at_epoch_seconds r)),
     (''expires_in_seconds'', JInt (prs_expires_in_seconds r)),
     (''issued_for'', JObj [(''user_id'', JStr (pif_user_id (prs_issued_for r))),
        (''session_id'', JStr (pif_session_id (prs_issued_for r))), (''realm'', JStr (pif_realm (prs_issued_for r)))]),
     (''trace_id'', JStr (prs_trace_id r))]"

definition session_json :: "string \<times> int \<Rightarrow> json" where
  "session_json r = JObj [(''broker_session_token'', JStr (fst r)), (''expires_at_epoch_seconds'', JInt (snd r))]"

text \<open>\<open>Depends(get_request_identity)\<close>: the handler's part that follows has the caller's identity.\<close>

definition with_identity ::
  "Config \<Rightarrow> call \<Rightarrow> (ApiIdentity \<Rightarrow> AppState \<Rightarrow> (exn + reply) \<times> AppState) \<Rightarrow> AppState handler"
where
  "with_identity cfg c f rq s =
     (case get_request_identity (app_resolve_identity cfg (ca_env c)) rq s of
        (Inl e, s') \<Rightarrow> (Inl e, s')
      | (Inr (u, _), s') \<Rightarrow> f u s')"

definition on_keys :: "('a \<Rightarrow> reply) \<Rightarrow> (ApiKeyStore \<Rightarrow> (exn + 'a) \<times> ApiKeyStore) \<Rightarrow> AppState \<Rightarrow> (exn + reply) \<times> AppState"
where
  "on_keys render f s = (case f (as_keys s) of (r, ks) \<Rightarrow> (map_sum id render r, s\<lparr>as_keys := ks\<rparr>))"

definition on_sessions_of ::
  "('a \<Rightarrow> reply) \<Rightarrow> (broker_state \<Rightarrow> (exn + 'a) \<times> broker_state) \<Rightarrow> AppState \<Rightarrow> (exn + reply) \<times> AppState"
where
  "on_sessions_of render f s = (case f (as_sessions s) of (r, bs) \<Rightarrow> (map_sum id render r, s\<lparr>as_sessions := bs\<rparr>))"

text \<open>
  For a route with a body, FastAPI decodes it as JSON before it runs the dependencies, and
  matches it with the model after them and before the handler; what a guard among the
  dependencies raises comes in between.
\<close>

definition with_body :: "call \<Rightarrow> AppState handler \<Rightarrow> AppState handler" where
  "with_body c f rq s = (case ca_decoded c of Inl e \<Rightarrow> (Inl e, s) | Inr _ \<Rightarrow> f rq s)"

fun service_endpoint :: "Config \<Rightarrow> call \<Rightarrow> endpoint \<Rightarrow> string list \<Rightarrow> AppState handler" where
  "service_endpoint cfg c Me vs rq = with_identity cfg c (\<lambda>u s. (Inr (ok_reply 200 (me u)), s)) rq"
| "service_endpoint cfg c List_api_keys vs rq =
     with_identity cfg c (\<lambda>u. on_keys
       (\<lambda>ks. ok_reply 200 (JObj [(''items'', JList (map (key_info_json (ca_isoformat c)) ks))])) (list_api_keys u)) rq"
| "service_endpoint cfg c Create_api_key vs rq =
     with_body c (with_identity cfg c (\<lambda>u s.
       case andthen (get_admin_identity u) (\<lambda>_. ca_key_body c) of
         Inl e \<Rightarrow> (Inl e, s)
       | Inr p \<Rightarrow> on_keys (\<lambda>k. ok_reply 201 (created_json k))
           (create_api_key (re_hmac (ca_env c)) cfg (ca_secret c) (ca_uuid c) (re_now (ca_env c)) u p) s)) rq"
| "service_endpoint cfg c Revoke_api_key (key_id # _) rq =
     with_identity cfg c (\<lambda>u. on_keys (\<lambda>_. ok_reply 204 JNull) (revoke_api_key (re_now (ca_env c)) u key_id)) rq"
| "service_endpoint cfg c Polaris_token vs rq =
     with_body c (with_identity cfg c (\<lambda>u s.
       (andthen (get_authenticated_identity u) (\<lambda>_.
        andthen (ca_token_body c) (\<lambda>p.
        map_sum id (\<lambda>r. ok_reply 200 (token_json r))
          (polaris_token cfg (ca_broker c) (ca_trace c) (fst (ca_times c)) (fst (snd (ca_times c))) rq u p))), s))) rq"
| "service_endpoint cfg c Polaris_session vs rq =
     with_body c (with_identity cfg c (\<lambda>u s.
       case andthen (get_authenticated_identity u) (\<lambda>_. ca_session_body c) of
         Inl e \<Rightarrow> (Inl e, s)
       | Inr p \<Rightarrow> on_sessions_of (\<lambda>r. ok_reply 200 (session_json r))
           (polaris_session cfg (ca_broker c) (ca_nonce c) (ca_sid c) (fst (ca_times c)) u p) s)) rq"
| "service_endpoint cfg c Polaris_token_via_session vs rq = with_body c (\<lambda>rq s.
     case ca_token_body c of
       Inl e \<Rightarrow> (Inl e, s)
     | Inr p \<Rightarrow> on_sessions_of (\<lambda>r. ok_reply 200 (token_json r))
         (polaris_token_via_session cfg (ca_broker c) (ca_nonce c) (ca_trace c) (fst (ca_times c))
            (fst (snd (ca_times c))) (snd (snd (ca_times c))) rq p) s) rq"
| "service_endpoint cfg c Health_check vs rq = (\<lambda>s. (Inr (ok_reply 200 (health_check (ca_utcnow c))), s))"
| "service_endpoint cfg c e vs rq = (\<lambda>s. (ca_reads c e vs rq, s))"

text \<open>
  The framework's two ends of the stack: inside the middleware an \<open>HTTPException\<close> becomes its
  reply, outside it whatever is still raised becomes a 500 with a plain text, written as a detail here.
\<close>

definition exception_middleware :: "'s handler \<Rightarrow> 's handler" where
  "exception_middleware inner rq s =
     (case inner rq s of
        (Inl (HTTPException status d), s') \<Rightarrow> (Inr (error_reply status d), s')
      | (r, s') \<Rightarrow> (r, s'))"

definition server_errors :: "'s handler \<Rightarrow> Request \<Rightarrow> 's \<Rightarrow> reply \<times> 's" where
  "server_errors inner rq s =
     (case inner rq s of
        (Inl e, s') \<Rightarrow> (error_reply 500 (DText ''Internal Server Error''), s')
      | (Inr r, s') \<Rightarrow> (r, s'))"

definition api_service ::
  "Config \<Rightarrow> matcher \<Rightarrow> endpoint route list \<Rightarrow> call \<Rightarrow> Request \<Rightarrow> AppState \<Rightarrow> reply \<times> AppState"
where
  "api_service cfg m builtin c =
     server_errors (app_stack cfg (ca_env c) (ca_elapsed c) (ca_shown c)
       (exception_middleware (route_handler m builtin (service_endpoint cfg c))))"

section \<open>Who changes the keys\<close>

lemma app_resolve_keys [simp]:
  "as_keys (snd (app_resolve_identity cfg env rq s)) = as_keys s"
  by (auto simp: app_resolve_identity_def resolve_identity_def app_validate_jwt_def split: option.split prod.split)

text \<open>What a resolution reads: the headers of the request, the validator and the keys.\<close>

lemma app_resolve_reads:
  "rq_headers rq' = rq_headers rq \<Longrightarrow> as_validator s' = as_validator s \<Longrightarrow> as_keys s' = as_keys s \<Longrightarrow>
   fst (app_resolve_identity cfg env rq' s') = fst (app_resolve_identity cfg env rq s)"
  by (auto simp: app_resolve_identity_def resolve_identity_def app_validate_jwt_def app_validate_key_def
      authorization_def split: option.split prod.split)

text \<open>An administrator's change: a key of its own created or revoked.\<close>

inductive admin_change :: "(string \<Rightarrow> string \<Rightarrow> string) \<Rightarrow> Config \<Rightarrow> string \<Rightarrow> ApiKeyStore \<Rightarrow> ApiKeyStore \<Rightarrow> bool"
  for hmac cfg ow
where
  creates: "admin_change hmac cfg ow ks (snd (create_key hmac cfg tk uuid now ow nm scs ks))"
| revokes: "admin_change hmac cfg ow ks (snd (revoke_key now ow i ks))"

lemma get_admin_identity_Inr:
  "get_admin_identity u = Inr v \<longleftrightarrow> v = u \<and> auth_type u = ''jwt'' \<and> ''admin'' \<in> set (roles u)"
  by (auto simp: get_admin_identity_def get_authenticated_identity_def is_authenticated_def andthen_Inr_iff)

lemma revoke_api_key_change:
  "snd (revoke_api_key now u i ks) = ks \<or>
   (get_admin_identity u = Inr u \<and> snd (revoke_api_key now u i ks) = snd (revoke_key now (subject u) i ks))"
  by (auto simp: revoke_api_key_def get_admin_identity_Inr split: sum.split prod.split)

lemma create_api_key_change:
  "snd (create_api_key hmac cfg tk uuid now u p ks) = ks \<or>
   (get_admin_identity u = Inr u \<and>
    snd (create_api_key hmac cfg tk uuid now u p ks) =
      snd (create_key hmac cfg tk uuid now (subject u) (akc_name p) (Some (akc_scopes p)) ks))"
  by (auto simp: create_api_key_def get_admin_identity_Inr split: sum.split)

lemma list_api_keys_state: "snd (list_api_keys u ks) = ks"
  by (auto simp: list_api_keys_def list_keys_state split: sum.split)

lemma on_keys_state: "as_keys (snd (on_keys render f s)) = snd (f (as_keys s))"
  by (simp add: on_keys_def split: prod.split)

lemma on_sessions_keys [simp]: "as_keys (snd (on_sessions_of render f s)) = as_keys s"
  by (simp add: on_sessions_of_def split: prod.split)

text \<open>The caller of a handler: the identity attached to the request, or one resolved for it.\<close>

definition caller :: "Config \<Rightarrow> request_env \<Rightarrow> Request \<Rightarrow> AppState \<Rightarrow> ApiIdentity \<Rightarrow> bool" where
  "caller cfg env rq s u \<longleftrightarrow>
     (case rq_identity rq of Some v \<Rightarrow> v = u | None \<Rightarrow> fst (app_resolve_identity cfg env rq s) = Inr u)"

definition changed_by :: "call \<Rightarrow> Config \<Rightarrow> Request \<Rightarrow> AppState \<Rightarrow> AppState \<Rightarrow> bool" where
  "changed_by c cfg rq s s' \<longleftrightarrow>
     as_keys s' = as_keys s \<or>
     (\<exists>u. caller cfg (ca_env c) rq s u \<and> get_admin_identity u = Inr u \<and>
        admin_change (re_hmac (ca_env c)) cfg (subject u) (as_keys s) (as_keys s'))"

lemma with_identity_changes:
  assumes "\<And>u s. as_keys (snd (f u s)) = as_keys s \<or>
    (get_admin_identity u = Inr u \<and> admin_change (re_hmac (ca_env c)) cfg (subject u) (as_keys s) (as_keys (snd (f u s))))"
  shows "changed_by c cfg rq s (snd (with_identity cfg c f rq s))"
proof -
  obtain r s1 where r: "app_resolve_identity cfg (ca_env c) rq s = (r, s1)" by (rule prod.exhaust)
  have k: "as_keys s1 = as_keys s" using app_resolve_keys [of cfg "ca_env c" rq s] r by simp
  show ?thesis
  proof (cases "rq_identity rq")
    case None
    show ?thesis
    proof (cases r)
      case (Inl e)
      with None r k show ?thesis by (simp add: changed_by_def with_identity_def get_request_identity_def)
    next
      case (Inr u)
      with None r k assms [of u s1] show ?thesis
        by (auto simp: changed_by_def with_identity_def get_request_identity_def caller_def)
    qed
  next
    case (Some u)
    with assms [of u s] show ?thesis
      by (auto simp: changed_by_def with_identity_def get_request_identity_def caller_def)
  qed
qed

lemma with_body_changes: "changed_by c cfg rq s (snd (f rq s)) \<Longrightarrow> changed_by c cfg rq s (snd (with_body c f rq s))"
  by (auto simp: with_body_def changed_by_def [of _ _ _ s s] split: sum.split)

lemma endpoint_changes: "changed_by c cfg rq s (snd (service_endpoint cfg c e vs rq s))"
proof -
  have revoke: "as_keys (snd (on_keys render (revoke_api_key now u i) s)) = as_keys s \<or>
      (get_admin_identity u = Inr u \<and>
       admin_change h cfg (subject u) (as_keys s) (as_keys (snd (on_keys render (revoke_api_key now u i) s))))"
    for render now u i s and h :: "string \<Rightarrow> string \<Rightarrow> string"
    using revoke_api_key_change [of now u i "as_keys s"] by (auto simp: on_keys_state intro: admin_change.revokes)
  have create: "as_keys (snd (on_keys render (create_api_key h cfg tk uuid now u p) s)) = as_keys s \<or>
      (get_admin_identity u = Inr u \<and>
       admin_change h cfg (subject u) (as_keys s) (as_keys (snd (on_keys render (create_api_key h cfg tk uuid now u p) s))))"
    for render tk uuid now u p s h
    using create_api_key_change [of h cfg tk uuid now u p "as_keys s"] by (auto simp: on_keys_state intro: admin_change.creates)
  show ?thesis
  proof (cases "(cfg, c, e, vs, rq)" rule: service_endpoint.cases)
    case (2 cfg c vs rq)
    then show ?thesis by (auto simp: on_keys_state list_api_keys_state intro!: with_identity_changes)
  next
    case (3 cfg' c' vs' rq')
    then have e: "e = Create_api_key" by simp
    show ?thesis unfolding e service_endpoint.simps
    proof (rule with_body_changes, rule with_identity_changes)
      fix u s
      let ?after = "as_keys (snd (case andthen (get_admin_identity u) (\<lambda>_. ca_key_body c) of
          Inl e \<Rightarrow> (Inl e, s)
        | Inr p \<Rightarrow> on_keys (\<lambda>k. ok_reply 201 (created_json k))
            (create_api_key (re_hmac (ca_env c)) cfg (ca_secret c) (ca_uuid c) (re_now (ca_env c)) u p) s))"
      show "?after = as_keys s \<or>
        (get_admin_identity u = Inr u \<and> admin_change (re_hmac (ca_env c)) cfg (subject u) (as_keys s) ?after)"
      proof (cases "andthen (get_admin_identity u) (\<lambda>_. ca_key_body c)")
        case (Inl e)
        then show ?thesis by simp
      next
        case (Inr p)
        show ?thesis unfolding Inr sum.case by (rule create)
      qed
    qed
  next
    case (4 cfg' c' key_id vs' rq')
    then have e: "e = Revoke_api_key" "vs = key_id # vs'" by simp_all
    show ?thesis unfolding e service_endpoint.simps by (intro with_identity_changes revoke)
  next
    case (6 cfg c vs rq)
    then show ?thesis by (auto split: sum.split intro!: with_body_changes with_identity_changes)
  next
    case (7 cfg c vs rq)
    then show ?thesis by (auto simp: changed_by_def [of _ _ _ s s] split: sum.split intro!: with_body_changes)
      (simp add: changed_by_def)
  qed (auto simp: changed_by_def [of _ _ _ s s] intro!: with_body_changes with_identity_changes)
qed

text \<open>What the layers around the handlers do to the keys: nothing.\<close>

lemma route_handler_changes:
  "changed_by c cfg rq s (snd (route_handler m builtin (service_endpoint cfg c) rq s))"
  unfolding route_handler_def
  by (cases "dispatch m (app_routes builtin) (rq_method rq) (rq_path rq)")
    (simp_all add: endpoint_changes, simp_all add: changed_by_def)

lemma exception_middleware_state: "snd (exception_middleware inner rq s) = snd (inner rq s)"
  by (auto simp: exception_middleware_def split: prod.split sum.split exn.split)

lemma timeout_middleware_state: "snd (timeout_middleware cfg elapsed shown inner rq s) = snd (inner rq s)"
  by (auto simp: timeout_middleware_def split: prod.split sum.split)

lemma server_errors_state: "snd (server_errors inner rq s) = snd (inner rq s)"
  by (auto simp: server_errors_def split: prod.split sum.split)

lemma changed_by_same: "as_keys s' = as_keys s \<Longrightarrow> changed_by c cfg rq s s'"
  by (simp add: changed_by_def)

lemma changed_by_from:
  assumes "changed_by c cfg rq' s1 s'" "as_keys s1 = as_keys s"
    and "\<And>u. caller cfg (ca_env c) rq' s1 u \<Longrightarrow> caller cfg (ca_env c) rq s u"
  shows "changed_by c cfg rq s s'"
  using assms by (auto simp: changed_by_def)

lemma auth_context_changes:
  assumes "rq_identity rq = None" "\<And>rq s. changed_by c cfg rq s (snd (inner rq s))"
  shows "changed_by c cfg rq s (snd (auth_context_middleware cfg (ca_env c) inner rq s))"
proof -
  have counted: "changed_by c cfg rq s (snd (inner rq (s\<lparr>as_counts := k\<rparr>)))" for k
    by (rule changed_by_from [OF assms(2)])
      (simp_all add: caller_def assms(1) app_resolve_reads [of rq rq "s\<lparr>as_counts := k\<rparr>" s])
  have attached: "changed_by c cfg rq s (snd (inner (rq\<lparr>rq_identity := Some u\<rparr>) s1))"
    if "fst (app_resolve_identity cfg (ca_env c) rq s) = Inr u" "as_keys s1 = as_keys s" for u s1
    by (rule changed_by_from [OF assms(2) that(2)]) (use that(1) assms(1) in \<open>simp add: caller_def\<close>)
  have plain: "changed_by c cfg rq s (snd (inner rq s))" by (rule assms(2))
  show ?thesis
  proof (cases "rq_method rq = ''OPTIONS'' \<or> rq_path rq = SESSION_PATH")
    case True
    then show ?thesis using counted plain
      by (auto simp: auth_context_middleware_def changed_by_same split: prod.split sum.split)
  next
    case False
    obtain r s1 where r: "app_resolve_identity cfg (ca_env c) rq s = (r, s1)" by (rule prod.exhaust)
    have k: "as_keys s1 = as_keys s" using app_resolve_keys [of cfg "ca_env c" rq s] r by simp
    show ?thesis
    proof (cases r)
      case (Inl e)
      with False r k show ?thesis
        by (cases e) (simp_all add: auth_context_middleware_def changed_by_same)
    next
      case (Inr u)
      with r have u: "fst (app_resolve_identity cfg (ca_env c) rq s) = Inr u" by simp
      have on: "changed_by c cfg rq s (snd (inner (rq\<lparr>rq_identity := Some u\<rparr>) (s1\<lparr>as_counts := n\<rparr>)))"
        "changed_by c cfg rq s (snd (inner (rq\<lparr>rq_identity := Some u\<rparr>) s1))" for n
        by (rule attached [OF u], simp add: k)+
      obtain x n where n: "check cfg u (rq_path rq) (re_now (ca_env c)) (as_counts s1) = (x, n)" by (rule prod.exhaust)
      from False r Inr k n show ?thesis
        by (cases x) (auto simp: auth_context_middleware_def Let_def on changed_by_same)
    qed
  qed
qed

lemma api_service_changes:
  assumes "rq_identity rq = None"
  shows "changed_by c cfg rq s (snd (api_service cfg m builtin c rq s))"
  unfolding api_service_def app_stack_def server_errors_state timeout_middleware_state
  by (rule auth_context_changes [OF assms]) (simp only: exception_middleware_state route_handler_changes)

lemma admin_change_others:
  assumes "admin_change hmac cfg ow ks ks'" "aks_table ks = Some t"
  shows "\<exists>t'. aks_table ks' = Some t' \<and> filter (\<lambda>r. kr_owner_sub r \<noteq> ow) t' = filter (\<lambda>r. kr_owner_sub r \<noteq> ow) t"
  using assms
proof cases
  case (creates tk uuid now nm scs)
  with assms(2) show ?thesis
    by (auto simp: create_key_def with_rows_def Let_def insert_row_def split: sum.split)
next
  case (revokes now i)
  have "filter (\<lambda>r. kr_owner_sub r \<noteq> ow) (map (\<lambda>r. if revocable ow i r then r\<lparr>kr_revoked_at := Some now\<rparr> else r) t) =
      filter (\<lambda>r. kr_owner_sub r \<noteq> ow) t"
    by (induction t) (auto simp: revocable_def)
  with assms(2) revokes show ?thesis by (auto simp: revoke_key_def with_rows_def Let_def)
qed

lemma caller_verified:
  assumes "caller cfg env rq s u" "rq_identity rq = None" "auth_type u = ''jwt''"
  shows "\<exists>token. bearer_token (authorization rq) = Some token \<and>
    fst (validate cfg (re_jwt env) (re_http1 env) (re_http2 env) (re_clock1 env) (re_clock2 env) token (as_validator s)) = Inr u"
proof -
  obtain r s1 where r: "app_resolve_identity cfg env rq s = (r, s1)" by (rule prod.exhaust)
  with assms have ru: "app_resolve_identity cfg env rq s = (Inr u, s1)" by (simp add: caller_def)
  from app_resolve_types [OF ru] assms(3) obtain token where b: "bearer_token (authorization rq) = Some token"
    by (auto simp: anonymous_identity_def)
  with ru show ?thesis
    by (auto simp: app_resolve_identity_def resolve_identity_def app_validate_jwt_def split: prod.split_asm)
qed

text \<open>C15 Whatever the request, the API keys only change for a caller whose bearer token is verified and
  carries the role \<open>admin\<close>, and then no row of another owner changes: an API key, even an
  administrator's, cannot make or revoke a key, and no path through the middleware, the
  routes and the handlers gets around it.
\<close>

theorem keys_change_by_own_admin:
  assumes "rq_identity rq = None" "api_service cfg m builtin c rq s = (answer, s')" "as_keys s' \<noteq> as_keys s"
  shows "\<exists>u token. bearer_token (authorization rq) = Some token \<and>
    fst (validate cfg (re_jwt (ca_env c)) (re_http1 (ca_env c)) (re_http2 (ca_env c)) (re_clock1 (ca_env c))
      (re_clock2 (ca_env c)) token (as_validator s)) = Inr u \<and> ''admin'' \<in> set (roles u) \<and>
    (\<forall>t. aks_table (as_keys s) = Some t \<longrightarrow> (\<exists>t'. aks_table (as_keys s') = Some t' \<and>
       filter (\<lambda>r. kr_owner_sub r \<noteq> subject u) t' = filter (\<lambda>r. kr_owner_sub r \<noteq> subject u) t))"
proof -
  from api_service_changes [OF assms(1), of c cfg s m builtin] assms(2,3) obtain u where
    u: "caller cfg (ca_env c) rq s u" "get_admin_identity u = Inr u"
      "admin_change (re_hmac (ca_env c)) cfg (subject u) (as_keys s) (as_keys s')"
    by (auto simp: changed_by_def)
  then have "auth_type u = ''jwt''" "''admin'' \<in> set (roles u)" by (simp_all add: get_admin_identity_Inr)
  with caller_verified [OF u(1) assms(1)] admin_change_others [OF u(3)] show ?thesis by blast
qed

section \<open>Histories\<close>

text \<open>
  What may happen to the service: any request, answered with the key hash in use, and a restart
  on the table as it is, whatever the legacy database and the table of sessions then hold.
\<close>

inductive history ::
  "(string \<Rightarrow> string \<Rightarrow> string) \<Rightarrow> Config \<Rightarrow> matcher \<Rightarrow> endpoint route list \<Rightarrow> AppState \<Rightarrow> AppState \<Rightarrow> bool"
  for hmac cfg m builtin s
where
  nothing: "history hmac cfg m builtin s s"
| request: "history hmac cfg m builtin s s1 \<Longrightarrow> rq_identity rq = None \<Longrightarrow> re_hmac (ca_env c) = hmac \<Longrightarrow>
    history hmac cfg m builtin s (snd (api_service cfg m builtin c rq s1))"
| restart: "history hmac cfg m builtin s s1 \<Longrightarrow> startup_event cfg legacy (aks_table (as_keys s1)) sessions = Inr s2 \<Longrightarrow>
    history hmac cfg m builtin s s2"

lemma admin_change_kept:
  "admin_change hmac cfg ow ks ks' \<Longrightarrow> store_kept ks ks' \<and> (store_ok ks \<longrightarrow> store_ok ks')"
  by (induction rule: admin_change.induct) (simp_all add: create_key_kept create_key_ok revoke_key_kept revoke_key_ok)

lemma locked_pool: "store_kept st st' \<Longrightarrow> aks_pool st \<Longrightarrow> aks_pool st'"
  by (simp add: store_kept_def)

lemma locked_through_history:
  assumes "history hmac cfg m builtin s s'" "locked hmac cfg p (as_keys s)" "aks_pool (as_keys s)"
  shows "locked hmac cfg p (as_keys s') \<and> aks_pool (as_keys s')"
  using assms
proof (induction rule: history.induct)
  case nothing
  then show ?case by simp
next
  case (request s1 rq c)
  let ?s2 = "snd (api_service cfg m builtin c rq s1)"
  from api_service_changes [OF request.hyps(2), of c cfg s1 m builtin]
  have "as_keys ?s2 = as_keys s1 \<or> (store_kept (as_keys s1) (as_keys ?s2) \<and> store_ok (as_keys ?s2))"
    using request.IH request.prems by (auto simp: changed_by_def locked_def dest: admin_change_kept)
  with request.IH request.prems show ?case by (auto intro: locked_kept locked_pool)
next
  case (restart s1 legacy sessions s2)
  let ?st = "\<lparr>aks_legacy_dsn = LEGACY_API_KEYS_DB_DSN cfg, aks_pool = False, aks_table = aks_table (as_keys s1)\<rparr>"
  from restart.hyps(2) have s2: "as_keys s2 = snd (startup legacy ?st)"
    by (auto simp: startup_event_def split: prod.split_asm sum.split_asm)
  from restart.IH restart.prems have st: "locked hmac cfg p ?st" by (auto simp: locked_def store_ok_def)
  then have "locked hmac cfg p (as_keys s2)"
    unfolding s2 using startup_ok startup_kept by (intro locked_kept [OF st]) (auto simp: locked_def)
  moreover have "aks_pool (as_keys s2)"
    unfolding s2 by (auto simp: startup_def copy_legacy_keys_def Let_def split: option.split sum.split)
  ultimately show ?case ..
qed

section \<open>A revocation that was answered\<close>

context path_matcher
begin

lemma match_two_literals: "m [Lit a, Lit b] p = (if p = a @ b then Some [] else None)"
proof (cases "p = a @ b")
  case True
  have "m [Lit a, Lit b] p = Some []" by (rule match_unique) (simp_all add: True)
  with True show ?thesis by simp
next
  case False
  then have "m [Lit a, Lit b] p = None" by (simp add: match_None)
  with False show ?thesis by simp
qed

lemma revoke_routed:
  assumes "path_segment i" "\<forall>r \<in> set builtin. m (rt_template r) (''/auth/api-keys/'' @ i) = None"
  shows "dispatch m (app_routes builtin) ''DELETE'' (''/auth/api-keys/'' @ i) = Handle Revoke_api_key [i]"
proof -
  have "m [Lit ''/auth'', Lit ''/api-keys/'', Var ''key_id''] (''/auth/api-keys/'' @ i) = Some [i]"
    by (rule match_unique) (use assms(1) in auto)
  then show ?thesis
    unfolding app_routes_eq append_assoc dispatch_skip [OF assms(2)]
    by (simp add: auth_router_def with_prefix_def match_two_literals)
qed

end

text \<open>A body of its own was sent by the route's handler: every layer that answers itself sends a detail.\<close>

lemma server_errors_body:
  "server_errors inner rq s = (a, s') \<Longrightarrow> rp_content a = Body j \<Longrightarrow> inner rq s = (Inr a, s')"
  by (auto simp: server_errors_def error_reply_def split: prod.split_asm sum.split_asm)

lemma timeout_middleware_body:
  "timeout_middleware cfg elapsed shown inner rq s = (Inr a, s') \<Longrightarrow> rp_content a = Body j \<Longrightarrow>
   \<exists>b. inner rq s = (Inr b, s') \<and> rp_content b = Body j"
  by (auto simp: timeout_middleware_def error_reply_def split: prod.split_asm sum.split_asm if_split_asm)

lemma auth_context_body:
  assumes "auth_context_middleware cfg env inner rq s = (Inr a, s')" "rp_content a = Body j"
    and "rq_method rq \<noteq> ''OPTIONS''" "rq_path rq \<noteq> SESSION_PATH" "\<not> exempt_path (rq_path rq)"
  shows "\<exists>u s1. as_keys s1 = as_keys s \<and> inner (rq\<lparr>rq_identity := Some u\<rparr>) s1 = (Inr a, s')"
proof -
  obtain r s1 where r: "app_resolve_identity cfg env rq s = (r, s1)" by (rule prod.exhaust)
  have k: "as_keys s1 = as_keys s" using app_resolve_keys [of cfg env rq s] r by simp
  show ?thesis
  proof (cases r)
    case (Inl e)
    with assms r show ?thesis by (cases e) (auto simp: auth_context_middleware_def error_reply_def)
  next
    case (Inr u)
    obtain x n where "check cfg u (rq_path rq) (re_now env) (as_counts s1) = (x, n)" by (rule prod.exhaust)
    with assms r Inr k have "inner (rq\<lparr>rq_identity := Some u\<rparr>) (s1\<lparr>as_counts := n\<rparr>) = (Inr a, s')"
      by (auto simp: auth_context_middleware_def Let_def error_reply_def split: if_split_asm sum.split_asm)
    with k show ?thesis by (intro exI [of _ u] exI [of _ "s1\<lparr>as_counts := n\<rparr>"]) simp
  qed
qed

lemma exception_middleware_body:
  "exception_middleware inner rq s = (Inr a, s') \<Longrightarrow> rp_content a = Body j \<Longrightarrow> inner rq s = (Inr a, s')"
  by (auto simp: exception_middleware_def error_reply_def split: prod.split_asm sum.split_asm exn.split_asm)

lemma revoke_api_key_Inr:
  "revoke_api_key now u i ks = (Inr (), ks') \<Longrightarrow> revoke_key now (subject u) i ks = (Inr True, ks')"
  by (auto simp: revoke_api_key_def get_admin_identity_Inr split: sum.split_asm prod.split_asm if_split_asm)

lemma revoke_answered:
  assumes "path_matcher m" "path_segment i" "\<forall>r \<in> set builtin. m (rt_template r) (rq_path rq) = None"
    and "rq_method rq = ''DELETE''" "rq_path rq = ''/auth/api-keys/'' @ i"
    and "api_service cfg m builtin c rq s = (a, s')" "rp_content a = Body j"
  shows "\<exists>ow. revoke_key (re_now (ca_env c)) ow i (as_keys s) = (Inr True, as_keys s')"
proof -
  let ?inner = "exception_middleware (route_handler m builtin (service_endpoint cfg c))"
  note layers = assms(6) [unfolded api_service_def app_stack_def]
  from timeout_middleware_body [OF server_errors_body [OF layers assms(7)] assms(7)] obtain b where
    b: "auth_context_middleware cfg (ca_env c) ?inner rq s = (Inr b, s')" "rp_content b = Body j" by blast
  have path: "rq_method rq \<noteq> ''OPTIONS''" "rq_path rq \<noteq> SESSION_PATH" "\<not> exempt_path (rq_path rq)"
    using assms(2,4,5) by (auto simp: SESSION_PATH_def exempt_path_def path_segment_def)
  from auth_context_body [OF b path] obtain u s1 where
    u: "as_keys s1 = as_keys s" "?inner (rq\<lparr>rq_identity := Some u\<rparr>) s1 = (Inr b, s')" by blast
  note routed = path_matcher.revoke_routed [OF assms(1,2), of builtin, folded assms(5), OF assms(3)]
  from exception_middleware_body [OF u(2) b(2)]
  have "on_keys (\<lambda>_. ok_reply 204 JNull) (revoke_api_key (re_now (ca_env c)) u i) s1 = (Inr b, s')"
    by (simp add: route_handler_def assms(4) routed with_identity_def get_request_identity_def)
  then have "revoke_api_key (re_now (ca_env c)) u i (as_keys s) = (Inr (), as_keys s')"
    by (cases "fst (revoke_api_key (re_now (ca_env c)) u i (as_keys s))")
      (auto simp: on_keys_def u(1) split: prod.split_asm)
  from revoke_api_key_Inr [OF this] show ?thesis by blast
qed

text \<open>How a key that does not authenticate is answered.\<close>

lemma bad_key_answered:
  assumes "fst (validate_key (re_hmac (ca_env c)) cfg p (as_keys s)) = Inr None"
    and "bearer_token (authorization rq) = None" "dict_get (rq_headers rq) ''x-api-key'' = Some p" "p \<noteq> []"
    and "rq_method rq \<noteq> ''OPTIONS''" "rq_path rq \<noteq> SESSION_PATH" "ca_elapsed c < rat_of_int (REQUEST_TIMEOUT cfg)"
  shows "\<exists>h. api_service cfg m builtin c rq s =
    (\<lparr>rp_status = 401, rp_content = Detail (DText ''Invalid API key''), rp_headers = h\<rparr>, s)"
proof -
  have "app_resolve_identity cfg (ca_env c) rq s = (Inl (HTTPException 401 (DText ''Invalid API key'')), s)"
    using assms(1-4) by (simp add: app_resolve_identity_def resolve_identity_def app_validate_key_def)
  with assms(5-7) show ?thesis
    by (simp add: api_service_def server_errors_def app_stack_def timeout_middleware_def
        auth_context_middleware_def error_reply_def)
qed

text \<open>C14 A revocation that was answered locks the key out for good: once the deletion of a key came
  back with its empty body, whatever requests and restarts follow, also restarts that copy a
  legacy table which still lists the key as valid, a request that presents the key is answered 401 and
  changes nothing, on every path but the exchange of a broker session, which takes no key.
\<close>

theorem revocation_locks_out:
  assumes "path_matcher m" "path_segment i" "\<forall>r \<in> set builtin. m (rt_template r) (rq_path del) = None"
    and "rq_method del = ''DELETE''" "rq_path del = ''/auth/api-keys/'' @ i"
    and "store_ok (as_keys s)" "aks_table (as_keys s) = Some t" "row_for hmac cfg p t = Some r" "kr_id r = i"
    and "api_service cfg m builtin d del s = (answer, s1)" "rp_content answer = Body JNull"
    and "history hmac cfg m builtin s1 s2"
    and "bearer_token (authorization rq) = None" "dict_get (rq_headers rq) ''x-api-key'' = Some p" "p \<noteq> []"
    and "rq_method rq \<noteq> ''OPTIONS''" "rq_path rq \<noteq> SESSION_PATH" "ca_elapsed c < rat_of_int (REQUEST_TIMEOUT cfg)"
    and "re_hmac (ca_env c) = hmac"
  shows "\<exists>h. api_service cfg m builtin c rq s2 =
    (\<lparr>rp_status = 401, rp_content = Detail (DText ''Invalid API key''), rp_headers = h\<rparr>, s2)"
proof -
  from revoke_answered [OF assms(1-5,10,11)] obtain ow where
    "revoke_key (re_now (ca_env d)) ow i (as_keys s) = (Inr True, as_keys s1)" by blast
  from locked_revoked [OF assms(6-9) this] have
    "locked hmac cfg p (as_keys s2) \<and> aks_pool (as_keys s2)"
    by (elim conjE) (rule locked_through_history [OF assms(12)])
  then have "fst (validate_key (re_hmac (ca_env c)) cfg p (as_keys s2)) = Inr None"
    unfolding assms(19) by (elim conjE) (rule locked_refused)
  from bad_key_answered [OF this assms(13-18)] show ?thesis .
qed

section \<open>Examples\<close>

definition admin_claims :: json where
  "admin_claims = JObj [(''sub'', JStr ''bob''), (''azp'', JStr ''teehr-api''),
     (''realm_access'', JObj [(''roles'', JList [JStr ''admin''])])]"

definition admin_call :: call where
  "admin_call =
     \<lparr>ca_env = sample_env\<lparr>re_jwt := sample_lib\<lparr>jwt_decode_rs256 := (\<lambda>_ _ _. Inr admin_claims)\<rparr>\<rparr>,
      ca_elapsed = 1, ca_shown = ''1'', ca_broker = sample_broker, ca_times = (5, 5, 5), ca_nonce = ''n'',
      ca_uuid = ''id-2'', ca_secret = ''s'', ca_sid = ''sid'', ca_trace = ''trace'',
      ca_decoded = Inl unprocessable, ca_key_body = Inl unprocessable, ca_token_body = Inl unprocessable, ca_session_body = Inl unprocessable,
      ca_isoformat = (\<lambda>_. ''t''), ca_utcnow = ''now'', ca_reads = (\<lambda>_ _ _. Inl TypeError)\<rparr>"

definition revoke_request :: Request where
  "revoke_request =
     \<lparr>rq_method = ''DELETE'', rq_path = ''/auth/api-keys/id-1'', rq_headers = [(''authorization'', ''Bearer t'')],
      rq_client = None, rq_identity = None\<rparr>"

definition admin_app :: AppState where
  "admin_app = sample_app\<lparr>as_validator := init_validator\<lparr>jwks_cache := Some sample_jwks\<rparr>\<rparr>"

definition admin_cfg :: "Config \<Rightarrow> Config" where
  "admin_cfg cfg = cfg\<lparr>KEYCLOAK_ALLOWED_AUDIENCES := ''teehr-api'', API_KEY_HASH_SALT := [],
     LEGACY_API_KEYS_DB_DSN := ''d'', REQUEST_TIMEOUT := 300\<rparr>"

abbreviation row_1 :: "rat option \<Rightarrow> key_row" where
  "row_1 \<equiv> sample_row ''id-1'' ''bob'' ''thk_1''"

lemma revoke_token: "bearer_token (authorization revoke_request) = Some ''t''"
  by code_simp

lemma admin_resolved:
  "app_resolve_identity (admin_cfg cfg) (ca_env admin_call) revoke_request admin_app =
   (Inr \<lparr>subject = ''bob'', auth_type = ''jwt'', roles = [''admin''], scopes = [],
         preferred_username = None, groups = []\<rparr>, admin_app)"
  by (simp add: app_resolve_identity_def resolve_identity_def app_validate_jwt_def revoke_token
      admin_call_def admin_app_def admin_cfg_def sample_env_def validate_def validate_with_def validate_body_def sample_lib_def sample_key_def admin_claims_def
      sample_jwks_def signing_key_def get_jwks_def jwks_fresh_def at_time_def init_validator_def
      JWKS_CACHE_TTL_def find_key_def identity_of_claims_def audience_ok_def allowed_audiences_def
      strip_def rstrip_with_def lstrip_with_def is_space_def roles_of_claims_def scopes_of_def)

lemma admin_revokes:
  "api_service (admin_cfg cfg) template_match [] admin_call revoke_request admin_app =
   (\<lparr>rp_status = 204, rp_content = Body JNull, rp_headers = [(''X-Process-Time'', ''1'')]\<rparr>,
    admin_app\<lparr>as_keys := sample_store [row_1 (Some 5)]\<rparr>)"
proof -
  let ?u = "\<lparr>subject = ''bob'', auth_type = ''jwt'', roles = [''admin''], scopes = [],
      preferred_username = None, groups = []\<rparr>"
  have routed: "dispatch template_match (app_routes []) ''DELETE'' ''/auth/api-keys/id-1'' = Handle Revoke_api_key [''id-1'']"
    by code_simp
  have revoked: "revoke_key 5 ''bob'' ''id-1'' (as_keys admin_app) = (Inr True, sample_store [row_1 (Some 5)])"
    unfolding admin_app_def sample_app_def
    by (subst revoke_key_rows [of "[row_1 None]"]) (simp_all add: keys_ok_def sample_row_def sample_store_def revocable_def)
  have path: "rq_method revoke_request = ''DELETE''" "rq_path revoke_request = ''/auth/api-keys/id-1''"
    "''/auth/api-keys/id-1'' \<noteq> SESSION_PATH" "\<not> exempt_path ''/auth/api-keys/id-1''"
    by (simp_all add: revoke_request_def SESSION_PATH_def exempt_path_def)
  have call: "re_now (ca_env admin_call) = 5" "ca_elapsed admin_call = 1" "ca_shown admin_call = ''1''"
    "REQUEST_TIMEOUT (admin_cfg cfg) = 300"
    by (simp_all add: admin_call_def sample_env_def admin_cfg_def)
  have admin: "get_admin_identity ?u = Inr ?u" "is_authenticated ?u" "check cfg ?u p now k = (Inr (), k)" for cfg p now k
    by (simp_all add: get_admin_identity_Inr is_authenticated_def check_def limit_for_def)
  show ?thesis
    by (simp add: api_service_def server_errors_def app_stack_def timeout_middleware_def auth_context_middleware_def
        path call admin_resolved admin Let_def exception_middleware_def route_handler_def routed
        with_identity_def get_request_identity_def on_keys_def revoke_api_key_def revoked ok_reply_def)
qed

lemma keys_change_by_own_admin_witness:
  "\<forall>cfg. \<exists>u token. bearer_token (authorization revoke_request) = Some token \<and>
    fst (validate (admin_cfg cfg) (re_jwt (ca_env admin_call)) (re_http1 (ca_env admin_call)) (re_http2 (ca_env admin_call))
      (re_clock1 (ca_env admin_call)) (re_clock2 (ca_env admin_call)) token (as_validator admin_app)) = Inr u \<and>
    ''admin'' \<in> set (roles u)"
proof
  fix cfg
  have "as_keys (admin_app\<lparr>as_keys := sample_store [row_1 (Some 5)]\<rparr>) \<noteq> as_keys admin_app" "rq_identity revoke_request = None"
    by (simp_all add: admin_app_def sample_app_def sample_store_def sample_row_def revoke_request_def)
  from keys_change_by_own_admin [OF this(2) admin_revokes this(1), of cfg]
  show "\<exists>u token. bearer_token (authorization revoke_request) = Some token \<and>
    fst (validate (admin_cfg cfg) (re_jwt (ca_env admin_call)) (re_http1 (ca_env admin_call)) (re_http2 (ca_env admin_call))
      (re_clock1 (ca_env admin_call)) (re_clock2 (ca_env admin_call)) token (as_validator admin_app)) = Inr u \<and>
    ''admin'' \<in> set (roles u)" by blast
qed

text \<open>A restart that copies the key back from a legacy table where it is still valid.\<close>

definition restarted :: AppState where
  "restarted = \<lparr>as_validator = init_validator, as_counts = [], as_keys =
     \<lparr>aks_legacy_dsn = ''d'', aks_pool = True, aks_table = Some [row_1 (Some 5)]\<rparr>,
     as_sessions = set_delegated_session_store (store_startup \<lparr>ss_pool = False, ss_table = None\<rparr>) None\<rparr>"

lemma legacy_restart:
  "startup_event (admin_cfg cfg) (Inr (Some [row_1 None])) (Some [row_1 (Some 5)]) None = Inr restarted"
  by (simp add: startup_event_def startup_def copy_legacy_keys_def upsert_legacy_def coalesce_def restarted_def
      admin_cfg_def sample_row_def Let_def)

lemma revocation_locks_out_witness:
  "\<forall>cfg. \<exists>h. api_service (admin_cfg cfg) template_match [] admin_call sample_request restarted =
    (\<lparr>rp_status = 401, rp_content = Detail (DText ''Invalid API key''), rp_headers = h\<rparr>, restarted)"
proof
  fix cfg
  let ?s1 = "admin_app\<lparr>as_keys := sample_store [row_1 (Some 5)]\<rparr>"
  have "history sample_hmac (admin_cfg cfg) template_match [] ?s1 restarted"
    by (rule history.restart [OF history.nothing, where legacy = "Inr (Some [row_1 None])" and sessions = None])
      (simp add: legacy_restart sample_store_def)
  note locks = revocation_locks_out [OF greedy.path_matcher_axioms _ _ _ _ _ _ _ _ admin_revokes _ this,
      of "''id-1''" "[row_1 None]" "''thk_1''" "row_1 None" sample_request admin_call]
  show "\<exists>h. api_service (admin_cfg cfg) template_match [] admin_call sample_request restarted =
    (\<lparr>rp_status = 401, rp_content = Detail (DText ''Invalid API key''), rp_headers = h\<rparr>, restarted)"
    by (rule locks) (simp_all add: path_segment_def revoke_request_def admin_app_def sample_app_def sample_store_def
        store_ok_def keys_ok_def row_for_def hash_key_def sample_hmac_def sample_row_def admin_cfg_def sample_request_def
        authorization_def bearer_token_def lower_def dict_get_default_def SESSION_PATH_def admin_call_def sample_env_def)
qed

end
