(* ===== verification/Geojson.thy ===== *)
theory Geojson
  imports Locations_Route
begin

text \<open>
  The geometry of a GeoJSON response (\<open>create_ogc_geojson_response\<close> in \<open>api/src/routes/utils.py\<close>):
  the geometry column is decoded, in chunks where the frame is large, and the coordinates of
  every feature are rounded.  \<open>from_wkb\<close> is geopandas' decoding of a column, \<open>mapping\<close> how it
  renders one shape, \<open>rnd\<close> is \<open>round(c, 8)\<close>; a column assignment goes by the labels of the frame's
  index, as pandas documents it.
\<close>

section \<open>Coordinates\<close>

datatype 'n coords = Num 'n | Arr "'n coords list"

record 'n geometry =
  gm_type :: string
  gm_coordinates :: "'n coords option"

text \<open>A comprehension of \<open>n\<close> levels around \<open>round(c, 8)\<close>: anything of another depth is a \<open>TypeError\<close>.\<close>

fun round_at :: "nat \<Rightarrow> ('n \<Rightarrow> 'n) \<Rightarrow> 'n coords \<Rightarrow> exn + 'n coords" where
  "round_at 0 rnd (Num x) = Inr (Num (rnd x))"
| "round_at 0 rnd (Arr cs) = Inl TypeError"
| "round_at (Suc n) rnd (Num x) = Inl TypeError"
| "round_at (Suc n) rnd (Arr cs) = andthen (map_result (round_at n rnd) cs) (\<lambda>ds. Inr (Arr ds))"

definition rounded_depth :: "string \<Rightarrow> nat option" where
  "rounded_depth ty =
     (if ty = ''Point'' then Some 1
      else if ty \<in> {''LineString'', ''MultiPoint''} then Some 2
      else if ty \<in> {''Polygon'', ''MultiLineString''} then Some 3
      else None)"

definition truthy_coords :: "'n coords option \<Rightarrow> bool" where
  "truthy_coords c \<longleftrightarrow> c \<noteq> None \<and> c \<noteq> Some (Arr [])"

definition round_geometry :: "('n \<Rightarrow> 'n) \<Rightarrow> 'n geometry \<Rightarrow> exn + 'n geometry" where
  "round_geometry rnd g =
     (if truthy_coords (gm_coordinates g)
      then case rounded_depth (gm_type g) of
             None \<Rightarrow> Inr g
           | Some n \<Rightarrow> andthen (round_at n rnd (the (gm_coordinates g))) (\<lambda>c. Inr (g\<lparr>gm_coordinates := Some c\<rparr>))
      else Inr g)"

definition round_feature :: "('n \<Rightarrow> 'n) \<Rightarrow> 'n geometry option feature \<Rightarrow> exn + 'n geometry option feature" where
  "round_feature rnd ft =
     (case ft_geometry ft of
        None \<Rightarrow> Inr ft
      | Some g \<Rightarrow> andthen (round_geometry rnd g) (\<lambda>g'. Inr (ft\<lparr>ft_geometry := Some g'\<rparr>)))"

section \<open>Decoding\<close>

text \<open>A row of the frame: its label in the index, its other columns, its geometry's bytes.\<close>

record 'b spatial_row =
  sr_label :: nat
  sr_properties :: "(string, json) dict"
  sr_wkb :: 'b

text \<open>\<open>range(0, len(df), chunk_size)\<close> for a positive step, one slice for each of its values.\<close>

function chunks_of :: "nat \<Rightarrow> 'a list \<Rightarrow> 'a list list" where
  "chunks_of k xs = (if k = 0 \<or> xs = [] then [] else take k xs # chunks_of k (drop k xs))"
  by pat_completeness auto
termination
  by (relation "measure (\<lambda>(k, xs). List.length xs)") auto

declare chunks_of.simps [simp del]

text \<open>\<open>df[column] = series\<close>: each row takes the value its label has in the series, if it has one.\<close>

definition aligned :: "nat list \<Rightarrow> nat list \<Rightarrow> 'g list \<Rightarrow> 'g option list" where
  "aligned labels series_index series = map (map_of (zip series_index series)) labels"

text \<open>
  The chunks keep their labels until \<open>concat\<close> with \<open>ignore_index=True\<close> numbers the series from 0;
  decoded whole, the series has the labels of the frame.  A step of 0 and an empty list of
  chunks are \<open>ValueError\<close>s.
\<close>

definition decode_geometry :: "('b list \<Rightarrow> exn + 'g list) \<Rightarrow> int \<Rightarrow> nat list \<Rightarrow> 'b list \<Rightarrow> exn + 'g option list" where
  "decode_geometry from_wkb chunk_size labels wkbs =
     (if chunk_size < int (List.length wkbs)
      then if chunk_size = 0 then Inl (ValueError ''range() arg 3 must not be zero'')
           else if chunk_size < 0 then Inl (ValueError ''No objects to concatenate'')
           else andthen (map_result from_wkb (chunks_of (nat chunk_size) wkbs)) (\<lambda>parts.
                  Inr (aligned labels [0..<List.length (concat parts)] (concat parts)))
      else andthen (from_wkb wkbs) (\<lambda>gs. Inr (aligned labels labels gs)))"

definition geojson_features ::
  "('b list \<Rightarrow> exn + 'g list) \<Rightarrow> ('g \<Rightarrow> 'n geometry) \<Rightarrow> ('n \<Rightarrow> 'n) \<Rightarrow> int \<Rightarrow> 'b spatial_row list
     \<Rightarrow> exn + 'n geometry option feature list"
where
  "geojson_features from_wkb mapping rnd chunk_size rows =
     (if rows = [] then Inr []
      else andthen (decode_geometry from_wkb chunk_size (map sr_label rows) (map sr_wkb rows)) (\<lambda>gs.
           map_result (round_feature rnd)
             (map2 (\<lambda>row g. \<lparr>ft_id = Some (JStr (show_int (int (sr_label row)))), ft_properties = sr_properties row,
                             ft_geometry = map_option mapping g\<rparr>) rows gs)))"

definition geojson_of_frame ::
  "('b list \<Rightarrow> exn + 'g list) \<Rightarrow> ('g \<Rightarrow> 'n geometry) \<Rightarrow> ('n \<Rightarrow> 'n) \<Rightarrow> Config \<Rightarrow> 'b spatial_row list \<Rightarrow> string
     \<Rightarrow> int option \<Rightarrow> string option \<Rightarrow> int option \<Rightarrow> int option \<Rightarrow> exn + 'n geometry option geojson_response"
where
  "geojson_of_frame from_wkb mapping rnd cfg rows url number_matched collection_id limit offset =
     andthen (geojson_features from_wkb mapping rnd (CHUNK_SIZE cfg) rows) (\<lambda>fs.
       Inr (create_ogc_geojson_response fs url number_matched collection_id limit offset))"

section \<open>Rounding\<close>

fun depth_ok :: "nat \<Rightarrow> 'n coords \<Rightarrow> bool" where
  "depth_ok 0 (Num _) \<longleftrightarrow> True"
| "depth_ok (Suc n) (Arr cs) \<longleftrightarrow> list_all (depth_ok n) cs"
| "depth_ok _ _ \<longleftrightarrow> False"

lemma round_at_depth: "depth_ok n c \<Longrightarrow> round_at n rnd c = Inr (map_coords rnd c)"
proof (induction n rnd c rule: round_at.induct)
  case (4 n rnd cs)
  then have "map_result (round_at n rnd) cs = Inr (map (map_coords rnd) cs)"
    by (intro map_result_total) (simp add: list_all_iff)
  then show ?case by simp
qed simp_all

text \<open>
  The specification, apart from the code's own table: the nesting that GeoJSON (RFC 7946) gives
  the coordinates of each type, and the types whose geometries are to be rounded here.
\<close>

definition geojson_depth :: "string \<Rightarrow> nat option" where
  "geojson_depth =
     map_of [(''Point'', 1), (''LineString'', 2), (''MultiPoint'', 2), (''Polygon'', 3), (''MultiLineString'', 3),
             (''MultiPolygon'', 4)]"

definition geometry_ok :: "'n geometry \<Rightarrow> bool" where
  "geometry_ok g \<longleftrightarrow>
     (\<forall>c n. gm_coordinates g = Some c \<longrightarrow> geojson_depth (gm_type g) = Some n \<longrightarrow> depth_ok n c)"

definition rounded_types :: "string set" where
  "rounded_types = {''Point'', ''LineString'', ''MultiPoint'', ''Polygon'', ''MultiLineString''}"

definition rounded :: "('n \<Rightarrow> 'n) \<Rightarrow> 'n geometry \<Rightarrow> 'n geometry" where
  "rounded rnd g =
     (if gm_type g \<in> rounded_types then g\<lparr>gm_coordinates := map_option (map_coords rnd) (gm_coordinates g)\<rparr> else g)"

lemma rounded_depth_geojson:
  "rounded_depth ty = (if ty \<in> rounded_types then geojson_depth ty else None)"
  by (simp add: rounded_depth_def geojson_depth_def rounded_types_def)

lemma geojson_depth_rounded: "ty \<in> rounded_types \<Longrightarrow> \<exists>n. geojson_depth ty = Some n"
  by (auto simp: geojson_depth_def rounded_types_def)

lemma round_geometry_ok:
  assumes "geometry_ok g"
  shows "round_geometry rnd g = Inr (rounded rnd g)"
proof (cases "gm_type g \<in> rounded_types")
  case True
  then obtain n where "geojson_depth (gm_type g) = Some n" using geojson_depth_rounded by blast
  with True assms show ?thesis
    by (cases "gm_coordinates g")
      (auto simp: round_geometry_def rounded_def rounded_depth_geojson geometry_ok_def truthy_coords_def round_at_depth)
next
  case False
  then show ?thesis by (simp add: round_geometry_def rounded_def rounded_depth_geojson)
qed

text \<open>Every type but \<open>MultiPolygon\<close> and the collections is rounded, at every coordinate.\<close>

lemma rounded_coordinates:
  assumes "gm_coordinates g = Some c"
  shows "gm_type g \<in> rounded_types \<Longrightarrow>
      \<exists>c'. gm_coordinates (rounded rnd g) = Some c' \<and> set_coords c' = rnd ` set_coords c"
    and "gm_type g = ''MultiPolygon'' \<Longrightarrow> rounded rnd g = g"
  using assms by (auto simp: rounded_def rounded_types_def coords.set_map)

section \<open>Chunks\<close>

lemma map_result_append:
  "map_result f (xs @ ys) = andthen (map_result f xs) (\<lambda>a. andthen (map_result f ys) (\<lambda>b. Inr (a @ b)))"
proof (induction xs)
  case Nil
  then show ?case by (cases "map_result f ys") simp_all
next
  case (Cons x xs)
  then show ?case by (cases "f x"; cases "map_result f xs"; cases "map_result f ys") simp_all
qed

lemma map_result_chunks:
  assumes "0 < k"
  shows "andthen (map_result (map_result f) (chunks_of k xs)) (\<lambda>parts. Inr (concat parts)) = map_result f xs"
  using assms
proof (induction k xs rule: chunks_of.induct)
  case (1 k xs)
  show ?case
  proof (cases "k = 0 \<or> xs = []")
    case True
    with "1.prems" show ?thesis by (auto simp: chunks_of.simps)
  next
    case False
    have "map_result f xs = map_result f (take k xs @ drop k xs)" by simp
    also have "\<dots> = andthen (map_result f (take k xs)) (\<lambda>a. andthen (map_result f (drop k xs)) (\<lambda>b. Inr (a @ b)))"
      by (rule map_result_append)
    also have "\<dots> = andthen (map_result (map_result f) (chunks_of k xs)) (\<lambda>parts. Inr (concat parts))"
    proof -
      have c: "chunks_of k xs = take k xs # chunks_of k (drop k xs)" using False by (simp add: chunks_of.simps [of k xs])
      have "map_result f (drop k xs) =
          andthen (map_result (map_result f) (chunks_of k (drop k xs))) (\<lambda>parts. Inr (concat parts))"
        using "1.IH" [OF False] "1.prems" by simp
      then show ?thesis unfolding c
        by (cases "map_result f (take k xs)"; cases "map_result (map_result f) (chunks_of k (drop k xs))") simp_all
    qed
    finally show ?thesis ..
  qed
qed

text \<open>A column of frame labels \<open>start, start + 1, ...\<close>, as a page has that was cut at \<open>start\<close>.\<close>

lemma map_of_upt:
  "List.length gs = n \<Longrightarrow> map_of (zip [a..<a + n] gs) i = (if a \<le> i \<and> i < a + n then Some (gs ! (i - a)) else None)"
proof (induction gs arbitrary: a n)
  case (Cons g gs)
  then obtain m where n: "n = Suc m" "List.length gs = m" by auto
  have z: "zip [a..<a + n] (g # gs) = (a, g) # zip [Suc a..<Suc a + m] gs" using n by (simp add: upt_rec)
  show ?case using Cons.IH [OF n(2), of "Suc a"] n unfolding z by (auto simp: nth_Cons' Suc_diff_le)
qed simp

lemma decode_geometry_labels:
  assumes "\<And>xs. from_wkb xs = map_result dec xs" "0 < chunk_size" "map_result dec wkbs = Inr gs"
    and "n = List.length wkbs"
  shows "decode_geometry from_wkb chunk_size [start..<start + n] wkbs =
    Inr (if chunk_size < int n then map (\<lambda>i. if i < n then Some (gs ! i) else None) [start..<start + n] else map Some gs)"
proof -
  have len: "List.length gs = n" using assms(3,4) by (auto simp: map_result_Inr_iff dest: list_all2_lengthD)
  show ?thesis
  proof (cases "chunk_size < int n")
    case True
    have f: "from_wkb = map_result dec" using assms(1) by blast
    have "andthen (map_result from_wkb (chunks_of (nat chunk_size) wkbs)) (\<lambda>parts. Inr (concat parts)) = Inr gs"
      using map_result_chunks [of "nat chunk_size" dec wkbs] assms(2,3) f by simp
    then obtain parts where parts: "map_result from_wkb (chunks_of (nat chunk_size) wkbs) = Inr parts" "concat parts = gs"
      by (auto simp: andthen_Inr_iff)
    have "aligned [start..<start + n] [0..<List.length (concat parts)] (concat parts) =
        map (\<lambda>i. if i < n then Some (gs ! i) else None) [start..<start + n]"
      using map_of_upt [OF len, of 0] parts(2) len by (simp add: aligned_def)
    with True assms(2,4) parts(1) show ?thesis by (simp add: decode_geometry_def)
  next
    case False
    have "aligned [start..<start + n] [start..<start + n] gs = map Some gs"
      using map_of_upt [OF len, of start] len by (intro nth_equalityI) (simp_all add: aligned_def)
    with False assms show ?thesis by (simp add: decode_geometry_def)
  qed
qed

section \<open>The features of a page\<close>

definition row_feature :: "'b spatial_row \<Rightarrow> 'n geometry option \<Rightarrow> 'n geometry option feature" where
  "row_feature row g =
     \<lparr>ft_id = Some (JStr (show_int (int (sr_label row)))), ft_properties = sr_properties row, ft_geometry = g\<rparr>"

lemma round_row_features:
  assumes "list_all2 (\<lambda>row g. \<forall>x \<in> set_option g. geometry_ok (mapping x)) rows gs"
  shows "map_result (round_feature rnd) (map2 (\<lambda>row g. row_feature row (map_option mapping g)) rows gs) =
    Inr (map2 (\<lambda>row g. row_feature row (map_option (rounded rnd \<circ> mapping) g)) rows gs)"
  using assms
proof (induction rows gs rule: list_all2_induct)
  case (Cons row rows g gs)
  then have "round_feature rnd (row_feature row (map_option mapping g)) =
      Inr (row_feature row (map_option (rounded rnd \<circ> mapping) g))"
    by (cases g) (simp_all add: round_feature_def row_feature_def round_geometry_ok)
  with Cons.IH show ?case by (simp add: comp_def)
qed simp

lemma list_all2_right: "\<forall>g \<in> set gs. P g \<Longrightarrow> List.length gs = List.length rows \<Longrightarrow> list_all2 (\<lambda>row g. P g) rows gs"
  by (simp add: list_all2_conv_all_nth)

text \<open>C35 The features of a response, one for each row in order: each has its row's columns and its
  row's geometry, with every coordinate of points, lines and polygons, of multi-points and of
  multi-lines rounded.  Multi-polygons and collections are given as they are, though the code's
  comment excepts none.  The geometry is the row's own except on a page cut at \<open>start > 0\<close> that is larger than a chunk: its rows get the geometry of
  the row \<open>start\<close> places further, and the last ones none, since the chunks are numbered from 0
  and assigned to labels that begin at \<open>start\<close>.
\<close>

theorem features_of_page:
  assumes "\<And>xs. from_wkb xs = map_result dec xs" "0 < chunk_size" "rows \<noteq> []"
    and "map sr_label rows = [start..<start + List.length rows]"
    and "map_result dec (map sr_wkb rows) = Inr gs" "\<forall>g \<in> set gs. geometry_ok (mapping g)"
  shows "geojson_features from_wkb mapping rnd chunk_size rows =
    Inr (map2 (\<lambda>row g. row_feature row (map_option (rounded rnd \<circ> mapping) g)) rows
      (if chunk_size < int (List.length rows)
       then map (\<lambda>i. if i < List.length rows then Some (gs ! i) else None) [start..<start + List.length rows]
       else map Some gs)) \<and>
    (start = 0 \<longrightarrow> map (\<lambda>i. if i < List.length rows then Some (gs ! i) else None) [start..<start + List.length rows] = map Some gs)"
proof
  let ?n = "List.length rows"
  let ?gs = "if chunk_size < int ?n then map (\<lambda>i. if i < ?n then Some (gs ! i) else None) [start..<start + ?n] else map Some gs"
  have len: "List.length gs = ?n" using assms(5) by (auto simp: map_result_Inr_iff dest: list_all2_lengthD)
  have d: "decode_geometry from_wkb chunk_size (map sr_label rows) (map sr_wkb rows) = Inr ?gs"
    unfolding assms(4) using decode_geometry_labels [OF assms(1,2,5), of ?n start] by simp
  have "\<forall>g \<in> set ?gs. \<forall>x \<in> set_option g. geometry_ok (mapping x)"
    using assms(6) len by (auto split: if_split_asm)
  moreover have "List.length ?gs = ?n" using len by simp
  ultimately have "list_all2 (\<lambda>row g. \<forall>x \<in> set_option g. geometry_ok (mapping x)) rows ?gs"
    by (rule list_all2_right)
  from round_row_features [OF this, of rnd] show "geojson_features from_wkb mapping rnd chunk_size rows =
      Inr (map2 (\<lambda>row g. row_feature row (map_option (rounded rnd \<circ> mapping) g)) rows ?gs)"
    using assms(3) unfolding geojson_features_def d by (simp add: row_feature_def)
  show "start = 0 \<longrightarrow> map (\<lambda>i. if i < ?n then Some (gs ! i) else None) [start..<start + ?n] = map Some gs"
    using len by (auto intro: nth_equalityI)
qed

text \<open>A page of three points cut at 1, in chunks of two: whose point each feature has.\<close>

definition sample_rows :: "int spatial_row list" where
  "sample_rows = map (\<lambda>i. \<lparr>sr_label = i, sr_properties = [(''id'', JInt (int i))], sr_wkb = int i\<rparr>) [1..<4]"

definition sample_point :: "int \<Rightarrow> int geometry" where
  "sample_point x = \<lparr>gm_type = ''Point'', gm_coordinates = Some (Arr [Num x, Num 0])\<rparr>"

lemma features_of_page_witness:
  "map_sum id (map (\<lambda>ft. (dict_get (ft_properties ft) ''id'', ft_geometry ft)))
     (geojson_features (map_result Inr) sample_point id 2 sample_rows) =
   Inr [(Some (JInt 1), Some (sample_point 2)), (Some (JInt 2), Some (sample_point 3)), (Some (JInt 3), None)]"
proof -
  have labels: "map sr_label sample_rows = [1..<1 + List.length sample_rows]"
    by (simp add: sample_rows_def upt_rec)
  have decoded: "map_result Inr (map sr_wkb sample_rows) = Inr [1, 2, 3 :: int]"
    by (simp add: sample_rows_def upt_rec)
  have ok: "\<forall>g \<in> set [1, 2, 3]. geometry_ok (sample_point g)"
    by (simp add: geometry_ok_def sample_point_def geojson_depth_def numeral_eq_Suc)
  have rows: "sample_rows \<noteq> []" by (simp add: sample_rows_def)
  have "0 < (2 :: int)" by simp
  note f = features_of_page [OF refl this rows labels decoded ok, of id, THEN conjunct1]
  show ?thesis unfolding f
    by (simp add: sample_rows_def upt_rec row_feature_def rounded_def rounded_depth_def sample_point_def coords.map_id)
qed

end
