(* ===== verification/Keycloak_Async.thy ===== *)
theory Keycloak_Async
  imports Keycloak Interleaving
begin

text \<open>
  The token validator under the event loop (\<open>KeycloakJWTValidator\<close> in both \<open>auth.py\<close>): tasks that
  validate tokens at the same time share its caches and its refresh lock, and give way to each
  other at the lock and at the two HTTP calls only.  A step is what a task does between two
  such points; it reads the clock once.
\<close>

section \<open>State\<close>

datatype 'u validating =
    Quiet
  | Validate string
  | WaitRefresh string json bool
  | FetchUrl string json bool rat
  | FetchKeys string json bool string rat
  | Validated string "exn + 'u"

datatype 'u kc_event =
    KeysFetched rat rat json
  | Accepted rat string 'u

text \<open>\<open>kc_http\<close> is what the network answers now.\<close>

record 'u keycloak =
  kc_validator :: Validator
  kc_lock :: "nat option"
  kc_task :: "nat \<Rightarrow> 'u validating"
  kc_http :: http
  kc_clock :: rat
  kc_log :: "'u kc_event list"

definition kc_start :: "http \<Rightarrow> rat \<Rightarrow> 'u keycloak" where
  "kc_start http t =
     \<lparr>kc_validator = init_validator, kc_lock = None, kc_task = (\<lambda>_. Quiet), kc_http = http, kc_clock = t, kc_log = []\<rparr>"

definition kc_goto :: "nat \<Rightarrow> 'u validating \<Rightarrow> 'u keycloak \<Rightarrow> 'u keycloak" where
  "kc_goto t c s = s\<lparr>kc_task := (kc_task s)(t := c)\<rparr>"

text \<open>The \<open>except\<close> clauses around the answer; an accepted identity is logged.\<close>

definition kc_answer :: "nat \<Rightarrow> string \<Rightarrow> exn + 'u \<Rightarrow> 'u keycloak \<Rightarrow> 'u keycloak" where
  "kc_answer t token r s =
     (case r of
        Inl e \<Rightarrow> kc_goto t (Validated token (Inl (validate_error e))) s
      | Inr u \<Rightarrow> kc_goto t (Validated token (Inr u)) (s\<lparr>kc_log := Accepted (kc_clock s) token u # kc_log s\<rparr>))"

section \<open>The program of a task\<close>

record ('c, 'u) validation =
  va_config :: "'c KeycloakConfig_scheme"
  va_lib :: jwt_lib
  va_claims :: "json \<Rightarrow> exn + 'u"

text \<open>
  What follows a key set: the key with the token's id decides; without one, the first look drops
  the cache and asks again, which finds no cached set and so comes to the lock.
\<close>

definition kc_settle ::
  "('c, 'u) validation \<Rightarrow> nat \<Rightarrow> string \<Rightarrow> json \<Rightarrow> bool \<Rightarrow> json \<Rightarrow> 'u keycloak \<Rightarrow> 'u keycloak"
where
  "kc_settle va t token kid again jwks s =
     (case find_key kid jwks of
        Inl e \<Rightarrow> kc_answer t token (Inl e) s
      | Inr (Some key) \<Rightarrow>
          kc_answer t token
            (andthen (jwt_decode_rs256 (va_lib va) token key (KEYCLOAK_ISSUER_URL (va_config va))) (va_claims va)) s
      | Inr None \<Rightarrow>
          if again then kc_answer t token (Inl (HTTPException 401 (DText ''Unable to find signing key''))) s
          else kc_goto t (WaitRefresh token kid True) (s\<lparr>kc_validator := (kc_validator s)\<lparr>jwks_cache := None\<rparr>\<rparr>))"

text \<open>Under the lock with nothing cached: the address of the keys, and the request for it.\<close>

definition kc_ask :: "('c, 'u) validation \<Rightarrow> nat \<Rightarrow> string \<Rightarrow> json \<Rightarrow> bool \<Rightarrow> 'u keycloak \<Rightarrow> 'u keycloak" where
  "kc_ask va t token kid again s =
     (let now = kc_clock s; s' = s\<lparr>kc_lock := Some t\<rparr>
      in if KEYCLOAK_JWKS_URL (va_config va) \<noteq> []
         then kc_goto t (FetchKeys token kid again (KEYCLOAK_JWKS_URL (va_config va)) now) s'
         else case jwks_url_fresh (kc_validator s) now of
                Some u \<Rightarrow> kc_goto t (FetchKeys token kid again u now) s'
              | None \<Rightarrow> kc_goto t (FetchUrl token kid again now) s')"

fun kc_step :: "('c, 'u) validation \<Rightarrow> nat \<Rightarrow> 'u validating \<Rightarrow> 'u keycloak \<Rightarrow> 'u keycloak option" where
  "kc_step va t (Validate token) s =
     Some (case andthen (unverified_header (va_lib va) token) (\<lambda>h. json_get h ''kid'') of
             Inl e \<Rightarrow> kc_answer t token (Inl e) s
           | Inr kid \<Rightarrow>
               if \<not> truthy kid then kc_answer t token (Inl (HTTPException 401 (DText ''JWT missing key id''))) s
               else (case jwks_fresh (kc_validator s) (kc_clock s) of
                       Some j \<Rightarrow> kc_settle va t token kid False j s
                     | None \<Rightarrow> kc_goto t (WaitRefresh token kid False) s))"
| "kc_step va t (WaitRefresh token kid again) s =
     (if kc_lock s = None
      then Some (case jwks_fresh (kc_validator s) (kc_clock s) of
                   Some j \<Rightarrow> kc_settle va t token kid again j s
                 | None \<Rightarrow> kc_ask va t token kid again s)
      else None)"
| "kc_step va t (FetchUrl token kid again now) s =
     Some (case andthen (kc_http s (KEYCLOAK_ISSUER_URL (va_config va) @ ''/.well-known/openid-configuration'')) jwks_uri_of of
             Inl e \<Rightarrow> kc_answer t token (Inl e) (s\<lparr>kc_lock := None\<rparr>)
           | Inr u \<Rightarrow> kc_goto t (FetchKeys token kid again u now)
               (s\<lparr>kc_validator := (kc_validator s)\<lparr>jwks_url_cache := Some u, jwks_url_cache_time := now\<rparr>\<rparr>))"
| "kc_step va t (FetchKeys token kid again url now) s =
     Some (case kc_http s url of
             Inl e \<Rightarrow> kc_answer t token (Inl e) (s\<lparr>kc_lock := None\<rparr>)
           | Inr j \<Rightarrow> kc_settle va t token kid again j
               (s\<lparr>kc_validator := (kc_validator s)\<lparr>jwks_cache := Some j, jwks_cache_time := now\<rparr>, kc_lock := None,
                  kc_log := KeysFetched now (kc_clock s) j # kc_log s\<rparr>))"
| "kc_step va t c s = None"

definition kc_run :: "('c, 'u) validation \<Rightarrow> 'u keycloak program" where
  "kc_run va t s = kc_step va t (kc_task s t) s"

text \<open>A request comes in, time passes, and the network changes what it answers.\<close>

inductive kc_outside :: "'u keycloak \<Rightarrow> 'u keycloak \<Rightarrow> bool" where
  asked: "kc_task s t = Quiet \<or> (\<exists>token r. kc_task s t = Validated token r) \<Longrightarrow>
    kc_outside s (kc_goto t (Validate token) s)"
| passed: "kc_clock s \<le> c \<Longrightarrow> kc_outside s (s\<lparr>kc_clock := c\<rparr>)"
| network: "kc_outside s (s\<lparr>kc_http := h\<rparr>)"

inductive kc_at_start :: "'u keycloak \<Rightarrow> bool" where
  "kc_at_start (kc_start http t)"

abbreviation kc_reachable :: "('c, 'u) validation \<Rightarrow> 'u keycloak \<Rightarrow> bool" where
  "kc_reachable va \<equiv> reached (kc_run va) kc_outside kc_at_start"

section \<open>What a step leaves alone\<close>

lemmas kc_split = sum.splits option.splits if_splits validating.splits

lemma kc_goto_simps [simp]:
  "kc_validator (kc_goto t c s) = kc_validator s" "kc_lock (kc_goto t c s) = kc_lock s"
  "kc_clock (kc_goto t c s) = kc_clock s" "kc_log (kc_goto t c s) = kc_log s"
  "kc_http (kc_goto t c s) = kc_http s"
  "kc_task (kc_goto t c s) u = (if u = t then c else kc_task s u)"
  by (simp_all add: kc_goto_def)

lemma kc_answer_simps [simp]:
  "kc_validator (kc_answer t token r s) = kc_validator s" "kc_lock (kc_answer t token r s) = kc_lock s"
  "kc_clock (kc_answer t token r s) = kc_clock s"
  "u \<noteq> t \<Longrightarrow> kc_task (kc_answer t token r s) u = kc_task s u"
  "\<exists>r'. kc_task (kc_answer t token r s) t = Validated token r'"
  by (auto simp: kc_answer_def split: sum.split)

lemma kc_step_others: "kc_run va t s = Some s' \<Longrightarrow> u \<noteq> t \<Longrightarrow> kc_task s' u = kc_task s u"
  by (cases "kc_task s t")
    (auto simp: kc_run_def kc_settle_def kc_ask_def Let_def split: kc_split)

lemma kc_step_clock: "kc_run va t s = Some s' \<Longrightarrow> kc_clock s' = kc_clock s"
  by (cases "kc_task s t")
    (auto simp: kc_run_def kc_settle_def kc_ask_def Let_def split: kc_split)

section \<open>The refresh lock\<close>

fun fetching :: "'u validating \<Rightarrow> bool" where
  "fetching (FetchUrl _ _ _ _) \<longleftrightarrow> True"
| "fetching (FetchKeys _ _ _ _ _) \<longleftrightarrow> True"
| "fetching _ \<longleftrightarrow> False"

lemma answer_not_fetching [simp]: "\<not> fetching (kc_task (kc_answer t token r s) t)"
  by (metis kc_answer_simps(5) fetching.simps(6))

lemma settle_not_fetching:
  "\<not> fetching (kc_task (kc_settle va t token kid again j s) t)"
  "kc_lock (kc_settle va t token kid again j s) = kc_lock s"
  by (auto simp: kc_settle_def split: kc_split)

lemma kc_step_lock:
  assumes "kc_run va t s = Some s'"
  shows "kc_lock s' = kc_lock s \<and> fetching (kc_task s' t) = fetching (kc_task s t) \<or>
    kc_lock s = None \<and> kc_lock s' = Some t \<and> fetching (kc_task s' t) \<or>
    fetching (kc_task s t) \<and> kc_lock s' = None \<and> \<not> fetching (kc_task s' t)"
  using assms
  by (cases "kc_task s t")
    (auto simp: kc_run_def kc_ask_def Let_def settle_not_fetching split: kc_split)

inductive_cases kc_outsideE: "kc_outside s s'"
inductive_simps kc_at_start_iff: "kc_at_start s"

lemma kc_outside_lock:
  "kc_outside s s' \<Longrightarrow> kc_lock s' = kc_lock s \<and> fetching (kc_task s' t) = fetching (kc_task s t)"
  by (auto elim!: kc_outsideE split: if_splits)

lemma kc_start_quiet: "kc_at_start s \<Longrightarrow> kc_lock s = None \<and> kc_task s t = Quiet"
  by (auto simp: kc_at_start_iff kc_start_def)

text \<open>One fetch of keys is under way at a time.\<close>

interpretation refresh_mutex: mutex "kc_run va" kc_outside kc_at_start kc_lock
    "\<lambda>s t. fetching (kc_task s t)"
  by unfold_locales
    (simp add: kc_start_quiet, simp add: kc_outside_lock, simp add: kc_step_others, rule kc_step_lock)

lemmas one_fetches = refresh_mutex.exclusive

section \<open>Progress\<close>

fun kc_rank :: "'u validating \<Rightarrow> nat" where
  "kc_rank Quiet = 0"
| "kc_rank (Validated _ _) = 0"
| "kc_rank (FetchKeys _ _ again _ _) = (if again then 1 else 4)"
| "kc_rank (FetchUrl _ _ again _) = (if again then 2 else 5)"
| "kc_rank (WaitRefresh _ _ again) = (if again then 3 else 6)"
| "kc_rank (Validate _) = 7"

lemma answer_rank [simp]: "kc_rank (kc_task (kc_answer t token r s) t) = 0"
  by (metis kc_answer_simps(5) kc_rank.simps(2))

lemma settle_rank:
  "kc_rank (kc_task (kc_settle va t token kid True j s) t) = 0"
  "kc_rank (kc_task (kc_settle va t token kid False j s) t) \<le> 3"
  by (auto simp: kc_settle_def split: kc_split)

lemma kc_step_rank:
  assumes "kc_run va t s = Some s'"
  shows "kc_rank (kc_task s' t) < kc_rank (kc_task s t)"
proof -
  note settle = settle_rank(2) [THEN order.strict_trans1]
  show ?thesis
    using assms
    by (cases "kc_task s t")
      (auto simp: kc_run_def kc_ask_def Let_def settle_rank(1) split: kc_split intro!: settle)
qed

lemma kc_waits: "kc_run va t s = None \<Longrightarrow> kc_rank (kc_task s t) \<noteq> 0 \<Longrightarrow> kc_lock s \<noteq> None"
  by (cases "kc_task s t") (auto simp: kc_run_def split: if_splits)

lemma kc_live:
  assumes "kc_reachable va s" "kc_rank (kc_task s t) \<noteq> 0"
  shows "\<exists>u s'. kc_run va u s = Some s'"
proof (cases "kc_lock s")
  case None
  with kc_waits [OF _ assms(2)] show ?thesis by (metis not_None_eq)
next
  case (Some u)
  with refresh_mutex.held [OF assms(1)] obtain u where "fetching (kc_task s u)" by auto
  then have "\<exists>s'. kc_run va u s = Some s'" by (cases "kc_task s u") (simp_all add: kc_run_def)
  then show ?thesis by blast
qed

lemma kc_finite: "kc_reachable va s \<Longrightarrow> finite {t. kc_rank (kc_task s t) \<noteq> 0}"
proof (induction rule: reached_invariant)
  case (start s)
  then show ?case by (simp add: kc_start_quiet)
next
  case (move s t s')
  have "{u. kc_rank (kc_task s' u) \<noteq> 0} \<subseteq> insert t {u. kc_rank (kc_task s u) \<noteq> 0}"
    using kc_step_others [OF move.hyps(2)] by auto
  then show ?case using move.IH by (meson finite.insertI finite_subset)
next
  case (environment s s')
  have "\<exists>t. {u. kc_rank (kc_task s' u) \<noteq> 0} \<subseteq> insert t {u. kc_rank (kc_task s u) \<noteq> 0}"
    using environment.hyps(2)
  proof cases
    case (asked t token)
    then have "{u. kc_rank (kc_task s' u) \<noteq> 0} \<subseteq> insert t {u. kc_rank (kc_task s u) \<noteq> 0}" by auto
    then show ?thesis by blast
  qed auto
  then show ?case using environment.IH by (meson finite.insertI finite_subset)
qed

interpretation validation_drains: draining "kc_run va" "kc_reachable va" "\<lambda>s t. kc_rank (kc_task s t)"
proof unfold_locales
  fix s t s'
  assume "kc_reachable va s" "kc_run va t s = Some s'"
  then show "kc_reachable va s'" "kc_rank (kc_task s' t) < kc_rank (kc_task s t)"
    by (auto intro: reached_move kc_step_rank)
next
  fix s
  assume "kc_reachable va s"
  then show "finite {t. kc_rank (kc_task s t) \<noteq> 0}" by (rule kc_finite)
next
  fix s t s' u
  assume "kc_run va t s = Some s'" "u \<noteq> t"
  then show "kc_rank (kc_task s' u) = kc_rank (kc_task s u)" by (simp add: kc_step_others)
next
  fix s t
  assume "kc_reachable va s" "kc_rank (kc_task s t) \<noteq> 0"
  then show "\<exists>u s'. kc_run va u s = Some s'" by (rule kc_live)
qed

section \<open>Where an accepted token's key comes from\<close>

definition kid_of :: "('c, 'u) validation \<Rightarrow> string \<Rightarrow> exn + json" where
  "kid_of va token = andthen (unverified_header (va_lib va) token) (\<lambda>h. json_get h ''kid'')"

text \<open>The key set \<open>j\<close>, asked for at \<open>stamp\<close>, arrived at \<open>a\<close> and may still be used at \<open>c\<close>.\<close>

definition usable_keys :: "'u kc_event list \<Rightarrow> rat \<Rightarrow> json \<Rightarrow> bool" where
  "usable_keys es c j \<longleftrightarrow>
     (\<exists>stamp a. KeysFetched stamp a j \<in> set es \<and> stamp \<le> a \<and> a \<le> c \<and> c - a < JWKS_CACHE_TTL)"

definition accepted_with :: "('c, 'u) validation \<Rightarrow> string \<Rightarrow> json \<Rightarrow> 'u \<Rightarrow> bool" where
  "accepted_with va token j u \<longleftrightarrow>
     (\<exists>kid key claims. kid_of va token = Inr kid \<and> truthy kid \<and> find_key kid j = Inr (Some key) \<and>
        jwt_decode_rs256 (va_lib va) token key (KEYCLOAK_ISSUER_URL (va_config va)) = Inr claims \<and>
        va_claims va claims = Inr u)"

fun point_ok :: "('c, 'u) validation \<Rightarrow> rat \<Rightarrow> 'u validating \<Rightarrow> bool" where
  "point_ok va c (WaitRefresh token kid _) \<longleftrightarrow> kid_of va token = Inr kid \<and> truthy kid"
| "point_ok va c (FetchUrl token kid _ now) \<longleftrightarrow> kid_of va token = Inr kid \<and> truthy kid \<and> now \<le> c"
| "point_ok va c (FetchKeys token kid _ _ now) \<longleftrightarrow> kid_of va token = Inr kid \<and> truthy kid \<and> now \<le> c"
| "point_ok va c _ \<longleftrightarrow> True"

definition keys_ok :: "'u keycloak \<Rightarrow> bool" where
  "keys_ok s \<longleftrightarrow>
     (\<forall>j. jwks_cache (kc_validator s) = Some j \<longrightarrow>
        (\<exists>a. KeysFetched (jwks_cache_time (kc_validator s)) a j \<in> set (kc_log s) \<and>
           jwks_cache_time (kc_validator s) \<le> a \<and> a \<le> kc_clock s))"

definition log_ok :: "('c, 'u) validation \<Rightarrow> 'u keycloak \<Rightarrow> bool" where
  "log_ok va s \<longleftrightarrow>
     (\<forall>c token u. Accepted c token u \<in> set (kc_log s) \<longrightarrow>
        (\<exists>j. usable_keys (kc_log s) c j \<and> accepted_with va token j u))"

definition kc_ok :: "('c, 'u) validation \<Rightarrow> 'u keycloak \<Rightarrow> bool" where
  "kc_ok va s \<longleftrightarrow> keys_ok s \<and> log_ok va s \<and> (\<forall>t. point_ok va (kc_clock s) (kc_task s t))"

lemma usable_mono: "usable_keys es c j \<Longrightarrow> set es \<subseteq> set es' \<Longrightarrow> usable_keys es' c j"
  unfolding usable_keys_def by blast

lemma point_ok_later: "point_ok va c p \<Longrightarrow> c \<le> c' \<Longrightarrow> point_ok va c' p"
  by (cases p) auto

lemma goto_ok [intro]: "kc_ok va s \<Longrightarrow> point_ok va (kc_clock s) c \<Longrightarrow> kc_ok va (kc_goto t c s)"
  by (simp add: kc_ok_def keys_ok_def log_ok_def)

lemma unlock_ok [intro]: "kc_ok va s \<Longrightarrow> kc_ok va (s\<lparr>kc_lock := l\<rparr>)"
  by (simp add: kc_ok_def keys_ok_def log_ok_def)

lemma drop_ok [intro]: "kc_ok va s \<Longrightarrow> kc_ok va (s\<lparr>kc_validator := (kc_validator s)\<lparr>jwks_cache := None\<rparr>\<rparr>)"
  by (simp add: kc_ok_def keys_ok_def log_ok_def)

lemma url_ok [intro]:
  "kc_ok va s \<Longrightarrow> kc_ok va (s\<lparr>kc_validator := (kc_validator s)\<lparr>jwks_url_cache := u, jwks_url_cache_time := n\<rparr>\<rparr>)"
  by (simp add: kc_ok_def keys_ok_def log_ok_def)

lemma fetched_ok:
  assumes "kc_ok va s" "now \<le> kc_clock s"
  shows "kc_ok va (s\<lparr>kc_validator := (kc_validator s)\<lparr>jwks_cache := Some j, jwks_cache_time := now\<rparr>, kc_lock := None,
    kc_log := KeysFetched now (kc_clock s) j # kc_log s\<rparr>)"
proof -
  have "log_ok va s" using assms(1) by (simp add: kc_ok_def)
  then have "\<exists>i. usable_keys (KeysFetched now (kc_clock s) j # kc_log s) c i \<and> accepted_with va token i u"
    if "Accepted c token u \<in> set (kc_log s)" for c token u
    using that usable_mono [OF _ set_subset_Cons] unfolding log_ok_def by blast
  then show ?thesis using assms by (simp add: kc_ok_def keys_ok_def log_ok_def) blast
qed

lemma answer_ok:
  assumes ok: "kc_ok va s" and r: "\<And>u. r = Inr u \<Longrightarrow> \<exists>j. usable_keys (kc_log s) (kc_clock s) j \<and> accepted_with va token j u"
  shows "kc_ok va (kc_answer t token r s)"
proof (cases r)
  case (Inl e)
  with ok show ?thesis by (auto simp: kc_answer_def)
next
  case (Inr u)
  let ?es = "Accepted (kc_clock s) token u # kc_log s"
  have "log_ok va (s\<lparr>kc_log := ?es\<rparr>)"
    unfolding log_ok_def
  proof (intro allI impI)
    fix c tk v
    assume "Accepted c tk v \<in> set (kc_log (s\<lparr>kc_log := ?es\<rparr>))"
    then have "Accepted c tk v = Accepted (kc_clock s) token u \<or> Accepted c tk v \<in> set (kc_log s)" by simp
    then have "\<exists>j. usable_keys (kc_log s) c j \<and> accepted_with va tk j v"
      using r [OF Inr] ok unfolding kc_ok_def log_ok_def by auto
    then show "\<exists>j. usable_keys (kc_log (s\<lparr>kc_log := ?es\<rparr>)) c j \<and> accepted_with va tk j v"
      using usable_mono [OF _ set_subset_Cons] by fastforce
  qed
  moreover have "keys_ok (s\<lparr>kc_log := ?es\<rparr>)" using ok unfolding kc_ok_def keys_ok_def by auto
  ultimately have "kc_ok va (s\<lparr>kc_log := ?es\<rparr>)" using ok by (simp add: kc_ok_def)
  then show ?thesis using Inr by (auto simp: kc_answer_def)
qed

lemma settle_ok:
  assumes ok: "kc_ok va s" and kid: "kid_of va token = Inr kid" "truthy kid"
    and j: "usable_keys (kc_log s) (kc_clock s) j"
  shows "kc_ok va (kc_settle va t token kid again j s)"
proof -
  have "accepted_with va token j u"
    if "find_key kid j = Inr (Some key)"
      "andthen (jwt_decode_rs256 (va_lib va) token key (KEYCLOAK_ISSUER_URL (va_config va))) (va_claims va) = Inr u"
    for key u
    using that kid unfolding accepted_with_def andthen_Inr_iff by blast
  with ok kid j show ?thesis
    unfolding kc_settle_def
    by (auto split: sum.split option.split intro!: answer_ok goto_ok drop_ok)
qed

lemma fresh_usable:
  assumes "kc_ok va s" "jwks_fresh (kc_validator s) (kc_clock s) = Some j"
  shows "usable_keys (kc_log s) (kc_clock s) j"
proof -
  from assms(2) have "jwks_cache (kc_validator s) = Some j" "kc_clock s - jwks_cache_time (kc_validator s) < JWKS_CACHE_TTL"
    by (auto simp: jwks_fresh_def split: option.splits if_splits)
  with assms(1) show ?thesis unfolding kc_ok_def keys_ok_def usable_keys_def by fastforce
qed

lemma kc_step_ok:
  assumes ok: "kc_ok va s" and step: "kc_run va t s = Some s'"
  shows "kc_ok va s'"
proof -
  have at: "point_ok va (kc_clock s) (kc_task s t)" using ok by (simp add: kc_ok_def)
  note cases_ok = answer_ok settle_ok goto_ok unlock_ok fresh_usable [OF ok] ok
  show ?thesis
  proof (cases "kc_task s t")
    case (Validate token)
    with step show ?thesis
      by (auto simp: kc_run_def kid_of_def split: kc_split intro!: cases_ok)
  next
    case (WaitRefresh token kid again)
    with step at show ?thesis
      by (auto simp: kc_run_def kc_ask_def Let_def split: kc_split intro!: cases_ok)
  next
    case (FetchUrl token kid again now)
    with step at show ?thesis
      by (auto simp: kc_run_def split: kc_split intro!: cases_ok url_ok)
  next
    case (FetchKeys token kid again url now)
    have "usable_keys (KeysFetched now (kc_clock s) j # kc_log s) (kc_clock s) j" for j
      using at FetchKeys unfolding usable_keys_def JWKS_CACHE_TTL_def by fastforce
    with FetchKeys step at show ?thesis
      by (auto simp: kc_run_def split: kc_split intro!: cases_ok fetched_ok)
  qed (use step in \<open>simp_all add: kc_run_def\<close>)
qed

lemma kc_reachable_ok: "kc_reachable va s \<Longrightarrow> kc_ok va s"
proof (induction rule: reached_invariant)
  case (start s)
  then show ?case by (auto simp: kc_at_start_iff kc_start_def kc_ok_def keys_ok_def log_ok_def init_validator_def)
next
  case (move s t s')
  from kc_step_ok [OF move.IH move.hyps(2)] show ?case .
next
  case (environment s s')
  from environment.hyps(2) show ?case
  proof cases
    case (passed c)
    have "keys_ok s'" using environment.IH passed unfolding kc_ok_def keys_ok_def by fastforce
    then show ?thesis using environment.IH passed by (auto simp: kc_ok_def log_ok_def intro: point_ok_later)
  qed (use environment.IH in \<open>auto simp: kc_ok_def keys_ok_def log_ok_def\<close>)
qed

text \<open>C11 Whatever tasks validate tokens at once and whatever the network answers them, a token is
  accepted only on a key of its own id out of a key set that the authentication provider was
  asked for and sent less than 300 seconds before: the cache shared by the tasks, dropped by any
  of them that misses its key, never lends a key to a task beyond its lifetime.
\<close>

theorem accepted_keys_recent:
  assumes "kc_reachable va s" "Accepted c token u \<in> set (kc_log s)"
  shows "\<exists>kid j key claims stamp a.
    KeysFetched stamp a j \<in> set (kc_log s) \<and> stamp \<le> a \<and> a \<le> c \<and> c - a < 300 \<and>
    kid_of va token = Inr kid \<and> truthy kid \<and> find_key kid j = Inr (Some key) \<and>
    jwt_decode_rs256 (va_lib va) token key (KEYCLOAK_ISSUER_URL (va_config va)) = Inr claims \<and>
    va_claims va claims = Inr u"
  using kc_reachable_ok [OF assms(1)] assms(2)
  unfolding kc_ok_def log_ok_def usable_keys_def accepted_with_def JWKS_CACHE_TTL_def by meson

definition validated :: "'u keycloak \<Rightarrow> nat \<Rightarrow> bool" where
  "validated s t \<longleftrightarrow> kc_task s t = Quiet \<or> (\<exists>token r. kc_task s t = Validated token r)"

lemma validated_rank: "validated s t \<longleftrightarrow> kc_rank (kc_task s t) = 0"
  by (cases "kc_task s t") (simp_all add: validated_def)

lemma kc_rank_bound: "kc_rank c \<le> 7"
  by (cases c) simp_all

text \<open>Validations end: tasks that wait for the refresh lock do not deadlock, and however they
  are scheduled each makes at most 7 steps; when none can move every validation has its answer.
\<close>

theorem validations_end:
  assumes "kc_reachable va s"
  shows "(\<exists>s'. (moves (kc_run va))\<^sup>*\<^sup>* s s' \<and> (\<forall>t. validated s' t)) \<and>
    (\<forall>n s'. (moves (kc_run va) ^^ n) s s' \<longrightarrow>
       n \<le> 7 * card {t. \<not> validated s t} \<and> ((\<nexists>s''. moves (kc_run va) s' s'') \<longrightarrow> (\<forall>t. validated s' t)))"
  using validation_drains.all_end [OF assms kc_rank_bound] unfolding validated_rank .

section \<open>Two tasks and one fetch\<close>

definition sample_validation :: "(unit, json) validation" where
  "sample_validation =
     \<lparr>va_config = \<lparr>KEYCLOAK_ISSUER_URL = ''https://kc'', KEYCLOAK_JWKS_URL = ''https://kc/certs'',
                    KEYCLOAK_ALLOWED_AUDIENCES = []\<rparr>,
      va_lib = sample_lib, va_claims = (\<lambda>c. json_get c ''sub'')\<rparr>"

lemma kc_then: "kc_reachable va s \<Longrightarrow> kc_outside s s' \<Longrightarrow> kc_reachable va s'"
  by (rule reached_env)

definition two_asked :: "json keycloak" where
  "two_asked = kc_goto 1 (Validate ''t2'') (kc_goto 0 (Validate ''t1'') (kc_start (\<lambda>_. Inr sample_jwks) 1000))"

lemma two_asked_reachable: "kc_reachable sample_validation two_asked"
proof -
  have "kc_reachable sample_validation (kc_start (\<lambda>_. Inr sample_jwks) 1000)"
    by (blast intro: reached.start kc_at_start.intros)
  from kc_then [OF kc_then [OF this kc_outside.asked] kc_outside.asked] show ?thesis
    unfolding two_asked_def by (simp add: kc_start_def)
qed

definition both_wait :: "json keycloak" where
  "both_wait = the (run_schedule (kc_run sample_validation) [0, 1, 0] two_asked)"

definition both_accepted :: "json keycloak" where
  "both_accepted = the (run_schedule (kc_run sample_validation) [0, 1] (both_wait\<lparr>kc_clock := 1010\<rparr>))"

lemma both_wait_reachable: "kc_reachable sample_validation both_wait \<and> kc_clock both_wait = 1000"
  unfolding both_wait_def by (rule schedule_the [OF two_asked_reachable]) code_simp

lemma both_accepted_reachable: "kc_reachable sample_validation both_accepted"
proof -
  have "kc_outside both_wait (both_wait\<lparr>kc_clock := 1010\<rparr>)"
    by (rule kc_outside.passed) (simp add: both_wait_reachable)
  from kc_then [OF _ this] both_wait_reachable
  have "kc_reachable sample_validation (both_wait\<lparr>kc_clock := 1010\<rparr>)" by blast
  then have "kc_reachable sample_validation both_accepted \<and> kc_clock both_accepted = 1010"
    unfolding both_accepted_def by (rule schedule_the) code_simp
  then show ?thesis ..
qed

lemma accepted_keys_recent_witness:
  "kc_reachable sample_validation both_accepted \<and>
   Accepted 1010 ''t2'' (JStr ''alice'') \<in> set (kc_log both_accepted) \<and>
   (\<exists>j stamp a. KeysFetched stamp a j \<in> set (kc_log both_accepted) \<and> a \<le> 1010 \<and> 1010 - a < 300)"
proof -
  have log: "Accepted 1010 ''t2'' (JStr ''alice'') \<in> set (kc_log both_accepted)"
    by code_simp
  from accepted_keys_recent [OF both_accepted_reachable log] log both_accepted_reachable
  show ?thesis by blast
qed

lemma validations_end_witness:
  "kc_reachable sample_validation two_asked \<and> \<not> validated two_asked 0 \<and> \<not> validated two_asked 1 \<and>
   (\<exists>s'. (moves (kc_run sample_validation))\<^sup>*\<^sup>* two_asked s' \<and> validated s' 0 \<and> validated s' 1)"
proof -
  have "\<not> validated two_asked 0" "\<not> validated two_asked 1"
    by (simp_all add: validated_def two_asked_def)
  with validations_end [OF two_asked_reachable] two_asked_reachable show ?thesis by blast
qed

end
