(* ===== verification/Broker_Async.thy ===== *)
theory Broker_Async
  imports Broker Interleaving
begin

text \<open>
  The broker under the event loop (\<open>api/src/broker.py\<close>): requests that create sessions and exchange
  through them run beside each other and give way at each call of the database and of the
  identity provider.  A step is one such call with what the code does up to the next; its
  operations are those of \<open>Broker\<close>.  The store's own lock is never held across such a call and
  so never waited for.  A request may be cancelled between two steps, as
  \<open>timeout_middleware\<close> does.
\<close>

section \<open>State\<close>

record exchange_call =
  xc_token :: string
  xc_user_id :: string
  xc_session_id :: string
  xc_realm :: string
  xc_ttl :: "int option"
  xc_nonce :: string
  xc_trace :: string

datatype broking =
    Rest
  | Create string session
  | CreatedSession "exn + string \<times> int"
  | VerifyToken exchange_call
  | FetchSession exchange_call json
  | CheckSession exchange_call "string \<times> session"
  | DropSession exchange_call string
  | RefreshSubject exchange_call string session
  | StoreRotation exchange_call string json json
  | ReadExpiry exchange_call json
  | Exchanged exchange_call "exn + broker_token"

datatype broker_event =
    Deposited string session
  | Admitted exchange_call string int
  | Refreshed string string json json
  | Issued exchange_call json

text \<open>\<open>'i\<close> is the state of the identity provider.\<close>

record 'i broker_world =
  bw_state :: broker_state
  bw_idp :: 'i
  bw_task :: "nat \<Rightarrow> broking"
  bw_clock :: int
  bw_uuids :: nat
  bw_log :: "broker_event list"

text \<open>\<open>bs_post\<close> is the identity provider's answer to a form, \<open>bs_uuid\<close> the UUIDs in the order they are drawn.\<close>

record 'i broker_service =
  bs_config :: Config
  bs_lib :: broker_lib
  bs_post :: "'i \<Rightarrow> string \<Rightarrow> form \<Rightarrow> (exn + http_response) \<times> 'i"
  bs_uuid :: "nat \<Rightarrow> string"

definition answering :: "'i broker_service \<Rightarrow> 'i broker_world \<Rightarrow> broker_lib" where
  "answering sv w = (bs_lib sv)\<lparr>bl_post := (\<lambda>url f. fst (bs_post sv (bw_idp w) url f))\<rparr>"

definition asked_idp :: "'i broker_service \<Rightarrow> string \<Rightarrow> 'i broker_world \<Rightarrow> 'i" where
  "asked_idp sv refresh_token w =
     snd (bs_post sv (bw_idp w) (BROKER_TOKEN_ENDPOINT (bs_config sv)) (refresh_form (bs_config sv) refresh_token))"

definition go_on :: "nat \<Rightarrow> broking \<Rightarrow> 'i broker_world \<Rightarrow> 'i broker_world" where
  "go_on t c w = w\<lparr>bw_task := (bw_task w)(t := c)\<rparr>"

definition note_event :: "broker_event \<Rightarrow> 'i broker_world \<Rightarrow> 'i broker_world" where
  "note_event e w = w\<lparr>bw_log := e # bw_log w\<rparr>"

section \<open>The program of a request\<close>

fun broker_step :: "'i broker_service \<Rightarrow> nat \<Rightarrow> broking \<Rightarrow> 'i broker_world \<Rightarrow> 'i broker_world option" where
  "broker_step sv t (Create nonce req) w =
     (let sid = bs_uuid sv (bw_uuids w); w0 = w\<lparr>bw_uuids := Suc (bw_uuids w)\<rparr>
      in Some (case create_delegated_broker_session (bs_config sv) (bs_lib sv) nonce sid (bw_clock w) req (bw_state w) of
                 (Inl e, s') \<Rightarrow> go_on t (CreatedSession (Inl e)) (w0\<lparr>bw_state := s'\<rparr>)
               | (Inr (token, expires_at), s') \<Rightarrow>
                   note_event (Deposited sid (req\<lparr>sn_expires_at := expires_at\<rparr>))
                     (go_on t (CreatedSession (Inr (token, expires_at))) (w0\<lparr>bw_state := s'\<rparr>))))"
| "broker_step sv t (VerifyToken x) w =
     Some (case session_id_of_token (bs_config sv) (bs_lib sv) (bw_clock w) (xc_token x) of
             Inl e \<Rightarrow> go_on t (Exchanged x (Inl e)) w
           | Inr sid \<Rightarrow> go_on t (FetchSession x sid) w)"
| "broker_step sv t (FetchSession x sid) w =
     Some (case lookup_session (bs_lib sv) sid (bw_state w) of
             (Inl e, s') \<Rightarrow> go_on t (Exchanged x (Inl e)) (w\<lparr>bw_state := s'\<rparr>)
           | (Inr r, s') \<Rightarrow> go_on t (CheckSession x r) (w\<lparr>bw_state := s'\<rparr>))"
| "broker_step sv t (CheckSession x r) w =
     Some (if sn_expires_at (snd r) \<le> bw_clock w then go_on t (DropSession x (fst r)) w
           else case checked_session (bw_clock w) (xc_user_id x) (xc_session_id x) (xc_realm x) r (bw_state w) of
             (Inl e, s') \<Rightarrow> go_on t (Exchanged x (Inl e)) (w\<lparr>bw_state := s'\<rparr>)
           | (Inr record, s') \<Rightarrow>
               note_event (Admitted x (fst r) (bw_clock w))
                 (go_on t (RefreshSubject x (fst r) record) (w\<lparr>bw_state := s'\<rparr>)))"
| "broker_step sv t (DropSession x sid) w =
     Some (case on_store (bw_state w) (delete_session sid) of
             (Inl e, s') \<Rightarrow> go_on t (Exchanged x (Inl e)) (w\<lparr>bw_state := s'\<rparr>)
           | (Inr _, s') \<Rightarrow>
               go_on t (Exchanged x (Inl (unauthorized ''Delegated broker session expired''))) (w\<lparr>bw_state := s'\<rparr>))"
| "broker_step sv t (RefreshSubject x sid record) w =
     (let w0 = w\<lparr>bw_idp := asked_idp sv (sn_refresh_token record) w\<rparr>
      in Some (case refresh_subject_access_token (bs_config sv) (answering sv w) (sn_refresh_token record) of
                 Inl e \<Rightarrow> go_on t (Exchanged x (Inl e)) w0
               | Inr (access_token, refreshed) \<Rightarrow>
                   note_event (Refreshed sid (sn_refresh_token record) access_token refreshed)
                     (go_on t (StoreRotation x sid access_token refreshed) w0)))"
| "broker_step sv t (StoreRotation x sid access_token refreshed) w =
     Some (case store_rotation (bs_lib sv) (xc_nonce x) sid refreshed (bw_state w) of
             (Inl e, s') \<Rightarrow> go_on t (Exchanged x (Inl e)) (w\<lparr>bw_state := s'\<rparr>)
           | (Inr _, s') \<Rightarrow> go_on t (ReadExpiry x access_token) (w\<lparr>bw_state := s'\<rparr>))"
| "broker_step sv t (ReadExpiry x access_token) w =
     (let now = bw_clock w
      in Some (case expiry_of_token (bs_lib sv) access_token (now + clamp_requested_ttl (bs_config sv) (xc_ttl x)) of
                 Inl e \<Rightarrow> go_on t (Exchanged x (Inl e)) w
               | Inr expires_at \<Rightarrow>
                   note_event (Issued x access_token)
                     (go_on t (Exchanged x (Inr
                        \<lparr>bt_access_token = access_token, bt_token_type = JStr ''Bearer'',
                         bt_expires_in_seconds = max (expires_at - now) 1,
                         bt_expires_at_epoch_seconds = expires_at, bt_trace_id = xc_trace x\<rparr>)) w)))"
| "broker_step sv t c w = None"

definition broker_run :: "'i broker_service \<Rightarrow> 'i broker_world program" where
  "broker_run sv t w = broker_step sv t (bw_task w t) w"

text \<open>Requests come in and are cancelled, time passes, the identity provider changes its mind.\<close>

inductive broker_outside :: "'i broker_world \<Rightarrow> 'i broker_world \<Rightarrow> bool" where
  creates: "bw_task w t = Rest \<Longrightarrow> broker_outside w (go_on t (Create nonce req) w)"
| exchanges: "bw_task w t = Rest \<Longrightarrow> broker_outside w (go_on t (VerifyToken x) w)"
| ends: "broker_outside w (go_on t Rest w)"
| passes: "bw_clock w \<le> c \<Longrightarrow> broker_outside w (w\<lparr>bw_clock := c\<rparr>)"
| idp_changes: "broker_outside w (w\<lparr>bw_idp := i\<rparr>)"

text \<open>
  The sessions in the database when the service starts are those deposited before; the UUIDs
  to come are new.
\<close>

definition start_broker ::
  "'i broker_service \<Rightarrow> string \<Rightarrow> (string \<times> session) list \<Rightarrow> 'i \<Rightarrow> int \<Rightarrow> 'i broker_world"
where
  "start_broker sv nonce sessions i c =
     \<lparr>bw_state = Some \<lparr>ss_pool = True, ss_table = Some (map (\<lambda>(sid, s).
          (sid, s\<lparr>sn_refresh_token := fernet_encrypt (bl_fernet (bs_lib sv)) nonce (sn_refresh_token s)\<rparr>)) sessions)\<rparr>,
      bw_idp = i, bw_task = (\<lambda>_. Rest), bw_clock = c, bw_uuids = 0,
      bw_log = map (\<lambda>(sid, s). Deposited sid s) sessions\<rparr>"

inductive broker_at_start :: "'i broker_service \<Rightarrow> 'i broker_world \<Rightarrow> bool" for sv where
  "distinct (map fst sessions) \<Longrightarrow> (\<And>n. bs_uuid sv n \<notin> fst ` set sessions) \<Longrightarrow>
   broker_at_start sv (start_broker sv nonce sessions i c)"

abbreviation broker_reachable :: "'i broker_service \<Rightarrow> 'i broker_world \<Rightarrow> bool" where
  "broker_reachable sv \<equiv> reached (broker_run sv) broker_outside (broker_at_start sv)"

section \<open>What the calls do to the rows\<close>

definition row_of :: "broker_state \<Rightarrow> string \<Rightarrow> session option" where
  "row_of s sid = (case s of None \<Rightarrow> None | Some st \<Rightarrow> dict_get (sessions_of st) sid)"

lemma row_session: "broker_sessions lib s sid = Some rec \<Longrightarrow>
  \<exists>raw. row_of s sid = Some raw \<and> fernet_decrypt (bl_fernet lib) (sn_refresh_token raw) = Inr (sn_refresh_token rec) \<and>
    rec = raw\<lparr>sn_refresh_token := sn_refresh_token rec\<rparr>"
  by (auto simp: broker_sessions_def row_of_def session_at_def split: option.split_asm sum.split_asm)

lemma lookup_row:
  assumes "lookup_session lib sid s = (Inr (i, rec), s')"
  shows "sid = JStr i \<and> (\<exists>raw. row_of s i = Some raw \<and>
    fernet_decrypt (bl_fernet lib) (sn_refresh_token raw) = Inr (sn_refresh_token rec) \<and>
    rec = raw\<lparr>sn_refresh_token := sn_refresh_token rec\<rparr>)"
  using lookup_session_found [OF assms] row_session by blast

lemma on_sessions_fails: "on_sessions st (\<lambda>t. (Inr x, f t)) = (Inl e, st') \<Longrightarrow> st' = st"
  by (auto simp: on_sessions_def split: if_split_asm option.split_asm)

lemma create_rows:
  assumes "create_delegated_broker_session cfg lib nonce sid now req s = (r, s')"
  shows "case r of
      Inl _ \<Rightarrow> row_of s' = row_of s
    | Inr (token, expires_at) \<Rightarrow> row_of s' = (row_of s)(sid \<mapsto>
        req\<lparr>sn_expires_at := expires_at, sn_refresh_token := fernet_encrypt (bl_fernet lib) nonce (sn_refresh_token req)\<rparr>)"
  using assms
  by (cases s)
    (auto simp: create_delegated_broker_session_def Let_def on_store_None on_store_Some put_session_def
      on_sessions_def upsert_session_def from_timestamp_def row_of_def sessions_of_def fun_eq_iff
      split: if_split_asm option.split_asm sum.split_asm prod.split_asm)

lemma delete_rows:
  "row_of (snd (on_store s (delete_session sid))) sid' = (if sid' = sid then None else row_of s sid') \<or>
   row_of (snd (on_store s (delete_session sid))) sid' = row_of s sid'"
  by (cases s)
    (auto simp: on_store_None on_store_Some delete_session_def on_sessions_def row_of_def sessions_of_def
      split: option.split prod.split)

lemma rotation_rows:
  "row_of (snd (store_rotation lib nonce sid refreshed s)) sid' = row_of s sid' \<or>
   sid' = sid \<and> (\<exists>x raw. refreshed = JStr x \<and> x \<noteq> [] \<and> row_of s sid = Some raw \<and>
     row_of (snd (store_rotation lib nonce sid refreshed s)) sid =
       Some (raw\<lparr>sn_refresh_token := fernet_encrypt (bl_fernet lib) nonce x\<rparr>))"
proof (cases "truthy refreshed \<and> s \<noteq> None")
  case True
  then obtain st where st: "s = Some st" by blast
  with True show ?thesis
    by (cases refreshed)
      (auto simp: store_rotation_def on_store_Some update_refresh_token_def on_sessions_def set_refresh_token_def
        row_of_def sessions_of_def split: option.split prod.split if_split)
next
  case False
  then show ?thesis by (auto simp: store_rotation_def on_store_None)
qed

section \<open>Whose refresh token is used\<close>

text \<open>
  A refresh token is a session's own if it was deposited with the session, or came back when
  the session's own token was used.
\<close>

inductive own_token :: "broker_event list \<Rightarrow> string \<Rightarrow> string \<Rightarrow> bool" for es where
  deposited: "Deposited sid s \<in> set es \<Longrightarrow> own_token es sid (sn_refresh_token s)"
| rotated: "Refreshed sid r access (JStr r') \<in> set es \<Longrightarrow> own_token es sid r \<Longrightarrow> own_token es sid r'"

lemma own_token_mono: "own_token es sid r \<Longrightarrow> set es \<subseteq> set es' \<Longrightarrow> own_token es' sid r"
  by (induction rule: own_token.induct) (blast intro: own_token.intros)+

definition made_for :: "session \<Rightarrow> exchange_call \<Rightarrow> bool" where
  "made_for s x \<longleftrightarrow> sn_user_id s = xc_user_id x \<and> sn_session_id s = xc_session_id x \<and> sn_realm s = xc_realm x"

text \<open>The session named by the call's token was deposited for this caller and had not expired when the call was let in.\<close>

definition let_in :: "'i broker_service \<Rightarrow> broker_event list \<Rightarrow> exchange_call \<Rightarrow> string \<Rightarrow> bool" where
  "let_in sv es x sid \<longleftrightarrow>
     (\<exists>now. session_id_of_token (bs_config sv) (bs_lib sv) now (xc_token x) = Inr (JStr sid)) \<and>
     (\<exists>s c. Deposited sid s \<in> set es \<and> made_for s x \<and> Admitted x sid c \<in> set es \<and> c < sn_expires_at s)"

definition sourced :: "'i broker_service \<Rightarrow> broker_event list \<Rightarrow> exchange_call \<Rightarrow> json \<Rightarrow> bool" where
  "sourced sv es x access \<longleftrightarrow>
     (\<exists>sid r new. let_in sv es x sid \<and> own_token es sid r \<and> Refreshed sid r access new \<in> set es)"

lemma let_in_mono: "let_in sv es x sid \<Longrightarrow> set es \<subseteq> set es' \<Longrightarrow> let_in sv es' x sid"
  unfolding let_in_def by blast

lemma sourced_mono: "sourced sv es x a \<Longrightarrow> set es \<subseteq> set es' \<Longrightarrow> sourced sv es' x a"
  unfolding sourced_def by (meson let_in_mono own_token_mono subsetD)

text \<open>A row, or a session read from one: it is as deposited but for its refresh token, which is its own.\<close>

definition as_deposited :: "broker_event list \<Rightarrow> string \<Rightarrow> session \<Rightarrow> bool" where
  "as_deposited es sid s \<longleftrightarrow> (\<exists>d. Deposited sid d \<in> set es \<and> s\<lparr>sn_refresh_token := sn_refresh_token d\<rparr> = d)"

definition row_ok :: "'i broker_service \<Rightarrow> broker_event list \<Rightarrow> string \<Rightarrow> session \<Rightarrow> bool" where
  "row_ok sv es sid raw \<longleftrightarrow> as_deposited es sid raw \<and>
     (\<forall>token. fernet_decrypt (bl_fernet (bs_lib sv)) (sn_refresh_token raw) = Inr token \<longrightarrow> own_token es sid token)"

fun call_ok :: "'i broker_service \<Rightarrow> broker_event list \<Rightarrow> broking \<Rightarrow> bool" where
  "call_ok sv es (FetchSession x sid) \<longleftrightarrow>
     (\<exists>now. session_id_of_token (bs_config sv) (bs_lib sv) now (xc_token x) = Inr sid)"
| "call_ok sv es (CheckSession x r) \<longleftrightarrow>
     (\<exists>now. session_id_of_token (bs_config sv) (bs_lib sv) now (xc_token x) = Inr (JStr (fst r))) \<and>
     as_deposited es (fst r) (snd r) \<and> own_token es (fst r) (sn_refresh_token (snd r))"
| "call_ok sv es (RefreshSubject x sid record) \<longleftrightarrow> let_in sv es x sid \<and> own_token es sid (sn_refresh_token record)"
| "call_ok sv es (StoreRotation x sid access new) \<longleftrightarrow>
     let_in sv es x sid \<and> (\<exists>r. own_token es sid r \<and> Refreshed sid r access new \<in> set es)"
| "call_ok sv es (ReadExpiry x access) \<longleftrightarrow> sourced sv es x access"
| "call_ok sv es _ \<longleftrightarrow> True"

definition broker_inv :: "'i broker_service \<Rightarrow> 'i broker_world \<Rightarrow> bool" where
  "broker_inv sv w \<longleftrightarrow>
     (\<forall>sid raw. row_of (bw_state w) sid = Some raw \<longrightarrow> row_ok sv (bw_log w) sid raw) \<and>
     (\<forall>t. call_ok sv (bw_log w) (bw_task w t)) \<and>
     (\<forall>x access. Issued x access \<in> set (bw_log w) \<longrightarrow> sourced sv (bw_log w) x access)"

definition deposits_distinct :: "'i broker_service \<Rightarrow> 'i broker_world \<Rightarrow> bool" where
  "deposits_distinct sv w \<longleftrightarrow>
     (\<forall>sid s s'. Deposited sid s \<in> set (bw_log w) \<longrightarrow> Deposited sid s' \<in> set (bw_log w) \<longrightarrow> s' = s) \<and>
     (\<forall>n s. bw_uuids w \<le> n \<longrightarrow> Deposited (bs_uuid sv n) s \<notin> set (bw_log w))"

lemma as_deposited_mono: "as_deposited es sid s \<Longrightarrow> set es \<subseteq> set es' \<Longrightarrow> as_deposited es' sid s"
  unfolding as_deposited_def by blast

lemma row_ok_mono: "row_ok sv es sid raw \<Longrightarrow> set es \<subseteq> set es' \<Longrightarrow> row_ok sv es' sid raw"
  unfolding row_ok_def using as_deposited_mono own_token_mono by blast

lemma call_ok_mono: "call_ok sv es c \<Longrightarrow> set es \<subseteq> set es' \<Longrightarrow> call_ok sv es' c"
  by (cases c) (auto intro: as_deposited_mono own_token_mono let_in_mono sourced_mono)

text \<open>How a step keeps the invariant: through its new rows, its own point and its event.\<close>

lemma broker_invI:
  assumes "broker_inv sv w" "set (bw_log w) \<subseteq> set es"
    and "\<And>sid raw. row_of s' sid = Some raw \<Longrightarrow> row_of (bw_state w) sid = Some raw \<or> row_ok sv es sid raw"
    and "call_ok sv es c"
    and "\<And>x access. Issued x access \<in> set es \<Longrightarrow> Issued x access \<in> set (bw_log w) \<or> sourced sv es x access"
    and "bw_state w' = s'" "bw_task w' = (bw_task w)(t := c)" "bw_log w' = es"
  shows "broker_inv sv w'"
proof -
  have "row_ok sv es sid raw" if "row_of s' sid = Some raw" for sid raw
    using assms(1) assms(3) [OF that] row_ok_mono [OF _ assms(2)] unfolding broker_inv_def by blast
  moreover have "call_ok sv es (bw_task w' u)" for u
  proof -
    have "call_ok sv es (bw_task w u)" using assms(1) call_ok_mono [OF _ assms(2)] unfolding broker_inv_def by blast
    then show ?thesis using assms(4,7) by simp
  qed
  moreover have "sourced sv es x access" if "Issued x access \<in> set es" for x access
    using assms(1) assms(5) [OF that] sourced_mono [OF _ assms(2)] unfolding broker_inv_def by blast
  ultimately show ?thesis using assms(6,8) unfolding broker_inv_def by simp
qed

lemma go_on_simps [simp]:
  "bw_state (go_on t c w) = bw_state w" "bw_log (go_on t c w) = bw_log w" "bw_clock (go_on t c w) = bw_clock w"
  "bw_uuids (go_on t c w) = bw_uuids w" "bw_task (go_on t c w) = (bw_task w)(t := c)" "bw_idp (go_on t c w) = bw_idp w"
  by (simp_all add: go_on_def)

lemma note_simps [simp]:
  "bw_state (note_event e w) = bw_state w" "bw_log (note_event e w) = e # bw_log w" "bw_clock (note_event e w) = bw_clock w"
  "bw_uuids (note_event e w) = bw_uuids w" "bw_task (note_event e w) = bw_task w" "bw_idp (note_event e w) = bw_idp w"
  by (simp_all add: note_event_def)

lemma quiet_inv:
  assumes "broker_inv sv w" "call_ok sv (bw_log w) c"
    and "\<And>sid raw. row_of s' sid = Some raw \<Longrightarrow> row_of (bw_state w) sid = Some raw \<or> row_ok sv (bw_log w) sid raw"
    and "bw_state w' = s'" "bw_task w' = (bw_task w)(t := c)" "bw_log w' = bw_log w"
  shows "broker_inv sv w'"
  by (rule broker_invI [OF assms(1) subset_refl assms(3) assms(2) _ assms(4,5,6)]) simp_all

lemma deposit_inv:
  assumes "broker_inv sv w" "fernet_ok (bl_fernet (bs_lib sv))"
    and "create_delegated_broker_session (bs_config sv) (bs_lib sv) nonce sid now req (bw_state w) = (Inr (token, c), s')"
    and "bw_state w' = s'" "bw_task w' = (bw_task w)(t := CreatedSession r)"
    and "bw_log w' = Deposited sid (req\<lparr>sn_expires_at := c\<rparr>) # bw_log w"
  shows "broker_inv sv w'"
proof (rule broker_invI [OF assms(1) _ _ _ _ assms(4,5,6)])
  let ?d = "req\<lparr>sn_expires_at := c\<rparr>" and ?es = "Deposited sid (req\<lparr>sn_expires_at := c\<rparr>) # bw_log w"
  have "own_token ?es sid (sn_refresh_token ?d)" by (rule own_token.deposited) simp
  then have "row_ok sv ?es sid (?d\<lparr>sn_refresh_token := fernet_encrypt (bl_fernet (bs_lib sv)) nonce (sn_refresh_token ?d)\<rparr>)"
    using assms(2) unfolding row_ok_def as_deposited_def fernet_ok_def by auto
  then show "row_of (bw_state w) i = Some raw \<or> row_ok sv ?es i raw" if "row_of s' i = Some raw" for i raw
    using that create_rows [OF assms(3)] by (auto split: if_split_asm)
qed auto

lemma rotation_inv:
  assumes inv: "broker_inv sv w" and fl: "fernet_ok (bl_fernet (bs_lib sv))"
    and own: "own_token (bw_log w) sid r" "Refreshed sid r access new \<in> set (bw_log w)"
    and s': "s' = snd (store_rotation (bs_lib sv) nonce sid new (bw_state w))"
    and row: "row_of s' i = Some raw"
  shows "row_of (bw_state w) i = Some raw \<or> row_ok sv (bw_log w) i raw"
proof -
  from rotation_rows [of "bs_lib sv" nonce sid new "bw_state w" i] s' row
  consider "row_of (bw_state w) i = Some raw" | x old where "i = sid" "new = JStr x" "row_of (bw_state w) sid = Some old"
    "raw = old\<lparr>sn_refresh_token := fernet_encrypt (bl_fernet (bs_lib sv)) nonce x\<rparr>"
    by auto
  then show ?thesis
  proof cases
    case 2
    have "own_token (bw_log w) sid x" using own_token.rotated own 2(2) by blast
    moreover have "as_deposited (bw_log w) sid old" using inv 2(3) unfolding broker_inv_def row_ok_def by blast
    ultimately show ?thesis using 2(1,4) fl unfolding row_ok_def as_deposited_def fernet_ok_def by auto
  qed simp
qed

lemma admit_inv:
  assumes inv: "broker_inv sv w" and at: "call_ok sv (bw_log w) (CheckSession x r)"
    and chk: "checked_session (bw_clock w) (xc_user_id x) (xc_session_id x) (xc_realm x) r (bw_state w) = (Inr rec, s')"
    and w': "bw_state w' = s'" "bw_task w' = (bw_task w)(t := RefreshSubject x (fst r) rec)"
      "bw_log w' = Admitted x (fst r) (bw_clock w) # bw_log w"
  shows "broker_inv sv w'"
proof -
  let ?es = "Admitted x (fst r) (bw_clock w) # bw_log w"
  note c = checked_session_Inr [of "bw_clock w" "xc_user_id x" "xc_session_id x" "xc_realm x" "fst r" "snd r", simplified, OF chk]
  from at obtain now d where d: "session_id_of_token (bs_config sv) (bs_lib sv) now (xc_token x) = Inr (JStr (fst r))"
    "Deposited (fst r) d \<in> set (bw_log w)" "(snd r)\<lparr>sn_refresh_token := sn_refresh_token d\<rparr> = d"
    by (auto simp: as_deposited_def)
  have "sn_user_id d = sn_user_id (snd r)" "sn_session_id d = sn_session_id (snd r)" "sn_realm d = sn_realm (snd r)"
    "sn_expires_at d = sn_expires_at (snd r)"
    by (subst d(3) [symmetric], simp)+
  with c have "made_for d x" "bw_clock w < sn_expires_at d" by (auto simp: made_for_def)
  with d have "let_in sv ?es x (fst r)" unfolding let_in_def by auto
  moreover have "own_token ?es (fst r) (sn_refresh_token rec)"
    using at c own_token_mono [OF _ set_subset_Cons] by auto
  ultimately show ?thesis using c w'(1)
    by (intro broker_invI [OF inv _ _ _ _ refl w'(2,3)]) auto
qed

lemma refreshed_inv:
  assumes inv: "broker_inv sv w" and at: "call_ok sv (bw_log w) (RefreshSubject x sid rec)"
    and w': "bw_state w' = bw_state w" "bw_task w' = (bw_task w)(t := StoreRotation x sid access new)"
      "bw_log w' = Refreshed sid (sn_refresh_token rec) access new # bw_log w"
  shows "broker_inv sv w'"
proof (rule broker_invI [OF inv _ _ _ _ refl w'(2,3)])
  let ?es = "Refreshed sid (sn_refresh_token rec) access new # bw_log w"
  have "let_in sv ?es x sid" "own_token ?es sid (sn_refresh_token rec)"
    using at let_in_mono [OF _ set_subset_Cons] own_token_mono [OF _ set_subset_Cons] by auto
  then show "call_ok sv ?es (StoreRotation x sid access new)" by auto
qed (auto simp: w'(1))

lemma broker_step_inv:
  assumes inv: "broker_inv sv w" and fl: "fernet_ok (bl_fernet (bs_lib sv))"
    and step: "broker_run sv t w = Some w'"
  shows "broker_inv sv w'"
proof -
  have at: "call_ok sv (bw_log w) (bw_task w t)" using inv by (simp add: broker_inv_def)
  show ?thesis
  proof (cases "bw_task w t")
    case (Create nonce req)
    obtain r s' where c: "create_delegated_broker_session (bs_config sv) (bs_lib sv) nonce (bs_uuid sv (bw_uuids w))
        (bw_clock w) req (bw_state w) = (r, s')" by (rule prod.exhaust)
    show ?thesis
    proof (cases r)
      case (Inl e)
      with step Create c create_rows [OF c] show ?thesis
        by (intro quiet_inv [OF inv, of "CreatedSession r" s' w' t]) (auto simp: broker_run_def Let_def)
    next
      case (Inr p)
      with step Create c show ?thesis
        by (intro deposit_inv [OF inv fl, of nonce "bs_uuid sv (bw_uuids w)" "bw_clock w" req "fst p" "snd p" s' w' t r])
          (auto simp: broker_run_def Let_def split: prod.splits)
    qed
  next
    case (VerifyToken x)
    with step show ?thesis
      by (cases "session_id_of_token (bs_config sv) (bs_lib sv) (bw_clock w) (xc_token x)")
        (auto simp: broker_run_def intro!: quiet_inv [OF inv])
  next
    case (FetchSession x sid)
    obtain r s' where l: "lookup_session (bs_lib sv) sid (bw_state w) = (r, s')" by (rule prod.exhaust)
    have s': "s' = bw_state w" using lookup_session_state [of "bs_lib sv" sid "bw_state w"] l by simp
    show ?thesis
    proof (cases r)
      case (Inl e)
      with step FetchSession l s' show ?thesis by (auto simp: broker_run_def intro!: quiet_inv [OF inv])
    next
      case (Inr p)
      obtain i rec where p: "p = (i, rec)" by (cases p)
      from lookup_row [of "bs_lib sv" sid "bw_state w" i rec s'] l Inr p obtain raw where raw:
        "sid = JStr i" "row_of (bw_state w) i = Some raw"
        "fernet_decrypt (bl_fernet (bs_lib sv)) (sn_refresh_token raw) = Inr (sn_refresh_token rec)"
        "rec = raw\<lparr>sn_refresh_token := sn_refresh_token rec\<rparr>" by auto
      have "row_ok sv (bw_log w) i raw" using inv raw(2) unfolding broker_inv_def by blast
      then have "own_token (bw_log w) i (sn_refresh_token rec)" "as_deposited (bw_log w) i rec"
        using raw(3) by (auto simp: row_ok_def as_deposited_def) (subst raw(4), auto)
      then have "call_ok sv (bw_log w) (CheckSession x p)" using at FetchSession raw(1) p by auto
      with step FetchSession l s' Inr show ?thesis
        by (intro quiet_inv [OF inv, of "CheckSession x p" s' w' t]) (auto simp: broker_run_def)
    qed
  next
    case (CheckSession x r)
    obtain c s' where c: "checked_session (bw_clock w) (xc_user_id x) (xc_session_id x) (xc_realm x) r (bw_state w) = (c, s')"
      by (rule prod.exhaust)
    show ?thesis
    proof (cases "sn_expires_at (snd r) \<le> bw_clock w")
      case True
      with step CheckSession show ?thesis by (auto simp: broker_run_def intro!: quiet_inv [OF inv])
    next
      case False
      show ?thesis
      proof (cases c)
        case (Inl e)
        have "s' = bw_state w" using c False by (auto simp: checked_session_def split: prod.splits if_splits)
        with step CheckSession c False Inl show ?thesis by (auto simp: broker_run_def intro!: quiet_inv [OF inv])
      next
        case (Inr rec)
        with step CheckSession c False at show ?thesis
          by (intro admit_inv [OF inv, of x r rec s' w' t]) (auto simp: broker_run_def)
      qed
    qed
  next
    case (DropSession x sid)
    obtain r s' where d: "on_store (bw_state w) (delete_session sid) = (r, s')" by (rule prod.exhaust)
    have "row_of s' i = Some raw \<Longrightarrow> row_of (bw_state w) i = Some raw" for i raw
      using delete_rows [of "bw_state w" sid i] d by (auto split: if_split_asm)
    with step DropSession d show ?thesis
      by (cases r) (auto simp: broker_run_def intro!: quiet_inv [OF inv, where s' = s'])
  next
    case (RefreshSubject x sid rec)
    show ?thesis
    proof (cases "refresh_subject_access_token (bs_config sv) (answering sv w) (sn_refresh_token rec)")
      case (Inl e)
      with step RefreshSubject show ?thesis by (auto simp: broker_run_def Let_def intro!: quiet_inv [OF inv])
    next
      case (Inr p)
      with step RefreshSubject at show ?thesis
        by (intro refreshed_inv [OF inv, of x sid rec w' t "fst p" "snd p"])
          (auto simp: broker_run_def Let_def split: prod.splits)
    qed
  next
    case (StoreRotation x sid access new)
    obtain r s' where r: "store_rotation (bs_lib sv) (xc_nonce x) sid new (bw_state w) = (r, s')" by (rule prod.exhaust)
    from at StoreRotation obtain tok where tok: "let_in sv (bw_log w) x sid" "own_token (bw_log w) sid tok"
      "Refreshed sid tok access new \<in> set (bw_log w)" by auto
    have rows: "row_of s' i = Some raw \<Longrightarrow> row_of (bw_state w) i = Some raw \<or> row_ok sv (bw_log w) i raw" for i raw
      using rotation_inv [OF inv fl tok(2,3)] r by (metis snd_conv)
    have "sourced sv (bw_log w) x access" using tok unfolding sourced_def by blast
    with step StoreRotation r rows show ?thesis
      by (cases r) (auto simp: broker_run_def intro!: quiet_inv [OF inv, where s' = s'])
  next
    case (ReadExpiry x access)
    show ?thesis
    proof (cases "expiry_of_token (bs_lib sv) access (bw_clock w + clamp_requested_ttl (bs_config sv) (xc_ttl x))")
      case (Inl e)
      with step ReadExpiry show ?thesis by (auto simp: broker_run_def Let_def intro!: quiet_inv [OF inv])
    next
      case (Inr expires)
      have "sourced sv (Issued x access # bw_log w) x access"
        using at ReadExpiry sourced_mono [OF _ set_subset_Cons] by auto
      moreover obtain p where "bw_state w' = bw_state w" "bw_task w' = (bw_task w)(t := Exchanged x p)"
        "bw_log w' = Issued x access # bw_log w"
        using step ReadExpiry Inr by (auto simp: broker_run_def Let_def)
      ultimately show ?thesis
        by (intro broker_invI [OF inv _ _ _ _ refl, where es = "Issued x access # bw_log w" and t = t]) auto
    qed
  qed (use step in \<open>simp_all add: broker_run_def\<close>)
qed


lemma broker_outside_inv: "broker_outside w w' \<Longrightarrow> broker_inv sv w \<Longrightarrow> broker_inv sv w'"
  by (induction rule: broker_outside.induct) (auto intro!: quiet_inv simp: broker_inv_def)

lemma start_row:
  "row_of (bw_state (start_broker sv nonce sessions i c)) sid = Some raw \<Longrightarrow>
   \<exists>s. Deposited sid s \<in> set (bw_log (start_broker sv nonce sessions i c)) \<and>
     raw = s\<lparr>sn_refresh_token := fernet_encrypt (bl_fernet (bs_lib sv)) nonce (sn_refresh_token s)\<rparr>"
  by (auto simp: start_broker_def row_of_def sessions_of_def map_of_map dest!: map_of_SomeD)

lemma broker_start_inv:
  assumes "broker_at_start sv w" "fernet_ok (bl_fernet (bs_lib sv))"
  shows "broker_inv sv w"
  using assms(1)
proof cases
  case (1 sessions nonce i c)
  have "row_ok sv (bw_log w) sid raw" if "row_of (bw_state w) sid = Some raw" for sid raw
  proof -
    from start_row [OF that [unfolded 1(1)]] obtain s where s: "Deposited sid s \<in> set (bw_log w)"
      "raw = s\<lparr>sn_refresh_token := fernet_encrypt (bl_fernet (bs_lib sv)) nonce (sn_refresh_token s)\<rparr>" using 1(1) by blast
    then show ?thesis using assms(2) own_token.deposited [OF s(1)]
      unfolding row_ok_def as_deposited_def fernet_ok_def by auto
  qed
  then show ?thesis unfolding broker_inv_def using 1(1) by (auto simp: start_broker_def)
qed

lemma broker_reachable_inv:
  assumes "broker_reachable sv w" "fernet_ok (bl_fernet (bs_lib sv))"
  shows "broker_inv sv w"
  using assms(1)
proof (induction rule: reached_invariant)
  case (start w)
  then show ?case using broker_start_inv assms(2) by blast
next
  case (move w t w')
  from broker_step_inv [OF move.IH assms(2) move.hyps(2)] show ?case .
next
  case (environment w w')
  from broker_outside_inv [OF environment.hyps(2) environment.IH] show ?case .
qed

section \<open>One deposit for a session id\<close>

lemma broker_step_log:
  assumes "broker_run sv t w = Some w'"
  shows "bw_log w' = bw_log w \<and> bw_uuids w \<le> bw_uuids w' \<or>
    (\<exists>s. bw_log w' = Deposited (bs_uuid sv (bw_uuids w)) s # bw_log w \<and> bw_uuids w' = Suc (bw_uuids w)) \<or>
    (\<exists>e. bw_log w' = e # bw_log w \<and> (\<forall>sid s. e \<noteq> Deposited sid s) \<and> bw_uuids w' = bw_uuids w)"
  using assms
  by (cases "bw_task w t") (auto simp: broker_run_def Let_def split: sum.split_asm prod.split_asm if_split_asm)

lemma deposits_step:
  assumes "deposits_distinct sv w" "inj (bs_uuid sv)" "broker_run sv t w = Some w'"
  shows "deposits_distinct sv w'"
  using broker_step_log [OF assms(3)] assms(1)
proof (elim disjE exE conjE)
  fix s
  assume w': "bw_log w' = Deposited (bs_uuid sv (bw_uuids w)) s # bw_log w" "bw_uuids w' = Suc (bw_uuids w)"
  have "Deposited (bs_uuid sv n) s' \<notin> set (bw_log w')" if "bw_uuids w' \<le> n" for n s'
  proof -
    have "bs_uuid sv n \<noteq> bs_uuid sv (bw_uuids w)" using that w'(2) injD [OF assms(2)] by fastforce
    then show ?thesis using assms(1) that w' unfolding deposits_distinct_def by auto
  qed
  then show ?thesis using assms(1) w'(1) unfolding deposits_distinct_def by auto
qed (auto simp: deposits_distinct_def)

lemma broker_outside_log: "broker_outside w w' \<Longrightarrow> bw_log w' = bw_log w \<and> bw_uuids w' = bw_uuids w"
  by (induction rule: broker_outside.induct) auto

lemma reachable_deposits:
  assumes "broker_reachable sv w" "inj (bs_uuid sv)"
  shows "deposits_distinct sv w"
  using assms(1)
proof (induction rule: reached_invariant)
  case (start w)
  then show ?case
    by cases (auto simp: deposits_distinct_def start_broker_def dest: eq_key_imp_eq_value, force)
next
  case (move w t w')
  from deposits_step [OF move.IH assms(2) move.hyps(2)] show ?case .
next
  case (environment w w')
  from broker_outside_log [OF environment.hyps(2)] environment.IH show ?case by (simp add: deposits_distinct_def)
qed

text \<open>C5 Requests beside each other, in whatever order they reach the database and the identity
  provider and wherever they are cut off: an access token is handed to a caller only for a
  session that was deposited once, for exactly this user, session and realm, and had not
  expired when the caller was let in, and only if the identity provider gave it for a
  refresh token of that very session, the one deposited or one it sent in its place.
\<close>

theorem issued_tokens_own:
  assumes "broker_reachable sv w" "fernet_ok (bl_fernet (bs_lib sv))" "inj (bs_uuid sv)"
    and "Issued x access \<in> set (bw_log w)"
  shows "\<exists>sid s c r new.
    (\<exists>now. session_id_of_token (bs_config sv) (bs_lib sv) now (xc_token x) = Inr (JStr sid)) \<and>
    Deposited sid s \<in> set (bw_log w) \<and> (\<forall>s'. Deposited sid s' \<in> set (bw_log w) \<longrightarrow> s' = s) \<and>
    sn_user_id s = xc_user_id x \<and> sn_session_id s = xc_session_id x \<and> sn_realm s = xc_realm x \<and>
    Admitted x sid c \<in> set (bw_log w) \<and> c < sn_expires_at s \<and>
    Refreshed sid r access new \<in> set (bw_log w) \<and> own_token (bw_log w) sid r"
proof -
  from broker_reachable_inv [OF assms(1,2)] assms(4) obtain sid r new where
    l: "let_in sv (bw_log w) x sid" "own_token (bw_log w) sid r" "Refreshed sid r access new \<in> set (bw_log w)"
    unfolding broker_inv_def sourced_def by blast
  from l(1) obtain now s c where
    s: "session_id_of_token (bs_config sv) (bs_lib sv) now (xc_token x) = Inr (JStr sid)"
      "Deposited sid s \<in> set (bw_log w)" "made_for s x" "Admitted x sid c \<in> set (bw_log w)" "c < sn_expires_at s"
    unfolding let_in_def by blast
  have "\<forall>s'. Deposited sid s' \<in> set (bw_log w) \<longrightarrow> s' = s"
    using reachable_deposits [OF assms(1,3)] s(2) unfolding deposits_distinct_def by blast
  with l s show ?thesis unfolding made_for_def by blast
qed

section \<open>An exchange that nothing interrupts\<close>

lemma answering_parts:
  "bl_fernet (answering sv w) = bl_fernet (bs_lib sv)" "bl_verify (answering sv w) = bl_verify (bs_lib sv)"
  "bl_unverified (answering sv w) = bl_unverified (bs_lib sv)"
  by (simp_all add: answering_def)

lemma answering_same:
  "session_id_of_token cfg (answering sv w) = session_id_of_token cfg (bs_lib sv)"
  "lookup_session (answering sv w) = lookup_session (bs_lib sv)"
  "store_rotation (answering sv w) = store_rotation (bs_lib sv)"
  "expiry_of_token (answering sv w) = expiry_of_token (bs_lib sv)"
  unfolding session_id_of_token_def [abs_def] lookup_session_def [abs_def] store_rotation_def [abs_def]
    expiry_of_token_def [abs_def] answering_parts
  by (rule refl)+

lemma answering_moves:
  "answering sv (w\<lparr>bw_state := z\<rparr>) = answering sv w" "answering sv (go_on t q w) = answering sv w"
  "answering sv (note_event e w) = answering sv w"
  by (simp_all add: answering_def)

lemmas broker_run_simps = broker_run_def numeral_eq_Suc Let_def exchange_via_session_def
  answering_same answering_moves

text \<open>A request that nothing interrupts does in its steps what the sequential reading of the
  exchange does at once: the same answer and the same sessions in the store.
\<close>

theorem exchange_alone_is_sequential:
  assumes at: "bw_task w t = VerifyToken x"
    and seq: "exchange_via_session (bs_config sv) (answering sv w) (xc_nonce x) (xc_trace x) (bw_clock w) (bw_clock w)
      (bw_clock w) (xc_token x) (xc_user_id x) (xc_session_id x) (xc_realm x) (xc_ttl x) (bw_state w) = (r, s')"
  shows "\<exists>w'. alone (broker_run sv) t w w' \<and> (bw_task w' t = Exchanged x r \<and> bw_state w' = s')"
proof (cases "session_id_of_token (bs_config sv) (bs_lib sv) (bw_clock w) (xc_token x)")
  case (Inl e)
  show ?thesis by (rule aloneI [where n = 1]) (use at seq Inl in \<open>simp add: broker_run_simps\<close>)
next
  case sid: (Inr sid)
  obtain l s1 where l: "lookup_session (bs_lib sv) sid (bw_state w) = (l, s1)" by (rule prod.exhaust)
  show ?thesis
  proof (cases l)
    case (Inl e)
    show ?thesis by (rule aloneI [where n = 2]) (use at seq sid l Inl in \<open>simp add: broker_run_simps\<close>)
  next
    case look: (Inr p)
    obtain i rec where p: "p = (i, rec)" by (cases p)
    note l = l [unfolded look p]
    obtain c s2 where c: "checked_session (bw_clock w) (xc_user_id x) (xc_session_id x) (xc_realm x) (i, rec) s1 = (c, s2)"
      by (rule prod.exhaust)
    show ?thesis
    proof (cases "sn_expires_at rec \<le> bw_clock w")
      case True
      show ?thesis
        by (rule aloneI [where n = 4])
          (use at seq sid l True in \<open>auto simp: broker_run_simps checked_session_def split: prod.splits sum.splits\<close>)
    next
      case alive: False
      show ?thesis
      proof (cases c)
        case (Inl e)
        show ?thesis by (rule aloneI [where n = 3]) (use at seq sid l alive c Inl in \<open>simp add: broker_run_simps\<close>)
      next
        case (Inr rec')
        note c = c [unfolded Inr]
        show ?thesis
        proof (cases "refresh_subject_access_token (bs_config sv) (answering sv w) (sn_refresh_token rec')")
          case (Inl e)
          show ?thesis
            by (intro aloneI [where n = 4]) (use at seq sid l alive c Inl in \<open>simp add: broker_run_simps\<close>)
        next
          case (Inr q)
          obtain access new where q: "q = (access, new)" by (cases q)
          obtain z s3 where z: "store_rotation (bs_lib sv) (xc_nonce x) i new s2 = (z, s3)" by (rule prod.exhaust)
          show ?thesis
            by (cases z; cases "expiry_of_token (bs_lib sv) access (bw_clock w + clamp_requested_ttl (bs_config sv) (xc_ttl x))";
                intro aloneI [where n = "case z of Inl _ \<Rightarrow> 5 | Inr _ \<Rightarrow> 6"])
              (use at seq sid l alive c Inr q z in \<open>simp_all add: broker_run_simps\<close>)
        qed
      qed
    qed
  qed
qed

section \<open>Two exchanges through one session\<close>

text \<open>
  An identity provider that rotates refresh tokens and takes each once, as OAuth's rotation
  does: its state is the number of the token it takes next.
\<close>

definition one_time_post :: "nat \<Rightarrow> string \<Rightarrow> form \<Rightarrow> (exn + http_response) \<times> nat" where
  "one_time_post n url f =
     (if dict_get f ''refresh_token'' = Some (replicate n CHR ''r'')
      then (Inr \<lparr>hr_status = 200, hr_json = Inr (JObj [(''access_token'', JStr ''at''),
              (''refresh_token'', JStr (replicate (Suc n) CHR ''r''))]), hr_text = []\<rparr>, Suc n)
      else (Inr \<lparr>hr_status = 400, hr_json = Inr (JObj [(''error'', JStr ''invalid_grant'')]), hr_text = []\<rparr>, n))"

definition sample_broking :: "Config \<Rightarrow> nat broker_service" where
  "sample_broking cfg =
     \<lparr>bs_config = cfg\<lparr>BROKER_SESSION_SIGNING_SECRET := ''k''\<rparr>,
      bs_lib = sample_broker, bs_post = one_time_post, bs_uuid = (\<lambda>n. replicate (Suc n) CHR ''u'')\<rparr>"

definition sample_call :: exchange_call where
  "sample_call = \<lparr>xc_token = ''k/s1'', xc_user_id = ''alice'', xc_session_id = ''nb'', xc_realm = ''teehr'',
     xc_ttl = None, xc_nonce = ''n'', xc_trace = ''tr''\<rparr>"

text \<open>Two requests with the token of the session \<open>s1\<close>, which holds the refresh token \<open>r\<close>.\<close>

definition two_calls :: "Config \<Rightarrow> nat broker_world" where
  "two_calls cfg = go_on 1 (VerifyToken sample_call) (go_on 0 (VerifyToken sample_call)
     (start_broker (sample_broking cfg) ''n'' [(''s1'', sample_session ''r'' 200)] 1 100))"

lemma broker_then: "broker_reachable sv w \<Longrightarrow> broker_outside w w' \<Longrightarrow> broker_reachable sv w'"
  by (rule reached_env)

lemma broker_starts: "broker_at_start sv w \<Longrightarrow> broker_reachable sv w"
  by (rule reached.start)

lemma two_calls_reachable: "broker_reachable (sample_broking cfg) (two_calls cfg)"
proof -
  have "broker_at_start (sample_broking cfg)
      (start_broker (sample_broking cfg) ''n'' [(''s1'', sample_session ''r'' 200)] 1 100)"
    by (rule broker_at_start.intros) (auto simp: sample_broking_def)
  from broker_then [OF broker_then [OF broker_starts [OF this] broker_outside.exchanges] broker_outside.exchanges]
  show ?thesis unfolding two_calls_def by (simp add: start_broker_def)
qed

fun refresh_refused :: "broking \<Rightarrow> bool" where
  "refresh_refused (Exchanged _ (Inl (HTTPException c (DJson d)))) \<longleftrightarrow>
     c = 401 \<and> json_get d ''error'' = Inr (JStr ''subject_refresh_failed'')"
| "refresh_refused _ \<longleftrightarrow> False"

fun exchanged_ok :: "broking \<Rightarrow> bool" where
  "exchanged_ok (Exchanged _ (Inr _)) \<longleftrightarrow> True"
| "exchanged_ok _ \<longleftrightarrow> False"

lemmas play_simps = broker_run_def numeral_eq_Suc Let_def two_calls_def start_broker_def sample_call_def
  sample_broking_def session_id_of_token_def lookup_session_def checked_session_def store_rotation_def on_store_Some
  get_session_def on_sessions_def update_refresh_token_def set_refresh_token_def expiry_of_token_def drop_prefix_def
  sample_broker_simps answering_def asked_idp_def one_time_post_def refresh_form_def upstream_detail_def

text \<open>What the broker does not promise, under a provider that takes each refresh token once: of
  two exchanges through one session at a time the second is refused as unable to refresh,
  though its session is alive and a request after the first would be served; and a request cut
  off between the provider's answer and the update of the row leaves the session with a
  spent token, so that the next request is refused while the session has still to expire.
\<close>

theorem rotation_races:
  "(\<exists>w. broker_reachable (sample_broking cfg) w \<and>
     exchanged_ok (bw_task w 0) \<and> refresh_refused (bw_task w 1) \<and> bw_clock w = 100 \<and>
     broker_sessions sample_broker (bw_state w) ''s1'' = Some (sample_session ''rr'' 200) \<and> bw_idp w = 2) \<and>
   (\<exists>w. broker_reachable (sample_broking cfg) w \<and>
     exchanged_ok (bw_task w 0) \<and> exchanged_ok (bw_task w 1) \<and> bw_clock w = 100) \<and>
   (\<exists>w. broker_reachable (sample_broking cfg) w \<and>
     bw_task w 0 = Rest \<and> refresh_refused (bw_task w 1) \<and> bw_clock w = 100 \<and>
     broker_sessions sample_broker (bw_state w) ''s1'' = Some (sample_session ''r'' 200) \<and> bw_idp w = 2)"
proof (intro conjI)
  note start = two_calls_reachable [of cfg]
  show "\<exists>w. broker_reachable (sample_broking cfg) w \<and>
     exchanged_ok (bw_task w 0) \<and> refresh_refused (bw_task w 1) \<and> bw_clock w = 100 \<and>
     broker_sessions sample_broker (bw_state w) ''s1'' = Some (sample_session ''rr'' 200) \<and> bw_idp w = 2"
    by (rule schedule_ex [OF start, where ts = "[0, 1, 0, 1, 0, 1, 0, 1, 0, 0]"]) (simp add: play_simps)
  show "\<exists>w. broker_reachable (sample_broking cfg) w \<and>
     exchanged_ok (bw_task w 0) \<and> exchanged_ok (bw_task w 1) \<and> bw_clock w = 100"
    by (rule schedule_ex [OF start, where ts = "[0, 0, 0, 0, 0, 0, 1, 1, 1, 1, 1, 1]"]) (simp add: play_simps)
  have "\<exists>w. run_schedule (broker_run (sample_broking cfg)) [0, 0, 0, 0] (two_calls cfg) = Some w \<and>
    (\<exists>w'. run_schedule (broker_run (sample_broking cfg)) [1, 1, 1, 1] (go_on 0 Rest w) = Some w' \<and>
      (bw_task w' 0 = Rest \<and> refresh_refused (bw_task w' 1) \<and> bw_clock w' = 100 \<and>
       broker_sessions sample_broker (bw_state w') ''s1'' = Some (sample_session ''r'' 200) \<and> bw_idp w' = 2))"
    by (simp add: play_simps)
  from schedule_ex [OF start this] obtain w where w: "broker_reachable (sample_broking cfg) w"
    "\<exists>w'. run_schedule (broker_run (sample_broking cfg)) [1, 1, 1, 1] (go_on 0 Rest w) = Some w' \<and>
      (bw_task w' 0 = Rest \<and> refresh_refused (bw_task w' 1) \<and> bw_clock w' = 100 \<and>
       broker_sessions sample_broker (bw_state w') ''s1'' = Some (sample_session ''r'' 200) \<and> bw_idp w' = 2)" by blast
  from schedule_ex [OF broker_then [OF w(1) broker_outside.ends] w(2)]
  show "\<exists>w. broker_reachable (sample_broking cfg) w \<and>
     bw_task w 0 = Rest \<and> refresh_refused (bw_task w 1) \<and> bw_clock w = 100 \<and>
     broker_sessions sample_broker (bw_state w) ''s1'' = Some (sample_session ''r'' 200) \<and> bw_idp w = 2" .
qed

section \<open>Witnesses\<close>

lemma issued_tokens_own_witness:
  "\<forall>cfg. \<exists>w sid s. broker_reachable (sample_broking cfg) w \<and> Issued sample_call (JStr ''at'') \<in> set (bw_log w) \<and>
     Deposited sid s \<in> set (bw_log w) \<and> sn_user_id s = ''alice'' \<and> 100 < sn_expires_at s"
proof
  fix cfg :: Config
  have "\<exists>w. broker_reachable (sample_broking cfg) w \<and> (Issued sample_call (JStr ''at'') \<in> set (bw_log w) \<and>
      (\<forall>x sid c. Admitted x sid c \<in> set (bw_log w) \<longrightarrow> c = 100))"
    by (rule schedule_ex [OF two_calls_reachable, where ts = "[0, 0, 0, 0, 0, 0]"]) (simp add: play_simps)
  then obtain w where w: "broker_reachable (sample_broking cfg) w" "Issued sample_call (JStr ''at'') \<in> set (bw_log w)"
    "\<And>x sid c. Admitted x sid c \<in> set (bw_log w) \<Longrightarrow> c = 100" by blast
  have "inj (bs_uuid (sample_broking cfg))" by (auto simp: sample_broking_def inj_def replicate_eq_replicate)
  moreover have "fernet_ok (bl_fernet (bs_lib (sample_broking cfg)))" by (simp add: sample_broking_def)
  moreover have "xc_user_id sample_call = ''alice''" by (simp add: sample_call_def)
  ultimately show "\<exists>w sid s. broker_reachable (sample_broking cfg) w \<and> Issued sample_call (JStr ''at'') \<in> set (bw_log w) \<and>
     Deposited sid s \<in> set (bw_log w) \<and> sn_user_id s = ''alice'' \<and> 100 < sn_expires_at s"
    using issued_tokens_own [OF w(1) _ _ w(2)] w by metis
qed

lemma exchange_alone_is_sequential_witness:
  "\<forall>cfg. \<exists>w' tk. alone (broker_run (sample_broking cfg)) 0 (two_calls cfg) w' \<and>
     bw_task w' 0 = Exchanged sample_call (Inr tk) \<and> bt_access_token tk = JStr ''at''"
proof
  fix cfg :: Config
  let ?sv = "sample_broking cfg" and ?w = "two_calls cfg" and ?x = sample_call
  obtain tk s' where "exchange_via_session (bs_config ?sv) (answering ?sv ?w) (xc_nonce ?x) (xc_trace ?x) (bw_clock ?w)
      (bw_clock ?w) (bw_clock ?w) (xc_token ?x) (xc_user_id ?x) (xc_session_id ?x) (xc_realm ?x) (xc_ttl ?x)
      (bw_state ?w) = (Inr tk, s')" "bt_access_token tk = JStr ''at''"
    by (simp add: play_simps exchange_via_session_def)
  moreover have "bw_task ?w 0 = VerifyToken ?x" by (simp add: two_calls_def)
  ultimately show "\<exists>w' tk. alone (broker_run ?sv) 0 ?w w' \<and>
     bw_task w' 0 = Exchanged ?x (Inr tk) \<and> bt_access_token tk = JStr ''at''"
    using exchange_alone_is_sequential by blast
qed

end
