(* ===== verification/Spec2Isabelle.thy ===== *)
theory Spec2Isabelle
  imports X_Credentials Api_Main Record_Routes Timeseries_Routes Metrics_Route Locations_Route Ogc_Foundation X_Main
    X_Provider_Alone Icechunk_Access Profiles Openapi X_Router Api_Service Geojson Keycloak_Async Broker_Async
begin

text \<open>
  TEEHR Cloud Core serves hydrological evaluation data.  Its Python code is two web services, a
  notebook client of one of them and two small generators; this development models them and
  proves what they promise.  The two services share the Keycloak realm that issues the tokens.

  \<^bold>\<open>The parts and their theories\<close>

  Shared: \<open>Prelude\<close> (exceptions, fallible results, JSON, dictionaries, the interfaces of a keyed
  store and of a time-limited cache), \<open>Interleaving\<close> (threads and tasks that share a state, the
  interfaces of a lock and of calls that end), \<open>Routing\<close> (routers, the interface of a path
  matcher), \<open>Py_Strings\<close> (Python's string operations), \<open>Keycloak\<close> (the
  token validator, which both services carry: \<open>api/src/auth.py\<close> and \<open>xpublish-api/src/auth.py\<close>)
  and \<open>Keycloak_Async\<close> (tasks that validate at once over its caches and its lock).

  The API service, \<open>src/api/src\<close>, answers OGC API queries from a Trino warehouse:
  \<^item> \<open>Api_Config\<close> is \<open>config.py\<close>, \<open>Api_Auth\<close> is \<open>auth.py\<close> (identities, guards, row limits),
    \<open>Rate_Limit\<close> is \<open>rate_limit.py\<close>, \<open>Api_Key_Store\<close> is \<open>api_key_store.py\<close>;
  \<^item> \<open>Session_Store\<close> and \<open>Broker\<close> are \<open>delegated_session_store.py\<close> and \<open>broker.py\<close>, the exchange
    of a user's token for a token of the Polaris catalog, \<open>Broker_Async\<close> is the same with requests
    that interleave and are cut off; \<open>Auth_Routes\<close> is \<open>routes/auth.py\<close>;
  \<^item> \<open>Api_Main\<close> is \<open>main.py\<close>: the state, the two middleware functions and their stack; \<open>Openapi\<close> is its
    document, with the security it states for every route, \<open>Api_Router\<close> which endpoint a path
    reaches (\<open>routes/__init__.py\<close> and the decorators), and \<open>Api_Service\<close> one request from the
    middleware to the reply, and the histories of requests and restarts;
  \<^item> \<open>Sql_Text\<close> is \<open>database.py\<close> and \<open>routes/filtering.py\<close>, \<open>Ogc_Utils\<close> and \<open>Url_Query\<close> are
    \<open>routes/utils.py\<close>, \<open>Geojson\<close> is its decoding of geometry, \<open>Item_Query\<close> is what the item routes share;
  \<^item> \<open>Record_Routes\<close> is \<open>crosswalks.py\<close> and \<open>reference_data.py\<close>, and \<open>Timeseries_Routes\<close>,
    \<open>Queryables\<close>, \<open>Metrics_Route\<close>, \<open>Locations_Route\<close>, \<open>Ogc_Foundation\<close> are the routes of those names.

  The xpublish service, \<open>src/xpublish-api/src\<close>, serves gridded data from Icechunk repos:
  \<^item> \<open>X_Authz\<close> is \<open>authz.py\<close>, \<open>X_Auth\<close> is \<open>config.py\<close> and the rest of \<open>auth.py\<close>, \<open>X_Credentials\<close> is
    \<open>credentials.py\<close>, \<open>X_Storage\<close> is \<open>storage.py\<close> and \<open>pmtiles.py\<close>;
  \<^item> \<open>X_Dataset\<close> and \<open>X_Provider\<close> are \<open>provider.py\<close>: what is read of a store, and the discovery of
    the repos with the cache of their trees; \<open>X_Provider_Threads\<close> is the provider under the threads
    of the server, \<open>X_Provider_Races\<close> what it promises them and what it does not, \<open>X_Provider_Alone\<close>
    its agreement with \<open>X_Provider\<close>;
  \<^item> \<open>X_Main\<close> is \<open>main.py\<close>: start-up, the gate, and every route of its own; \<open>X_Router\<close> is its two
    routers and the mount.

  \<open>Icechunk_Access\<close> is the notebook client, \<open>jupyterhub-docker/icechunk_access/icechunk_access.py\<close>, over the
  credential route of \<open>X_Main\<close>.  \<open>Profiles\<close> is the two generators of \<open>jupyterhub-profiles\<close>.

  \<^bold>\<open>How the code is modelled\<close>

  A function that may raise returns a sum, \<open>Inl\<close> of an exception or \<open>Inr\<close> of its value; an
  object is a record that is passed in and returned; a table is a list of rows with the
  effect of each SQL statement the code runs on it.  Where threads or tasks share a state, each
  has a program point, and a step is one access to the state (a thread) or what is done between
  two awaits (a task); a theorem about them is over every state that any schedule reaches.
  Definitions keep the names of the code;
  an \<open>x_\<close> marks the xpublish version of a name both services have.  What is not in the
  repository is an argument: the HTTP client, PyJWT and Fernet, the clock (one argument for
  each reading), the database behind \<open>execute_query\<close>, S3, STS, IAM's pattern matching, Icechunk,
  zarr, xarray and NumPy's scalars.  Strings are lists of 8-bit characters.

  \<^bold>\<open>What the theorems show\<close>

  \<^item> Who may read: the rules text decides every read (\<open>X_Authz\<close>), the credentials of a notebook
    reach inside the folders of the same repos and nothing outside the prefix, though a user with
    the default role may list the top of the warehouse, where a prefix cut short of a folder
    shows the keys of a denied repo (\<open>X_Credentials\<close>), the gate runs a
    handler only for a verified user who is permitted, and the tree a route then reads is opened
    from the storage of a repo that user may read (\<open>X_Main\<close>), whichever route the routers choose
    (\<open>X_Router\<close>), up to the notebook that opens it, which refuses before it touches the storage
    (\<open>Icechunk_Access\<close>).
  \<^item> Who is asking: only tokens verified with a key that the provider's own key address answered
    (\<open>Keycloak\<close>, \<open>Api_Auth\<close>) and keys that are not revoked (\<open>Api_Key_Store\<close>) are accepted, no endpoint but the public ones runs for an anonymous caller (\<open>Api_Main\<close>,
    \<open>Api_Router\<close>), the keys only change for an administrator and only its own, and a revocation that
    was answered locks its key out whatever follows (\<open>Api_Service\<close>), a minute's requests are limited exactly, from whatever the counters held (\<open>Rate_Limit\<close>), and tasks that share the
    key cache accept a token only on keys sent within its lifetime (\<open>Keycloak_Async\<close>).
  \<^item> Delegated sessions: created ones exchange, expired, foreign and unknown ones do not, and
    an exchange changes its own session only (\<open>Broker\<close>, \<open>Session_Store\<close>, \<open>Auth_Routes\<close>); with requests
    beside each other a token still comes of the caller's own session, though one of two
    exchanges at once, or one after a request cut off, may be refused (\<open>Broker_Async\<close>).
  \<^item> Queries: the filter values of a request stay string literals under a scanner of the SQL
    text (\<open>Sql_Text\<close>), a collection's items are confined to its table and its filters
    (\<open>Metrics_Route\<close>), schemas are those of the table and cached values those of its filtered rows, given what the
    workflow that fills the table of combinations leaves there (\<open>Queryables\<close>), durations
    are read back (\<open>Timeseries_Routes\<close>), attributes are pivoted (\<open>Locations_Route\<close>), every
    collection's items come from its own route (\<open>Api_Router\<close>), which features a page of rows has
    (\<open>Geojson\<close>, with the page that is given other rows' geometries), page links
    lead on and carry every parameter of the request (\<open>Ogc_Utils\<close>, \<open>Url_Query\<close>), and no route returns more than the caller's rows.
  \<^item> Data: the provider refines a registry that lists when a listing is due and answers an id by
    rules (\<open>X_Provider\<close>): every cached tree is read from a listed repo's storage at the snapshot it
    is kept under, none is served past its lifetime without a look at the branch tip, and a failed
    listing keeps what was listed; under
    any interleaving its calls end, the bucket is listed and a dataset loaded once in a lifetime,
    and a caller gets a tree of the dataset it asked for, or is told that it is unknown by a
    listing it read, up to the races of an eviction and of the first listing
    (\<open>X_Provider_Races\<close>); the
    written slots of an N-dimensional status are the ones shown (\<open>X_Dataset\<close>), to the dashboard
    and to the notebook alike (\<open>Icechunk_Access\<close>).
  \<^item> Errors: which failures become which status, including the ones that become another than
    the code means (\<open>Api_Main\<close>, \<open>Timeseries_Routes\<close>).

  Reading order of the interfaces: \<open>keyed_store\<close> and \<open>memo_cache\<close> in \<open>Prelude\<close> (the dictionaries,
  the signing-key caches, the schema cache), \<open>sanitizer\<close> in \<open>Sql_Text\<close>, \<open>access_contract\<close> in
  \<open>X_Authz\<close> with \<open>session_policy\<close> and \<open>iam_like\<close> in \<open>X_Credentials\<close>, \<open>mutex\<close> and \<open>draining\<close> in \<open>Interleaving\<close>
  (the provider's locks, the refresh lock), \<open>path_matcher\<close> in \<open>Routing\<close>, each interpreted on the model.

  \<^bold>\<open>Bounds\<close>

  No definition of the code runs on fuel; the reader that follows the next links in \<open>Ogc_Utils\<close> does,
  and one page more than there are rows is enough, as its theorem says.  The retry loop of \<open>execute_query\<close> ends by its attempt counter and
  the scanners by the text that is left.  A call of the provider makes at most 26 steps and a
  token validation at most 7, whatever the schedule.  Numbers of the code are Python integers, so none
  wraps; times are rationals.

  \<^bold>\<open>Not modelled\<close>

  Logging, connection pools, the reading and writing of files, the xpublish, tiles and EDR
  plugins behind the gate (their routes are a parameter), how Starlette compiles a template,
  and non-ASCII text beyond its bytes.  Threads and tasks interleave where the code shares state
  between them for longer than a call of a library: the provider, the token validator and the
  broker; the operations of the other components are one step each.  A \<open>roles\<close> claim that is no list
  counts as no roles, a \<open>sub\<close> that is no string is refused where the code leaves it to PyJWT, a cell
  that may be a time is read by itself where pandas infers one format for its column, and cells that are Decimals or
  bytes do not occur.  The workflow that fills the table of combinations is outside the repository's
  Python: what it leaves in the table is a hypothesis of the theorem on cached values.  The Jupyter start-up scripts, the example notebooks and
  the deployment files hold no logic the services depend on.
\<close>

end
